(* ===== verification/Bytes.thy ===== *)
theory Bytes
  imports Prelude
begin

text \<open>
  How values lie in memory. Both architectures the crate supports (x86\_64 and
  aarch64, the two \<open>cfg(target\_arch)\<close> of \<open>redbpf/src/lib.rs\<close>) are
  little-endian, so the integer encodings are little-endian.

  The locale \<open>byte_codec\<close> is the contract between a fixed-size value and the
  raw reads and writes of the code (\<open>ptr::read_unaligned\<close>,
  \<open>ptr::write_unaligned\<close>): an encoding of constant length with a decoder that
  inverts it both ways. It is interpreted here for the integer types and, in the
  theories that declare them, for every C structure the code reads or writes.
\<close>

section \<open>Raw reads\<close>

text \<open>
  \<open>ptr::read_unaligned(bs.as_ptr().add(off) as *const T)\<close>. The pointer is
  not bounds checked: a read that leaves the slice is undefined behaviour.
\<close>

definition read_raw :: "(bytes \<Rightarrow> 'a) \<Rightarrow> nat \<Rightarrow> bytes \<Rightarrow> nat \<Rightarrow> ('e, 'a) outcome" where
  "read_raw dec sz bs off =
     (if off + sz \<le> length bs then Ok (dec (take sz (drop off bs))) else Undefined)"

text \<open>The loop that reads \<open>n\<close> consecutive values starting at \<open>off\<close>.\<close>

definition read_array :: "(bytes \<Rightarrow> 'a) \<Rightarrow> nat \<Rightarrow> bytes \<Rightarrow> nat \<Rightarrow> nat \<Rightarrow> ('e, 'a list) outcome" where
  "read_array dec sz bs off n = try_map (\<lambda>i. read_raw dec sz bs (off + i * sz)) [0..<n]"

lemma read_raw_eq_Ok [outcome_simps]:
  "read_raw dec sz bs off = Ok x \<longleftrightarrow> off + sz \<le> length bs \<and> x = dec (take sz (drop off bs))"
  by (auto simp: read_raw_def)

lemma read_raw_append:
  "off + sz \<le> length bs \<Longrightarrow> read_raw dec sz (bs @ cs) off = read_raw dec sz bs off"
  by (simp add: read_raw_def)

lemma read_array_0 [simp]: "read_array dec sz bs off 0 = Ok []"
  by (simp add: read_array_def)

lemma read_array_Suc:
  "read_array dec sz bs off (Suc n) =
     and_then (read_raw dec sz bs off)
       (\<lambda>x. and_then (read_array dec sz bs (off + sz) n) (\<lambda>xs. Ok (x # xs)))"
proof -
  have "[0..<Suc n] = 0 # map Suc [0..<n]"
    by (simp add: map_Suc_upt upt_conv_Cons)
  then show ?thesis
    by (simp add: read_array_def try_map_map algebra_simps comp_def del: upt_Suc)
qed

lemma read_array_length: "read_array dec sz bs off n = Ok xs \<Longrightarrow> length xs = n"
  by (simp add: read_array_def try_map_Ok_length)

section \<open>The codec contract\<close>

locale byte_codec =
  fixes enc :: "'a \<Rightarrow> bytes" and dec :: "bytes \<Rightarrow> 'a" and sz :: nat
  assumes enc_length: "length (enc x) = sz"
    and dec_enc: "dec (enc x) = x"
    and enc_dec: "length bs = sz \<Longrightarrow> enc (dec bs) = bs"
begin

text \<open>A write followed by a read at the same place, whatever lies around it.\<close>

lemma read_written: "read_raw dec sz (pre @ enc x @ post) (length pre) = Ok x"
  by (simp add: read_raw_def enc_length dec_enc)

lemma read_written_head: "read_raw dec sz (enc x @ post) 0 = Ok x"
  using read_written [of "[]" x post] by simp

lemma length_concat_enc: "length (concat (map enc xs)) = length xs * sz"
  by (induction xs) (simp_all add: enc_length)

lemma length_concat_enc_map: "length (concat (map (\<lambda>x. enc (f x)) xs)) = length xs * sz"
  using length_concat_enc [of "map f xs"] by (simp add: comp_def)

lemma read_array_written:
  "read_array dec sz (pre @ concat (map enc xs) @ post) (length pre) (length xs) = Ok xs"
proof (induction xs arbitrary: pre)
  case Nil
  then show ?case by simp
next
  case (Cons x xs)
  show ?case
    using Cons.IH [of "pre @ enc x"]
    by (simp add: read_array_Suc enc_length read_written)
qed

text \<open>What was read re-encodes to the bytes it was read from.\<close>

lemma read_raw_bytes:
  "read_raw dec sz bs off = Ok x \<Longrightarrow> enc x = take sz (drop off bs)"
  by (auto simp: outcome_simps enc_dec)

lemma read_array_bytes:
  "(read_array dec sz bs off n :: ('e, 'a list) outcome) = Ok xs \<Longrightarrow>
   concat (map enc xs) = take (n * sz) (drop off bs) \<and> (n = 0 \<or> off + n * sz \<le> length bs)"
proof (induction n arbitrary: off xs)
  case 0
  then show ?case by simp
next
  case (Suc n)
  from Suc.prems obtain x xs' where off: "off + sz \<le> length bs"
    and x: "x = dec (take sz (drop off bs))"
    and rest: "(read_array dec sz bs (off + sz) n :: ('e, 'a list) outcome) = Ok xs'"
    and xs: "xs = x # xs'"
    unfolding read_array_Suc and_then_eq_Ok read_raw_eq_Ok by blast
  have "enc x = take sz (drop off bs)" using off x by (simp add: enc_dec)
  moreover note Suc.IH [OF rest]
  ultimately show ?case
    using off by (auto simp: xs take_add add.commute [of off sz])
qed

lemma read_array_in_bounds:
  "off + n * sz \<le> length bs \<Longrightarrow> \<exists>xs. (read_array dec sz bs off n :: ('e, 'a list) outcome) = Ok xs"
proof (induction n arbitrary: off)
  case 0
  then show ?case by simp
next
  case (Suc n)
  then have "off + sz + n * sz \<le> length bs" by simp
  from Suc.IH [OF this] obtain xs where
    "(read_array dec sz bs (off + sz) n :: ('e, 'a list) outcome) = Ok xs" ..
  with Suc.prems show ?case by (simp add: read_array_Suc read_raw_def)
qed

end

section \<open>Little-endian integers\<close>

definition word_to_le :: "nat \<Rightarrow> 'w::len word \<Rightarrow> bytes" where
  "word_to_le n w = map (\<lambda>i. ucast (drop_bit (8 * i) w)) [0..<n]"

fun word_of_le :: "bytes \<Rightarrow> 'w::len word" where
  "word_of_le [] = 0"
| "word_of_le (b # bs) = ucast b OR push_bit 8 (word_of_le bs)"

lemma length_word_to_le [simp, codec_simps]: "length (word_to_le n w) = n"
  by (simp add: word_to_le_def)

lemma bit_word_of_le:
  "bit (word_of_le bs :: 'w::len word) i \<longleftrightarrow>
     i < LENGTH('w) \<and> i div 8 < length bs \<and> bit (bs ! (i div 8)) (i mod 8)"
proof (induction bs arbitrary: i)
  case Nil
  then show ?case by simp
next
  case (Cons b bs)
  show ?case
  proof (cases "i < 8")
    case True
    then show ?thesis by (auto simp: bit_simps)
  next
    case False
    then obtain j where j: "i = 8 + j" using le_Suc_ex by (metis not_less)
    have "\<not> bit b (8 + j)" using bit_imp_le_length [of b "8 + j"] by auto
    moreover have "(8 + j) div 8 = Suc (j div 8)" by simp
    ultimately show ?thesis
      using Cons.IH [of j] by (auto simp: j bit_simps simp del: div_add_self1)
  qed
qed

lemma nth_word_to_le: "i < n \<Longrightarrow> word_to_le n w ! i = ucast (drop_bit (8 * i) w)"
  by (simp add: word_to_le_def)

lemma word_of_le_to_le:
  "LENGTH('w) = 8 * n \<Longrightarrow> word_of_le (word_to_le n w) = (w :: 'w::len word)"
  by (rule bit_word_eqI) (auto simp: bit_word_of_le nth_word_to_le bit_simps less_mult_imp_div_less mult.commute)

lemma word_to_le_of_le:
  assumes "LENGTH('w) = 8 * n" and "length bs = n"
  shows "word_to_le n (word_of_le bs :: 'w::len word) = bs"
proof (rule nth_equalityI)
  show "length (word_to_le n (word_of_le bs :: 'w word)) = length bs"
    using assms by simp
  fix i assume "i < length (word_to_le n (word_of_le bs :: 'w word))"
  then have i: "i < n" by simp
  show "word_to_le n (word_of_le bs :: 'w word) ! i = bs ! i"
  proof (rule bit_word_eqI)
    fix j assume "j < LENGTH(8)"
    then have j: "j < 8" by simp
    then have "8 * i + j < 8 * n" using i by simp
    then show "bit (word_to_le n (word_of_le bs :: 'w word) ! i) j = bit (bs ! i) j"
      using assms i j by (simp add: nth_word_to_le bit_simps bit_word_of_le)
  qed
qed

abbreviation u8_to_le :: "u8 \<Rightarrow> bytes" where "u8_to_le \<equiv> word_to_le 1"
abbreviation u16_to_le :: "u16 \<Rightarrow> bytes" where "u16_to_le \<equiv> word_to_le 2"
abbreviation u32_to_le :: "u32 \<Rightarrow> bytes" where "u32_to_le \<equiv> word_to_le 4"
abbreviation u64_to_le :: "u64 \<Rightarrow> bytes" where "u64_to_le \<equiv> word_to_le 8"

interpretation u16c: byte_codec u16_to_le "word_of_le :: bytes \<Rightarrow> u16" 2
  by unfold_locales (simp_all add: word_of_le_to_le word_to_le_of_le)

interpretation u32c: byte_codec u32_to_le "word_of_le :: bytes \<Rightarrow> u32" 4
  by unfold_locales (simp_all add: word_of_le_to_le word_to_le_of_le)

interpretation u64c: byte_codec u64_to_le "word_of_le :: bytes \<Rightarrow> u64" 8
  by unfold_locales (simp_all add: word_of_le_to_le word_to_le_of_le)

text \<open>Field access inside a structure: the integer at byte offset \<open>off\<close>.\<close>

definition le8_at :: "bytes \<Rightarrow> nat \<Rightarrow> u8" where "le8_at bs off = word_of_le (take 1 (drop off bs))"
definition le16_at :: "bytes \<Rightarrow> nat \<Rightarrow> u16" where "le16_at bs off = word_of_le (take 2 (drop off bs))"
definition le32_at :: "bytes \<Rightarrow> nat \<Rightarrow> u32" where "le32_at bs off = word_of_le (take 4 (drop off bs))"
definition le64_at :: "bytes \<Rightarrow> nat \<Rightarrow> u64" where "le64_at bs off = word_of_le (take 8 (drop off bs))"

lemmas le_at_defs = le8_at_def le16_at_def le32_at_def le64_at_def

lemma word_of_le_u8 [simp]: "word_of_le (word_to_le 1 w) = (w :: u8)"
  by (rule word_of_le_to_le) simp

lemma word_of_le_u8' [simp]: "word_of_le (word_to_le (Suc 0) w) = (w :: u8)"
  using word_of_le_u8 [of w] by simp

lemma u8_to_le_of_le: "length bs = 1 \<Longrightarrow> word_to_le 1 (word_of_le bs :: u8) = bs"
  by (rule word_to_le_of_le) simp_all

lemmas le_decode [simp] = u16c.dec_enc u32c.dec_enc u64c.dec_enc

text \<open>
  A structure is the concatenation of its fields. Splitting a byte list of the
  structure's size at the field offsets and gluing the pieces gives it back.
\<close>

lemma take_drop_split:
  "a + k + m = n \<Longrightarrow> n \<le> length bs \<Longrightarrow>
   take (k + m) (drop a bs) = take k (drop a bs) @ take m (drop (a + k) bs)"
  by (simp add: take_add add.commute)

end
