(* ===== verification/Text.thy ===== *)
theory Text
  imports Bytes
begin

text \<open>
  Strings of the standard library. A Rust \<open>String\<close> is its UTF-8 bytes, kept
  as an Isabelle \<open>string\<close> (a list of 8-bit characters); a C string is the
  run of bytes up to a NUL inside a larger byte list.
\<close>

section \<open>UTF-8\<close>

definition cont_byte :: "nat \<Rightarrow> bool" where
  "cont_byte c \<longleftrightarrow> 128 \<le> c \<and> c \<le> 191"

text \<open>Which second bytes may follow the lead byte of a three or four byte sequence.\<close>

definition second3 :: "nat \<Rightarrow> nat \<Rightarrow> bool" where
  "second3 b c \<longleftrightarrow>
     (if b = 224 then 160 \<le> c \<and> c \<le> 191
      else if b = 237 then 128 \<le> c \<and> c \<le> 159
      else cont_byte c)"

definition second4 :: "nat \<Rightarrow> nat \<Rightarrow> bool" where
  "second4 b c \<longleftrightarrow>
     (if b = 240 then 144 \<le> c \<and> c \<le> 191
      else if b = 244 then 128 \<le> c \<and> c \<le> 143
      else cont_byte c)"

text \<open>
  The characters of \<open>String::from_utf8_lossy\<close>: every maximal ill-formed
  prefix of a sequence is one U+FFFD. One step gives the character at the front
  and the number of bytes it takes.
\<close>

definition utf8_step :: "nat \<Rightarrow> nat list \<Rightarrow> nat \<times> nat" where
  "utf8_step b bs =
     (if b < 128 then (b, 1)
      else if 194 \<le> b \<and> b \<le> 223 then
        (case bs of
           c # _ \<Rightarrow> if cont_byte c then ((b - 192) * 64 + (c - 128), 2) else (65533, 1)
         | [] \<Rightarrow> (65533, 1))
      else if 224 \<le> b \<and> b \<le> 239 then
        (case bs of
           c # cs \<Rightarrow>
             if second3 b c then
               (case cs of
                  d # _ \<Rightarrow>
                    if cont_byte d
                    then ((b - 224) * 4096 + (c - 128) * 64 + (d - 128), 3)
                    else (65533, 2)
                | [] \<Rightarrow> (65533, 2))
             else (65533, 1)
         | [] \<Rightarrow> (65533, 1))
      else if 240 \<le> b \<and> b \<le> 244 then
        (case bs of
           c # cs \<Rightarrow>
             if second4 b c then
               (case cs of
                  d # ds \<Rightarrow>
                    if cont_byte d then
                      (case ds of
                         e # _ \<Rightarrow>
                           if cont_byte e
                           then ((b - 240) * 262144 + (c - 128) * 4096 + (d - 128) * 64
                                 + (e - 128), 4)
                           else (65533, 3)
                       | [] \<Rightarrow> (65533, 3))
                    else (65533, 2)
                | [] \<Rightarrow> (65533, 2))
             else (65533, 1)
         | [] \<Rightarrow> (65533, 1))
      else (65533, 1))"

fun utf8_lossy :: "nat list \<Rightarrow> nat list" where
  "utf8_lossy [] = []"
| "utf8_lossy (b # bs) =
     (case utf8_step b bs of (c, k) \<Rightarrow> c # utf8_lossy (drop (k - 1) bs))"

definition utf8_encode :: "nat \<Rightarrow> string" where
  "utf8_encode c =
     (if c < 128 then [char_of c]
      else if c < 2048 then [char_of (192 + c div 64), char_of (128 + c mod 64)]
      else if c < 65536 then
        [char_of (224 + c div 4096), char_of (128 + c div 64 mod 64), char_of (128 + c mod 64)]
      else [char_of (240 + c div 262144), char_of (128 + c div 4096 mod 64),
            char_of (128 + c div 64 mod 64), char_of (128 + c mod 64)])"

text \<open>\<open>CStr::to_string_lossy\<close>, \<open>str::chars\<close> and \<open>str::as_bytes\<close>.\<close>

definition to_string_lossy :: "bytes \<Rightarrow> string" where
  "to_string_lossy bs = concat (map utf8_encode (utf8_lossy (map unat bs)))"

definition str_chars :: "string \<Rightarrow> nat list" where
  "str_chars s = utf8_lossy (map of_char s)"

definition as_bytes :: "string \<Rightarrow> bytes" where
  "as_bytes s = map (\<lambda>c. of_nat (of_char c)) s"

text \<open>\<open>CStr::to_str\<close>: the lossy conversion changes nothing exactly on valid UTF-8.\<close>

definition to_str :: "bytes \<Rightarrow> string option" where
  "to_str bs = (if as_bytes (to_string_lossy bs) = bs then Some (to_string_lossy bs) else None)"

text \<open>\<open>str::trim\<close> removes the characters with the Unicode property \<open>White_Space\<close> at both ends.\<close>

definition is_whitespace :: "nat \<Rightarrow> bool" where
  "is_whitespace c \<longleftrightarrow>
     9 \<le> c \<and> c \<le> 13 \<or> 8192 \<le> c \<and> c \<le> 8202 \<or>
     c \<in> {32, 133, 160, 5760, 8232, 8233, 8239, 8287, 12288}"

definition trim_chars :: "nat list \<Rightarrow> nat list" where
  "trim_chars cs = rev (dropWhile is_whitespace (rev (dropWhile is_whitespace cs)))"

definition trim :: "string \<Rightarrow> string" where
  "trim s = concat (map utf8_encode (trim_chars (str_chars s)))"

text \<open>A string of ASCII characters has one byte per character.\<close>

definition ascii :: "string \<Rightarrow> bool" where
  "ascii s \<longleftrightarrow> list_all (\<lambda>c. of_char c < (128::nat)) s"

definition ascii_bytes :: "bytes \<Rightarrow> bool" where
  "ascii_bytes bs \<longleftrightarrow> list_all (\<lambda>b. unat b < 128) bs"

section \<open>C strings\<close>

text \<open>
  \<open>CStr::from_ptr\<close> at offset \<open>off\<close> of a slice: the bytes up to the next
  NUL; without a NUL the scan leaves the slice.
\<close>

definition cstr_at :: "bytes \<Rightarrow> nat \<Rightarrow> ('e, bytes) outcome" where
  "cstr_at bs off =
     (if 0 \<in> set (drop off bs) then Ok (takeWhile (\<lambda>b. b \<noteq> 0) (drop off bs)) else Undefined)"

text \<open>\<open>CString::new(s)\<close> refuses an interior NUL; \<open>as_bytes\<close> of it leaves the terminator out.\<close>

definition cstring_new :: "string \<Rightarrow> bytes option" where
  "cstring_new s = (if 0 \<in> set (as_bytes s) then None else Some (as_bytes s))"

section \<open>Lemmas\<close>

lemma length_as_bytes [simp]: "length (as_bytes s) = length s"
  by (simp add: as_bytes_def)

lemma unat_of_nat_of_char [simp]: "unat (of_nat (of_char c) :: u8) = of_char c"
  using nat_of_char_less_256 [of c] by (simp add: unat_of_nat)

lemma char_of_unat_inverse: "char_of (unat (of_nat (of_char c) :: u8)) = c"
  by simp

lemma as_bytes_of_chars [simp]: "as_bytes (map char_of (map unat bs)) = bs"
proof -
  have "of_nat (of_char (char_of (unat b) :: char)) = b" for b :: u8
    using unat_u8_less [of b] by simp
  then show ?thesis by (simp add: as_bytes_def map_idI)
qed

lemma map_unat_as_bytes [simp]: "map unat (as_bytes s) = map of_char s"
  by (simp add: as_bytes_def)

lemma as_bytes_inject [simp]: "as_bytes s = as_bytes t \<longleftrightarrow> s = t"
proof
  assume "as_bytes s = as_bytes t"
  then have "map unat (as_bytes s) = map unat (as_bytes t)" by simp
  then show "s = t" by (simp add: inj_map_eq_map inj_of_char)
qed simp

lemma as_bytes_append [simp]: "as_bytes (s @ t) = as_bytes s @ as_bytes t"
  by (simp add: as_bytes_def)

lemma utf8_step_ascii [simp]: "b < 128 \<Longrightarrow> utf8_step b bs = (b, 1)"
  by (simp add: utf8_step_def)

lemma utf8_lossy_ascii: "list_all (\<lambda>b. b < 128) bs \<Longrightarrow> utf8_lossy bs = bs"
  by (induction bs) auto

lemma to_string_lossy_ascii: "ascii_bytes bs \<Longrightarrow> to_string_lossy bs = map char_of (map unat bs)"
proof -
  assume a: "ascii_bytes bs"
  then have "utf8_lossy (map unat bs) = map unat bs"
    by (intro utf8_lossy_ascii) (simp add: ascii_bytes_def list.pred_set)
  moreover have "concat (map utf8_encode (map unat bs)) = map char_of (map unat bs)"
    using a by (induction bs) (auto simp: ascii_bytes_def utf8_encode_def)
  ultimately show ?thesis by (simp add: to_string_lossy_def)
qed

lemma to_string_lossy_as_bytes: "ascii s \<Longrightarrow> to_string_lossy (as_bytes s) = s"
  by (subst to_string_lossy_ascii)
    (auto simp: ascii_def ascii_bytes_def as_bytes_def list.pred_set map_idI)

lemma str_chars_ascii: "ascii s \<Longrightarrow> str_chars s = map of_char s"
  by (simp add: str_chars_def utf8_lossy_ascii ascii_def list.pred_set)

lemma cstr_at_eq_Ok [outcome_simps]:
  "cstr_at bs off = Ok s \<longleftrightarrow>
     0 \<in> set (drop off bs) \<and> s = takeWhile (\<lambda>b. b \<noteq> 0) (drop off bs)"
  by (auto simp: cstr_at_def)

lemma cstr_no_nul: "cstr_at bs off = Ok s \<Longrightarrow> 0 \<notin> set s"
  by (auto simp: outcome_simps dest: set_takeWhileD)

text \<open>A C string stored in a table: what is read back, and where it ends.\<close>

lemma cstr_at_stored: "0 \<notin> set s \<Longrightarrow> cstr_at (pre @ s @ 0 # post) (length pre) = Ok s"
proof -
  assume "0 \<notin> set s"
  then have "\<forall>b \<in> set s. b \<noteq> 0" by auto
  then show ?thesis by (simp add: cstr_at_def takeWhile_append2)
qed

lemma cstr_at_split:
  assumes "cstr_at bs off = Ok s"
  obtains pre post where "bs = pre @ s @ 0 # post" and "length pre = off"
proof -
  from assms have z: "0 \<in> set (drop off bs)" and s: "s = takeWhile (\<lambda>b. b \<noteq> 0) (drop off bs)"
    by (auto simp: outcome_simps)
  then have off: "off < length bs" by (metis drop_all empty_iff list.set(1) not_less)
  have "dropWhile (\<lambda>b. b \<noteq> 0) (drop off bs) \<noteq> []" using z by auto
  then obtain c post where d: "dropWhile (\<lambda>b. b \<noteq> 0) (drop off bs) = c # post"
    by (cases "dropWhile (\<lambda>b. b \<noteq> 0) (drop off bs)") auto
  then have "c = 0" using hd_dropWhile [of "\<lambda>b. b \<noteq> 0" "drop off bs"] by auto
  then have "drop off bs = s @ 0 # post"
    using s d takeWhile_dropWhile_id [of "\<lambda>b. b \<noteq> 0" "drop off bs"] by simp
  then have "bs = take off bs @ s @ 0 # post" by (metis append_take_drop_id)
  with off that show thesis by fastforce
qed

lemma cstr_at_prefix_stable:
  "cstr_at bs off = Ok s \<Longrightarrow> cstr_at (bs @ cs) off = Ok s"
proof -
  assume a: "cstr_at bs off = Ok s"
  then obtain pre post where "bs = pre @ s @ 0 # post" "length pre = off"
    by (rule cstr_at_split)
  moreover have "0 \<notin> set s" using a by (rule cstr_no_nul)
  ultimately show ?thesis using cstr_at_stored [of s pre "post @ cs"] by simp
qed

lemma utf8_encode_ascii: "list_all (\<lambda>c. c < 128) cs \<Longrightarrow> concat (map utf8_encode cs) = map char_of cs"
  by (induction cs) (auto simp: utf8_encode_def)

text \<open>Trimming an ASCII string that starts and ends with something else than white space.\<close>

definition no_edge_space :: "string \<Rightarrow> bool" where
  "no_edge_space s \<longleftrightarrow>
     s \<noteq> [] \<and> \<not> is_whitespace (of_char (hd s)) \<and> \<not> is_whitespace (of_char (last s))"

lemma trim_line:
  assumes "ascii s" and "no_edge_space s" and "list_all (\<lambda>c. is_whitespace (of_char c)) w" and "ascii w"
  shows "trim (s @ w) = s"
proof -
  let ?cs = "map of_char s :: nat list" and ?ws = "map of_char w :: nat list"
  have a: "ascii (s @ w)" using assms(1,4) by (simp add: ascii_def)
  obtain c cs where c: "s = c # cs" using assms(2) by (cases s) (auto simp: no_edge_space_def)
  have "dropWhile is_whitespace (?cs @ ?ws) = ?cs @ ?ws"
    using assms(2) by (simp add: c no_edge_space_def)
  moreover have "dropWhile is_whitespace (rev (?cs @ ?ws)) = rev ?cs"
  proof -
    have "dropWhile is_whitespace (rev ?ws @ rev ?cs) = dropWhile is_whitespace (rev ?cs)"
      using assms(3) by (intro dropWhile_append2) (auto simp: list.pred_set)
    moreover have "dropWhile is_whitespace (rev ?cs) = rev ?cs"
    proof (cases "rev s")
      case (Cons d ds)
      then have "last s = d" by (metis hd_rev list.sel(1))
      then show ?thesis using assms(2) Cons by (simp add: no_edge_space_def rev_map)
    qed simp
    ultimately show ?thesis by simp
  qed
  ultimately have "trim_chars (?cs @ ?ws) = ?cs" by (simp add: trim_chars_def)
  moreover have "list_all (\<lambda>c. c < 128) ?cs" using assms(1) by (simp add: ascii_def list.pred_map comp_def)
  then have "concat (map utf8_encode ?cs) = s" by (subst utf8_encode_ascii) (simp_all add: map_idI)
  ultimately show ?thesis
    using str_chars_ascii [OF a] by (simp add: trim_def del: map_map)
qed

end
