(* ===== verification/Errors.thy ===== *)
theory Errors
  imports Text
begin

text \<open>
  The error type of the crate (\<open>redbpf/src/error.rs\<close>) and its conversions, and
  the view of a parsed ELF file the code works on. Parsing an ELF file is done by
  the \<open>goblin\<close> crate; its \<open>Elf\<close> value is an input of the model, reduced to
  the fields the sources read.
\<close>

section \<open>Errors\<close>

text \<open>
  \<open>std::io::Error\<close>: either an error number of the operating system
  (\<open>last_os_error\<close>) or a bare kind.
\<close>

datatype io_error = OsError int | AlreadyExists | NotFound | PermissionDenied | UnexpectedEof | OtherIo string

text \<open>\<open>Error::Map\<close> and \<open>Error::IO\<close> keep their names with a suffix, \<open>Map\<close> being a struct too.\<close>

datatype error =
    StringConversion
  | BPF
  | MapError
  | Section string
  | Parse string
  | KernelRelease string
  | IO io_error
  | Uname
  | Reloc
  | LibraryNotFound string
  | SymbolNotFound string
  | ProgramAlreadyLoaded
  | ProgramNotLoaded
  | ProgramAlreadyLinked
  | ElfError
  | BTF string

text \<open>The three \<open>From\<close> conversions used by the question mark operator.\<close>

definition from_goblin_error :: "string \<Rightarrow> error" where
  "from_goblin_error e = Parse e"

definition from_nul_error :: error where
  "from_nul_error = StringConversion"

definition from_io_error :: "io_error \<Rightarrow> error" where
  "from_io_error e = IO e"

type_synonym 'a result = "(error, 'a) outcome"

text \<open>\<open>CString::new(s)?\<close>\<close>

definition cstring_try :: "string \<Rightarrow> bytes result" where
  "cstring_try s = ok_or (cstring_new s) from_nul_error"

section \<open>The parsed ELF file\<close>

record SectionHeader =
  sh_name :: nat
  sh_type :: u32
  sh_offset :: u64
  sh_size :: u64
  sh_info :: u32

record Sym =
  st_name :: nat
  st_info :: u8
  st_shndx :: nat
  st_value :: u64

record Rel =
  r_offset :: u64
  r_sym :: nat

text \<open>
  The string tables are the partial functions \<open>goblin\<close>'s \<open>Strtab::get_at\<close>
  and \<open>get_unsafe\<close> compute.
\<close>

record Elf =
  section_headers :: "SectionHeader list"
  syms :: "Sym list"
  strtab :: "nat \<Rightarrow> string option"
  dynsyms :: "Sym list"
  dynstrtab :: "nat \<Rightarrow> string option"
  shdr_strtab :: "nat \<Rightarrow> string option"
  shdr_relocs :: "(nat \<times> Rel list) list"

text \<open>\<open>get_section_name\<close> and \<open>get_section_header_by_name\<close> of \<open>btf.rs\<close>.\<close>

definition btf_get_section_name :: "Elf \<Rightarrow> SectionHeader \<Rightarrow> string option" where
  "btf_get_section_name object shdr = shdr_strtab object (sh_name shdr)"

definition get_section_header_by_name :: "Elf \<Rightarrow> string \<Rightarrow> SectionHeader option" where
  "get_section_header_by_name object name =
     find (\<lambda>shdr. btf_get_section_name object shdr = Some name) (section_headers object)"

lemma get_section_header_by_name_Some:
  "get_section_header_by_name object name = Some shdr \<Longrightarrow>
   shdr \<in> set (section_headers object) \<and> btf_get_section_name object shdr = Some name"
  by (auto simp: get_section_header_by_name_def find_Some_iff)

end
