(* ===== verification/Cpus.thy ===== *)
theory Cpus
  imports Errors
begin

text \<open>
  The lists of CPUs of \<open>redbpf/src/cpus.rs\<close>: \<open>get_online\<close>, \<open>get_possible\<close>,
  \<open>get_possible_num\<close> and the parser \<open>list_from_string\<close>. Reading the files under
  \<open>/sys\<close> is a parameter. The main lemma is that the parser reads back every list
  of ranges in the format the kernel prints.
\<close>

type_synonym CpuId = int

text \<open>The closure of \<open>flat_map\<close>: one number, or the first two of a dash-separated group.\<close>

definition parse_group :: "string \<Rightarrow> CpuId list result" where
  "parse_group g =
     (case split_on CHR ''-'' g of
        [] \<Rightarrow> Panic
      | [start] \<Rightarrow> and_then (unwrap (parse_i32 start)) (\<lambda>cpuid. Ok [cpuid..cpuid])
      | start # fin # _ \<Rightarrow>
          and_then (unwrap (parse_i32 start)) (\<lambda>s.
          and_then (unwrap (parse_i32 fin)) (\<lambda>e. Ok [s..e])))"

definition list_from_string :: "string \<Rightarrow> CpuId list result" where
  "list_from_string cpus =
     and_then (try_map parse_group (split_on CHR '','' cpus)) (\<lambda>groups. Ok (concat groups))"

text \<open>
  \<open>String::from_utf8_unchecked\<close>: bytes that are not UTF-8 are undefined behaviour.
\<close>

definition from_utf8_unchecked :: "bytes \<Rightarrow> string result" where
  "from_utf8_unchecked bs = (case to_str bs of Some s \<Rightarrow> Ok s | None \<Rightarrow> Undefined)"

type_synonym read_file = "string \<Rightarrow> (io_error, bytes) outcome"

definition get_online :: "read_file \<Rightarrow> CpuId list result" where
  "get_online read =
     (case read ''/sys/devices/system/cpu/online'' of
        Ok bs \<Rightarrow> and_then (from_utf8_unchecked bs) (\<lambda>cpus. list_from_string (trim cpus))
      | Err e \<Rightarrow> Err (IO e)
      | Panic \<Rightarrow> Panic
      | Undefined \<Rightarrow> Undefined)"

text \<open>Here a missing file panics (\<open>expect\<close>), so the \<open>Result\<close> is always \<open>Ok\<close>.\<close>

definition get_possible :: "read_file \<Rightarrow> CpuId list result" where
  "get_possible read =
     (case read ''/sys/devices/system/cpu/possible'' of
        Ok bs \<Rightarrow> and_then (from_utf8_unchecked bs) (\<lambda>cpus. list_from_string (trim cpus))
      | Err _ \<Rightarrow> Panic
      | Panic \<Rightarrow> Panic
      | Undefined \<Rightarrow> Undefined)"

definition get_possible_num :: "read_file \<Rightarrow> nat result" where
  "get_possible_num read =
     (case get_possible read of
        Ok cpus \<Rightarrow> Ok (length cpus)
      | Err _ \<Rightarrow> Panic
      | Panic \<Rightarrow> Panic
      | Undefined \<Rightarrow> Undefined)"

section \<open>The kernel's format\<close>

text \<open>
  The kernel prints a CPU mask as comma-separated ranges of decimal numbers, a range
  of one CPU as a single number, and a newline at the end.
\<close>

definition show_range :: "nat \<times> nat \<Rightarrow> string" where
  "show_range r = (case r of (a, b) \<Rightarrow> if a = b then show_nat a else show_nat a @ ''-'' @ show_nat b)"

fun show_ranges :: "(nat \<times> nat) list \<Rightarrow> string" where
  "show_ranges [] = []"
| "show_ranges [r] = show_range r"
| "show_ranges (r # rs) = show_range r @ '','' @ show_ranges rs"

definition range_cpus :: "nat \<times> nat \<Rightarrow> CpuId list" where
  "range_cpus r = [int (fst r)..int (snd r)]"

lemma show_nat_no_sep: "of_char c < (48::nat) \<Longrightarrow> c \<notin> set (show_nat n)"
  by (rule show_nat_no) (simp add: digit_char_neq)

lemma parse_i32_show_nat: "n < 2 ^ 31 \<Longrightarrow> parse_i32 (show_nat n) = Some (int n)"
proof (cases "show_nat n")
  case (Cons c cs)
  assume "n < 2 ^ 31"
  moreover have "c \<noteq> CHR ''-''" using show_nat_no_sep [of "CHR ''-''" n] Cons by auto
  ultimately show ?thesis
    using parse_unsigned_show_nat [of "2 ^ 31" n] by (simp add: parse_i32_def Cons)
qed simp

lemma show_range_no_comma: "CHR '','' \<notin> set (show_range r)"
  by (cases r) (auto simp: show_range_def show_nat_no_sep)

lemma parse_group_show_range:
  assumes "snd r < 2 ^ 31" and "fst r \<le> snd r"
  shows "parse_group (show_range r) = Ok (range_cpus r)"
proof -
  obtain a b where r: "r = (a, b)" by fastforce
  have no: "CHR ''-'' \<notin> set (show_nat n)" for n by (simp add: show_nat_no_sep)
  have "a < 2 ^ 31" "b < 2 ^ 31" using assms r by auto
  then show ?thesis
    using split_on_append_sep [OF no, of a "show_nat b"] split_on_no_sep [OF no, of b] split_on_no_sep [OF no, of a]
    by (simp add: r show_range_def parse_group_def parse_i32_show_nat range_cpus_def)
qed

lemma list_from_string_show_ranges:
  assumes "rs \<noteq> []" and "list_all (\<lambda>r. fst r \<le> snd r \<and> snd r < 2 ^ 31) rs"
  shows "list_from_string (show_ranges rs) = Ok (concat (map range_cpus rs))"
proof -
  have "split_on CHR '','' (show_ranges rs) = map show_range rs"
    using assms(1)
    by (induction rs rule: show_ranges.induct)
      (auto simp: split_on_no_sep split_on_append_sep show_range_no_comma)
  moreover have "try_map parse_group (map show_range rs) = Ok (map range_cpus rs)"
    unfolding try_map_map using assms(2)
    by (intro try_map_all_Ok) (auto simp: list.pred_set parse_group_show_range)
  ultimately show ?thesis by (simp add: list_from_string_def)
qed

lemma show_ranges_chars:
  "c \<in> set (show_ranges rs) \<Longrightarrow> of_char c < (128::nat) \<and> \<not> is_whitespace (of_char c)"
proof -
  have d: "c \<in> set (show_nat n) \<Longrightarrow> \<exists>k<10. (of_char c :: nat) = 48 + k" for n
    using set_show_nat [of n] by fastforce
  have "c \<in> set (show_ranges rs) \<Longrightarrow> c = CHR '','' \<or> c = CHR ''-'' \<or> (\<exists>k<10. (of_char c :: nat) = 48 + k)"
    by (induction rs rule: show_ranges.induct) (auto simp: show_range_def dest: d split: if_splits prod.splits)
  then show "c \<in> set (show_ranges rs) \<Longrightarrow> of_char c < (128::nat) \<and> \<not> is_whitespace (of_char c)"
    by (auto simp: is_whitespace_def)
qed

lemma show_ranges_nonempty: "rs \<noteq> [] \<Longrightarrow> show_ranges rs \<noteq> []"
  by (induction rs rule: show_ranges.induct) (auto simp: show_range_def split: prod.splits)

lemma read_back:
  assumes "rs \<noteq> []" and "list_all (\<lambda>r. fst r \<le> snd r \<and> snd r < 2 ^ 31) rs"
  shows "and_then (from_utf8_unchecked (as_bytes (show_ranges rs @ [CHR 0x0A]))) (\<lambda>cpus. list_from_string (trim cpus))
    = Ok (concat (map range_cpus rs))"
proof -
  let ?s = "show_ranges rs"
  have "ascii ?s" using show_ranges_chars by (auto simp: ascii_def list.pred_set)
  moreover have "no_edge_space ?s"
    using show_ranges_nonempty [OF assms(1)] show_ranges_chars [of "hd ?s" rs] show_ranges_chars [of "last ?s" rs]
    by (simp add: no_edge_space_def)
  moreover have nl: "list_all (\<lambda>c. is_whitespace (of_char c)) [CHR 0x0A]" "ascii [CHR 0x0A]"
    by (simp_all add: is_whitespace_def ascii_def)
  ultimately have "trim (?s @ [CHR 0x0A]) = ?s" and a: "ascii (?s @ [CHR 0x0A])"
    using trim_line by (auto simp: ascii_def)
  moreover have "from_utf8_unchecked (as_bytes (?s @ [CHR 0x0A])) = Ok (?s @ [CHR 0x0A])"
    unfolding from_utf8_unchecked_def to_str_def to_string_lossy_as_bytes [OF a] by simp
  ultimately show ?thesis using list_from_string_show_ranges [OF assms] by simp
qed

text \<open>
  For every non-empty list of ranges, the file content the kernel prints for it is
  read back as exactly the CPUs of those ranges, in order, by \<open>get_online\<close> and
  \<open>get_possible\<close>, and \<open>get_possible_num\<close> is their number.
\<close>

theorem cpu_lists_read_back:
  assumes "rs \<noteq> []" and "list_all (\<lambda>r. fst r \<le> snd r \<and> snd r < 2 ^ 31) rs"
    and "\<And>f. read f = Ok (as_bytes (show_ranges rs @ [CHR 0x0A]))"
  shows "get_online read = Ok (concat (map range_cpus rs)) \<and>
    get_possible read = Ok (concat (map range_cpus rs)) \<and>
    get_possible_num read = Ok (sum_list (map (\<lambda>r. snd r - fst r + 1) rs))"
proof -
  have "length (concat (map range_cpus rs)) = sum_list (map (\<lambda>r. snd r - fst r + 1) rs)"
    using assms(2) by (induction rs) (auto simp: range_cpus_def nat_diff_distrib)
  then show ?thesis
    using read_back [OF assms(1,2)] assms(3)
    by (simp add: get_online_def get_possible_def get_possible_num_def)
qed

theorem cpu_lists_read_back_witness:
  "get_online (\<lambda>_. Ok (as_bytes (''0-2,5-6'' @ [CHR 0x0A]))) = Ok [0, 1, 2, 5, 6] \<and>
   get_possible_num (\<lambda>_. Ok (as_bytes (''0-2,5-6'' @ [CHR 0x0A]))) = Ok 5"
proof -
  have s: "show_ranges [(0, 2), (5, 6)] = ''0-2,5-6''"
    by (simp add: show_range_def show_nat.simps digit_char_def char_of_def bit_0)
  have c: "concat (map range_cpus [(0, 2), (5, 6)]) = [0, 1, 2, 5, 6]"
    by (simp add: range_cpus_def upto.simps)
  have "get_online (\<lambda>_. Ok (as_bytes (''0-2,5-6'' @ [CHR 0x0A]))) = Ok (concat (map range_cpus [(0, 2), (5, 6)])) \<and>
    get_possible (\<lambda>_. Ok (as_bytes (''0-2,5-6'' @ [CHR 0x0A]))) = Ok (concat (map range_cpus [(0, 2), (5, 6)])) \<and>
    get_possible_num (\<lambda>_. Ok (as_bytes (''0-2,5-6'' @ [CHR 0x0A]))) =
      Ok (sum_list (map (\<lambda>r. snd r - fst r + 1) [(0, 2), (5, 6)]))"
    by (rule cpu_lists_read_back) (simp_all only: s, simp_all)
  then show ?thesis unfolding c by simp
qed

end
