(* ===== verification/Kernel.thy ===== *)
theory Kernel
  imports Cpus "HOL-Library.Multiset"
begin

text \<open>
  Everything the program asks of the operating system goes through the calls listed
  here. The kernel is a parameter: a function from the calls made so far, with their
  answers, and the next call to its answer. So nothing is assumed about it unless a
  theorem says so. An action takes the history and returns its outcome with the
  longer history; file descriptors that an action opens or closes can be read off the
  part it appended.
\<close>

section \<open>Calls and answers\<close>

record perf_event_attr =
  pe_type :: u32
  pe_size :: u32
  pe_config :: u64
  pe_sample_type :: u64
  pe_sample_period :: u64
  pe_wakeup_events :: u32
  pe_config1 :: bytes
  pe_config2 :: u64

text \<open>\<open>struct bpf_map_def\<close> and the attributes of the two \<open>bpf\<close> commands that take many.\<close>

record bpf_map_def =
  md_type :: u32
  md_key_size :: u32
  md_value_size :: u32
  md_max_entries :: u32
  md_map_flags :: u32

record bpf_create_map_attr =
  cm_name :: bytes
  cm_def :: bpf_map_def
  cm_btf_fd :: u32
  cm_btf_key_type_id :: u32
  cm_btf_value_type_id :: u32

text \<open>\<open>struct bpf_insn\<close>, whose two register fields are four bits wide.\<close>

record bpf_insn =
  insn_code :: u8
  insn_dst_reg :: u8
  insn_src_reg :: u8
  insn_off :: u16
  insn_imm :: u32

record bpf_load_program_attr =
  lp_prog_type :: u32
  lp_expected_attach_type :: u32
  lp_name :: bytes
  lp_insns :: "bpf_insn list"
  lp_license :: bytes
  lp_log_level :: u32
  lp_kern_version :: u32
  lp_attach_btf_id :: u32

datatype syscall =
    Perf_event_open perf_event_attr int int RawFd u32
  | Ioctl RawFd u64 int
  | Mmap nat RawFd
  | Munmap int nat
  | Sysconf_pagesize
  | Close RawFd
  | Open bytes
  | Read RawFd nat
  | Getrlimit_memlock
  | Setrlimit_memlock_infinity
  | Statfs bytes
  | File_exists string
  | Create_dir_all string
  | Remove_file string
  | Read_file string
  | If_nametoindex bytes
  | Set_link_xdp_fd int RawFd u32
  | Socket_packet
  | Bind RawFd int
  | Setsockopt_attach_bpf RawFd RawFd
  | Bpf_load_program bpf_load_program_attr nat
  | Bpf_create_map bpf_create_map_attr
  | Bpf_map_update RawFd bytes bytes u64
  | Bpf_map_lookup RawFd bytes
  | Bpf_map_delete RawFd bytes
  | Bpf_map_next_key RawFd "bytes option"
  | Bpf_load_btf bytes
  | Bpf_obj_get bytes
  | Bpf_obj_get_info RawFd
  | Bpf_obj_pin RawFd bytes
  | Bpf_link_create RawFd int u32
  | Bpf_prog_attach RawFd RawFd u32
  | Bpf_iter_create RawFd

text \<open>
  What a call returns, the value of \<open>errno\<close> after it (a call that succeeds may leave
  it as it was), and the bytes it wrote for the caller.
\<close>

record answer =
  ret :: int
  errno :: int
  out :: bytes

type_synonym history = "(syscall \<times> answer) list"
type_synonym kernel = "history \<Rightarrow> syscall \<Rightarrow> answer"
type_synonym 'a action = "history \<Rightarrow> 'a result \<times> history"

section \<open>Actions\<close>

definition call :: "kernel \<Rightarrow> syscall \<Rightarrow> answer action" where
  "call k c h = (let a = k h c in (Ok a, h @ [(c, a)]))"

definition pure :: "'a result \<Rightarrow> 'a action" where
  "pure r h = (r, h)"

fun bind_result :: "'a result \<times> history \<Rightarrow> ('a \<Rightarrow> 'b action) \<Rightarrow> 'b result \<times> history" where
  "bind_result (Ok x, h) f = f x h"
| "bind_result (Err e, h) f = (Err e, h)"
| "bind_result (Panic, h) f = (Panic, h)"
| "bind_result (Undefined, h) f = (Undefined, h)"

definition bind :: "'a action \<Rightarrow> ('a \<Rightarrow> 'b action) \<Rightarrow> 'b action" where
  "bind m f h = bind_result (m h) f"

text \<open>The outcome of an action as a value, for \<open>if let Err(e) = ...\<close> and \<open>let _ = ...\<close>.\<close>

fun catch_result :: "'a result \<times> history \<Rightarrow> ((error, 'a) outcome \<Rightarrow> 'b action) \<Rightarrow> 'b result \<times> history" where
  "catch_result (Ok x, h) f = f (Ok x) h"
| "catch_result (Err e, h) f = f (Err e) h"
| "catch_result (Panic, h) f = (Panic, h)"
| "catch_result (Undefined, h) f = (Undefined, h)"

definition catch :: "'a action \<Rightarrow> ('a result \<Rightarrow> 'b action) \<Rightarrow> 'b action" where
  "catch m f h = catch_result (m h) f"

definition last_os_error :: "answer \<Rightarrow> error" where
  "last_os_error a = IO (OsError (errno a))"

abbreviation (input) EPERM :: int where "EPERM \<equiv> 1"
abbreviation (input) ENOENT :: int where "ENOENT \<equiv> 2"
abbreviation (input) ENOSPC :: int where "ENOSPC \<equiv> 28"

lemma bind_congs [fundef_cong]:
  "m = m' \<Longrightarrow> h = h' \<Longrightarrow> (\<And>x h1. m' h' = (Ok x, h1) \<Longrightarrow> f x h1 = f' x h1) \<Longrightarrow> bind m f h = bind m' f' h'"
  unfolding bind_def by (cases "m' h'"; cases "fst (m' h')") auto

section \<open>File descriptors in a history\<close>

text \<open>
  The descriptor a call opens: the calls that return a new descriptor return it as
  their answer when it is not negative.
\<close>

fun opens :: "syscall \<Rightarrow> bool" where
  "opens (Perf_event_open _ _ _ _ _) = True"
| "opens (Open _) = True"
| "opens Socket_packet = True"
| "opens (Bpf_load_program _ _) = True"
| "opens (Bpf_create_map _) = True"
| "opens (Bpf_load_btf _) = True"
| "opens (Bpf_obj_get _) = True"
| "opens (Bpf_link_create _ _ _) = True"
| "opens (Bpf_iter_create _) = True"
| "opens _ = False"

fun opened1 :: "syscall \<times> answer \<Rightarrow> RawFd multiset" where
  "opened1 (c, a) = (if opens c \<and> 0 \<le> ret a then {#ret a#} else {#})"

fun closed1 :: "syscall \<times> answer \<Rightarrow> RawFd multiset" where
  "closed1 (Close fd, a) = {#fd#}"
| "closed1 _ = {#}"

definition opened :: "history \<Rightarrow> RawFd multiset" where
  "opened h = sum_list (map opened1 h)"

definition closed :: "history \<Rightarrow> RawFd multiset" where
  "closed h = sum_list (map closed1 h)"

text \<open>
  \<open>balanced h before after\<close>: what the calls of \<open>h\<close> opened is what they closed
  and what is held more than before, so nothing is leaked and nothing is closed twice.
\<close>

definition balanced :: "history \<Rightarrow> RawFd multiset \<Rightarrow> RawFd multiset \<Rightarrow> bool" where
  "balanced h before after \<longleftrightarrow> before + opened h = closed h + after"

lemma opened_simps [simp]:
  "opened [] = {#}" "opened (x # h) = opened1 x + opened h" "opened (h @ h') = opened h + opened h'"
  by (simp_all add: opened_def)

lemma closed_simps [simp]:
  "closed [] = {#}" "closed (x # h) = closed1 x + closed h" "closed (h @ h') = closed h + closed h'"
  by (simp_all add: closed_def)

lemma balanced_refl [simp]: "balanced [] x x"
  by (simp add: balanced_def)

lemma balanced_trans:
  assumes "balanced h a b" and "balanced h' b c"
  shows "balanced (h @ h') a c"
proof -
  have "a + opened h + opened h' = closed h + (b + opened h')" using assms(1) by (simp add: balanced_def)
  also have "b + opened h' = closed h' + c" using assms(2) by (simp add: balanced_def)
  finally show ?thesis by (simp add: balanced_def add.assoc)
qed

section \<open>Running actions\<close>

text \<open>An action only appends to the history.\<close>

definition appends :: "'a action \<Rightarrow> bool" where
  "appends m \<longleftrightarrow> (\<forall>h. \<exists>new. snd (m h) = h @ new)"

lemma appends_call [intro, simp]: "appends (call k c)"
  by (auto simp: appends_def call_def Let_def)

lemma appends_pure [intro, simp]: "appends (pure r)"
  by (auto simp: appends_def pure_def)

lemma appends_bind [intro]: "appends m \<Longrightarrow> (\<And>x. appends (f x)) \<Longrightarrow> appends (bind m f)"
proof -
  assume m: "appends m" and f: "\<And>x. appends (f x)"
  have "\<exists>new. snd (bind m f h) = h @ new" for h
  proof -
    obtain n1 where n1: "snd (m h) = h @ n1" using m by (auto simp: appends_def)
    show ?thesis
    proof (cases "fst (m h)")
      case (Ok x)
      then have "bind m f h = f x (h @ n1)" using n1 by (cases "m h") (simp add: bind_def)
      moreover obtain n2 where "snd (f x (h @ n1)) = (h @ n1) @ n2"
        using f [of x] unfolding appends_def by blast
      ultimately show ?thesis by auto
    qed (use n1 in \<open>cases "m h"; simp add: bind_def\<close>)+
  qed
  then show ?thesis by (simp add: appends_def)
qed

lemma bind_call [simp]: "bind (call k c) f h = f (k h c) (h @ [(c, k h c)])"
  by (simp add: bind_def call_def Let_def)

lemma bind_pure [simp]:
  "bind (pure (Ok x)) f h = f x h" "bind (pure (Err e)) f h = (Err e, h)"
  "bind (pure Panic) f h = (Panic, h)" "bind (pure Undefined) f h = (Undefined, h)"
  by (simp_all add: bind_def pure_def)

end
