(* ===== verification/Btf_Types.thy ===== *)
theory Btf_Types
  imports Errors
begin

text \<open>
  The data of \<open>redbpf/src/btf.rs\<close>: the C structures of a \<open>.BTF\<close> section with
  their byte encodings, the kinds, \<open>BtfType\<close> with its accessors, and the
  rewriting of names the kernel would refuse.

  The structures and the \<open>BTF\_KIND\_*\<close> numbers are those of the kernel's
  stable \<open>linux/btf.h\<close>, which the \<open>libbpf\_sys\<close> crate exposes.
\<close>

section \<open>C structures\<close>

record btf_header =
  magic :: u16
  version :: u8
  flags :: u8
  hdr_len :: u32
  type_off :: u32
  type_len :: u32
  str_off :: u32
  str_len :: u32

text \<open>The union \<open>size\<close>/\<open>type\<close> is one 32-bit field.\<close>

record btf_type =
  bt_name_off :: u32
  bt_info :: u32
  bt_size_type :: u32

record btf_array =
  ba_type :: u32
  ba_index_type :: u32
  ba_nelems :: u32

record btf_member =
  bm_name_off :: u32
  bm_type :: u32
  bm_offset :: u32

record btf_enum =
  be_name_off :: u32
  be_val :: u32

record btf_param =
  bp_name_off :: u32
  bp_type :: u32

record btf_var =
  bv_linkage :: u32

record btf_var_secinfo =
  vs_type :: u32
  vs_offset :: u32
  vs_size :: u32

abbreviation (input) BTF_MAGIC :: u16 where "BTF_MAGIC \<equiv> 0xeb9f"
abbreviation (input) BTF_VAR_STATIC :: u32 where "BTF_VAR_STATIC \<equiv> 0"

section \<open>Byte encodings\<close>

definition enc_btf_header :: "btf_header \<Rightarrow> bytes" where
  "enc_btf_header h =
     u16_to_le (magic h) @ u8_to_le (version h) @ u8_to_le (flags h) @ u32_to_le (hdr_len h) @
     u32_to_le (type_off h) @ u32_to_le (type_len h) @ u32_to_le (str_off h) @ u32_to_le (str_len h)"

definition dec_btf_header :: "bytes \<Rightarrow> btf_header" where
  "dec_btf_header bs =
     \<lparr>magic = le16_at bs 0, version = le8_at bs 2, flags = le8_at bs 3, hdr_len = le32_at bs 4,
      type_off = le32_at bs 8, type_len = le32_at bs 12, str_off = le32_at bs 16,
      str_len = le32_at bs 20\<rparr>"

definition enc_btf_type :: "btf_type \<Rightarrow> bytes" where
  "enc_btf_type t = u32_to_le (bt_name_off t) @ u32_to_le (bt_info t) @ u32_to_le (bt_size_type t)"

definition dec_btf_type :: "bytes \<Rightarrow> btf_type" where
  "dec_btf_type bs =
     \<lparr>bt_name_off = le32_at bs 0, bt_info = le32_at bs 4, bt_size_type = le32_at bs 8\<rparr>"

definition enc_btf_array :: "btf_array \<Rightarrow> bytes" where
  "enc_btf_array a = u32_to_le (ba_type a) @ u32_to_le (ba_index_type a) @ u32_to_le (ba_nelems a)"

definition dec_btf_array :: "bytes \<Rightarrow> btf_array" where
  "dec_btf_array bs =
     \<lparr>ba_type = le32_at bs 0, ba_index_type = le32_at bs 4, ba_nelems = le32_at bs 8\<rparr>"

definition enc_btf_member :: "btf_member \<Rightarrow> bytes" where
  "enc_btf_member m = u32_to_le (bm_name_off m) @ u32_to_le (bm_type m) @ u32_to_le (bm_offset m)"

definition dec_btf_member :: "bytes \<Rightarrow> btf_member" where
  "dec_btf_member bs =
     \<lparr>bm_name_off = le32_at bs 0, bm_type = le32_at bs 4, bm_offset = le32_at bs 8\<rparr>"

definition enc_btf_enum :: "btf_enum \<Rightarrow> bytes" where
  "enc_btf_enum e = u32_to_le (be_name_off e) @ u32_to_le (be_val e)"

definition dec_btf_enum :: "bytes \<Rightarrow> btf_enum" where
  "dec_btf_enum bs = \<lparr>be_name_off = le32_at bs 0, be_val = le32_at bs 4\<rparr>"

definition enc_btf_param :: "btf_param \<Rightarrow> bytes" where
  "enc_btf_param p = u32_to_le (bp_name_off p) @ u32_to_le (bp_type p)"

definition dec_btf_param :: "bytes \<Rightarrow> btf_param" where
  "dec_btf_param bs = \<lparr>bp_name_off = le32_at bs 0, bp_type = le32_at bs 4\<rparr>"

definition enc_btf_var :: "btf_var \<Rightarrow> bytes" where
  "enc_btf_var v = u32_to_le (bv_linkage v)"

definition dec_btf_var :: "bytes \<Rightarrow> btf_var" where
  "dec_btf_var bs = \<lparr>bv_linkage = le32_at bs 0\<rparr>"

definition enc_btf_var_secinfo :: "btf_var_secinfo \<Rightarrow> bytes" where
  "enc_btf_var_secinfo v = u32_to_le (vs_type v) @ u32_to_le (vs_offset v) @ u32_to_le (vs_size v)"

definition dec_btf_var_secinfo :: "bytes \<Rightarrow> btf_var_secinfo" where
  "dec_btf_var_secinfo bs =
     \<lparr>vs_type = le32_at bs 0, vs_offset = le32_at bs 4, vs_size = le32_at bs 8\<rparr>"

lemmas btf_codec_defs =
  enc_btf_header_def dec_btf_header_def enc_btf_type_def dec_btf_type_def
  enc_btf_array_def dec_btf_array_def enc_btf_member_def dec_btf_member_def
  enc_btf_enum_def dec_btf_enum_def enc_btf_param_def dec_btf_param_def
  enc_btf_var_def dec_btf_var_def enc_btf_var_secinfo_def dec_btf_var_secinfo_def

text \<open>Two and three 32-bit fields: the layouts of every record but the header.\<close>

lemma fields2:
  "length bs = 8 \<Longrightarrow> u32_to_le (le32_at bs 0) @ u32_to_le (le32_at bs 4) = bs"
  by (simp add: le32_at_def u32c.enc_dec)

lemma fields3:
  assumes "length bs = 12"
  shows "u32_to_le (le32_at bs 0) @ u32_to_le (le32_at bs 4) @ u32_to_le (le32_at bs 8) = bs"
proof -
  have "take 4 (drop 4 bs) @ take 4 (drop 8 bs) = drop 4 bs"
    using assms take_drop_split [of 4 4 4 12 bs] by simp
  then show ?thesis using assms by (simp add: le32_at_def u32c.enc_dec)
qed

lemma header_fields:
  assumes "length bs = 24"
  shows "enc_btf_header (dec_btf_header bs) = bs"
proof -
  have "enc_btf_header (dec_btf_header bs) =
      take 2 bs @ take 1 (drop 2 bs) @ take 1 (drop 3 bs) @ take 4 (drop 4 bs) @ take 4 (drop 8 bs) @
      take 4 (drop 12 bs) @ take 4 (drop 16 bs) @ take 4 (drop 20 bs)"
    using assms by (simp add: btf_codec_defs le_at_defs u16c.enc_dec u32c.enc_dec u8_to_le_of_le
        del: One_nat_def)
  also have "\<dots> = bs"
    using assms take_add [of 2 1 bs] take_add [of 3 1 bs] take_add [of 4 4 bs] take_add [of 8 4 bs]
      take_add [of 12 4 bs] take_add [of 16 4 bs] take_add [of 20 4 bs]
    by (simp add: append_assoc [symmetric] del: append_assoc take_append One_nat_def)
  finally show ?thesis .
qed

interpretation hdrc: byte_codec enc_btf_header dec_btf_header 24
proof unfold_locales
  show "dec_btf_header (enc_btf_header x) = x" for x
    by (simp add: btf_codec_defs le_at_defs del: One_nat_def)
  show "length bs = 24 \<Longrightarrow> enc_btf_header (dec_btf_header bs) = bs" for bs
    by (rule header_fields)
qed (simp add: btf_codec_defs)

interpretation typec: byte_codec enc_btf_type dec_btf_type 12
  by unfold_locales (simp_all add: btf_codec_defs fields3, simp_all add: le_at_defs)

interpretation arrc: byte_codec enc_btf_array dec_btf_array 12
  by unfold_locales (simp_all add: btf_codec_defs fields3, simp_all add: le_at_defs)

interpretation membc: byte_codec enc_btf_member dec_btf_member 12
  by unfold_locales (simp_all add: btf_codec_defs fields3, simp_all add: le_at_defs)

interpretation enumc: byte_codec enc_btf_enum dec_btf_enum 8
  by unfold_locales (simp_all add: btf_codec_defs fields2, simp_all add: le_at_defs)

interpretation paramc: byte_codec enc_btf_param dec_btf_param 8
  by unfold_locales (simp_all add: btf_codec_defs fields2, simp_all add: le_at_defs)

interpretation varc: byte_codec enc_btf_var dec_btf_var 4
  by unfold_locales (simp_all add: btf_codec_defs le_at_defs u32c.enc_dec)

interpretation vsic: byte_codec enc_btf_var_secinfo dec_btf_var_secinfo 12
  by unfold_locales (simp_all add: btf_codec_defs fields3, simp_all add: le_at_defs)

lemmas btf_lengths [simp] =
  hdrc.enc_length typec.enc_length arrc.enc_length membc.enc_length enumc.enc_length
  paramc.enc_length varc.enc_length vsic.enc_length

section \<open>Kinds\<close>

datatype BtfKind =
    K_Unknown | K_Integer | K_Pointer | K_Array | K_Structure | K_Union | K_Enumeration | K_Forward
  | K_TypeDef | K_Volatile | K_Constant | K_Restrict | K_Function | K_FunctionProtocol
  | K_Variable | K_DataSection | K_FloatingPoint

abbreviation (input) BTF_KIND_UNKN :: u32 where "BTF_KIND_UNKN \<equiv> 0"
abbreviation (input) BTF_KIND_INT :: u32 where "BTF_KIND_INT \<equiv> 1"
abbreviation (input) BTF_KIND_PTR :: u32 where "BTF_KIND_PTR \<equiv> 2"
abbreviation (input) BTF_KIND_ARRAY :: u32 where "BTF_KIND_ARRAY \<equiv> 3"
abbreviation (input) BTF_KIND_STRUCT :: u32 where "BTF_KIND_STRUCT \<equiv> 4"
abbreviation (input) BTF_KIND_UNION :: u32 where "BTF_KIND_UNION \<equiv> 5"
abbreviation (input) BTF_KIND_ENUM :: u32 where "BTF_KIND_ENUM \<equiv> 6"
abbreviation (input) BTF_KIND_FWD :: u32 where "BTF_KIND_FWD \<equiv> 7"
abbreviation (input) BTF_KIND_TYPEDEF :: u32 where "BTF_KIND_TYPEDEF \<equiv> 8"
abbreviation (input) BTF_KIND_VOLATILE :: u32 where "BTF_KIND_VOLATILE \<equiv> 9"
abbreviation (input) BTF_KIND_CONST :: u32 where "BTF_KIND_CONST \<equiv> 10"
abbreviation (input) BTF_KIND_RESTRICT :: u32 where "BTF_KIND_RESTRICT \<equiv> 11"
abbreviation (input) BTF_KIND_FUNC :: u32 where "BTF_KIND_FUNC \<equiv> 12"
abbreviation (input) BTF_KIND_FUNC_PROTO :: u32 where "BTF_KIND_FUNC_PROTO \<equiv> 13"
abbreviation (input) BTF_KIND_VAR :: u32 where "BTF_KIND_VAR \<equiv> 14"
abbreviation (input) BTF_KIND_DATASEC :: u32 where "BTF_KIND_DATASEC \<equiv> 15"
abbreviation (input) BTF_KIND_FLOAT :: u32 where "BTF_KIND_FLOAT \<equiv> 16"

definition btf_kind_from :: "u32 \<Rightarrow> BtfKind result" where
  "btf_kind_from kind =
     (if kind = BTF_KIND_UNKN then Ok K_Unknown
      else if kind = BTF_KIND_INT then Ok K_Integer
      else if kind = BTF_KIND_PTR then Ok K_Pointer
      else if kind = BTF_KIND_ARRAY then Ok K_Array
      else if kind = BTF_KIND_STRUCT then Ok K_Structure
      else if kind = BTF_KIND_UNION then Ok K_Union
      else if kind = BTF_KIND_ENUM then Ok K_Enumeration
      else if kind = BTF_KIND_FWD then Ok K_Forward
      else if kind = BTF_KIND_TYPEDEF then Ok K_TypeDef
      else if kind = BTF_KIND_VOLATILE then Ok K_Volatile
      else if kind = BTF_KIND_CONST then Ok K_Constant
      else if kind = BTF_KIND_RESTRICT then Ok K_Restrict
      else if kind = BTF_KIND_FUNC then Ok K_Function
      else if kind = BTF_KIND_FUNC_PROTO then Ok K_FunctionProtocol
      else if kind = BTF_KIND_VAR then Ok K_Variable
      else if kind = BTF_KIND_DATASEC then Ok K_DataSection
      else if kind = BTF_KIND_FLOAT then Ok K_FloatingPoint
      else Panic)"

section \<open>Types\<close>

record BtfTypeCommon =
  comm_btf_type :: btf_type
  name_fixed :: "string option"
  name_raw :: string

record BtfMember =
  member :: btf_member
  memb_name :: string

datatype BtfType =
    T_Integer BtfTypeCommon u32
  | T_Pointer BtfTypeCommon
  | T_Array BtfTypeCommon btf_array
  | T_Structure BtfTypeCommon "BtfMember list"
  | T_Union BtfTypeCommon "BtfMember list"
  | T_Enumeration BtfTypeCommon "btf_enum list"
  | T_Forward BtfTypeCommon
  | T_TypeDef BtfTypeCommon
  | T_Volatile BtfTypeCommon
  | T_Constant BtfTypeCommon
  | T_Restrict BtfTypeCommon
  | T_Function BtfTypeCommon
  | T_FunctionProtocol BtfTypeCommon "btf_param list"
  | T_Variable BtfTypeCommon btf_var
  | T_DataSection BtfTypeCommon "btf_var_secinfo list"
  | T_FloatingPoint BtfTypeCommon

text \<open>\<open>impl BtfTypeCommon\<close>: the bit fields of \<open>info\<close> and the union.\<close>

definition comm_kind_bits :: "BtfTypeCommon \<Rightarrow> u32" where
  "comm_kind_bits c = drop_bit 24 (bt_info (comm_btf_type c)) AND 0x1f"

definition comm_kind :: "BtfTypeCommon \<Rightarrow> BtfKind result" where
  "comm_kind c = btf_kind_from (comm_kind_bits c)"

definition comm_vlen :: "BtfTypeCommon \<Rightarrow> u32" where
  "comm_vlen c = bt_info (comm_btf_type c) AND 0xffff"

definition comm_kind_flag :: "BtfTypeCommon \<Rightarrow> bool" where
  "comm_kind_flag c \<longleftrightarrow> drop_bit 31 (bt_info (comm_btf_type c)) = 1"

definition comm_size :: "BtfTypeCommon \<Rightarrow> u32" where
  "comm_size c = bt_size_type (comm_btf_type c)"

definition comm_set_size :: "BtfTypeCommon \<Rightarrow> u32 \<Rightarrow> BtfTypeCommon" where
  "comm_set_size c sz = c\<lparr>comm_btf_type := (comm_btf_type c)\<lparr>bt_size_type := sz\<rparr>\<rparr>"

definition comm_type_id :: "BtfTypeCommon \<Rightarrow> u32" where
  "comm_type_id c = bt_size_type (comm_btf_type c)"

definition comm_set_type_id :: "BtfTypeCommon \<Rightarrow> u32 \<Rightarrow> BtfTypeCommon" where
  "comm_set_type_id c t = c\<lparr>comm_btf_type := (comm_btf_type c)\<lparr>bt_size_type := t\<rparr>\<rparr>"

text \<open>\<open>impl BtfMember\<close>\<close>

definition memb_bit_offset :: "BtfMember \<Rightarrow> u32" where
  "memb_bit_offset m = bm_offset (member m) AND 0xffffff"

definition memb_bitfield_size :: "BtfMember \<Rightarrow> u32" where
  "memb_bitfield_size m = drop_bit 24 (bm_offset (member m))"

definition memb_type_id :: "BtfMember \<Rightarrow> u32" where
  "memb_type_id m = bm_type (member m)"

definition memb_set_type_id :: "BtfMember \<Rightarrow> u32 \<Rightarrow> BtfMember" where
  "memb_set_type_id m t = m\<lparr>member := (member m)\<lparr>bm_type := t\<rparr>\<rparr>"

fun type_str :: "BtfType \<Rightarrow> string" where
  "type_str (T_Integer _ _) = ''Integer''"
| "type_str (T_Pointer _) = ''Pointer''"
| "type_str (T_Array _ _) = ''Array''"
| "type_str (T_Structure _ _) = ''Structure''"
| "type_str (T_Union _ _) = ''Union''"
| "type_str (T_Enumeration _ _) = ''Enumeration''"
| "type_str (T_Forward _) = ''Forward''"
| "type_str (T_TypeDef _) = ''TypeDef''"
| "type_str (T_Volatile _) = ''Volatile''"
| "type_str (T_Constant _) = ''Constant''"
| "type_str (T_Restrict _) = ''Restrict''"
| "type_str (T_Function _) = ''Function''"
| "type_str (T_FunctionProtocol _ _) = ''FunctionProtocol''"
| "type_str (T_Variable _ _) = ''Variable''"
| "type_str (T_DataSection _ _) = ''DataSection''"
| "type_str (T_FloatingPoint _) = ''FloatingPoint''"

text \<open>The \<open>BtfTypeCommon\<close> every variant carries, which the or-patterns of the code bind.\<close>

fun btf_common :: "BtfType \<Rightarrow> BtfTypeCommon" where
  "btf_common (T_Integer c _) = c"
| "btf_common (T_Pointer c) = c"
| "btf_common (T_Array c _) = c"
| "btf_common (T_Structure c _) = c"
| "btf_common (T_Union c _) = c"
| "btf_common (T_Enumeration c _) = c"
| "btf_common (T_Forward c) = c"
| "btf_common (T_TypeDef c) = c"
| "btf_common (T_Volatile c) = c"
| "btf_common (T_Constant c) = c"
| "btf_common (T_Restrict c) = c"
| "btf_common (T_Function c) = c"
| "btf_common (T_FunctionProtocol c _) = c"
| "btf_common (T_Variable c _) = c"
| "btf_common (T_DataSection c _) = c"
| "btf_common (T_FloatingPoint c) = c"

fun type_vlen :: "BtfType \<Rightarrow> u32 option" where
  "type_vlen (T_Structure c _) = Some (comm_vlen c)"
| "type_vlen (T_Union c _) = Some (comm_vlen c)"
| "type_vlen (T_Enumeration c _) = Some (comm_vlen c)"
| "type_vlen (T_FunctionProtocol c _) = Some (comm_vlen c)"
| "type_vlen (T_DataSection c _) = Some (comm_vlen c)"
| "type_vlen _ = None"

fun type_size :: "BtfType \<Rightarrow> u32 option" where
  "type_size (T_Integer c _) = Some (comm_size c)"
| "type_size (T_Enumeration c _) = Some (comm_size c)"
| "type_size (T_Structure c _) = Some (comm_size c)"
| "type_size (T_Union c _) = Some (comm_size c)"
| "type_size (T_DataSection c _) = Some (comm_size c)"
| "type_size (T_FloatingPoint c) = Some (comm_size c)"
| "type_size _ = None"

fun type_type_id :: "BtfType \<Rightarrow> u32 option" where
  "type_type_id (T_Pointer c) = Some (comm_type_id c)"
| "type_type_id (T_TypeDef c) = Some (comm_type_id c)"
| "type_type_id (T_Volatile c) = Some (comm_type_id c)"
| "type_type_id (T_Constant c) = Some (comm_type_id c)"
| "type_type_id (T_Restrict c) = Some (comm_type_id c)"
| "type_type_id (T_Function c) = Some (comm_type_id c)"
| "type_type_id (T_FunctionProtocol c _) = Some (comm_type_id c)"
| "type_type_id (T_Variable c _) = Some (comm_type_id c)"
| "type_type_id (T_Forward c) = Some (comm_type_id c)"
| "type_type_id _ = None"

text \<open>
  \<open>byte_len\<close> counts the records by \<open>vlen\<close>, not by the length of the vector.
  Its \<open>unwrap\<close>s are on variants for which \<open>vlen\<close> is \<open>Some\<close>.
\<close>

fun byte_len :: "BtfType \<Rightarrow> nat" where
  "byte_len (T_Pointer _) = 12 + 0"
| "byte_len (T_Forward _) = 12 + 0"
| "byte_len (T_TypeDef _) = 12 + 0"
| "byte_len (T_Volatile _) = 12 + 0"
| "byte_len (T_Constant _) = 12 + 0"
| "byte_len (T_Restrict _) = 12 + 0"
| "byte_len (T_Function _) = 12 + 0"
| "byte_len (T_FloatingPoint _) = 12 + 0"
| "byte_len (T_Integer _ _) = 12 + 4"
| "byte_len (T_Array _ _) = 12 + 12"
| "byte_len (T_Variable _ _) = 12 + 4"
| "byte_len (T_Structure c _) = 12 + unat (comm_vlen c) * 12"
| "byte_len (T_Union c _) = 12 + unat (comm_vlen c) * 12"
| "byte_len (T_Enumeration c _) = 12 + unat (comm_vlen c) * 8"
| "byte_len (T_FunctionProtocol c _) = 12 + unat (comm_vlen c) * 8"
| "byte_len (T_DataSection c _) = 12 + unat (comm_vlen c) * 12"

text \<open>
  The bytes \<open>BtfType::dump\<close> writes, in order. The array case writes its
  \<open>btf_array\<close> at offset \<open>size_of::<btf_array>()\<close> instead of
  \<open>size_of::<btf_type>()\<close>; both are 12.
\<close>

fun dump_type :: "BtfType \<Rightarrow> bytes" where
  "dump_type (T_Pointer c) = enc_btf_type (comm_btf_type c)"
| "dump_type (T_Volatile c) = enc_btf_type (comm_btf_type c)"
| "dump_type (T_Constant c) = enc_btf_type (comm_btf_type c)"
| "dump_type (T_Restrict c) = enc_btf_type (comm_btf_type c)"
| "dump_type (T_Forward c) = enc_btf_type (comm_btf_type c)"
| "dump_type (T_TypeDef c) = enc_btf_type (comm_btf_type c)"
| "dump_type (T_Function c) = enc_btf_type (comm_btf_type c)"
| "dump_type (T_FloatingPoint c) = enc_btf_type (comm_btf_type c)"
| "dump_type (T_Array c a) = enc_btf_type (comm_btf_type c) @ enc_btf_array a"
| "dump_type (T_Integer c i) = enc_btf_type (comm_btf_type c) @ u32_to_le i"
| "dump_type (T_Variable c v) = enc_btf_type (comm_btf_type c) @ enc_btf_var v"
| "dump_type (T_FunctionProtocol c ps) = enc_btf_type (comm_btf_type c) @ concat (map enc_btf_param ps)"
| "dump_type (T_Structure c ms) =
     enc_btf_type (comm_btf_type c) @ concat (map (\<lambda>m. enc_btf_member (member m)) ms)"
| "dump_type (T_Union c ms) =
     enc_btf_type (comm_btf_type c) @ concat (map (\<lambda>m. enc_btf_member (member m)) ms)"
| "dump_type (T_Enumeration c es) = enc_btf_type (comm_btf_type c) @ concat (map enc_btf_enum es)"
| "dump_type (T_DataSection c vs) = enc_btf_type (comm_btf_type c) @ concat (map enc_btf_var_secinfo vs)"

section \<open>The integer encoding word\<close>

abbreviation (input) BTF_INT_SIGNED :: u32 where "BTF_INT_SIGNED \<equiv> 1"
abbreviation (input) BTF_INT_CHAR :: u32 where "BTF_INT_CHAR \<equiv> 2"
abbreviation (input) BTF_INT_BOOL :: u32 where "BTF_INT_BOOL \<equiv> 4"

definition btf_int_encoding :: "u32 \<Rightarrow> u32" where
  "btf_int_encoding v = drop_bit 24 (v AND 0x0f000000)"

definition btf_int_offset :: "u32 \<Rightarrow> u32" where
  "btf_int_offset v = drop_bit 16 (v AND 0x00ff0000)"

definition btf_int_bits :: "u32 \<Rightarrow> u32" where
  "btf_int_bits v = v AND 0x000000ff"

text \<open>The list \<open>enc_v\<close> of \<open>fmt::Debug\<close>; \<open>&\<close> binds tighter than \<open>==\<close>.\<close>

definition int_encoding_names :: "u32 \<Rightarrow> string list" where
  "int_encoding_names v =
     (let enc = btf_int_encoding v
      in (if enc AND BTF_INT_SIGNED = 1 then [''SIGNED''] else []) @
         (if enc AND BTF_INT_CHAR = 1 then [''CHAR''] else []) @
         (if enc AND BTF_INT_BOOL = 1 then [''BOOL''] else []))"

section \<open>Names\<close>

text \<open>
  The match arms on a character: \<open>'0'..='9' if i == 0\<close>, then the allowed
  characters, then everything else.
\<close>

definition is_digit :: "nat \<Rightarrow> bool" where "is_digit c \<longleftrightarrow> 48 \<le> c \<and> c \<le> 57"

definition is_word :: "nat \<Rightarrow> bool" where
  "is_word c \<longleftrightarrow> c = 95 \<or> 65 \<le> c \<and> c \<le> 90 \<or> 97 \<le> c \<and> c \<le> 122 \<or> is_digit c"

definition fix_btf_identifier :: "string \<Rightarrow> string" where
  "fix_btf_identifier btf_id =
     map (\<lambda>(i, c). if is_digit c \<and> i = 0 then CHR ''_''
                   else if is_word c then char_of c else CHR ''_'')
       (enumerate 0 (str_chars btf_id))"

definition fix_btf_name :: "string \<Rightarrow> string" where
  "fix_btf_name btf_name =
     map (\<lambda>(i, c). if is_digit c \<and> i = 0 then CHR ''_''
                   else if is_word c \<or> c = 46 then char_of c else CHR ''_'')
       (enumerate 0 (str_chars btf_name))"

definition get_type_name :: "bytes \<Rightarrow> u32 \<Rightarrow> string result" where
  "get_type_name str_bytes name_off =
     (if length str_bytes \<le> unat name_off
      then Err (BTF ''name offset is out of string data'')
      else and_then (cstr_at str_bytes (unat name_off)) (\<lambda>s. Ok (to_string_lossy s)))"

definition fix_name_str_section :: "string \<Rightarrow> btf_type \<Rightarrow> bytes \<Rightarrow> bytes result" where
  "fix_name_str_section name_fix t str_bytes =
     and_then (unwrap (cstring_new name_fix)) (\<lambda>cname_bytes.
       copy_from_slice str_bytes (unat (bt_name_off t)) cname_bytes)"

end
