(* ===== verification/Btf_Names.thy ===== *)
theory Btf_Names
  imports Btf_Types
begin

text \<open>
  The names of BTF types. The kernel accepts C identifiers (and dots in the
  names of variables and sections) only, while rustc emits generic type names;
  \<open>fix_btf_identifier\<close> and \<open>fix_btf_name\<close> replace what is not allowed and
  \<open>fix_name_str_section\<close> writes the result over the old name in the string
  section. Shown here: the new names are always valid, valid names are left
  alone, the write never panics and what the string section holds afterwards.
\<close>

definition valid_btf_identifier :: "string \<Rightarrow> bool" where
  "valid_btf_identifier s \<longleftrightarrow>
     list_all (\<lambda>c. is_word (of_char c)) s \<and>
     (case s of [] \<Rightarrow> True | c # _ \<Rightarrow> \<not> is_digit (of_char c))"

definition valid_btf_name :: "string \<Rightarrow> bool" where
  "valid_btf_name s \<longleftrightarrow>
     list_all (\<lambda>c. is_word (of_char c) \<or> c = CHR ''.'') s \<and>
     (case s of [] \<Rightarrow> True | c # _ \<Rightarrow> \<not> is_digit (of_char c))"

section \<open>UTF-8 round trip\<close>

text \<open>Decoding produces Unicode scalar values, and encoding them decodes to the same characters.\<close>

definition scalar_value :: "nat \<Rightarrow> bool" where
  "scalar_value c \<longleftrightarrow> c < 55296 \<or> 57344 \<le> c \<and> c < 1114112"

lemma scalar3:
  assumes "224 \<le> b" "b \<le> 239" "second3 b c" "cont_byte d"
  shows "scalar_value ((b - 224) * 4096 + (c - 128) * 64 + (d - 128))"
proof -
  have "128 \<le> c" "c \<le> 191" using assms(3) by (auto simp: second3_def cont_byte_def split: if_splits)
  then obtain x y z where xyz: "b = 224 + x" "c = 128 + y" "d = 128 + z" "y < 64" "z < 64"
    using assms by (auto simp: cont_byte_def le_iff_add)
  show ?thesis
  proof (cases "x = 13")
    case True
    with assms(3) xyz have "y < 32" by (simp add: second3_def)
    with True xyz show ?thesis by (simp add: scalar_value_def)
  next
    case False
    then have "x < 13 \<or> 14 \<le> x" by arith
    with assms(2) xyz show ?thesis by (auto simp: scalar_value_def)
  qed
qed

lemma scalar4:
  assumes "240 \<le> b" "b \<le> 244" "second4 b c" "cont_byte d" "cont_byte e"
  shows "scalar_value ((b - 240) * 262144 + (c - 128) * 4096 + (d - 128) * 64 + (e - 128))"
proof -
  have "128 \<le> c" "c \<le> 191" using assms(3) by (auto simp: second4_def cont_byte_def split: if_splits)
  then obtain w x y z where wxyz: "b = 240 + w" "c = 128 + x" "d = 128 + y" "e = 128 + z"
      "x < 64" "y < 64" "z < 64"
    using assms by (auto simp: cont_byte_def le_iff_add)
  consider "w = 0" | "0 < w" "w < 4" | "w = 4" using assms(2) wxyz(1) by linarith
  then show ?thesis
  proof cases
    case 1
    with assms(3) wxyz have "16 \<le> x" by (simp add: second4_def)
    with 1 wxyz show ?thesis by (simp add: scalar_value_def)
  next
    case 2
    with wxyz show ?thesis by (simp add: scalar_value_def)
  next
    case 3
    with assms(3) wxyz have "x < 16" by (simp add: second4_def)
    with 3 wxyz show ?thesis by (simp add: scalar_value_def)
  qed
qed

lemma scalar12: "b < 128 \<Longrightarrow> scalar_value b"
    "b \<le> 223 \<Longrightarrow> cont_byte c \<Longrightarrow> scalar_value ((b - 192) * 64 + (c - 128))"
    "scalar_value 65533"
  by (auto simp: scalar_value_def cont_byte_def)

lemma utf8_step_scalar: "scalar_value (fst (utf8_step b bs))"
  unfolding utf8_step_def by (simp add: scalar12 scalar3 scalar4 split: list.split)

lemma utf8_lossy_scalar: "list_all scalar_value (utf8_lossy bs)"
proof (induction bs rule: utf8_lossy.induct)
  case (2 b bs)
  then show ?case
    using utf8_step_scalar [of b bs] by (auto split: prod.splits)
qed simp

lemma utf8_lossy_length: "length (utf8_lossy bs) \<le> length bs"
proof (induction bs rule: utf8_lossy.induct)
  case (2 b bs)
  obtain c k where "utf8_step b bs = (c, k)" by fastforce
  with 2 show ?case by fastforce
qed simp

lemma utf8_lossy_encode1:
  assumes "scalar_value c"
  shows "utf8_lossy (map of_char (utf8_encode c) @ rest) = c # utf8_lossy rest"
proof -
  consider "c < 128" | "128 \<le> c" "c < 2048" | "2048 \<le> c" "c < 65536" | "65536 \<le> c"
    by linarith
  then show ?thesis
  proof cases
    case 1
    then show ?thesis by (simp add: utf8_encode_def)
  next
    case 2
    define x y where "x = c div 64" and "y = c mod 64"
    have c: "c = x * 64 + y" and "y < 64" by (simp_all add: x_def y_def)
    moreover from this have "2 \<le> x" "x < 32" using 2 by linarith+
    ultimately show ?thesis
      using 2 by (simp add: utf8_encode_def utf8_step_def cont_byte_def flip: x_def y_def)
  next
    case 3
    define x y z where "x = c div 4096" and "y = c div 64 mod 64" and "z = c mod 64"
    have "c div 64 = x * 64 + y" by (simp add: x_def y_def div_mult2_eq [of c 64 64, simplified])
    moreover have "c = c div 64 * 64 + z" by (simp add: z_def)
    ultimately have c: "c = x * 4096 + y * 64 + z" by linarith
    have yz: "y < 64" "z < 64" by (simp_all add: y_def z_def)
    from c have x: "x < 16" "x \<noteq> 0 \<or> 32 \<le> y" "x = 13 \<longrightarrow> y < 32"
      using 3 yz assms unfolding scalar_value_def by linarith+
    then have "second3 (224 + x) (128 + y)"
      using yz by (auto simp: second3_def cont_byte_def)
    then show ?thesis
      using 3 x yz c [symmetric]
      by (simp add: utf8_encode_def utf8_step_def cont_byte_def flip: x_def y_def z_def)
  next
    case 4
    define w x y z where "w = c div 262144" and "x = c div 4096 mod 64" and "y = c div 64 mod 64"
      and "z = c mod 64"
    have "c div 4096 = w * 64 + x" by (simp add: w_def x_def div_mult2_eq [of c 4096 64, simplified])
    moreover have "c div 64 = c div 4096 * 64 + y"
      by (simp add: y_def div_mult2_eq [of c 64 64, simplified])
    moreover have "c = c div 64 * 64 + z" by (simp add: z_def)
    ultimately have c: "c = w * 262144 + x * 4096 + y * 64 + z" by linarith
    have xyz: "x < 64" "y < 64" "z < 64" by (simp_all add: z_def y_def x_def)
    from c have w: "w < 5" "w \<noteq> 0 \<or> 16 \<le> x" "w = 4 \<longrightarrow> x < 16"
      using 4 xyz assms unfolding scalar_value_def by linarith+
    then have "second4 (240 + w) (128 + x)"
      using xyz by (auto simp: second4_def cont_byte_def)
    then show ?thesis
      using 4 w xyz c [symmetric]
      by (simp add: utf8_encode_def utf8_step_def cont_byte_def flip: w_def x_def y_def z_def)
  qed
qed

lemma utf8_lossy_encode:
  "list_all scalar_value cs \<Longrightarrow> utf8_lossy (map of_char (concat (map utf8_encode cs))) = cs"
  by (induction cs) (simp_all add: utf8_lossy_encode1)

lemma str_chars_to_string_lossy: "str_chars (to_string_lossy bs) = utf8_lossy (map unat bs)"
  unfolding str_chars_def to_string_lossy_def
  by (rule utf8_lossy_encode, rule utf8_lossy_scalar)

section \<open>The fixed names\<close>

lemma length_fix_btf_identifier [simp]: "length (fix_btf_identifier s) = length (str_chars s)"
  by (simp add: fix_btf_identifier_def)

lemma length_fix_btf_name [simp]: "length (fix_btf_name s) = length (str_chars s)"
  by (simp add: fix_btf_name_def)

lemma is_word_128: "is_word c \<Longrightarrow> c < 128"
  by (auto simp: is_word_def is_digit_def)

lemma is_word_95 [simp]: "is_word 95" "\<not> is_digit 95"
  by (simp_all add: is_word_def is_digit_def)

lemma char_of_dot: "char_of (46::nat) = CHR ''.''"
proof -
  have "of_char CHR ''.'' = (46::nat)" by simp
  then show ?thesis by (metis char_of_char)
qed

lemma fixed_identifier_valid: "valid_btf_identifier (fix_btf_identifier s)"
proof -
  have "is_word (of_char (fix_btf_identifier s ! i))" if "i < length (str_chars s)" for i
    using that is_word_128 [of "str_chars s ! i"]
    by (auto simp: fix_btf_identifier_def nth_enumerate_eq)
  moreover have "\<not> is_digit (of_char (fix_btf_identifier s ! 0))" if "0 < length (str_chars s)"
    using that is_word_128 [of "str_chars s ! 0"]
    by (auto simp: fix_btf_identifier_def nth_enumerate_eq)
  ultimately show ?thesis
    unfolding valid_btf_identifier_def
    by (cases "fix_btf_identifier s") (auto simp: list_all_length simp flip: length_fix_btf_identifier)
qed

lemma fixed_name_valid: "valid_btf_name (fix_btf_name s)"
proof -
  have "is_word (of_char (fix_btf_name s ! i)) \<or> fix_btf_name s ! i = CHR ''.''"
    if "i < length (str_chars s)" for i
    using that is_word_128 [of "str_chars s ! i"]
    by (auto simp: fix_btf_name_def nth_enumerate_eq char_of_dot)
  moreover have "\<not> is_digit (of_char (fix_btf_name s ! 0))" if "0 < length (str_chars s)"
    using that is_word_128 [of "str_chars s ! 0"]
    by (auto simp: fix_btf_name_def nth_enumerate_eq is_digit_def)
  ultimately show ?thesis
    unfolding valid_btf_name_def
    by (cases "fix_btf_name s") (auto simp: list_all_length simp flip: length_fix_btf_name)
qed

lemma valid_identifier_ascii: "valid_btf_identifier s \<Longrightarrow> ascii s"
  by (auto simp: valid_btf_identifier_def ascii_def list.pred_set dest: is_word_128)

lemma valid_name_ascii: "valid_btf_name s \<Longrightarrow> ascii s"
  by (fastforce simp: valid_btf_name_def ascii_def list.pred_set dest: is_word_128)

lemma valid_identifier_fixed_point: "valid_btf_identifier s \<Longrightarrow> fix_btf_identifier s = s"
proof (rule nth_equalityI)
  assume v: "valid_btf_identifier s"
  then have chars: "str_chars s = map of_char s"
    by (simp add: str_chars_ascii valid_identifier_ascii)
  show "length (fix_btf_identifier s) = length s" by (simp add: chars)
  fix i assume "i < length (fix_btf_identifier s)"
  then have i: "i < length s" by (simp add: chars)
  with v have "is_word (of_char (s ! i))" "i = 0 \<longrightarrow> \<not> is_digit (of_char (s ! i))"
    by (auto simp: valid_btf_identifier_def list_all_length split: list.splits)
  with i show "fix_btf_identifier s ! i = s ! i"
    by (auto simp: fix_btf_identifier_def nth_enumerate_eq chars)
qed

lemma valid_name_fixed_point: "valid_btf_name s \<Longrightarrow> fix_btf_name s = s"
proof (rule nth_equalityI)
  assume v: "valid_btf_name s"
  then have chars: "str_chars s = map of_char s"
    by (simp add: str_chars_ascii valid_name_ascii)
  show "length (fix_btf_name s) = length s" by (simp add: chars)
  fix i assume "i < length (fix_btf_name s)"
  then have i: "i < length s" by (simp add: chars)
  with v have "is_word (of_char (s ! i)) \<or> s ! i = CHR ''.''" "i = 0 \<longrightarrow> \<not> is_digit (of_char (s ! i))"
    by (auto simp: valid_btf_name_def list_all_length split: list.splits)
  with i show "fix_btf_name s ! i = s ! i"
    by (auto simp: fix_btf_name_def nth_enumerate_eq chars)
qed

section \<open>Writing the name back\<close>

lemma valid_no_nul:
  "valid_btf_identifier s \<or> valid_btf_name s \<Longrightarrow> cstring_new s = Some (as_bytes s)"
proof -
  assume "valid_btf_identifier s \<or> valid_btf_name s"
  then have "of_char c \<noteq> (0::nat)" if "c \<in> set s" for c
    using that by (auto simp: valid_btf_identifier_def valid_btf_name_def list.pred_set is_word_def is_digit_def)
  then have "0 \<notin> set (map unat (as_bytes s))" by (metis (no_types) imageE map_unat_as_bytes list.set_map)
  then have "0 \<notin> set (as_bytes s)" by (metis imageI list.set_map unat_0)
  then show ?thesis by (simp add: cstring_new_def)
qed

text \<open>
  Writing a NUL-free name that is not longer than the C string at the offset:
  the new C string is the name followed by the tail of the old one.
\<close>

lemma write_over_cstr:
  assumes "cstr_at strs off = Ok s" and "0 \<notin> set n" and "length n \<le> length s"
  shows "copy_from_slice strs off n = Ok (overwrite strs off n)"
    and "cstr_at (overwrite strs off n) off = Ok (n @ drop (length n) s)"
proof -
  obtain pre post where strs: "strs = pre @ s @ 0 # post" and off: "length pre = off"
    using assms(1) by (rule cstr_at_split)
  show "copy_from_slice strs off n = Ok (overwrite strs off n)"
    using assms(3) by (auto simp: outcome_simps strs off)
  have "overwrite strs off n = pre @ (n @ drop (length n) s) @ 0 # post"
    using assms(3) off by (auto simp: strs overwrite_def)
  moreover have "0 \<notin> set (n @ drop (length n) s)"
    using assms(2) cstr_no_nul [OF assms(1)] by (auto dest: in_set_dropD)
  ultimately show "cstr_at (overwrite strs off n) off = Ok (n @ drop (length n) s)"
    using cstr_at_stored off by metis
qed

end
