(* ===== verification/Btf_Parse.thy ===== *)
theory Btf_Parse
  imports Btf_Names
begin

text \<open>
  Parsing and dumping a \<open>.BTF\<close> section: \<open>BtfTypeCommon::parse\<close>,
  \<open>BtfType::parse\<close>, \<open>BTF::parse_types\<close>, \<open>BTF::parse_raw\<close>, \<open>BTF::dump\<close>
  and \<open>BTF::load\<close> of \<open>redbpf/src/btf.rs\<close>. Parsing rewrites names in place,
  so the functions return the changed string section. The lemmas show that
  parsing consumes exactly the bytes dumping produces, that the loop numbers the
  types from 1, and the two round trips.
\<close>

section \<open>Parsing one type\<close>

definition parse_common :: "bytes \<Rightarrow> bytes \<Rightarrow> BtfTypeCommon result" where
  "parse_common bs str_bytes =
     and_then (read_raw dec_btf_type 12 bs 0) (\<lambda>t.
     and_then (get_type_name str_bytes (bt_name_off t)) (\<lambda>name.
     Ok \<lparr>comm_btf_type = t, name_fixed = None, name_raw = name\<rparr>))"

text \<open>The closure that names a member: a name that cannot be read becomes empty.\<close>

definition name_member :: "bytes \<Rightarrow> btf_member \<Rightarrow> BtfMember result" where
  "name_member str_bytes memb =
     and_then (or_else_val (get_type_name str_bytes (bm_name_off memb)) [])
       (\<lambda>name. Ok \<lparr>member = memb, memb_name = name\<rparr>)"

text \<open>\<open>read_extra\<close> and \<open>read_multiple_extra\<close> read behind the \<open>btf_type\<close>.\<close>

definition read_extra :: "(bytes \<Rightarrow> 'a) \<Rightarrow> nat \<Rightarrow> bytes \<Rightarrow> 'a result" where
  "read_extra dec sz data = read_raw dec sz data 12"

definition read_multiple_extra :: "(bytes \<Rightarrow> 'a) \<Rightarrow> nat \<Rightarrow> bytes \<Rightarrow> u32 \<Rightarrow> 'a list result" where
  "read_multiple_extra dec sz data vlen = read_array dec sz data 12 (unat vlen)"

definition read_members :: "bytes \<Rightarrow> bytes \<Rightarrow> u32 \<Rightarrow> BtfMember list result" where
  "read_members bs str_bytes vlen =
     and_then (read_multiple_extra dec_btf_member 12 bs vlen) (try_map (name_member str_bytes))"

text \<open>The first \<open>match\<close> of \<open>BtfType::parse\<close>.\<close>

fun parse_variant :: "bytes \<Rightarrow> bytes \<Rightarrow> BtfTypeCommon \<Rightarrow> BtfKind \<Rightarrow> BtfType result" where
  "parse_variant bs strs c K_Integer =
     and_then (read_extra word_of_le 4 bs) (\<lambda>i. Ok (T_Integer c i))"
| "parse_variant bs strs c K_Pointer = Ok (T_Pointer c)"
| "parse_variant bs strs c K_Array =
     and_then (read_extra dec_btf_array 12 bs) (\<lambda>a. Ok (T_Array c a))"
| "parse_variant bs strs c K_Structure =
     and_then (read_members bs strs (comm_vlen c)) (\<lambda>ms. Ok (T_Structure c ms))"
| "parse_variant bs strs c K_Union =
     and_then (read_members bs strs (comm_vlen c)) (\<lambda>ms. Ok (T_Union c ms))"
| "parse_variant bs strs c K_Enumeration =
     and_then (read_multiple_extra dec_btf_enum 8 bs (comm_vlen c)) (\<lambda>es. Ok (T_Enumeration c es))"
| "parse_variant bs strs c K_Forward = Ok (T_Forward c)"
| "parse_variant bs strs c K_TypeDef = Ok (T_TypeDef c)"
| "parse_variant bs strs c K_Volatile = Ok (T_Volatile c)"
| "parse_variant bs strs c K_Constant = Ok (T_Constant c)"
| "parse_variant bs strs c K_Restrict = Ok (T_Restrict c)"
| "parse_variant bs strs c K_Function = Ok (T_Function c)"
| "parse_variant bs strs c K_FunctionProtocol =
     and_then (read_multiple_extra dec_btf_param 8 bs (comm_vlen c))
       (\<lambda>ps. Ok (T_FunctionProtocol c ps))"
| "parse_variant bs strs c K_Variable =
     and_then (read_extra dec_btf_var 4 bs) (\<lambda>v. Ok (T_Variable c v))"
| "parse_variant bs strs c K_DataSection =
     and_then (read_multiple_extra dec_btf_var_secinfo 12 bs (comm_vlen c))
       (\<lambda>vs. Ok (T_DataSection c vs))"
| "parse_variant bs strs c K_FloatingPoint = Ok (T_FloatingPoint c)"
| "parse_variant bs strs c K_Unknown = Err (BTF ''Unknown BTF type'')"

text \<open>
  The four arms of the second \<open>match\<close>: a kind that must have a name (with the
  identifier rule or the dotted rule), a kind that must not have one, and a kind
  that may have one.
\<close>

definition store_fixed :: "string \<Rightarrow> BtfTypeCommon \<Rightarrow> bytes \<Rightarrow> (BtfTypeCommon \<times> bytes) result" where
  "store_fixed nf c strs =
     and_then (if nf \<noteq> name_raw c then fix_name_str_section nf (comm_btf_type c) strs else Ok strs)
       (\<lambda>strs'. Ok (c\<lparr>name_fixed := Some nf\<rparr>, strs'))"

definition must_name ::
    "(string \<Rightarrow> string) \<Rightarrow> string \<Rightarrow> BtfTypeCommon \<Rightarrow> bytes \<Rightarrow> (BtfTypeCommon \<times> bytes) result" where
  "must_name fixer typestr c strs =
     (if bt_name_off (comm_btf_type c) = 0 then Err (BTF (typestr @ '' must have a name''))
      else store_fixed (fixer (name_raw c)) c strs)"

definition erase_name :: "BtfTypeCommon \<Rightarrow> BtfTypeCommon" where
  "erase_name c =
     (if bt_name_off (comm_btf_type c) \<noteq> 0
      then c\<lparr>name_fixed := None, comm_btf_type := (comm_btf_type c)\<lparr>bt_name_off := 0\<rparr>\<rparr>
      else c)"

definition may_name :: "BtfTypeCommon \<Rightarrow> bytes \<Rightarrow> (BtfTypeCommon \<times> bytes) result" where
  "may_name c strs =
     (if bt_name_off (comm_btf_type c) \<noteq> 0
      then store_fixed (fix_btf_identifier (name_raw c)) c strs else Ok (c, strs))"

definition rebuild ::
    "(BtfTypeCommon \<Rightarrow> BtfType) \<Rightarrow> (BtfTypeCommon \<times> bytes) result \<Rightarrow> (BtfType \<times> bytes) result" where
  "rebuild T r = and_then r (\<lambda>(c, strs). Ok (T c, strs))"

fun fix_type_name :: "BtfType \<Rightarrow> bytes \<Rightarrow> (BtfType \<times> bytes) result" where
  "fix_type_name (T_TypeDef c) strs =
     rebuild T_TypeDef (must_name fix_btf_identifier (type_str (T_TypeDef c)) c strs)"
| "fix_type_name (T_Forward c) strs =
     rebuild T_Forward (must_name fix_btf_identifier (type_str (T_Forward c)) c strs)"
| "fix_type_name (T_Function c) strs =
     rebuild T_Function (must_name fix_btf_identifier (type_str (T_Function c)) c strs)"
| "fix_type_name (T_Variable c v) strs =
     rebuild (\<lambda>c. T_Variable c v) (must_name fix_btf_name (type_str (T_Variable c v)) c strs)"
| "fix_type_name (T_DataSection c vs) strs =
     rebuild (\<lambda>c. T_DataSection c vs) (must_name fix_btf_name (type_str (T_DataSection c vs)) c strs)"
| "fix_type_name (T_Pointer c) strs = Ok (T_Pointer (erase_name c), strs)"
| "fix_type_name (T_Volatile c) strs = Ok (T_Volatile (erase_name c), strs)"
| "fix_type_name (T_Constant c) strs = Ok (T_Constant (erase_name c), strs)"
| "fix_type_name (T_Restrict c) strs = Ok (T_Restrict (erase_name c), strs)"
| "fix_type_name (T_Array c a) strs = Ok (T_Array (erase_name c) a, strs)"
| "fix_type_name (T_FunctionProtocol c ps) strs = Ok (T_FunctionProtocol (erase_name c) ps, strs)"
| "fix_type_name (T_Structure c ms) strs = rebuild (\<lambda>c. T_Structure c ms) (may_name c strs)"
| "fix_type_name (T_Union c ms) strs = rebuild (\<lambda>c. T_Union c ms) (may_name c strs)"
| "fix_type_name (T_Enumeration c es) strs = rebuild (\<lambda>c. T_Enumeration c es) (may_name c strs)"
| "fix_type_name (T_Integer c i) strs = rebuild (\<lambda>c. T_Integer c i) (may_name c strs)"
| "fix_type_name (T_FloatingPoint c) strs = rebuild T_FloatingPoint (may_name c strs)"

definition parse_type :: "bytes \<Rightarrow> bytes \<Rightarrow> (BtfType \<times> bytes) result" where
  "parse_type bs str_bytes =
     and_then (parse_common bs str_bytes) (\<lambda>comm.
     and_then (comm_kind comm) (\<lambda>kind.
     and_then (parse_variant bs str_bytes comm kind) (\<lambda>ty.
     fix_type_name ty str_bytes)))"

section \<open>Parsing all types\<close>

lemma byte_len_ge [simp]: "12 \<le> byte_len ty"
  by (cases ty) auto

text \<open>The \<open>while remain.len() > 0\<close> loop of \<open>parse_types\<close>.\<close>

function parse_types_loop ::
    "u32 \<Rightarrow> bytes \<Rightarrow> bytes \<Rightarrow> ((u32 \<times> BtfType) list \<times> bytes) result" where
  "parse_types_loop type_id remain strs =
     (if remain = [] then Ok ([], strs)
      else and_then (parse_type remain strs) (\<lambda>r.
           and_then (uadd type_id 1) (\<lambda>next_id.
           and_then (slice_from remain (byte_len (fst r))) (\<lambda>rest.
           and_then (parse_types_loop next_id rest (snd r)) (\<lambda>q.
           Ok ((type_id, fst r) # fst q, snd q))))))"
  by pat_completeness auto
termination
proof (relation "measure (\<lambda>(type_id, remain, strs). length remain)")
  fix type_id next_id :: u32 and remain strs rest :: bytes and r :: "BtfType \<times> bytes"
  assume "remain \<noteq> []" and "(slice_from remain (byte_len (fst r)) :: bytes result) = Ok rest"
  then have "length rest < length remain"
    using byte_len_ge [of "fst r"] by (auto simp: outcome_simps simp del: byte_len_ge)
  then show "((next_id, rest, snd r), type_id, remain, strs)
      \<in> measure (\<lambda>(type_id, remain, strs). length remain)"
    by simp
qed simp

declare parse_types_loop.simps [simp del]

definition parse_types :: "bytes \<Rightarrow> bytes \<Rightarrow> ((u32 \<times> BtfType) list \<times> bytes) result" where
  "parse_types btf_type_enc btf_str_enc = parse_types_loop 1 btf_type_enc btf_str_enc"

section \<open>The whole section\<close>

record BTF_data =
  types :: "(u32 \<times> BtfType) list"
  btf_hdr :: btf_header
  raw_str_enc :: bytes
  btf_fd_opt :: "RawFd option"

definition parse_raw :: "bytes \<Rightarrow> BTF_data result" where
  "parse_raw bs =
     (if length bs < 24 then Err (BTF ''BTF section data size is too small'')
      else and_then (read_raw dec_btf_header 24 bs 0) (\<lambda>h.
        if magic h \<noteq> BTF_MAGIC then Err (BTF ''illegal magic. not a valid BTF section'')
        else if version h \<noteq> 1
          then Err (BTF (''unsupported BTF version: '' @ show_nat (unat (version h))))
        else and_then (uadd (hdr_len h) (str_off h)) (\<lambda>hs.
             and_then (uadd hs (str_len h)) (\<lambda>total.
               if unat total \<noteq> length bs then Err (BTF ''invalid binary data length'')
               else and_then (uadd (hdr_len h) (type_off h)) (\<lambda>tstart.
                    and_then (slice bs (unat tstart) (unat tstart + unat (type_len h))) (\<lambda>raw_type_enc.
                    and_then (slice bs (unat hs) (unat hs + unat (str_len h))) (\<lambda>raw_str.
                    and_then (parse_types raw_type_enc raw_str) (\<lambda>q.
                    Ok \<lparr>types = fst q, btf_hdr = h, raw_str_enc = snd q, btf_fd_opt = None\<rparr>))))))))"

text \<open>
  \<open>BTF::dump\<close>. Each type is written into \<open>byte_len\<close> reserved bytes whose
  length is then set: a vector that disagrees with \<open>vlen\<close> would write past the
  reservation or expose uninitialised bytes.
\<close>

fun dump_types :: "(u32 \<times> BtfType) list \<Rightarrow> bytes result" where
  "dump_types [] = Ok []"
| "dump_types ((_, ty) # tys) =
     (if length (dump_type ty) \<noteq> byte_len ty then Undefined
      else and_then (dump_types tys) (\<lambda>rest. Ok (dump_type ty @ rest)))"

definition dump :: "BTF_data \<Rightarrow> bytes result" where
  "dump btf =
     (let h = btf_hdr btf;
          head = enc_btf_header h @ replicate (unat (type_off h)) 0
      in and_then (dump_types (types btf)) (\<lambda>tbytes.
         let raw = head @ tbytes
         in and_then (uadd (type_off h) (type_len h)) (\<lambda>tend.
            if length raw \<noteq> 24 + unat tend
            then Err (BTF ''failed to dump BTF types. length mismatch'')
            else if 24 + unat (str_off h) < length raw
            then Err (BTF ''invalid BTF string section offset'')
            else
              let raw2 = raw @ replicate (24 + unat (str_off h) - length raw) 0 @ raw_str_enc btf
              in and_then (uadd (str_off h) (str_len h)) (\<lambda>send.
                 if 24 + unat send \<noteq> length raw2
                 then Err (BTF ''failed to dump BTF string section. length mismatch'')
                 else Ok raw2))))"

definition is_loaded :: "BTF_data \<Rightarrow> bool" where
  "is_loaded btf \<longleftrightarrow> btf_fd_opt btf \<noteq> None"

text \<open>
  \<open>BTF::load\<close>. The system call \<open>bpf_load_btf\<close> is a parameter: it takes the
  bytes and returns a file descriptor (negative on failure), \<open>errno\<close> and the log
  text, which is converted by \<open>to_str().unwrap()\<close> when the call failed.
\<close>

definition load_btf :: "(bytes \<Rightarrow> int \<times> int \<times> bytes) \<Rightarrow> BTF_data \<Rightarrow> BTF_data result" where
  "load_btf bpf_load_btf btf =
     (if is_loaded btf then Err (BTF ''BTF already loaded'')
      else and_then (dump btf) (\<lambda>raw_bytes.
        case bpf_load_btf raw_bytes of
          (fd, errno, log) \<Rightarrow>
            if fd < 0 then and_then (unwrap (to_str log)) (\<lambda>_. Err (IO (OsError errno)))
            else Ok (btf\<lparr>btf_fd_opt := Some fd\<rparr>)))"

text \<open>\<open>parse_vmlinux_btf\<close>; the content of the file is a parameter.\<close>

definition parse_vmlinux_btf :: "(string \<Rightarrow> (io_error, bytes) outcome) \<Rightarrow> BTF_data result" where
  "parse_vmlinux_btf fs_read =
     (case fs_read ''/sys/kernel/btf/vmlinux'' of
        Ok bs \<Rightarrow> parse_raw bs
      | Err e \<Rightarrow> Err (IO e)
      | Panic \<Rightarrow> Panic
      | Undefined \<Rightarrow> Undefined)"

section \<open>What parsing reads is what dumping writes\<close>

lemma read_members_raw:
  "read_members bs strs vlen = Ok ms \<Longrightarrow>
   read_multiple_extra dec_btf_member 12 bs vlen = Ok (map member ms)"
proof -
  assume "read_members bs strs vlen = Ok ms"
  then obtain raws where raws: "read_multiple_extra dec_btf_member 12 bs vlen = Ok raws"
    and ms: "list_all2 (\<lambda>r m. name_member strs r = Ok m) raws ms"
    by (auto simp: read_members_def outcome_simps try_map_Ok_iff)
  from ms have "map member ms = raws"
    by (induction raws ms rule: list_all2_induct) (auto simp: name_member_def outcome_simps)
  with raws show ?thesis by simp
qed

context byte_codec
begin

lemma read_multiple_extra_bytes:
  assumes "read_multiple_extra dec sz bs v = Ok xs" and "12 \<le> length bs"
  shows "concat (map enc xs) = take (unat v * sz) (drop 12 bs) \<and> 12 + unat v * sz \<le> length bs"
  using read_array_bytes [of bs 12 "unat v" xs] assms by (auto simp: read_multiple_extra_def)

lemma read_extra_bytes:
  "read_extra dec sz bs = Ok x \<Longrightarrow> enc x = take sz (drop 12 bs) \<and> 12 + sz \<le> length bs"
  by (auto simp: read_extra_def outcome_simps enc_dec)

end

lemma read_members_bytes:
  assumes "read_members bs strs vlen = Ok ms" and "12 \<le> length bs"
  shows "concat (map (\<lambda>m. enc_btf_member (member m)) ms) = take (unat vlen * 12) (drop 12 bs) \<and>
    12 + unat vlen * 12 \<le> length bs"
  using membc.read_multiple_extra_bytes [OF read_members_raw [OF assms(1)] assms(2)]
  by (simp add: comp_def)

lemma parse_variant_dump:
  assumes "parse_variant bs strs c k = Ok ty" and "12 \<le> length bs"
  shows "btf_common ty = c \<and> byte_len ty \<le> length bs \<and>
    dump_type ty = enc_btf_type (comm_btf_type c) @ take (byte_len ty - 12) (drop 12 bs)"
proof (cases k)
  case K_Integer
  then show ?thesis using assms by (auto simp: and_then_eq_Ok dest!: u32c.read_extra_bytes)
next
  case K_Array
  then show ?thesis using assms by (auto simp: and_then_eq_Ok dest!: arrc.read_extra_bytes)
next
  case K_Variable
  then show ?thesis using assms by (auto simp: and_then_eq_Ok dest!: varc.read_extra_bytes)
next
  case K_Structure
  then show ?thesis using assms by (auto simp: and_then_eq_Ok dest!: read_members_bytes)
next
  case K_Union
  then show ?thesis using assms by (auto simp: and_then_eq_Ok dest!: read_members_bytes)
next
  case K_Enumeration
  then show ?thesis using assms by (auto simp: and_then_eq_Ok dest!: enumc.read_multiple_extra_bytes)
next
  case K_FunctionProtocol
  then show ?thesis using assms by (auto simp: and_then_eq_Ok dest!: paramc.read_multiple_extra_bytes)
next
  case K_DataSection
  then show ?thesis using assms by (auto simp: and_then_eq_Ok dest!: vsic.read_multiple_extra_bytes)
qed (use assms in auto)

text \<open>Fixing a name changes the name offset of the header at most, and keeps the table's length.\<close>

definition same_but_name :: "BtfTypeCommon \<Rightarrow> BtfTypeCommon \<Rightarrow> bool" where
  "same_but_name c c' \<longleftrightarrow>
     bt_info (comm_btf_type c') = bt_info (comm_btf_type c) \<and>
     bt_size_type (comm_btf_type c') = bt_size_type (comm_btf_type c) \<and>
     bt_name_off (comm_btf_type c') \<in> {bt_name_off (comm_btf_type c), 0} \<and>
     name_raw c' = name_raw c"

lemma store_fixed_Ok:
  "store_fixed nf c strs = Ok (c', strs') \<Longrightarrow>
   c' = c\<lparr>name_fixed := Some nf\<rparr> \<and> length strs' = length strs"
  by (auto simp: store_fixed_def fix_name_str_section_def outcome_simps split: if_splits)

lemma rebuild_eq_Ok [outcome_simps]:
  "rebuild T r = Ok q \<longleftrightarrow> (\<exists>c s. r = Ok (c, s) \<and> q = (T c, s))"
  by (auto simp: rebuild_def outcome_simps)

lemma must_name_Ok:
  "must_name f ts c strs = Ok (c', strs') \<Longrightarrow>
   same_but_name c c' \<and> length strs' = length strs \<and> comm_btf_type c' = comm_btf_type c"
  by (auto simp: must_name_def same_but_name_def dest!: store_fixed_Ok split: if_splits)

lemma may_name_Ok:
  "may_name c strs = Ok (c', strs') \<Longrightarrow>
   same_but_name c c' \<and> length strs' = length strs \<and> comm_btf_type c' = comm_btf_type c"
  by (auto simp: may_name_def same_but_name_def dest!: store_fixed_Ok split: if_splits)

lemma erase_name_same: "same_but_name c (erase_name c)"
  by (simp add: erase_name_def same_but_name_def)

lemma same_but_name_vlen: "same_but_name c c' \<Longrightarrow> comm_vlen c' = comm_vlen c \<and> comm_kind c' = comm_kind c"
  by (simp add: same_but_name_def comm_vlen_def comm_kind_def comm_kind_bits_def)

lemma erase_name_vlen [simp]: "comm_vlen (erase_name c) = comm_vlen c" "comm_kind (erase_name c) = comm_kind c"
  using same_but_name_vlen [OF erase_name_same] by auto

lemma fix_type_name_dump:
  assumes "fix_type_name ty strs = Ok (ty', strs')"
  shows "same_but_name (btf_common ty) (btf_common ty') \<and> length strs' = length strs \<and>
    byte_len ty' = byte_len ty \<and> length (dump_type ty') = length (dump_type ty) \<and>
    drop 12 (dump_type ty') = drop 12 (dump_type ty)"
  using assms erase_name_same
  by (cases ty) (auto simp: rebuild_eq_Ok same_but_name_vlen dest!: must_name_Ok may_name_Ok)


lemma parse_common_Ok:
  "parse_common bs strs = Ok c \<Longrightarrow>
   12 \<le> length bs \<and> enc_btf_type (comm_btf_type c) = take 12 bs"
  by (auto simp: parse_common_def outcome_simps typec.enc_dec)

lemma dump_type_head: "dump_type ty = enc_btf_type (comm_btf_type (btf_common ty)) @ drop 12 (dump_type ty)"
  by (cases ty) auto

lemma parse_type_dump:
  assumes "parse_type bs strs = Ok (ty, strs')"
  shows "length (dump_type ty) = byte_len ty" and "byte_len ty \<le> length bs"
    and "drop 12 (dump_type ty) = take (byte_len ty - 12) (drop 12 bs)"
    and "length strs' = length strs"
    and "same_but_name \<lparr>comm_btf_type = dec_btf_type (take 12 bs), name_fixed = None,
          name_raw = name_raw (btf_common ty)\<rparr> (btf_common ty)"
proof -
  from assms obtain c k ty0 where c: "parse_common bs strs = Ok c"
    and v: "parse_variant bs strs c k = Ok ty0" and f: "fix_type_name ty0 strs = Ok (ty, strs')"
    by (auto simp: parse_type_def outcome_simps)
  note len = parse_common_Ok [OF c]
  note pv = parse_variant_dump [OF v]
  note fx = fix_type_name_dump [OF f]
  have d0: "length (dump_type ty0) = byte_len ty0"
    using pv len byte_len_ge [of ty0] by (auto simp: min_def simp del: byte_len_ge)
  then show "length (dump_type ty) = byte_len ty" using fx by simp
  show "byte_len ty \<le> length bs" using fx pv len by simp
  show "drop 12 (dump_type ty) = take (byte_len ty - 12) (drop 12 bs)" using fx pv len by simp
  show "length strs' = length strs" using fx by simp
  have "comm_btf_type c = dec_btf_type (take 12 bs)"
    using len by (metis typec.dec_enc)
  then show "same_but_name \<lparr>comm_btf_type = dec_btf_type (take 12 bs), name_fixed = None,
      name_raw = name_raw (btf_common ty)\<rparr> (btf_common ty)"
    using fx pv len by (simp add: same_but_name_def)
qed

section \<open>The loop\<close>

lemma parse_types_loop_Cons:
  assumes "parse_types_loop tid bs strs = Ok (tys, strs')" and "bs \<noteq> []"
  obtains ty strs1 tys' where "parse_type bs strs = Ok (ty, strs1)"
    and "byte_len ty \<le> length bs" and "unat tid + 1 < 2 ^ 32" and "tys = (tid, ty) # tys'"
    and "parse_types_loop (tid + 1) (drop (byte_len ty) bs) strs1 = Ok (tys', strs')"
  using assms by (subst (asm) parse_types_loop.simps) (auto simp: outcome_simps)

lemma parse_types_loop_induct [consumes 1, case_names nil cons]:
  assumes ok: "parse_types_loop tid bs strs = Ok (tys, strs')"
    and nil: "\<And>tid strs. P tid [] strs [] strs"
    and cons: "\<And>tid bs strs ty strs1 tys strs'. parse_type bs strs = Ok (ty, strs1) \<Longrightarrow>
      bs \<noteq> [] \<Longrightarrow> byte_len ty \<le> length bs \<Longrightarrow> unat tid + 1 < 2 ^ 32 \<Longrightarrow>
      parse_types_loop (tid + 1) (drop (byte_len ty) bs) strs1 = Ok (tys, strs') \<Longrightarrow>
      P (tid + 1) (drop (byte_len ty) bs) strs1 tys strs' \<Longrightarrow>
      P tid bs strs ((tid, ty) # tys) strs'"
  shows "P tid bs strs tys strs'"
  using ok
proof (induction "length bs" arbitrary: tid bs strs tys rule: less_induct)
  case less
  show ?case
  proof (cases "bs = []")
    case True
    with less.prems nil show ?thesis by (simp add: parse_types_loop.simps)
  next
    case False
    with less.prems obtain ty strs1 tys' where p: "parse_type bs strs = Ok (ty, strs1)"
      and l: "byte_len ty \<le> length bs" and t: "unat tid + 1 < 2 ^ 32" and tys: "tys = (tid, ty) # tys'"
      and rest: "parse_types_loop (tid + 1) (drop (byte_len ty) bs) strs1 = Ok (tys', strs')"
      by (rule parse_types_loop_Cons)
    have "length (drop (byte_len ty) bs) < length bs"
      using False byte_len_ge [of ty] by (simp del: byte_len_ge)
    then have "P (tid + 1) (drop (byte_len ty) bs) strs1 tys' strs'"
      using rest by (rule less.hyps)
    with cons p False l t rest show ?thesis unfolding tys by blast
  qed
qed

lemma parse_types_loop_dump:
  assumes "parse_types_loop tid bs strs = Ok (tys, strs')"
  shows "\<exists>d. dump_types tys = Ok d \<and> length d = length bs \<and> length strs' = length strs"
  using assms
proof (induction rule: parse_types_loop_induct)
  case (cons tid bs strs ty strs1 tys strs')
  then show ?case using parse_type_dump [of bs strs ty strs1] by auto
qed simp

text \<open>The identifiers are consecutive, so a type's identifier is its position.\<close>

fun consecutive :: "nat \<Rightarrow> (u32 \<times> 'a) list \<Rightarrow> bool" where
  "consecutive n [] = True"
| "consecutive n ((i, _) # xs) = (unat i = n \<and> consecutive (Suc n) xs)"

lemma parse_types_loop_ids:
  assumes "parse_types_loop tid bs strs = Ok (tys, strs')"
  shows "consecutive (unat tid) tys \<and> unat tid + length tys < 2 ^ 32"
  using assms
proof (induction rule: parse_types_loop_induct)
  case (nil tid strs)
  then show ?case by (simp add: unat_u32_less)
next
  case (cons tid bs strs ty strs1 tys strs')
  have "unat (tid + 1) = Suc (unat tid)"
    using cons by (simp add: unat_word_ariths)
  with cons show ?case by simp
qed

section \<open>Round trip\<close>

fun kind_of :: "BtfType \<Rightarrow> BtfKind" where
  "kind_of (T_Integer _ _) = K_Integer"
| "kind_of (T_Pointer _) = K_Pointer"
| "kind_of (T_Array _ _) = K_Array"
| "kind_of (T_Structure _ _) = K_Structure"
| "kind_of (T_Union _ _) = K_Union"
| "kind_of (T_Enumeration _ _) = K_Enumeration"
| "kind_of (T_Forward _) = K_Forward"
| "kind_of (T_TypeDef _) = K_TypeDef"
| "kind_of (T_Volatile _) = K_Volatile"
| "kind_of (T_Constant _) = K_Constant"
| "kind_of (T_Restrict _) = K_Restrict"
| "kind_of (T_Function _) = K_Function"
| "kind_of (T_FunctionProtocol _ _) = K_FunctionProtocol"
| "kind_of (T_Variable _ _) = K_Variable"
| "kind_of (T_DataSection _ _) = K_DataSection"
| "kind_of (T_FloatingPoint _) = K_FloatingPoint"

fun members_of :: "BtfType \<Rightarrow> BtfMember list" where
  "members_of (T_Structure _ ms) = ms"
| "members_of (T_Union _ ms) = ms"
| "members_of _ = []"

text \<open>
  A type as the parser leaves it when it has nothing to fix: its kind bits name
  its variant, \<open>vlen\<close> is the length of its vector, its name is in the string
  section and already acceptable to the kernel.
\<close>

definition named_ok :: "(string \<Rightarrow> bool) \<Rightarrow> BtfTypeCommon \<Rightarrow> bool" where
  "named_ok valid c \<longleftrightarrow>
     bt_name_off (comm_btf_type c) \<noteq> 0 \<and> valid (name_raw c) \<and> name_fixed c = Some (name_raw c)"

definition unnamed_ok :: "BtfTypeCommon \<Rightarrow> bool" where
  "unnamed_ok c \<longleftrightarrow> bt_name_off (comm_btf_type c) = 0 \<and> name_fixed c = None"

fun name_ok :: "BtfType \<Rightarrow> bool" where
  "name_ok (T_TypeDef c) = named_ok valid_btf_identifier c"
| "name_ok (T_Forward c) = named_ok valid_btf_identifier c"
| "name_ok (T_Function c) = named_ok valid_btf_identifier c"
| "name_ok (T_Variable c _) = named_ok valid_btf_name c"
| "name_ok (T_DataSection c _) = named_ok valid_btf_name c"
| "name_ok (T_Pointer c) = unnamed_ok c"
| "name_ok (T_Volatile c) = unnamed_ok c"
| "name_ok (T_Constant c) = unnamed_ok c"
| "name_ok (T_Restrict c) = unnamed_ok c"
| "name_ok (T_Array c _) = unnamed_ok c"
| "name_ok (T_FunctionProtocol c _) = unnamed_ok c"
| "name_ok (T_Structure c _) = (named_ok valid_btf_identifier c \<or> unnamed_ok c)"
| "name_ok (T_Union c _) = (named_ok valid_btf_identifier c \<or> unnamed_ok c)"
| "name_ok (T_Enumeration c _) = (named_ok valid_btf_identifier c \<or> unnamed_ok c)"
| "name_ok (T_Integer c _) = (named_ok valid_btf_identifier c \<or> unnamed_ok c)"
| "name_ok (T_FloatingPoint c) = (named_ok valid_btf_identifier c \<or> unnamed_ok c)"

definition wf_type :: "bytes \<Rightarrow> BtfType \<Rightarrow> bool" where
  "wf_type strs ty \<longleftrightarrow>
     comm_kind (btf_common ty) = Ok (kind_of ty) \<and>
     length (dump_type ty) = byte_len ty \<and>
     get_type_name strs (bt_name_off (comm_btf_type (btf_common ty))) = Ok (name_raw (btf_common ty)) \<and>
     name_ok ty \<and>
     list_all (\<lambda>m. name_member strs (member m) = Ok m) (members_of ty)"

lemma must_name_ok:
  "named_ok valid c \<Longrightarrow> (\<And>s. valid s \<Longrightarrow> f s = s) \<Longrightarrow>
   must_name f ts (c\<lparr>name_fixed := None\<rparr>) strs = Ok (c, strs)"
  by (auto simp: named_ok_def must_name_def store_fixed_def)

lemma may_name_ok:
  "named_ok valid_btf_identifier c \<or> unnamed_ok c \<Longrightarrow> may_name (c\<lparr>name_fixed := None\<rparr>) strs = Ok (c, strs)"
  by (auto simp: named_ok_def unnamed_ok_def may_name_def store_fixed_def valid_identifier_fixed_point)

lemma erase_name_ok: "unnamed_ok c \<Longrightarrow> erase_name (c\<lparr>name_fixed := None\<rparr>) = c"
  by (auto simp: unnamed_ok_def erase_name_def)

lemma read_members_written:
  assumes "length ms = unat v" and "list_all (\<lambda>m. name_member strs (member m) = Ok m) ms"
  shows "read_members (enc_btf_type t @ concat (map (\<lambda>m. enc_btf_member (member m)) ms) @ rest) strs v = Ok ms"
proof -
  have "read_multiple_extra dec_btf_member 12
      (enc_btf_type t @ concat (map (\<lambda>m. enc_btf_member (member m)) ms) @ rest) v = Ok (map member ms)"
    using membc.read_array_written [of "enc_btf_type t" "map member ms" rest] assms(1)
    by (simp add: read_multiple_extra_def comp_def)
  moreover have "try_map (name_member strs) (map member ms) = Ok ms"
    using assms(2) by (simp add: try_map_Ok_iff list_all2_conv_all_nth list_all_length)
  ultimately show ?thesis by (simp add: read_members_def)
qed

context byte_codec
begin

lemma read_multiple_extra_written:
  "length xs = unat v \<Longrightarrow>
   read_multiple_extra dec sz (enc_btf_type t @ concat (map enc xs) @ rest) v = Ok xs"
  using read_array_written [of "enc_btf_type t" xs rest] by (simp add: read_multiple_extra_def)

lemma read_extra_written: "read_extra dec sz (enc_btf_type t @ enc x @ rest) = Ok x"
  using read_written [of "enc_btf_type t" x rest] by (simp add: read_extra_def)

end

lemma length_concat_members:
  "length (concat (map (\<lambda>m. enc_btf_member (member m)) ms)) = length ms * 12"
  using membc.length_concat_enc [of "map member ms"] by (simp add: comp_def)

lemma parse_dump_type:
  assumes "wf_type strs ty"
  shows "parse_type (dump_type ty @ rest) strs = Ok (ty, strs)"
proof -
  define c where "c = btf_common ty"
  let ?c = "c\<lparr>name_fixed := None\<rparr>"
  have k: "comm_kind c = Ok (kind_of ty)" and len: "length (dump_type ty) = byte_len ty"
    and n: "get_type_name strs (bt_name_off (comm_btf_type c)) = Ok (name_raw c)"
    and nok: "name_ok ty" and ms: "list_all (\<lambda>m. name_member strs (member m) = Ok m) (members_of ty)"
    using assms by (simp_all add: wf_type_def c_def)
  have "read_raw dec_btf_type 12 (dump_type ty @ rest) 0 = (Ok (comm_btf_type c) :: btf_type result)"
    by (subst dump_type_head) (simp add: typec.read_written_head c_def)
  then have pc: "parse_common (dump_type ty @ rest) strs = Ok ?c"
    by (simp add: parse_common_def n)
  have "comm_kind ?c = Ok (kind_of ty)" using k by (simp add: comm_kind_def comm_kind_bits_def)
  moreover have "\<exists>ty0. parse_variant (dump_type ty @ rest) strs ?c (kind_of ty) = Ok ty0 \<and>
      fix_type_name ty0 strs = Ok (ty, strs)"
    using nok ms len
    by (cases ty)
      (simp_all add: c_def rebuild_def must_name_ok may_name_ok erase_name_ok valid_identifier_fixed_point
         valid_name_fixed_point read_members_written length_concat_members
         u32c.read_extra_written arrc.read_extra_written varc.read_extra_written
         enumc.read_multiple_extra_written paramc.read_multiple_extra_written vsic.read_multiple_extra_written
         enumc.length_concat_enc paramc.length_concat_enc vsic.length_concat_enc comm_vlen_def)
  ultimately show ?thesis by (auto simp: parse_type_def pc)
qed


lemma dump_types_Ok_Cons:
  "dump_types ((i, ty) # tys) = Ok d \<longleftrightarrow>
   length (dump_type ty) = byte_len ty \<and> (\<exists>d'. dump_types tys = Ok d' \<and> d = dump_type ty @ d')"
  by (auto simp: outcome_simps)

lemma dump_types_wf:
  "list_all (\<lambda>(_, ty). wf_type strs ty) tys \<Longrightarrow>
   dump_types tys = Ok (concat (map (\<lambda>(_, ty). dump_type ty) tys))"
  by (induction tys) (auto simp: wf_type_def)

lemma parse_types_loop_written:
  assumes "list_all (\<lambda>(_, ty). wf_type strs ty) tys" and "consecutive (unat tid) tys"
    and "unat tid + length tys < 2 ^ 32"
  shows "parse_types_loop tid (concat (map (\<lambda>(_, ty). dump_type ty) tys)) strs = Ok (tys, strs)"
  using assms
proof (induction tys arbitrary: tid)
  case Nil
  then show ?case by (simp add: parse_types_loop.simps)
next
  case (Cons x tys)
  obtain i ty where x: "x = (i, ty)" by fastforce
  let ?rest = "concat (map (\<lambda>(_, ty). dump_type ty) tys)"
  have i: "i = tid" using Cons.prems x by (simp add: word_unat_eq_iff)
  have wf: "wf_type strs ty" using Cons.prems x by simp
  then have len: "length (dump_type ty) = byte_len ty" by (simp add: wf_type_def)
  have "unat (tid + 1) = Suc (unat tid)" using Cons.prems(3) by (simp add: unat_word_ariths)
  then have IH: "parse_types_loop (tid + 1) ?rest strs = Ok (tys, strs)"
    using Cons by (simp add: x)
  have "dump_type ty @ ?rest \<noteq> []" using len byte_len_ge [of ty] by (auto simp del: byte_len_ge)
  moreover have "(uadd tid 1 :: u32 result) = Ok (tid + 1)"
    using Cons.prems(3) by (simp add: uadd_def)
  moreover have "(slice_from (dump_type ty @ ?rest) (byte_len ty) :: bytes result) = Ok ?rest"
    by (simp add: slice_from_def flip: len)
  ultimately have "parse_types_loop tid (dump_type ty @ ?rest) strs = Ok ((tid, ty) # tys, strs)"
    by (subst parse_types_loop.simps) (simp add: parse_dump_type [OF wf] IH)
  then show ?case by (simp add: x i)
qed

text \<open>A whole section in the form \<open>dump\<close> expects and \<open>parse_raw\<close> leaves.\<close>

definition wf_btf :: "BTF_data \<Rightarrow> bool" where
  "wf_btf btf \<longleftrightarrow>
     (let h = btf_hdr btf; tys = types btf
      in magic h = BTF_MAGIC \<and> version h = 1 \<and> hdr_len h = 24 \<and>
         consecutive 1 tys \<and> 1 + length tys < 2 ^ 32 \<and>
         list_all (\<lambda>(_, ty). wf_type (raw_str_enc btf) ty) tys \<and>
         unat (type_len h) = length (concat (map (\<lambda>(_, ty). dump_type ty) tys)) \<and>
         unat (type_off h) + unat (type_len h) \<le> unat (str_off h) \<and>
         unat (str_len h) = length (raw_str_enc btf) \<and>
         24 + unat (str_off h) + unat (str_len h) < 2 ^ 32 \<and>
         btf_fd_opt btf = None)"

definition btf_layout :: "BTF_data \<Rightarrow> bytes \<Rightarrow> bytes" where
  "btf_layout btf tbytes =
     (let h = btf_hdr btf
      in enc_btf_header h @ replicate (unat (type_off h)) 0 @ tbytes @
         replicate (unat (str_off h) - (unat (type_off h) + unat (type_len h))) 0 @ raw_str_enc btf)"

lemma dump_Ok:
  assumes "dump_types (types btf) = Ok tb" and "length tb = unat (type_len (btf_hdr btf))"
    and "unat (type_off (btf_hdr btf)) + unat (type_len (btf_hdr btf)) \<le> unat (str_off (btf_hdr btf))"
    and "unat (str_len (btf_hdr btf)) = length (raw_str_enc btf)"
    and "unat (str_off (btf_hdr btf)) + unat (str_len (btf_hdr btf)) < 2 ^ 32"
  shows "dump btf = Ok (btf_layout btf tb)"
    and "length (btf_layout btf tb) = 24 + unat (str_off (btf_hdr btf)) + unat (str_len (btf_hdr btf))"
proof -
  let ?h = "btf_hdr btf"
  have 1: "unat (type_off ?h + type_len ?h) = unat (type_off ?h) + unat (type_len ?h)"
    and 2: "unat (str_off ?h + str_len ?h) = unat (str_off ?h) + unat (str_len ?h)"
    using assms(3,5) by (simp_all add: unat_word_ariths)
  show "dump btf = Ok (btf_layout btf tb)"
    using assms 1 2 by (simp add: dump_def uadd_def btf_layout_def Let_def)
  show "length (btf_layout btf tb) = 24 + unat (str_off ?h) + unat (str_len ?h)"
    using assms by (simp add: btf_layout_def Let_def)
qed

lemma parse_raw_layout:
  assumes wf: "wf_btf btf"
  shows "parse_raw (btf_layout btf (concat (map (\<lambda>(_, ty). dump_type ty) (types btf)))) = Ok btf"
proof -
  let ?h = "btf_hdr btf" and ?tb = "concat (map (\<lambda>(_, ty). dump_type ty) (types btf))"
  let ?d = "btf_layout btf ?tb"
  note w = wf [unfolded wf_btf_def Let_def]
  have tb: "dump_types (types btf) = Ok ?tb" using w by (intro dump_types_wf [of "raw_str_enc btf"]) simp
  have len: "length ?d = 24 + unat (str_off ?h) + unat (str_len ?h)"
    using w by (intro dump_Ok(2) [OF tb]) auto
  have hdr: "read_raw dec_btf_header 24 ?d 0 = (Ok ?h :: btf_header result)"
    by (simp add: btf_layout_def Let_def hdrc.read_written_head)
  have s1: "(uadd 24 (str_off ?h) :: u32 result) = Ok (24 + str_off ?h)"
    and s1': "unat (24 + str_off ?h) = 24 + unat (str_off ?h)"
    using w by (simp_all add: uadd_def unat_word_ariths)
  have s2: "(uadd (24 + str_off ?h) (str_len ?h) :: u32 result) = Ok (24 + str_off ?h + str_len ?h)"
    and s2': "unat (24 + str_off ?h + str_len ?h) = 24 + unat (str_off ?h) + unat (str_len ?h)"
    using w s1' by (simp_all add: uadd_def unat_word_ariths)
  have s3: "(uadd 24 (type_off ?h) :: u32 result) = Ok (24 + type_off ?h)"
    and s3': "unat (24 + type_off ?h) = 24 + unat (type_off ?h)"
    using w by (simp_all add: uadd_def unat_word_ariths)
  have lt: "length ?tb = unat (type_len ?h)" and
    gap: "length ?tb \<le> unat (str_off ?h) - unat (type_off ?h)"
    using w by linarith+
  have ts: "(slice ?d (unat (24 + type_off ?h)) (unat (24 + type_off ?h) + unat (type_len ?h)) :: bytes result)
      = Ok ?tb"
    using w len lt by (simp add: slice_def s3') (simp add: btf_layout_def Let_def)
  have ss: "(slice ?d (unat (24 + str_off ?h)) (unat (24 + str_off ?h) + unat (str_len ?h)) :: bytes result)
      = Ok (raw_str_enc btf)"
    using w len gap by (simp add: slice_def s1') (simp add: btf_layout_def Let_def)
  have "parse_types ?tb (raw_str_enc btf) = Ok (types btf, raw_str_enc btf)"
    using w unfolding parse_types_def by (intro parse_types_loop_written) auto
  moreover have "magic ?h = BTF_MAGIC" "version ?h = 1" "hdr_len ?h = 24" "btf_fd_opt btf = None"
    using w by simp_all
  ultimately show ?thesis
    using len by (simp add: parse_raw_def hdr s1 s2 s2' s3 ts ss)
qed


text \<open>
  The other direction: a dump of parsed types repeats the parsed bytes, except
  that the name offset of a type (its first four bytes) may have become 0.
\<close>

fun unchanged_but_names :: "(u32 \<times> BtfType) list \<Rightarrow> bytes \<Rightarrow> bytes \<Rightarrow> bool" where
  "unchanged_but_names [] bs d = (bs = [] \<and> d = [])"
| "unchanged_but_names ((_, ty) # tys) bs d =
     (byte_len ty \<le> length bs \<and>
      take 4 d \<in> {take 4 bs, [0, 0, 0, 0]} \<and>
      take (byte_len ty - 4) (drop 4 d) = take (byte_len ty - 4) (drop 4 bs) \<and>
      unchanged_but_names tys (drop (byte_len ty) bs) (drop (byte_len ty) d))"

lemma enc_btf_type_parts:
  "take 4 (enc_btf_type t) = word_to_le 4 (bt_name_off t)"
  "drop 4 (enc_btf_type t) = word_to_le 4 (bt_info t) @ word_to_le 4 (bt_size_type t)"
  by (simp_all add: enc_btf_type_def)

lemma parse_type_unchanged:
  assumes "parse_type bs strs = Ok (ty, strs')"
  shows "take 4 (dump_type ty) \<in> {take 4 bs, [0, 0, 0, 0]}"
    and "drop 4 (dump_type ty) = take (byte_len ty - 4) (drop 4 bs)"
proof -
  note p = parse_type_dump [OF assms]
  let ?t = "comm_btf_type (btf_common ty)" and ?u = "dec_btf_type (take 12 bs)"
  have len: "12 \<le> length bs" using p(2) byte_len_ge [of ty] by (simp del: byte_len_ge)
  have t0: "enc_btf_type ?u = take 12 bs" using len by (simp add: typec.enc_dec)
  have t: "bt_info ?t = bt_info ?u" "bt_size_type ?t = bt_size_type ?u" "bt_name_off ?t \<in> {bt_name_off ?u, 0}"
    using p(5) by (auto simp: same_but_name_def)
  have h: "dump_type ty = enc_btf_type ?t @ take (byte_len ty - 12) (drop 12 bs)"
    by (subst dump_type_head) (simp add: p(3))
  have "take 4 (enc_btf_type ?t) \<in> {take 4 (enc_btf_type ?u), word_to_le 4 (0 :: u32)}"
    using t by (auto simp: enc_btf_type_parts)
  then show "take 4 (dump_type ty) \<in> {take 4 bs, [0, 0, 0, 0]}"
    using t0 by (simp add: h word_to_le_def numeral_eq_Suc)
  have "drop 4 (dump_type ty) = drop 4 (enc_btf_type ?u) @ take (byte_len ty - 12) (drop 12 bs)"
    using t by (simp add: h enc_btf_type_parts)
  also have "\<dots> = take (byte_len ty - 4) (drop 4 bs)"
    using t0 take_add [of 8 "byte_len ty - 12" "drop 4 bs"] byte_len_ge [of ty]
    by (simp add: drop_take del: byte_len_ge)
  finally show "drop 4 (dump_type ty) = take (byte_len ty - 4) (drop 4 bs)" .
qed

lemma parse_types_loop_unchanged:
  assumes "parse_types_loop tid bs strs = Ok (tys, strs')"
  shows "\<exists>d. dump_types tys = Ok d \<and> length d = length bs \<and> unchanged_but_names tys bs d"
  using assms
proof (induction rule: parse_types_loop_induct)
  case (cons tid bs strs ty strs1 tys strs')
  then obtain d where d: "dump_types tys = Ok d" "length d = length (drop (byte_len ty) bs)"
    "unchanged_but_names tys (drop (byte_len ty) bs) d" by blast
  note p = parse_type_dump [OF cons.hyps(1)] and u = parse_type_unchanged [OF cons.hyps(1)]
  have "unchanged_but_names ((tid, ty) # tys) bs (dump_type ty @ d)"
    using p u d(3) byte_len_ge [of ty] by (simp del: byte_len_ge)
  then show ?case using d p by simp
qed simp

lemma parse_raw_Ok:
  assumes "parse_raw bs = Ok btf"
  defines "h \<equiv> btf_hdr btf"
  shows "24 \<le> length bs" and "h = dec_btf_header (take 24 bs)" and "magic h = BTF_MAGIC" and "version h = 1"
    and "btf_fd_opt btf = None"
    and "unat (hdr_len h) + unat (str_off h) + unat (str_len h) = length bs" and "length bs < 2 ^ 32"
    and "unat (hdr_len h) + unat (type_off h) + unat (type_len h) \<le> length bs"
    and "parse_types (take (unat (type_len h)) (drop (unat (hdr_len h) + unat (type_off h)) bs))
          (drop (unat (hdr_len h) + unat (str_off h)) bs) = Ok (types btf, raw_str_enc btf)"
proof -
  show "24 \<le> length bs" using assms by (auto simp: parse_raw_def split: if_splits)
  from assms this have r: "magic h = BTF_MAGIC \<and> version h = 1 \<and> h = dec_btf_header (take 24 bs) \<and>
    btf_fd_opt btf = None \<and>
    unat (hdr_len h) + unat (str_off h) < 2 ^ 32 \<and>
    unat (hdr_len h + str_off h) + unat (str_len h) < 2 ^ 32 \<and>
    unat (hdr_len h + str_off h + str_len h) = length bs \<and>
    unat (hdr_len h) + unat (type_off h) < 2 ^ 32 \<and>
    unat (hdr_len h + type_off h) + unat (type_len h) \<le> length bs \<and>
    parse_types (take (unat (type_len h)) (drop (unat (hdr_len h + type_off h)) bs))
      (take (unat (str_len h)) (drop (unat (hdr_len h + str_off h)) bs)) = Ok (types btf, raw_str_enc btf)"
    by (auto simp: parse_raw_def outcome_simps h_def split: if_splits)
  then have s: "unat (hdr_len h + str_off h) = unat (hdr_len h) + unat (str_off h)"
    and t: "unat (hdr_len h + type_off h) = unat (hdr_len h) + unat (type_off h)"
    and u: "unat (hdr_len h + str_off h + str_len h) = unat (hdr_len h + str_off h) + unat (str_len h)"
    by (intro unat_add_no_overflow; simp)+
  then have tot: "unat (hdr_len h + str_off h + str_len h) = unat (hdr_len h) + unat (str_off h) + unat (str_len h)"
    by simp
  show "magic h = BTF_MAGIC" "version h = 1" "h = dec_btf_header (take 24 bs)" "btf_fd_opt btf = None"
    using r by blast+
  have r1: "unat (hdr_len h + str_off h + str_len h) = length bs"
    and r2: "unat (hdr_len h + str_off h) + unat (str_len h) < 2 ^ 32"
    and r3: "unat (hdr_len h + type_off h) + unat (type_len h) \<le> length bs"
    and r4: "parse_types (take (unat (type_len h)) (drop (unat (hdr_len h + type_off h)) bs))
      (take (unat (str_len h)) (drop (unat (hdr_len h + str_off h)) bs)) = Ok (types btf, raw_str_enc btf)"
    using r by blast+
  show len: "unat (hdr_len h) + unat (str_off h) + unat (str_len h) = length bs" using r1 tot by simp
  then show "length bs < 2 ^ 32" using r2 s by simp
  show "unat (hdr_len h) + unat (type_off h) + unat (type_len h) \<le> length bs" using r3 t by simp
  show "parse_types (take (unat (type_len h)) (drop (unat (hdr_len h) + unat (type_off h)) bs))
      (drop (unat (hdr_len h) + unat (str_off h)) bs) = Ok (types btf, raw_str_enc btf)"
    using r4 s t len by (simp add: take_all)
qed

text \<open>
  C7: dumping a well-formed BTF and parsing the bytes again gives the same value,
  and the bytes have the length the header announces.
\<close>

theorem dump_parse_roundtrip:
  assumes "wf_btf btf"
  shows "\<exists>d. dump btf = Ok d \<and>
    length d = 24 + unat (str_off (btf_hdr btf)) + unat (str_len (btf_hdr btf)) \<and> parse_raw d = Ok btf"
proof -
  let ?tb = "concat (map (\<lambda>(_, ty). dump_type ty) (types btf))"
  have "dump_types (types btf) = Ok ?tb"
    using assms by (intro dump_types_wf [of "raw_str_enc btf"]) (simp add: wf_btf_def Let_def)
  moreover have "length ?tb = unat (type_len (btf_hdr btf))"
    "unat (type_off (btf_hdr btf)) + unat (type_len (btf_hdr btf)) \<le> unat (str_off (btf_hdr btf))"
    "unat (str_len (btf_hdr btf)) = length (raw_str_enc btf)"
    "unat (str_off (btf_hdr btf)) + unat (str_len (btf_hdr btf)) < 2 ^ 32"
    using assms unfolding wf_btf_def Let_def by linarith+
  ultimately show ?thesis
    using dump_Ok [of btf ?tb] parse_raw_layout [OF assms] by blast
qed

definition sample_common :: "u32 \<Rightarrow> u32 \<Rightarrow> u32 \<Rightarrow> string \<Rightarrow> BtfTypeCommon" where
  "sample_common off info sz nm =
     \<lparr>comm_btf_type = \<lparr>bt_name_off = off, bt_info = info, bt_size_type = sz\<rparr>,
      name_fixed = (if off = 0 then None else Some nm), name_raw = nm\<rparr>"

definition sample_btf :: BTF_data where
  "sample_btf =
     \<lparr>types = [(1, T_Integer (sample_common 1 0x01000000 4 ''int'') 0x01000020),
               (2, T_Pointer (sample_common 0 0x02000000 1 [])),
               (3, T_Structure (sample_common 5 0x04000001 8 ''s'')
                     [\<lparr>member = \<lparr>bm_name_off = 7, bm_type = 2, bm_offset = 0\<rparr>, memb_name = ''p''\<rparr>])],
      btf_hdr = \<lparr>magic = BTF_MAGIC, version = 1, flags = 0, hdr_len = 24,
                 type_off = 0, type_len = 52, str_off = 52, str_len = 9\<rparr>,
      raw_str_enc = [0, 105, 110, 116, 0, 115, 0, 112, 0],
      btf_fd_opt = None\<rparr>"

lemmas sample_defs = sample_btf_def sample_common_def

lemmas btf_eval =
  wf_type_def comm_kind_def comm_kind_bits_def comm_vlen_def btf_kind_from_def get_type_name_def
  name_member_def cstr_at_def named_ok_def unnamed_ok_def to_string_lossy_def utf8_step_def utf8_encode_def
  valid_btf_identifier_def is_word_def is_digit_def str_chars_def char_of_def bit_0

lemma sample_btf_wf: "wf_btf sample_btf"
  unfolding wf_btf_def Let_def
  by (simp add: sample_defs btf_eval)

theorem dump_parse_roundtrip_witness:
  "wf_btf sample_btf \<and> length (types sample_btf) = 3 \<and>
   (\<exists>d. dump sample_btf = Ok d \<and> length d = 85 \<and> parse_raw d = Ok sample_btf)"
proof -
  have "\<exists>d. dump sample_btf = Ok d \<and>
    length d = 24 + unat (str_off (btf_hdr sample_btf)) + unat (str_len (btf_hdr sample_btf)) \<and>
    parse_raw d = Ok sample_btf"
    using sample_btf_wf by (rule dump_parse_roundtrip)
  then show ?thesis using sample_btf_wf by (simp add: sample_btf_def)
qed

text \<open>
  When \<open>parse_raw\<close> accepts a section whose header has the size of the known
  \<open>btf_header\<close> and whose types lie before its strings, \<open>dump\<close> of the result
  succeeds and rebuilds the section: the same length and header, zeroes between the
  parts, the string table with its repaired names, and the type records byte for
  byte, but for name offsets that were cleared.
\<close>

theorem parse_dump_rebuilds:
  assumes "parse_raw bs = Ok btf" and "hdr_len (btf_hdr btf) = 24"
    and "unat (type_off (btf_hdr btf)) + unat (type_len (btf_hdr btf)) \<le> unat (str_off (btf_hdr btf))"
  shows "\<exists>d tbytes. dump btf = Ok d \<and> length d = length bs \<and> take 24 d = take 24 bs \<and>
    d = btf_layout btf tbytes \<and> length (raw_str_enc btf) = unat (str_len (btf_hdr btf)) \<and>
    unchanged_but_names (types btf)
      (take (unat (type_len (btf_hdr btf))) (drop (24 + unat (type_off (btf_hdr btf))) bs)) tbytes"
proof -
  note p = parse_raw_Ok [OF assms(1)] and h = assms(2)
  let ?h = "btf_hdr btf"
  let ?tb = "take (unat (type_len ?h)) (drop (24 + unat (type_off ?h)) bs)"
  have loop: "parse_types_loop 1 ?tb (drop (24 + unat (str_off ?h)) bs) = Ok (types btf, raw_str_enc btf)"
    using p(9) h by (simp add: parse_types_def)
  obtain d where d: "dump_types (types btf) = Ok d" "length d = length ?tb" "unchanged_but_names (types btf) ?tb d"
    using parse_types_loop_unchanged [OF loop] by blast
  have ld: "length d = unat (type_len ?h)" using d(2) p(8) h by simp
  have "length (raw_str_enc btf) = length (drop (24 + unat (str_off ?h)) bs)"
    using parse_types_loop_dump [OF loop] by blast
  then have ls: "unat (str_len ?h) = length (raw_str_enc btf)" using p(6) h by simp
  have lt: "unat (str_off ?h) + unat (str_len ?h) < 2 ^ 32" using p(6,7) by simp
  note dd = dump_Ok [OF d(1) ld assms(3) ls lt]
  have "enc_btf_header ?h = take 24 bs" using p(1,2) by (simp add: hdrc.enc_dec)
  moreover have "take 24 (btf_layout btf d) = enc_btf_header ?h" by (simp add: btf_layout_def Let_def)
  moreover have "length (btf_layout btf d) = length bs" using dd(2) p(6) h by simp
  ultimately show ?thesis using dd(1) d(3) ls by metis
qed

text \<open>A section with a name the kernel refuses (\<open>a<b\<close>) and a pointer that has a name.\<close>

definition sample_raw :: bytes where
  "sample_raw =
     [159, 235, 1, 0, 24, 0, 0, 0, 0, 0, 0, 0, 24, 0, 0, 0, 24, 0, 0, 0, 5, 0, 0, 0,
      1, 0, 0, 0, 0, 0, 0, 4, 0, 0, 0, 0,
      1, 0, 0, 0, 0, 0, 0, 2, 1, 0, 0, 0,
      0, 97, 60, 98, 0]"

definition sample_fixed :: BTF_data where
  "sample_fixed =
     \<lparr>types = [(1, T_Structure \<lparr>comm_btf_type = \<lparr>bt_name_off = 1, bt_info = 0x04000000, bt_size_type = 0\<rparr>,
                                 name_fixed = Some ''a_b'', name_raw = ''a<b''\<rparr> []),
               (2, T_Pointer \<lparr>comm_btf_type = \<lparr>bt_name_off = 0, bt_info = 0x02000000, bt_size_type = 1\<rparr>,
                               name_fixed = None, name_raw = ''a_b''\<rparr>)],
      btf_hdr = \<lparr>magic = BTF_MAGIC, version = 1, flags = 0, hdr_len = 24,
                 type_off = 0, type_len = 24, str_off = 24, str_len = 5\<rparr>,
      raw_str_enc = [0, 97, 95, 98, 0],
      btf_fd_opt = None\<rparr>"


lemma sample_raw_parses: "parse_raw sample_raw = Ok sample_fixed"
  by (simp add: sample_raw_def sample_fixed_def parse_raw_def read_raw_def btf_codec_defs le_at_defs uadd_def slice_def
     parse_types_def parse_types_loop.simps parse_type_def parse_common_def btf_eval rebuild_def may_name_def
     store_fixed_def fix_btf_identifier_def read_members_def read_multiple_extra_def read_array_def
     fix_name_str_section_def erase_name_def slice_from_def cstring_new_def as_bytes_def copy_from_slice_def overwrite_def cong: and_then_weak_cong)

theorem parse_dump_rebuilds_witness:
  "parse_raw sample_raw = Ok sample_fixed \<and>
   (\<exists>d tbytes. dump sample_fixed = Ok d \<and> length d = 53 \<and> take 24 d = take 24 sample_raw \<and>
     d = btf_layout sample_fixed tbytes \<and>
     unchanged_but_names (types sample_fixed) (take 24 (drop 24 sample_raw)) tbytes)"
proof -
  have "hdr_len (btf_hdr sample_fixed) = 24"
    "unat (type_off (btf_hdr sample_fixed)) + unat (type_len (btf_hdr sample_fixed))
      \<le> unat (str_off (btf_hdr sample_fixed))"
    by (simp_all add: sample_fixed_def)
  note r = parse_dump_rebuilds [OF sample_raw_parses this]
  have "length sample_raw = 53" "unat (type_len (btf_hdr sample_fixed)) = 24"
    "unat (type_off (btf_hdr sample_fixed)) = 0"
    by (simp_all add: sample_raw_def sample_fixed_def)
  then show ?thesis using r sample_raw_parses by auto
qed

section \<open>Names after parsing\<close>

text \<open>What the kernel's verifier asks of the name of each kind.\<close>

definition has_name :: "(string \<Rightarrow> bool) \<Rightarrow> BtfTypeCommon \<Rightarrow> bool" where
  "has_name valid c \<longleftrightarrow>
     bt_name_off (comm_btf_type c) \<noteq> 0 \<and> (case name_fixed c of Some n \<Rightarrow> valid n | None \<Rightarrow> False)"

definition no_name :: "BtfTypeCommon \<Rightarrow> bool" where
  "no_name c \<longleftrightarrow> bt_name_off (comm_btf_type c) = 0 \<and> name_fixed c = None"

fun kernel_name :: "BtfType \<Rightarrow> bool" where
  "kernel_name (T_TypeDef c) = has_name valid_btf_identifier c"
| "kernel_name (T_Forward c) = has_name valid_btf_identifier c"
| "kernel_name (T_Function c) = has_name valid_btf_identifier c"
| "kernel_name (T_Variable c _) = has_name valid_btf_name c"
| "kernel_name (T_DataSection c _) = has_name valid_btf_name c"
| "kernel_name (T_Pointer c) = no_name c"
| "kernel_name (T_Volatile c) = no_name c"
| "kernel_name (T_Constant c) = no_name c"
| "kernel_name (T_Restrict c) = no_name c"
| "kernel_name (T_Array c _) = no_name c"
| "kernel_name (T_FunctionProtocol c _) = no_name c"
| "kernel_name (T_Structure c _) = (has_name valid_btf_identifier c \<or> no_name c)"
| "kernel_name (T_Union c _) = (has_name valid_btf_identifier c \<or> no_name c)"
| "kernel_name (T_Enumeration c _) = (has_name valid_btf_identifier c \<or> no_name c)"
| "kernel_name (T_Integer c _) = (has_name valid_btf_identifier c \<or> no_name c)"
| "kernel_name (T_FloatingPoint c) = (has_name valid_btf_identifier c \<or> no_name c)"

lemma must_name_has_name:
  "must_name f ts c strs = Ok (c', strs') \<Longrightarrow> (\<And>s. valid (f s)) \<Longrightarrow> has_name valid c'"
  by (auto simp: must_name_def has_name_def dest!: store_fixed_Ok split: if_splits)

lemmas must_name_kernel =
  must_name_has_name [where f = fix_btf_identifier and valid = valid_btf_identifier, OF _ fixed_identifier_valid]
  must_name_has_name [where f = fix_btf_name and valid = valid_btf_name, OF _ fixed_name_valid]

lemma may_name_has_name:
  "may_name c strs = Ok (c', strs') \<Longrightarrow> name_fixed c = None \<Longrightarrow>
   has_name valid_btf_identifier c' \<or> no_name c'"
  by (auto simp: may_name_def has_name_def no_name_def fixed_identifier_valid dest!: store_fixed_Ok split: if_splits)

lemma erase_name_no_name: "name_fixed c = None \<Longrightarrow> no_name (erase_name c)"
  by (simp add: erase_name_def no_name_def)

lemma fix_type_name_kernel:
  assumes "fix_type_name ty strs = Ok (ty', strs')" and "name_fixed (btf_common ty) = None"
  shows "kernel_name ty'"
  using assms
  by (cases ty)
    (auto simp: rebuild_eq_Ok erase_name_no_name may_name_has_name must_name_kernel)

lemma parse_variant_common: "parse_variant bs strs c k = Ok ty \<Longrightarrow> btf_common ty = c"
  by (cases k) (auto simp: and_then_eq_Ok)

lemma parse_type_kernel: "parse_type bs strs = Ok (ty, strs') \<Longrightarrow> kernel_name ty"
  by (auto simp: parse_type_def parse_common_def outcome_simps dest!: parse_variant_common
      intro!: fix_type_name_kernel)

text \<open>
  After \<open>parse_raw\<close> the types are numbered 1, 2, 3, ... in the order of the
  section, and each of them has the name its kind must have for the kernel: a
  C identifier (with dots for variables and sections), or no name at all.
\<close>

theorem parse_raw_types_acceptable:
  assumes "parse_raw bs = Ok btf"
  shows "consecutive 1 (types btf) \<and> list_all (\<lambda>(_, ty). kernel_name ty) (types btf)"
proof
  let ?h = "btf_hdr btf"
  note p = parse_raw_Ok(9) [OF assms, unfolded parse_types_def]
  show "consecutive 1 (types btf)" using parse_types_loop_ids [OF p] by simp
  show "list_all (\<lambda>(_, ty). kernel_name ty) (types btf)"
    using p by (induction rule: parse_types_loop_induct) (auto dest: parse_type_kernel)
qed

theorem parse_raw_types_acceptable_witness:
  "parse_raw sample_raw = Ok sample_fixed \<and> consecutive 1 (types sample_fixed) \<and>
   list_all (\<lambda>(_, ty). kernel_name ty) (types sample_fixed) \<and> length (types sample_fixed) = 2"
  using parse_raw_types_acceptable [OF sample_raw_parses] sample_raw_parses
  by (simp add: sample_fixed_def)

text \<open>
  Writing the repaired name over the old one never panics for a name that was
  read from the section, and leaves in the string section the repaired name followed
  by what is left of the old bytes: the stored C string is the repaired name exactly
  when the old name had one byte per character.
\<close>

theorem fix_name_str_section_stores:
  fixes fixer :: "string \<Rightarrow> string"
  assumes "get_type_name strs (bt_name_off t) = Ok raw"
    and "fixer = fix_btf_identifier \<or> fixer = fix_btf_name"
  shows "\<exists>s strs'. cstr_at strs (unat (bt_name_off t)) = (Ok s :: bytes result) \<and>
    fix_name_str_section (fixer raw) t strs = Ok strs' \<and> length strs' = length strs \<and>
    cstr_at strs' (unat (bt_name_off t)) =
      (Ok (as_bytes (fixer raw) @ drop (length (fixer raw)) s) :: bytes result) \<and>
    (cstr_at strs' (unat (bt_name_off t)) = (Ok (as_bytes (fixer raw)) :: bytes result)
      \<longleftrightarrow> length (str_chars raw) = length s)"
proof -
  let ?off = "unat (bt_name_off t)" and ?n = "as_bytes (fixer raw)"
  obtain s where s: "cstr_at strs ?off = (Ok s :: bytes result)" and raw: "raw = to_string_lossy s"
    using assms(1) by (auto simp: get_type_name_def and_then_eq_Ok split: if_splits)
  have len: "length ?n = length (str_chars raw)" "length (fixer raw) = length (str_chars raw)"
    using assms(2) by (auto simp: as_bytes_def)
  have le: "length ?n \<le> length s"
    using utf8_lossy_length [of "map unat s"] by (subst len(1)) (simp add: raw str_chars_to_string_lossy)
  have c: "cstring_new (fixer raw) = Some ?n"
    using assms(2) by (auto intro!: valid_no_nul simp: fixed_identifier_valid fixed_name_valid)
  then have z: "0 \<notin> set ?n" by (auto simp: cstring_new_def split: if_splits)
  have l: "?off + length ?n \<le> length strs"
    using write_over_cstr(1) [OF s z le] by (auto simp: copy_from_slice_def split: if_splits)
  have "fix_name_str_section (fixer raw) t strs = Ok (overwrite strs ?off ?n)"
    unfolding fix_name_str_section_def c using write_over_cstr(1) [OF s z le] by simp
  moreover have "length (overwrite strs ?off ?n) = length strs"
    using l by (simp add: overwrite_def)
  moreover have "cstr_at (overwrite strs ?off ?n) ?off = (Ok (?n @ drop (length (fixer raw)) s) :: bytes result)"
    using write_over_cstr(2) [OF s z le] len by simp
  moreover have "?n @ drop (length (fixer raw)) s = ?n \<longleftrightarrow> length (str_chars raw) = length s"
    using le len by auto
  ultimately show ?thesis using s by auto
qed

text \<open>The name \<open>a\<close>, U+00E9, \<open>b\<close> (four bytes): the last byte of the old name stays behind.\<close>

theorem fix_name_str_section_stores_witness:
  "fix_name_str_section ''a_b'' \<lparr>bt_name_off = 1, bt_info = 0, bt_size_type = 0\<rparr> [0, 97, 195, 169, 98, 0]
     = Ok [0, 97, 95, 98, 98, 0]"
proof -
  let ?t = "\<lparr>bt_name_off = 1, bt_info = 0, bt_size_type = 0\<rparr>" and ?raw = "to_string_lossy [97, 195, 169, 98]"
  have g: "get_type_name [0, 97, 195, 169, 98, 0] (bt_name_off ?t) = Ok ?raw"
    by (simp add: get_type_name_def cstr_at_def)
  have f: "fix_btf_identifier ?raw = ''a_b''"
    by (simp add: fix_btf_identifier_def str_chars_to_string_lossy utf8_step_def cont_byte_def btf_eval)
  have n: "length (fix_btf_identifier ?raw) = 3" unfolding f by simp
  show ?thesis
    using fix_name_str_section_stores [OF g, of fix_btf_identifier]
    unfolding f by (simp add: fix_name_str_section_def cstring_new_def as_bytes_def copy_from_slice_def overwrite_def)
qed

text \<open>
  The kind has five bits but only 17 values are known: for the other 15 the
  parser panics, whatever follows the record, instead of returning the error
  meant for unknown types.
\<close>

theorem parse_type_unknown_kind_panics:
  assumes "12 \<le> length bs" and "get_type_name strs (le32_at bs 0) = Ok nm"
  defines "kind \<equiv> drop_bit 24 (le32_at bs 4) AND 0x1f"
  shows "(17 \<le> kind \<longrightarrow> parse_type bs strs = Panic) \<and>
    (kind = 0 \<longrightarrow> parse_type bs strs = Err (BTF ''Unknown BTF type''))"
proof -
  let ?c = "\<lparr>comm_btf_type = dec_btf_type (take 12 bs), name_fixed = None, name_raw = nm\<rparr>"
  have "bt_name_off (dec_btf_type (take 12 bs)) = le32_at bs 0" "bt_info (dec_btf_type (take 12 bs)) = le32_at bs 4"
    by (simp_all add: dec_btf_type_def le32_at_def drop_take min_def)
  then have pc: "parse_common bs strs = Ok ?c" and kb: "comm_kind_bits ?c = kind"
    using assms by (simp_all add: parse_common_def read_raw_def comm_kind_bits_def)
  have "comm_kind ?c = Panic" if "17 \<le> kind"
  proof -
    have "kind \<noteq> k" if "k < 17" for k using that \<open>17 \<le> kind\<close> by auto
    then show ?thesis by (simp add: comm_kind_def kb btf_kind_from_def)
  qed
  moreover have "comm_kind ?c = Ok K_Unknown" if "kind = 0"
    using that by (simp add: comm_kind_def kb btf_kind_from_def)
  ultimately show ?thesis by (auto simp: parse_type_def pc)
qed

theorem parse_type_unknown_kind_panics_witness:
  "parse_type [0, 0, 0, 0, 0, 0, 0, 17, 0, 0, 0, 0] [0] = Panic"
proof -
  have "get_type_name [0] (le32_at [0, 0, 0, 0, 0, 0, 0, 17, 0, 0, 0, 0] 0) = Ok []"
    by (simp add: get_type_name_def cstr_at_def le32_at_def to_string_lossy_def)
  from parse_type_unknown_kind_panics [OF _ this] show ?thesis
    by (simp add: le32_at_def)
qed

text \<open>
  \<open>BTF_INT_CHAR\<close> is 2 and \<open>BTF_INT_BOOL\<close> is 4, so the comparisons with 1
  never hold and the debug output never shows either encoding.
\<close>

theorem int_encoding_names_only_signed:
  "int_encoding_names v = (if bit v 24 then [''SIGNED''] else [])"
proof -
  have c: "(x AND 2 = 1) = False" "(x AND 4 = 1) = False" for x :: u32
  proof -
    have "\<not> bit (x AND 2) 0" "\<not> bit (x AND 4) 0" by (simp_all add: bit_simps)
    moreover have "bit (1 :: u32) 0" by simp
    ultimately show "(x AND 2 = 1) = False" "(x AND 4 = 1) = False" by metis+
  qed
  have "(btf_int_encoding v AND 1 = 1) = bit v 24"
    by (simp add: btf_int_encoding_def and_one_eq odd_iff_mod_2_eq_one [symmetric] bit_simps flip: bit_0)
  then show ?thesis by (simp add: int_encoding_names_def Let_def c)
qed

end
