(* ===== verification/Btf_Filter.thy ===== *)
theory Btf_Filter
  imports Btf_Parse "HOL-Library.AList"
begin

text \<open>
  \<open>BTF::filter\<close> and \<open>tc_legacy_fix_btf_section\<close> of \<open>redbpf/src/btf.rs\<close>:
  dropping the types a predicate rejects together with every type that refers to
  them, and renumbering the rest. The hash map \<open>in_link\<close> is an association
  list; nothing below depends on the order of its entries. The lemmas show which
  types are dropped (those from which a rejected type is reachable through
  references), that renumbering never meets a missing identifier, that the new
  identifiers are again 1, 2, 3, ..., and that the encoded section keeps its length.
\<close>

section \<open>The operations\<close>

type_synonym links = "(u32 \<times> u32 list) list"

text \<open>\<open>in_link.entry(k).or_default()\<close>, and the same with a \<open>push\<close>.\<close>

definition link_entry :: "u32 \<Rightarrow> links \<Rightarrow> links" where
  "link_entry k m = AList.map_default k [] id m"

definition link_push :: "u32 \<Rightarrow> u32 \<Rightarrow> links \<Rightarrow> links" where
  "link_push v k m = AList.map_default k [v] (\<lambda>vs. vs @ [v]) m"

text \<open>The identifiers a type refers to, in the order the first \<open>match\<close> visits them.\<close>

fun type_refs :: "BtfType \<Rightarrow> u32 list" where
  "type_refs (T_Integer _ _) = []"
| "type_refs (T_Enumeration _ _) = []"
| "type_refs (T_FloatingPoint _) = []"
| "type_refs (T_Pointer c) = [comm_type_id c]"
| "type_refs (T_TypeDef c) = [comm_type_id c]"
| "type_refs (T_Volatile c) = [comm_type_id c]"
| "type_refs (T_Constant c) = [comm_type_id c]"
| "type_refs (T_Restrict c) = [comm_type_id c]"
| "type_refs (T_Function c) = [comm_type_id c]"
| "type_refs (T_Variable c _) = [comm_type_id c]"
| "type_refs (T_Forward c) = [comm_type_id c]"
| "type_refs (T_Structure _ membs) = map memb_type_id membs"
| "type_refs (T_Union _ membs) = map memb_type_id membs"
| "type_refs (T_FunctionProtocol c params) = comm_type_id c # map bp_type params"
| "type_refs (T_DataSection _ vsis) = map vs_type vsis"
| "type_refs (T_Array _ arr) = [ba_type arr, ba_index_type arr]"

definition link_type :: "u32 \<times> BtfType \<Rightarrow> links \<Rightarrow> links" where
  "link_type t m = fold (link_push (fst t)) (type_refs (snd t)) (link_entry (fst t) m)"

definition build_links :: "(u32 \<times> BtfType) list \<Rightarrow> links" where
  "build_links tys = fold link_type tys []"

lemma delete_length_less: "map_of m k = Some v \<Longrightarrow> length (AList.delete k m) < length m"
  by (induction m) (auto simp: AList.delete_eq less_Suc_eq_le intro: le_SucI split: if_splits)

text \<open>
  The loop \<open>'recur\<close>: \<open>rem_id\<close> is removed with its entry, whose identifiers
  are visited next, the last one first; the others wait on the stack.
\<close>

function remove_loop :: "links \<Rightarrow> u32 \<Rightarrow> u32 list \<Rightarrow> links" where
  "remove_loop in_link rem_id stack =
     (case map_of in_link rem_id of
        Some in_ids \<Rightarrow>
          if in_ids \<noteq> [] then
            remove_loop (AList.delete rem_id in_link) (last in_ids) (stack @ butlast in_ids)
          else if stack \<noteq> [] then
            remove_loop (AList.delete rem_id in_link) (last stack) (butlast stack)
          else AList.delete rem_id in_link
      | None \<Rightarrow>
          if stack \<noteq> [] then remove_loop in_link (last stack) (butlast stack) else in_link)"
  by pat_completeness auto

termination
  by (relation "measures [\<lambda>(m, _, _). length m, \<lambda>(_, _, stack). length stack]")
    (auto dest: delete_length_less)

declare remove_loop.simps [simp del]

definition remove_rejected :: "(BtfType \<Rightarrow> bool) \<Rightarrow> (u32 \<times> BtfType) list \<Rightarrow> links \<Rightarrow> links" where
  "remove_rejected f tys in_link =
     fold (\<lambda>(i, ty) m. if f ty then m else remove_loop m i []) tys in_link"

text \<open>Numbering the identifiers that are left, smallest first.\<close>

definition assign_ids :: "links \<Rightarrow> (u32 \<times> u32) list result" where
  "assign_ids in_link =
     (let new_id_correc = (case map_of in_link 0 of Some _ \<Rightarrow> 0 | None \<Rightarrow> 1);
          old_ids = sort (map fst in_link)
      in try_map (\<lambda>(i, old_id). and_then (uadd (of_nat i) new_id_correc) (\<lambda>n. Ok (old_id, n)))
           (enumerate 0 old_ids))"

text \<open>The second \<open>match\<close>: every reference is replaced by its new identifier.\<close>

definition new_id :: "(u32 \<times> u32) list \<Rightarrow> u32 \<Rightarrow> u32 result" where
  "new_id new_ids old = ok_or (map_of new_ids old) (BTF ''inconsistency detected in BTF'')"

definition rename_comm :: "(u32 \<times> u32) list \<Rightarrow> BtfTypeCommon \<Rightarrow> BtfTypeCommon result" where
  "rename_comm ids c = and_then (new_id ids (comm_type_id c)) (\<lambda>n. Ok (comm_set_type_id c n))"

definition rename_member :: "(u32 \<times> u32) list \<Rightarrow> BtfMember \<Rightarrow> BtfMember result" where
  "rename_member ids m = and_then (new_id ids (memb_type_id m)) (\<lambda>n. Ok (memb_set_type_id m n))"

definition rename_param :: "(u32 \<times> u32) list \<Rightarrow> btf_param \<Rightarrow> btf_param result" where
  "rename_param ids p = and_then (new_id ids (bp_type p)) (\<lambda>n. Ok (p\<lparr>bp_type := n\<rparr>))"

definition rename_vsi :: "(u32 \<times> u32) list \<Rightarrow> btf_var_secinfo \<Rightarrow> btf_var_secinfo result" where
  "rename_vsi ids v = and_then (new_id ids (vs_type v)) (\<lambda>n. Ok (v\<lparr>vs_type := n\<rparr>))"

fun rename_type :: "(u32 \<times> u32) list \<Rightarrow> BtfType \<Rightarrow> BtfType result" where
  "rename_type ids (T_Integer c i) = Ok (T_Integer c i)"
| "rename_type ids (T_Enumeration c es) = Ok (T_Enumeration c es)"
| "rename_type ids (T_FloatingPoint c) = Ok (T_FloatingPoint c)"
| "rename_type ids (T_Pointer c) = and_then (rename_comm ids c) (\<lambda>c. Ok (T_Pointer c))"
| "rename_type ids (T_TypeDef c) = and_then (rename_comm ids c) (\<lambda>c. Ok (T_TypeDef c))"
| "rename_type ids (T_Volatile c) = and_then (rename_comm ids c) (\<lambda>c. Ok (T_Volatile c))"
| "rename_type ids (T_Constant c) = and_then (rename_comm ids c) (\<lambda>c. Ok (T_Constant c))"
| "rename_type ids (T_Restrict c) = and_then (rename_comm ids c) (\<lambda>c. Ok (T_Restrict c))"
| "rename_type ids (T_Function c) = and_then (rename_comm ids c) (\<lambda>c. Ok (T_Function c))"
| "rename_type ids (T_Variable c v) = and_then (rename_comm ids c) (\<lambda>c. Ok (T_Variable c v))"
| "rename_type ids (T_Forward c) = and_then (rename_comm ids c) (\<lambda>c. Ok (T_Forward c))"
| "rename_type ids (T_Structure c ms) =
     and_then (try_map (rename_member ids) ms) (\<lambda>ms. Ok (T_Structure c ms))"
| "rename_type ids (T_Union c ms) =
     and_then (try_map (rename_member ids) ms) (\<lambda>ms. Ok (T_Union c ms))"
| "rename_type ids (T_FunctionProtocol c ps) =
     and_then (rename_comm ids c) (\<lambda>c.
     and_then (try_map (rename_param ids) ps) (\<lambda>ps. Ok (T_FunctionProtocol c ps)))"
| "rename_type ids (T_DataSection c vs) =
     and_then (try_map (rename_vsi ids) vs) (\<lambda>vs. Ok (T_DataSection c vs))"
| "rename_type ids (T_Array c a) =
     and_then (new_id ids (ba_type a)) (\<lambda>t.
     and_then (new_id ids (ba_index_type a)) (\<lambda>x.
     Ok (T_Array c (a\<lparr>ba_type := t, ba_index_type := x\<rparr>))))"

definition renumber :: "(u32 \<times> u32) list \<Rightarrow> (u32 \<times> BtfType) list \<Rightarrow> (u32 \<times> BtfType) list" where
  "renumber new_ids tys =
     List.map_filter (\<lambda>(old, ty). case map_of new_ids old of Some n \<Rightarrow> Some (n, ty) | None \<Rightarrow> None) tys"

text \<open>\<open>BTF::filter\<close>\<close>

definition filter_btf :: "(BtfType \<Rightarrow> bool) \<Rightarrow> BTF_data \<Rightarrow> BTF_data result" where
  "filter_btf f btf =
     (let h = btf_hdr btf;
          in_link = remove_rejected f (types btf) (build_links (types btf))
      in and_then (assign_ids in_link) (\<lambda>new_ids.
         and_then (try_map (\<lambda>(i, ty). and_then (rename_type new_ids ty) (\<lambda>ty. Ok (i, ty)))
                     (renumber new_ids (types btf))) (\<lambda>new_types.
         let tlen = sum_list (map (\<lambda>(_, ty). byte_len ty) new_types)
         in and_then (usub (type_len h) (of_nat tlen)) (\<lambda>decreased.
            and_then (usub (str_off h) decreased) (\<lambda>soff.
            and_then (uadd (str_len h) decreased) (\<lambda>slen.
            Ok (btf\<lparr>types := new_types,
                    btf_hdr := h\<lparr>type_len := of_nat tlen, str_off := soff, str_len := slen\<rparr>,
                    raw_str_enc := raw_str_enc btf @ replicate (unat decreased) 0\<rparr>)))))))"

fun legacy_type :: "BtfType \<Rightarrow> bool" where
  "legacy_type (T_Variable _ _) = False"
| "legacy_type (T_DataSection _ _) = False"
| "legacy_type (T_FloatingPoint _) = False"
| "legacy_type _ = True"

text \<open>
  \<open>tc_legacy_fix_btf_section\<close>; \<open>elf_parse\<close> is \<open>goblin\<close>'s \<open>Elf::parse\<close>,
  its error already converted. On the 64-bit targets \<open>usize\<close> has the width of
  \<open>sh_offset\<close>, so the end of the section is computed in 64 bits.
\<close>

definition tc_legacy_fix_btf_section :: "(bytes \<Rightarrow> Elf result) \<Rightarrow> bytes \<Rightarrow> bytes result" where
  "tc_legacy_fix_btf_section elf_parse elf_bytes =
     and_then (elf_parse elf_bytes) (\<lambda>object.
     and_then (ok_or (get_section_header_by_name object ''.BTF'') (BTF ''section not found'')) (\<lambda>shdr.
     and_then (uadd (sh_offset shdr) (sh_size shdr)) (\<lambda>send.
     let start = unat (sh_offset shdr); fin = unat send
     in and_then (slice elf_bytes start fin) (\<lambda>raw_btf.
        and_then (parse_raw raw_btf) (\<lambda>btf.
        and_then (filter_btf legacy_type btf) (\<lambda>btf'.
        and_then (dump btf') (\<lambda>dumped.
        let fixed = take start elf_bytes @ dumped
        in if fin < length fixed then Err (BTF ''BTF section is bloated'')
           else if length fixed < fin then Err (BTF ''BTF section is shrunk'')
           else and_then (slice_from elf_bytes fin) (\<lambda>rest. Ok (fixed @ rest)))))))))"

section \<open>Which identifiers are removed\<close>

definition link_rel :: "links \<Rightarrow> (u32 \<times> u32) set" where
  "link_rel m = {(a, b). \<exists>vs. map_of m a = Some vs \<and> b \<in> set vs}"

definition reach :: "links \<Rightarrow> u32 set \<Rightarrow> u32 set" where
  "reach m S = (link_rel m)\<^sup>* `` S"

lemma reach_self: "S \<subseteq> reach m S"
  by (auto simp: reach_def)

lemma reach_step: "a \<in> reach m S \<Longrightarrow> (a, b) \<in> link_rel m \<Longrightarrow> b \<in> reach m S"
  by (auto simp: reach_def intro: rtrancl_into_rtrancl)

lemma reach_induct [consumes 1, case_names base step]:
  assumes "k \<in> reach m S" and "\<And>s. s \<in> S \<Longrightarrow> P s"
    and "\<And>a b. a \<in> reach m S \<Longrightarrow> P a \<Longrightarrow> (a, b) \<in> link_rel m \<Longrightarrow> P b"
  shows "P k"
proof -
  from assms(1) obtain s where s: "s \<in> S" and "(s, k) \<in> (link_rel m)\<^sup>*" by (auto simp: reach_def)
  from this(2) have "k \<in> reach m S \<and> P k"
    by (induction rule: rtrancl_induct) (use assms(2,3) s reach_self reach_step in blast)+
  then show ?thesis by simp
qed

lemma reach_subset:
  assumes "S \<subseteq> T" and "\<And>a b. a \<in> T \<Longrightarrow> (a, b) \<in> link_rel m \<Longrightarrow> b \<in> T"
  shows "reach m S \<subseteq> T"
proof
  fix k assume "k \<in> reach m S"
  then show "k \<in> T" by (induction rule: reach_induct) (use assms in auto)
qed

text \<open>Taking \<open>A\<close> with everything reachable from it out of the table.\<close>

definition taken_out :: "links \<Rightarrow> u32 set \<Rightarrow> links \<Rightarrow> bool" where
  "taken_out m A m' \<longleftrightarrow> (\<forall>k. map_of m' k = (if k \<in> reach m A then None else map_of m k))"

lemma taken_out_rel: "taken_out m A m' \<Longrightarrow> link_rel m' = {(a, b) \<in> link_rel m. a \<notin> reach m A}"
  by (auto simp: taken_out_def link_rel_def split: if_splits)

lemma taken_out_trans:
  assumes "taken_out m A m1" and "taken_out m1 B m2"
  shows "taken_out m (A \<union> B) m2"
proof -
  have "reach m (A \<union> B) = reach m A \<union> reach m1 B"
  proof
    show "reach m (A \<union> B) \<subseteq> reach m A \<union> reach m1 B"
    proof (rule reach_subset)
      show "A \<union> B \<subseteq> reach m A \<union> reach m1 B" using reach_self by blast
      fix a b assume "a \<in> reach m A \<union> reach m1 B" and e: "(a, b) \<in> link_rel m"
      then show "b \<in> reach m A \<union> reach m1 B"
        using reach_step [OF _ e, of A] reach_step [of a m1 B b]
        by (cases "a \<in> reach m A") (auto simp: taken_out_rel [OF assms(1)])
    qed
    have "reach m A \<subseteq> reach m (A \<union> B)"
      using reach_self [of "A \<union> B" m] by (intro reach_subset) (auto intro: reach_step)
    moreover have "reach m1 B \<subseteq> reach m (A \<union> B)"
      using reach_self [of "A \<union> B" m]
      by (intro reach_subset) (auto intro: reach_step simp: taken_out_rel [OF assms(1)])
    ultimately show "reach m A \<union> reach m1 B \<subseteq> reach m (A \<union> B)" by simp
  qed
  then show ?thesis using assms by (auto simp: taken_out_def)
qed

lemma link_rel_delete: "link_rel (AList.delete r m) = {(a, b) \<in> link_rel m. a \<noteq> r}"
  by (auto simp: link_rel_def delete_conv' split: if_splits)

lemma reach_delete:
  assumes "map_of m r = Some vs"
  shows "reach m (insert r S) = insert r (reach (AList.delete r m) (set vs \<union> S))"
proof
  have succ: "b \<in> set vs" if "(r, b) \<in> link_rel m" for b
    using that assms by (auto simp: link_rel_def)
  show "reach m (insert r S) \<subseteq> insert r (reach (AList.delete r m) (set vs \<union> S))"
  proof (rule reach_subset)
    have s: "set vs \<union> S \<subseteq> reach (AList.delete r m) (set vs \<union> S)" by (rule reach_self)
    then show "insert r S \<subseteq> insert r (reach (AList.delete r m) (set vs \<union> S))" by blast
    fix a b assume "a \<in> insert r (reach (AList.delete r m) (set vs \<union> S))" and "(a, b) \<in> link_rel m"
    then show "b \<in> insert r (reach (AList.delete r m) (set vs \<union> S))"
      using s succ reach_step [of a "AList.delete r m" _ b] by (cases "a = r") (auto simp: link_rel_delete)
  qed
  have r: "r \<in> reach m (insert r S)" using reach_self by blast
  moreover have "set vs \<subseteq> reach m (insert r S)"
    using assms reach_step [OF r] by (auto simp: link_rel_def)
  moreover have "S \<subseteq> reach m (insert r S)" using reach_self by blast
  ultimately show "insert r (reach (AList.delete r m) (set vs \<union> S)) \<subseteq> reach m (insert r S)"
    using reach_subset [of "set vs \<union> S" "reach m (insert r S)" "AList.delete r m"] reach_step
    by (auto simp: link_rel_delete)
qed

lemma reach_absent:
  assumes "map_of m r = None"
  shows "reach m (insert r S) = insert r (reach m S)"
proof
  show "reach m (insert r S) \<subseteq> insert r (reach m S)"
    using reach_self [of S m] assms
    by (intro reach_subset) (auto intro: reach_step simp: link_rel_def)
  show "insert r (reach m S) \<subseteq> reach m (insert r S)"
    using reach_self [of "insert r S" m] reach_subset [of S "reach m (insert r S)" m]
    by (auto intro: reach_step)
qed

lemma reach_empty [simp]: "reach m {} = {}"
  by (simp add: reach_def)

lemma remove_loop_taken_out: "taken_out m (insert r (set stack)) (remove_loop m r stack)"
proof (induction m r stack rule: remove_loop.induct)
  case (1 m r stack)
  have snoc: "set xs = insert (last xs) (set (butlast xs))" if "xs \<noteq> []" for xs :: "u32 list"
    using that by (metis append_butlast_last_id insert_is_Un set_append list.set inf_sup_aci(5))
  show ?case
  proof (cases "map_of m r")
    case None
    then show ?thesis
    proof (cases "stack = []")
      case True
      then show ?thesis using None by (simp add: remove_loop.simps taken_out_def reach_absent)
    next
      case False
      then have "remove_loop m r stack = remove_loop m (last stack) (butlast stack)"
        by (subst remove_loop.simps) (simp add: None)
      then show ?thesis
        using 1(1) [OF None False] snoc [OF False] None
        by (auto simp: taken_out_def reach_absent)
    qed
  next
    case (Some vs)
    let ?m = "AList.delete r m"
    have *: "taken_out m (insert r S) m'" if "taken_out ?m (set vs \<union> S) m'" for S m'
      using that by (auto simp: taken_out_def reach_delete [OF Some] delete_conv' split: if_splits)
    consider (vs) "vs \<noteq> []" | (stack) "vs = []" "stack \<noteq> []" | (empty) "vs = []" "stack = []" by blast
    then show ?thesis
    proof cases
      case vs
      then have "remove_loop m r stack = remove_loop ?m (last vs) (stack @ butlast vs)"
        by (subst remove_loop.simps) (simp add: Some)
      moreover have "insert (last vs) (set (stack @ butlast vs)) = set vs \<union> set stack"
        using snoc [OF vs] by auto
      ultimately show ?thesis using 1(2) [OF Some vs] * by simp
    next
      case stack
      then have "remove_loop m r stack = remove_loop ?m (last stack) (butlast stack)"
        by (subst remove_loop.simps) (simp add: Some)
      then show ?thesis using 1(3) [OF Some] stack * [of "set stack"] snoc [OF stack(2)] by simp
    next
      case empty
      then have "remove_loop m r stack = ?m" by (subst remove_loop.simps) (simp add: Some)
      then show ?thesis using * [of "{}" ?m] empty by (simp add: taken_out_def)
    qed
  qed
qed

lemma remove_rejected_taken_out:
  "taken_out m {i. \<exists>ty. (i, ty) \<in> set tys \<and> \<not> f ty} (remove_rejected f tys m)"
proof (induction tys arbitrary: m)
  case Nil
  then show ?case by (simp add: remove_rejected_def taken_out_def)
next
  case (Cons t tys)
  obtain i ty where t: "t = (i, ty)" by fastforce
  let ?R = "\<lambda>tys. {i. \<exists>ty. (i, ty) \<in> set tys \<and> \<not> f ty}"
  show ?case
  proof (cases "f ty")
    case True
    then have "?R (t # tys) = ?R tys" by (auto simp: t)
    then show ?thesis using Cons [of m] True by (simp add: remove_rejected_def t)
  next
    case False
    then have "?R (t # tys) = {i} \<union> ?R tys" by (auto simp: t)
    then show ?thesis
      using taken_out_trans [OF _ Cons [of "remove_loop m i []"], of m "{i}"] remove_loop_taken_out [of m i "[]"] False
      by (simp add: remove_rejected_def t)
  qed
qed

text \<open>Only entries are removed, so keys stay distinct.\<close>

lemma remove_loop_distinct: "distinct (map fst m) \<Longrightarrow> distinct (map fst (remove_loop m r stack))"
  by (induction m r stack rule: remove_loop.induct)
    (subst remove_loop.simps, auto simp: distinct_delete split: option.split)

lemma remove_rejected_distinct:
  "distinct (map fst m) \<Longrightarrow> distinct (map fst (remove_rejected f tys m))"
  unfolding remove_rejected_def
  by (induction tys arbitrary: m) (auto simp: remove_loop_distinct)

section \<open>The references of a list of types\<close>

definition uses :: "(u32 \<times> BtfType) list \<Rightarrow> (u32 \<times> u32) set" where
  "uses tys = {(i, r). \<exists>ty. (i, ty) \<in> set tys \<and> r \<in> set (type_refs ty)}"

lemma link_push_rel [simp]: "link_rel (link_push v k m) = insert (k, v) (link_rel m)"
  by (auto simp: link_rel_def link_push_def map_of_map_default split: option.splits if_splits)

lemma link_entry_rel [simp]: "link_rel (link_entry k m) = link_rel m"
  by (auto simp: link_rel_def link_entry_def map_of_map_default split: option.splits if_splits)

lemma fold_push_rel: "link_rel (fold (link_push v) ks m) = link_rel m \<union> {(k, v) |k. k \<in> set ks}"
  by (induction ks arbitrary: m) auto

lemma fold_push_keys: "fst ` set (fold (link_push v) ks m) = fst ` set m \<union> set ks"
  by (induction ks arbitrary: m) (auto simp: link_push_def dom_map_default)

lemma fold_push_distinct: "distinct (map fst m) \<Longrightarrow> distinct (map fst (fold (link_push v) ks m))"
  by (induction ks arbitrary: m) (auto simp: link_push_def distinct_map_default)

lemma link_entry_keys [simp]:
  "fst ` set (link_entry k m) = insert k (fst ` set m)"
  "distinct (map fst m) \<Longrightarrow> distinct (map fst (link_entry k m))"
  by (simp_all add: link_entry_def dom_map_default distinct_map_default)

lemma uses_Cons [simp]: "uses ((i, ty) # tys) = {i} \<times> set (type_refs ty) \<union> uses tys"
  by (auto simp: uses_def)

lemma uses_Nil [simp]: "uses [] = {}"
  by (simp add: uses_def)

lemma link_type_facts:
  "link_rel (link_type t m) = link_rel m \<union> {(k, fst t) |k. k \<in> set (type_refs (snd t))}"
  "fst ` set (link_type t m) = fst ` set m \<union> insert (fst t) (set (type_refs (snd t)))"
  "distinct (map fst m) \<Longrightarrow> distinct (map fst (link_type t m))"
  by (auto simp: link_type_def fold_push_rel fold_push_keys fold_push_distinct)

lemma fold_link_type:
  "link_rel (fold link_type tys m) = link_rel m \<union> (uses tys)\<inverse>"
  "fst ` set (fold link_type tys m) = fst ` set m \<union> fst ` set tys \<union> Range (uses tys)"
  "distinct (map fst m) \<Longrightarrow> distinct (map fst (fold link_type tys m))"
  by (induction tys arbitrary: m) (auto simp: link_type_facts)

lemmas build_links_facts = fold_link_type [where m = "[]", simplified, folded build_links_def]

text \<open>The types that go: those from which references lead to a rejected type.\<close>

definition dropped :: "(BtfType \<Rightarrow> bool) \<Rightarrow> (u32 \<times> BtfType) list \<Rightarrow> u32 set" where
  "dropped f tys = {k. \<exists>j ty. (j, ty) \<in> set tys \<and> \<not> f ty \<and> (k, j) \<in> (uses tys)\<^sup>*}"

definition left_ids :: "(BtfType \<Rightarrow> bool) \<Rightarrow> (u32 \<times> BtfType) list \<Rightarrow> u32 set" where
  "left_ids f tys = (fst ` set tys \<union> Range (uses tys)) - dropped f tys"

lemma left_links:
  fixes f tys
  defines "m \<equiv> remove_rejected f tys (build_links tys)"
  shows "fst ` set m = left_ids f tys" and "distinct (map fst m)"
proof -
  have rel: "link_rel (build_links tys) = (uses tys)\<inverse>"
    using build_links_facts(1) [of tys] by (simp add: link_rel_def)
  have "reach (build_links tys) {i. \<exists>ty. (i, ty) \<in> set tys \<and> \<not> f ty} = dropped f tys"
    unfolding reach_def rel dropped_def by (auto simp: rtrancl_converse Image_def)
  then have "map_of m k = (if k \<in> dropped f tys then None else map_of (build_links tys) k)" for k
    using remove_rejected_taken_out [of "build_links tys" tys f] by (simp add: taken_out_def m_def)
  then have "dom (map_of m) = dom (map_of (build_links tys)) - dropped f tys"
    by (auto simp: dom_def split: if_splits)
  then show "fst ` set m = left_ids f tys"
    using build_links_facts(2) [of tys] by (simp add: dom_map_of_conv_image_fst left_ids_def)
  show "distinct (map fst m)"
    unfolding m_def using build_links_facts(3) [of tys] by (simp add: remove_rejected_distinct)
qed

section \<open>The new identifiers\<close>

lemma card_smaller:
  fixes xs :: "'a::linorder list"
  assumes "sorted xs" and "distinct xs" and "i < length xs"
  shows "card {k \<in> set xs. k < xs ! i} = i"
proof -
  have "{k \<in> set xs. k < xs ! i} = set (take i xs)"
  proof (intro equalityI subsetI)
    fix k assume "k \<in> {k \<in> set xs. k < xs ! i}"
    then obtain j where j: "j < length xs" "k = xs ! j" "xs ! j < xs ! i" by (auto simp: in_set_conv_nth)
    then have "j < i" using sorted_nth_mono [OF assms(1), of i j] by (meson leD not_le_imp_less)
    then show "k \<in> set (take i xs)" using j assms(3) by (auto simp: in_set_conv_nth)
  next
    fix k assume "k \<in> set (take i xs)"
    then obtain j where j: "j < i" "k = xs ! j" using assms(3) by (auto simp: in_set_conv_nth)
    moreover have "xs ! j \<le> xs ! i" using sorted_nth_mono [OF assms(1), of j i] j assms(3) by simp
    moreover have "xs ! j \<noteq> xs ! i" using j assms by (simp add: nth_eq_iff_index_eq)
    ultimately show "k \<in> {k \<in> set xs. k < xs ! i}" using assms(3) by auto
  qed
  then show ?thesis using assms by (simp add: distinct_card)
qed

text \<open>The rank of an identifier among those that are left; 0 keeps its number.\<close>

definition rank :: "u32 set \<Rightarrow> u32 \<Rightarrow> nat" where
  "rank K x = (if 0 \<in> K then 0 else 1) + card {k \<in> K. k < x}"

lemma card_below_le: "card {k \<in> K. (k :: u32) < x} + (if 0 \<in> K then 0 else 1) \<le> unat x \<or> x = 0 \<and> 0 \<notin> K"
proof -
  have "unat ` {k \<in> K. k < x} \<subseteq> {(if 0 \<in> K then 0 else 1)..<unat x}"
  proof
    fix n assume "n \<in> unat ` {k \<in> K. k < x}"
    then obtain k where k: "n = unat k" "k \<in> K" "unat k < unat x" by (auto simp: word_less_nat_alt)
    have "0 < unat k" if "0 \<notin> K" using k(2) that by (auto simp: unat_gt_0)
    then show "n \<in> {(if 0 \<in> K then 0 else 1)..<unat x}" using k by (simp add: Suc_le_eq)
  qed
  then have "card (unat ` {k \<in> K. k < x}) \<le> card {(if 0 \<in> K then 0 else 1 :: nat)..<unat x}"
    by (intro card_mono) simp_all
  moreover have "card (unat ` {k \<in> K. k < x}) = card {k \<in> K. k < x}"
    by (intro card_image inj_onI) (simp add: unat_inject)
  moreover have "x \<noteq> 0 \<Longrightarrow> 0 < unat x" by (simp add: unat_gt_0)
  ultimately show ?thesis by (cases "x = 0") (auto split: if_splits)
qed

lemma rank_le: "x \<in> K \<Longrightarrow> rank K x \<le> unat x"
  using card_below_le [of K x] by (auto simp: rank_def split: if_splits)

lemma rank_less:
  assumes "x \<in> K" and "x < y"
  shows "rank K x < rank K y"
proof -
  have "{k \<in> K. k < x} \<subset> {k \<in> K. k < y}" using assms by auto
  then have "card {k \<in> K. k < x} < card {k \<in> K. k < y}" by (intro psubset_card_mono) simp_all
  then show ?thesis by (simp add: rank_def)
qed

text \<open>The table the code computes: no addition overflows and every left identifier gets its rank.\<close>

lemma assign_ids_rank:
  assumes "distinct (map fst m)"
  shows "\<exists>ids. assign_ids m = Ok ids \<and>
    (\<forall>k. map_of ids k = (if k \<in> fst ` set m then Some (of_nat (rank (fst ` set m) k)) else None))"
proof -
  let ?K = "fst ` set m" and ?xs = "sort (map fst m)"
  let ?c = "(case map_of m 0 of Some _ \<Rightarrow> 0 | None \<Rightarrow> 1) :: u32"
  let ?g = "\<lambda>(i, old). (old, of_nat (rank ?K old)) :: u32 \<times> u32"
  have c: "?c = (if 0 \<in> ?K then 0 else 1)"
    by (auto simp: map_of_eq_None_iff split: option.splits dest: map_of_SomeD intro: rev_image_eqI)
  have xs: "sorted ?xs" "distinct ?xs" "set ?xs = ?K" using assms by auto
  have step: "and_then (uadd (of_nat i) ?c) (\<lambda>n. Ok (?xs ! i, n)) = (Ok (?g (i, ?xs ! i)) :: (u32 \<times> u32) result)"
    if i: "i < length ?xs" for i
  proof -
    have "?xs ! i \<in> ?K" using i xs(3) nth_mem by metis
    have "card {k \<in> ?K. k < ?xs ! i} = i" using card_smaller [OF xs(1,2) i] xs(3) by simp
    then have r: "rank ?K (?xs ! i) = i + (if 0 \<in> ?K then 0 else 1)" by (simp add: rank_def)
    then have "i + (if 0 \<in> ?K then 0 else 1) < 2 ^ 32"
      using rank_le [OF \<open>?xs ! i \<in> ?K\<close>] unat_u32_less [of "?xs ! i"] by simp
    then have "uadd (of_nat i) ?c = (Ok (of_nat (rank ?K (?xs ! i))) :: u32 result)"
      unfolding r c uadd_def by (auto simp: unat_of_nat split: if_splits)
    then show ?thesis by simp
  qed
  have "assign_ids m = Ok (map ?g (enumerate 0 ?xs))"
    unfolding assign_ids_def Let_def
    by (rule try_map_all_Ok) (auto simp: in_set_enumerate_eq step)
  moreover have "map_of (map ?g (enumerate 0 ?xs)) k = (if k \<in> ?K then Some (of_nat (rank ?K k)) else None)" for k
  proof -
    have "map ?g (enumerate 0 ?xs) = map (\<lambda>old. (old, of_nat (rank ?K old))) ?xs"
      by (rule nth_equalityI) (auto simp: nth_enumerate_eq)
    then show ?thesis using xs(3) by (simp add: map_of_map_restrict restrict_map_def)
  qed
  ultimately show ?thesis by blast
qed

lemma renumber_consecutive:
  assumes "consecutive n tys"
    and ids: "\<And>k. map_of ids k = (if k \<in> K then Some (of_nat (rank K k)) else None)"
  shows "consecutive ((if 0 \<in> K then 0 else 1) + card {k \<in> K. unat k < n}) (renumber ids tys)"
  using assms(1)
proof (induction tys arbitrary: n)
  case Nil
  then show ?case by (simp add: renumber_def)
next
  case (Cons t tys)
  obtain i ty where t: "t = (i, ty)" by fastforce
  have i: "unat i = n" and IH: "consecutive ((if 0 \<in> K then 0 else 1) + card {k \<in> K. unat k < Suc n}) (renumber ids tys)"
    using Cons by (auto simp: t)
  have below: "{k \<in> K. unat k < n} = {k \<in> K. k < i}" by (auto simp: word_less_nat_alt i)
  show ?case
  proof (cases "i \<in> K")
    case True
    have "{k \<in> K. unat k < Suc n} = insert i {k \<in> K. unat k < n}"
      using True i by (auto simp: less_Suc_eq unat_inject)
    then have s: "card {k \<in> K. unat k < Suc n} = Suc (card {k \<in> K. unat k < n})" using i by simp
    have "unat (of_nat (rank K i) :: u32) = rank K i"
      using rank_le [OF True] unat_u32_less [of i] by (simp add: unat_of_nat)
    then show ?thesis using IH True by (simp add: renumber_def t ids s rank_def below)
  next
    case False
    then have "{k \<in> K. unat k < Suc n} = {k \<in> K. unat k < n}"
      using i by (auto simp: less_Suc_eq unat_inject)
    then show ?thesis using IH False by (simp add: renumber_def t ids)
  qed
qed

lemma renumber_filter:
  assumes ids: "\<And>k. map_of ids k = (if k \<in> K then Some (of_nat (rank K k)) else None)"
  shows "renumber ids tys = map (\<lambda>(i, ty). (of_nat (rank K i), ty)) (filter (\<lambda>(i, _). i \<in> K) tys)"
  unfolding renumber_def by (induction tys) (auto simp: ids)

lemma consecutive_iff: "consecutive n xs \<longleftrightarrow> map (\<lambda>x. unat (fst x)) xs = [n..<n + length xs]"
  by (induction n xs rule: consecutive.induct) (auto simp: upt_conv_Cons simp del: upt_Suc)

section \<open>Renaming references\<close>

definition renamed :: "(u32 \<Rightarrow> u32) \<Rightarrow> BtfType \<Rightarrow> BtfType \<Rightarrow> bool" where
  "renamed \<rho> ty ty' \<longleftrightarrow>
     type_refs ty' = map \<rho> (type_refs ty) \<and> kind_of ty' = kind_of ty \<and>
     byte_len ty' = byte_len ty \<and> length (dump_type ty') = length (dump_type ty) \<and>
     name_raw (btf_common ty') = name_raw (btf_common ty) \<and>
     name_fixed (btf_common ty') = name_fixed (btf_common ty) \<and>
     bt_name_off (comm_btf_type (btf_common ty')) = bt_name_off (comm_btf_type (btf_common ty))"

lemma new_id_Ok: "map_of ids r = Some n \<Longrightarrow> new_id ids r = Ok n"
  by (simp add: new_id_def)

lemma comm_set_type_id_facts [simp]:
  "comm_type_id (comm_set_type_id c n) = n" "comm_vlen (comm_set_type_id c n) = comm_vlen c"
  "name_raw (comm_set_type_id c n) = name_raw c" "name_fixed (comm_set_type_id c n) = name_fixed c"
  "bt_name_off (comm_btf_type (comm_set_type_id c n)) = bt_name_off (comm_btf_type c)"
  by (simp_all add: comm_type_id_def comm_set_type_id_def comm_vlen_def)

lemma rename_list_facts:
  assumes "list_all (\<lambda>x. map_of ids (get x) = Some (\<rho> (get x))) xs"
    and "\<And>x. map_of ids (get x) = Some (\<rho> (get x)) \<Longrightarrow> ren x = Ok (put x (\<rho> (get x)))"
  shows "try_map ren xs = Ok (map (\<lambda>x. put x (\<rho> (get x))) xs)"
  using assms(1) by (intro try_map_all_Ok assms(2)) (auto simp: list.pred_set)

lemma rename_type_renamed:
  assumes "list_all (\<lambda>r. map_of ids r = Some (\<rho> r)) (type_refs ty)"
  shows "\<exists>ty'. rename_type ids ty = Ok ty' \<and> renamed \<rho> ty ty'"
proof -
  have comm: "map_of ids (comm_type_id c) = Some (\<rho> (comm_type_id c)) \<Longrightarrow>
      rename_comm ids c = Ok (comm_set_type_id c (\<rho> (comm_type_id c)))" for c
    by (simp add: rename_comm_def new_id_Ok)
  have membs: "list_all (\<lambda>m. map_of ids (memb_type_id m) = Some (\<rho> (memb_type_id m))) ms \<Longrightarrow>
      try_map (rename_member ids) ms = Ok (map (\<lambda>m. memb_set_type_id m (\<rho> (memb_type_id m))) ms)" for ms
    by (rule rename_list_facts) (auto simp: rename_member_def new_id_Ok)
  have params: "list_all (\<lambda>p. map_of ids (bp_type p) = Some (\<rho> (bp_type p))) ps \<Longrightarrow>
      try_map (rename_param ids) ps = Ok (map (\<lambda>p. p\<lparr>bp_type := \<rho> (bp_type p)\<rparr>) ps)" for ps
    by (rule rename_list_facts) (auto simp: rename_param_def new_id_Ok)
  have vsis: "list_all (\<lambda>v. map_of ids (vs_type v) = Some (\<rho> (vs_type v))) vs \<Longrightarrow>
      try_map (rename_vsi ids) vs = Ok (map (\<lambda>v. v\<lparr>vs_type := \<rho> (vs_type v)\<rparr>) vs)" for vs
    by (rule rename_list_facts) (auto simp: rename_vsi_def new_id_Ok)
  show ?thesis
    using assms
    by (cases ty)
      (auto simp: renamed_def list.pred_map comp_def comm membs params vsis new_id_Ok membc.length_concat_enc_map
        paramc.length_concat_enc_map vsic.length_concat_enc_map paramc.length_concat_enc
        vsic.length_concat_enc memb_type_id_def memb_set_type_id_def)
qed

section \<open>Filtering\<close>

lemma left_ids_closed:
  assumes "(i, ty) \<in> set tys" and "i \<notin> dropped f tys" and "r \<in> set (type_refs ty)"
  shows "r \<in> left_ids f tys"
proof -
  have ir: "(i, r) \<in> uses tys" using assms by (auto simp: uses_def)
  then have "r \<notin> dropped f tys"
    using assms(2) by (auto simp: dropped_def intro: converse_rtrancl_into_rtrancl)
  then show ?thesis using ir by (auto simp: left_ids_def)
qed

definition kept :: "(BtfType \<Rightarrow> bool) \<Rightarrow> (u32 \<times> BtfType) list \<Rightarrow> (u32 \<times> BtfType) list" where
  "kept f tys = filter (\<lambda>(i, _). i \<notin> dropped f tys) tys"

lemma kept_left: "filter (\<lambda>(i, _). i \<in> left_ids f tys) tys = kept f tys"
  unfolding kept_def by (rule filter_cong) (auto simp: left_ids_def intro: rev_image_eqI)

lemma kept_accepted: "list_all (\<lambda>(_, ty). f ty) (kept f tys)"
  by (auto simp: kept_def list.pred_set dropped_def)

lemma consecutive_pos: "consecutive n tys \<Longrightarrow> (i, ty) \<in> set tys \<Longrightarrow> n \<le> unat i"
  by (induction tys arbitrary: n) force+

text \<open>The renaming as a function on identifiers.\<close>

definition new_number :: "(BtfType \<Rightarrow> bool) \<Rightarrow> (u32 \<times> BtfType) list \<Rightarrow> u32 \<Rightarrow> u32" where
  "new_number f tys k = of_nat (rank (left_ids f tys) k)"

lemma new_number_mono: "strict_mono_on (left_ids f tys) (new_number f tys)"
proof (rule strict_mono_onI)
  let ?K = "left_ids f tys"
  fix r s assume rs: "r \<in> ?K" "s \<in> ?K" "r < s"
  have small: "unat (new_number f tys k) = rank ?K k" if "k \<in> ?K" for k
    using rank_le [OF that] unat_u32_less [of k] by (simp add: new_number_def unat_of_nat)
  show "new_number f tys r < new_number f tys s"
    using rank_less [OF rs(1,3)] rs by (simp add: word_less_nat_alt small)
qed

lemma new_number_void: "0 \<in> left_ids f tys \<Longrightarrow> new_number f tys 0 = 0"
  by (simp add: new_number_def rank_def)

lemma filter_types:
  assumes "consecutive 1 tys"
  obtains ids new_types where
    "assign_ids (remove_rejected f tys (build_links tys)) = Ok ids"
    and "try_map (\<lambda>(i, ty). and_then (rename_type ids ty) (\<lambda>ty. Ok (i, ty))) (renumber ids tys) = Ok new_types"
    and "consecutive 1 new_types"
    and "list_all2 (\<lambda>(i, ty) (j, ty'). j = new_number f tys i \<and> renamed (new_number f tys) ty ty')
          (kept f tys) new_types"
proof -
  let ?m = "remove_rejected f tys (build_links tys)" and ?K = "left_ids f tys"
  obtain ids where ids: "assign_ids ?m = Ok ids"
    and look: "\<And>k. map_of ids k = (if k \<in> ?K then Some (of_nat (rank ?K k)) else None)"
    using assign_ids_rank [OF left_links(2), of f tys] left_links(1) [of f tys] by auto
  let ?\<rho> = "new_number f tys"
  have "\<exists>ty'. rename_type ids ty = Ok ty' \<and> renamed ?\<rho> ty ty'" if "(i, ty) \<in> set (kept f tys)" for i ty
  proof (rule rename_type_renamed)
    from that have "(i, ty) \<in> set tys" "i \<notin> dropped f tys" by (auto simp: kept_def)
    then show "list_all (\<lambda>r. map_of ids r = Some (?\<rho> r)) (type_refs ty)"
      by (auto simp: list.pred_set look new_number_def dest: left_ids_closed)
  qed
  then obtain g where g: "\<And>i ty. (i, ty) \<in> set (kept f tys) \<Longrightarrow> rename_type ids ty = Ok (g i ty) \<and> renamed ?\<rho> ty (g i ty)"
    by metis
  have ren: "renumber ids tys = map (\<lambda>(i, ty). (?\<rho> i, ty)) (kept f tys)"
    using renumber_filter [OF look] by (simp add: kept_left new_number_def)
  let ?new = "map (\<lambda>(i, ty). (?\<rho> i, g i ty)) (kept f tys)"
  have new: "try_map (\<lambda>(i, ty). and_then (rename_type ids ty) (\<lambda>ty. Ok (i, ty))) (renumber ids tys) = Ok ?new"
    unfolding ren try_map_map by (rule try_map_all_Ok) (auto simp: g)
  have "consecutive ((if 0 \<in> ?K then 0 else 1) + card {k \<in> ?K. unat k < 1}) (renumber ids tys)"
    by (rule renumber_consecutive [OF assms look])
  moreover have "{k \<in> ?K. unat k < 1} = (if 0 \<in> ?K then {0} else {})" by (auto simp: unat_eq_0)
  ultimately have "consecutive 1 (renumber ids tys)" by (simp split: if_splits)
  then have "consecutive 1 ?new"
    unfolding ren consecutive_iff by (simp add: case_prod_beta comp_def)
  moreover have "list_all2 (\<lambda>(i, ty) (j, ty'). j = ?\<rho> i \<and> renamed ?\<rho> ty ty') (kept f tys) ?new"
    by (auto simp: list_all2_conv_all_nth case_prod_beta) (metis g nth_mem prod.collapse)
  ultimately show ?thesis using that ids new by blast
qed

definition types_len :: "(u32 \<times> BtfType) list \<Rightarrow> nat" where
  "types_len tys = sum_list (map (\<lambda>(_, ty). byte_len ty) tys)"

lemma types_len_filter: "types_len (filter P tys) \<le> types_len tys"
  by (induction tys) (auto simp: types_len_def)

lemma types_len_renamed:
  "list_all2 (\<lambda>(i, ty) (j, ty'). j = g i \<and> renamed \<rho> ty ty') xs ys \<Longrightarrow> types_len ys = types_len xs"
  by (induction xs ys rule: list_all2_induct) (auto simp: types_len_def renamed_def)

lemma types_len_kept:
  "list_all2 (\<lambda>(i, ty) (j, ty'). f ty \<and> j = g i \<and> renamed \<rho> ty ty') (kept f tys) ys \<Longrightarrow>
   types_len ys \<le> types_len tys"
  using types_len_renamed [of g \<rho> "kept f tys" ys] types_len_filter [of _ tys]
  by (metis (mono_tags, lifting) kept_def case_prod_beta' list.rel_mono_strong)

text \<open>A parsed section has what filtering needs; where its strings lie is not checked.\<close>

definition filterable :: "BTF_data \<Rightarrow> bool" where
  "filterable btf \<longleftrightarrow>
     consecutive 1 (types btf) \<and>
     types_len (types btf) = unat (type_len (btf_hdr btf)) \<and>
     unat (str_off (btf_hdr btf)) + unat (str_len (btf_hdr btf)) < 2 ^ 32"

lemma parse_types_loop_len:
  "parse_types_loop tid bs strs = Ok (tys, strs') \<Longrightarrow> types_len tys = length bs"
  by (induction rule: parse_types_loop_induct) (auto simp: types_len_def)

lemma parse_raw_filterable:
  assumes "parse_raw bs = Ok btf"
  shows "filterable btf"
proof -
  note p = parse_raw_Ok [OF assms]
  note loop = p(9) [unfolded parse_types_def]
  show ?thesis
    using p(6,7,8) parse_types_loop_ids [OF loop] parse_types_loop_len [OF loop]
    by (simp add: filterable_def)
qed

text \<open>How many bytes the rejected types and those that reach them take.\<close>

definition lost_bytes :: "(BtfType \<Rightarrow> bool) \<Rightarrow> BTF_data \<Rightarrow> nat" where
  "lost_bytes f btf = types_len (types btf) - types_len (kept f (types btf))"

lemma lost_bytes_le: "filterable btf \<Longrightarrow> lost_bytes f btf \<le> unat (type_len (btf_hdr btf))"
  by (simp add: filterable_def lost_bytes_def)

text \<open>The result of filtering: the types that are left, renumbered and renamed, and the lengths of the sections.\<close>

definition filtered :: "(BtfType \<Rightarrow> bool) \<Rightarrow> BTF_data \<Rightarrow> BTF_data \<Rightarrow> (u32 \<Rightarrow> u32) \<Rightarrow> bool" where
  "filtered f btf btf' \<rho> \<longleftrightarrow>
     consecutive 1 (types btf') \<and>
     list_all2 (\<lambda>(i, ty) (j, ty'). f ty \<and> j = \<rho> i \<and> renamed \<rho> ty ty') (kept f (types btf)) (types btf') \<and>
     strict_mono_on (left_ids f (types btf)) \<rho> \<and> (0 \<in> left_ids f (types btf) \<longrightarrow> \<rho> 0 = 0) \<and>
     filterable btf' \<and> hdr_len (btf_hdr btf') = hdr_len (btf_hdr btf) \<and>
     type_off (btf_hdr btf') = type_off (btf_hdr btf) \<and> btf_fd_opt btf' = btf_fd_opt btf \<and>
     unat (type_len (btf_hdr btf')) + lost_bytes f btf = unat (type_len (btf_hdr btf)) \<and>
     unat (str_off (btf_hdr btf')) + lost_bytes f btf = unat (str_off (btf_hdr btf)) \<and>
     unat (str_len (btf_hdr btf')) = unat (str_len (btf_hdr btf)) + lost_bytes f btf \<and>
     raw_str_enc btf' = raw_str_enc btf @ replicate (lost_bytes f btf) 0"

lemma filter_btf_outcome:
  assumes "filterable btf"
  shows "if lost_bytes f btf \<le> unat (str_off (btf_hdr btf))
    then \<exists>btf' \<rho>. filter_btf f btf = Ok btf' \<and> filtered f btf btf' \<rho>
    else filter_btf f btf = Panic"
proof -
  let ?h = "btf_hdr btf" and ?\<rho> = "new_number f (types btf)" and ?K = "left_ids f (types btf)"
  have fb: "consecutive 1 (types btf)" "types_len (types btf) = unat (type_len ?h)"
    "unat (str_off ?h) + unat (str_len ?h) < 2 ^ 32"
    using assms by (simp_all add: filterable_def)
  obtain ids new where ids: "assign_ids (remove_rejected f (types btf) (build_links (types btf))) = Ok ids"
    and new: "try_map (\<lambda>(i, ty). and_then (rename_type ids ty) (\<lambda>ty. Ok (i, ty))) (renumber ids (types btf)) = Ok new"
    and cons: "consecutive 1 new"
    and ren: "list_all2 (\<lambda>(i, ty) (j, ty'). j = ?\<rho> i \<and> renamed ?\<rho> ty ty') (kept f (types btf)) new"
    using fb(1) by (rule filter_types)
  have lk: "types_len new = types_len (kept f (types btf))" by (rule types_len_renamed [OF ren])
  have len: "types_len new \<le> unat (type_len ?h)"
    using lk types_len_filter [of _ "types btf"] fb(2) by (metis kept_def)
  let ?t = "of_nat (types_len new) :: u32"
  let ?d = "type_len ?h - ?t"
  have t: "unat ?t = types_len new" using len unat_u32_less [of "type_len ?h"] by (simp add: unat_of_nat)
  then have le: "?t \<le> type_len ?h" using len by (simp add: word_le_nat_alt)
  have d: "unat ?d = lost_bytes f btf" using unat_sub_no_underflow [OF le] t lk fb(2) by (simp add: lost_bytes_def)
  have tl: "types_len new + lost_bytes f btf = unat (type_len ?h)" using len lk fb(2) by (simp add: lost_bytes_def)
  show ?thesis
  proof (cases "lost_bytes f btf \<le> unat (str_off ?h)")
    case True
    then have dle: "?d \<le> str_off ?h" using d by (simp add: word_le_nat_alt)
    have ov: "unat (str_len ?h) + unat ?d < 2 ^ 32" using d fb True by linarith
    have so: "unat (str_off ?h - ?d) = unat (str_off ?h) - unat ?d" by (rule unat_sub_no_underflow [OF dle])
    have sl: "unat (str_len ?h + ?d) = unat (str_len ?h) + unat ?d"
      using unat_add_no_overflow [of "str_len ?h" ?d] ov by simp
    let ?btf' = "btf\<lparr>types := new, btf_hdr := ?h\<lparr>type_len := ?t, str_off := str_off ?h - ?d, str_len := str_len ?h + ?d\<rparr>,
        raw_str_enc := raw_str_enc btf @ replicate (unat ?d) 0\<rparr>"
    have "filter_btf f btf = Ok ?btf'"
      using le dle ov by (simp add: filter_btf_def ids new usub_def uadd_def types_len_def Let_def)
    moreover have "filterable ?btf'"
      using cons t fb so sl d True by (simp add: filterable_def)
    moreover have "list_all2 (\<lambda>(i, ty) (j, ty'). f ty \<and> j = ?\<rho> i \<and> renamed ?\<rho> ty ty') (kept f (types btf)) new"
      using ren kept_accepted [of f "types btf"] by (auto simp: list_all2_conv_all_nth list_all_length case_prod_beta)
    ultimately have "filter_btf f btf = Ok ?btf' \<and> filtered f btf ?btf' ?\<rho>"
      using cons sl d t so tl True new_number_mono [of f "types btf"] new_number_void [of f "types btf"]
      by (simp add: filtered_def)
    then show ?thesis using True by auto
  next
    case False
    then have "\<not> ?d \<le> str_off ?h" using d by (simp add: word_le_nat_alt)
    then show ?thesis using False le by (simp add: filter_btf_def ids new usub_def types_len_def Let_def)
  qed
qed

text \<open>
  C1: filtering a parsed section succeeds exactly when the bytes of the types it drops do
  not exceed the offset of the strings, which is always so when the strings lie behind the
  types; otherwise the subtraction of the offset overflows and panics. The types that are left are
  those from which no rejected type can be reached through references; they keep
  their order, their names and their encoded size, are numbered 1, 2, 3, ... again,
  and every reference in them is renamed by the same strictly increasing function
  that renumbers the types, which leaves the identifier 0 of \<open>void\<close> alone. What the
  type section loses in length the string section gains.
\<close>

theorem filter_btf_correct:
  assumes "parse_raw bs = Ok btf"
  shows "if lost_bytes f btf \<le> unat (str_off (btf_hdr btf))
    then \<exists>btf' \<rho>. filter_btf f btf = Ok btf' \<and> filtered f btf btf' \<rho>
    else filter_btf f btf = Panic"
  by (rule filter_btf_outcome [OF parse_raw_filterable [OF assms]])

theorem filter_btf_correct_witness:
  "parse_raw sample_raw = Ok sample_fixed \<and>
   (\<exists>btf' \<rho>. filter_btf (\<lambda>ty. kind_of ty \<noteq> K_Pointer) sample_fixed = Ok btf' \<and>
     filtered (\<lambda>ty. kind_of ty \<noteq> K_Pointer) sample_fixed btf' \<rho>)"
proof -
  have "lost_bytes f sample_fixed \<le> unat (str_off (btf_hdr sample_fixed))" for f
    using lost_bytes_le [OF parse_raw_filterable [OF sample_raw_parses], of f] by (simp add: sample_fixed_def)
  then show ?thesis using filter_btf_correct [OF sample_raw_parses, of "\<lambda>ty. kind_of ty \<noteq> K_Pointer"] sample_raw_parses by simp
qed

text \<open>A section of one floating point type whose strings lie at offset 0 parses, and filtering it panics.\<close>

definition strings_first :: bytes where
  "strings_first =
     [159, 235, 1, 0, 24, 0, 0, 0, 0, 0, 0, 0, 12, 0, 0, 0, 0, 0, 0, 0, 12, 0, 0, 0,
      0, 0, 0, 0, 0, 0, 0, 16, 4, 0, 0, 0]"

lemma filter_strings_first_panics: "\<exists>btf. parse_raw strings_first = Ok btf \<and> filter_btf legacy_type btf = Panic"
proof -
  let ?ty = "T_FloatingPoint \<lparr>comm_btf_type = \<lparr>bt_name_off = 0, bt_info = 0x10000000, bt_size_type = 4\<rparr>, name_fixed = None, name_raw = []\<rparr>"
  let ?btf = "\<lparr>types = [(1, ?ty)],
      btf_hdr = \<lparr>magic = BTF_MAGIC, version = 1, flags = 0, hdr_len = 24, type_off = 0, type_len = 12, str_off = 0, str_len = 12\<rparr>,
      raw_str_enc = [0, 0, 0, 0, 0, 0, 0, 16, 4, 0, 0, 0], btf_fd_opt = None\<rparr>"
  have p: "parse_raw strings_first = Ok ?btf"
    by (simp add: strings_first_def parse_raw_def read_raw_def btf_codec_defs le_at_defs uadd_def slice_def
     parse_types_def parse_types_loop.simps parse_type_def parse_common_def btf_eval rebuild_def may_name_def slice_from_def
     cong: and_then_weak_cong)
  have "kept legacy_type (types ?btf) = []"
    using kept_accepted [of legacy_type "types ?btf"] by (auto simp: kept_def split: if_splits)
  then have "lost_bytes legacy_type ?btf = 12" by (simp add: lost_bytes_def types_len_def)
  then show ?thesis using p filter_btf_outcome [OF parse_raw_filterable [OF p], of legacy_type] by auto
qed

section \<open>The section for \<open>tc\<close>\<close>

definition dumpable :: "(u32 \<times> BtfType) list \<Rightarrow> bool" where
  "dumpable tys \<longleftrightarrow> list_all (\<lambda>(_, ty). length (dump_type ty) = byte_len ty) tys"

lemma dump_types_dumpable: "dumpable tys \<longleftrightarrow> is_Ok (dump_types tys)"
proof (induction tys rule: dump_types.induct)
  case (2 i ty tys)
  then show ?case by (cases "dump_types tys") (auto simp: dumpable_def)
qed (simp add: dumpable_def)

lemma dump_types_len: "dump_types tys = Ok d \<Longrightarrow> length d = types_len tys"
  by (induction tys arbitrary: d rule: dump_types.induct)
    (auto simp: types_len_def and_then_eq_Ok split: if_splits)

lemma dumpable_renamed:
  "list_all2 (\<lambda>(i, ty) (j, ty'). f ty \<and> j = g i \<and> renamed \<rho> ty ty') xs ys \<Longrightarrow> dumpable xs \<Longrightarrow> dumpable ys"
  by (induction xs ys rule: list_all2_induct) (auto simp: dumpable_def renamed_def)

lemma legacy_type_kind: "legacy_type ty \<longleftrightarrow> kind_of ty \<notin> {K_Variable, K_DataSection, K_FloatingPoint}"
  by (cases ty) simp_all

lemma legacy_renamed:
  "list_all2 (\<lambda>(i, ty) (j, ty'). legacy_type ty \<and> j = g i \<and> renamed \<rho> ty ty') xs ys \<Longrightarrow>
   list_all (\<lambda>(_, ty). legacy_type ty) ys"
  by (induction xs ys rule: list_all2_induct) (auto simp: legacy_type_kind renamed_def)

text \<open>Filtering what was parsed leaves a section that dumps to as many bytes behind the header as before.\<close>

lemma filter_parsed_dump:
  assumes p: "parse_raw bs = Ok btf"
    and o: "unat (type_off (btf_hdr btf)) + unat (type_len (btf_hdr btf)) \<le> unat (str_off (btf_hdr btf))"
  obtains btf' d where "filter_btf legacy_type btf = Ok btf'" and "dump btf' = Ok d"
    and "length d + unat (hdr_len (btf_hdr btf)) = length bs + 24" and "list_all (\<lambda>(_, ty). legacy_type ty) (types btf')"
    and "consecutive 1 (types btf')"
proof -
  note ok = parse_raw_Ok [OF p] note loop = ok(9) [unfolded parse_types_def]
  have fb: "filterable btf" by (rule parse_raw_filterable [OF p])
  have "lost_bytes legacy_type btf \<le> unat (str_off (btf_hdr btf))" using lost_bytes_le [OF fb, of legacy_type] o by linarith
  then obtain btf' \<rho> where f: "filter_btf legacy_type btf = Ok btf'" and fl: "filtered legacy_type btf btf' \<rho>"
    using filter_btf_outcome [OF fb, of legacy_type] by auto
  let ?lost = "lost_bytes legacy_type btf"
  have c: "consecutive 1 (types btf')"
    and ren: "list_all2 (\<lambda>(i, ty) (j, ty'). legacy_type ty \<and> j = \<rho> i \<and> renamed \<rho> ty ty')
      (kept legacy_type (types btf)) (types btf')"
    and fb': "filterable btf'" and to: "type_off (btf_hdr btf') = type_off (btf_hdr btf)"
    and tl: "unat (type_len (btf_hdr btf')) + ?lost = unat (type_len (btf_hdr btf))"
    and so: "unat (str_off (btf_hdr btf')) + ?lost = unat (str_off (btf_hdr btf))"
    and sl: "unat (str_len (btf_hdr btf')) = unat (str_len (btf_hdr btf)) + ?lost"
    and rs: "raw_str_enc btf' = raw_str_enc btf @ replicate ?lost 0"
    using fl by (simp_all add: filtered_def)
  have "dumpable (types btf)"
    using parse_types_loop_dump [OF loop] by (auto simp: dump_types_dumpable)
  then have "dumpable (types btf')"
    by (intro dumpable_renamed [OF ren]) (auto simp: dumpable_def kept_def list.pred_set)
  then obtain tb where tb: "dump_types (types btf') = Ok tb"
    by (auto simp: dump_types_dumpable elim!: is_Ok.elims)
  have ltb: "length tb = unat (type_len (btf_hdr btf'))"
    using dump_types_len [OF tb] fb' by (simp add: filterable_def)
  have lr: "unat (str_len (btf_hdr btf')) = length (raw_str_enc btf')"
    using parse_types_loop_dump [OF loop] ok(6) by (auto simp: rs sl)
  have "unat (type_off (btf_hdr btf')) + unat (type_len (btf_hdr btf')) \<le> unat (str_off (btf_hdr btf'))"
    using o so tl to by simp
  moreover have "unat (str_off (btf_hdr btf')) + unat (str_len (btf_hdr btf')) < 2 ^ 32"
    using fb' by (simp add: filterable_def)
  ultimately have "dump btf' = Ok (btf_layout btf' tb)"
    and "length (btf_layout btf' tb) = 24 + unat (str_off (btf_hdr btf')) + unat (str_len (btf_hdr btf'))"
    using dump_Ok [OF tb ltb _ lr] by blast+
  then show ?thesis
    using that [OF f _ _ legacy_renamed [OF ren] c] so sl ok(6) by simp
qed

text \<open>
  C2: for an object file whose \<open>.BTF\<close> section parses, lies inside the file and has its
  types before its strings, filtering and dumping succeed. When the header has the 24 bytes
  of the structure, so does \<open>tc_legacy_fix_btf_section\<close>: the file keeps its
  length and every byte outside the section, and the section is the encoding of the
  filtered types, numbered from 1, none of which is a variable, a data section or a
  floating point type. With a shorter header it reports a bloated section, with a longer
  one a shrunk section, because the section is written with a header of 24 bytes.
\<close>

theorem tc_legacy_fix_correct:
  assumes "elf_parse elf_bytes = Ok object" and "get_section_header_by_name object ''.BTF'' = Some shdr"
    and "start = unat (sh_offset shdr)" and "len = unat (sh_size shdr)"
    and "start + len < 2 ^ 64" and "start + len \<le> length elf_bytes"
    and "parse_raw (take len (drop start elf_bytes)) = Ok btf"
    and "unat (type_off (btf_hdr btf)) + unat (type_len (btf_hdr btf)) \<le> unat (str_off (btf_hdr btf))"
  shows "\<exists>btf' d. filter_btf legacy_type btf = Ok btf' \<and> dump btf' = Ok d \<and>
    consecutive 1 (types btf') \<and> list_all (\<lambda>(_, ty). legacy_type ty) (types btf') \<and>
    (if hdr_len (btf_hdr btf) = 24
     then \<exists>fixed. tc_legacy_fix_btf_section elf_parse elf_bytes = Ok fixed \<and> take len (drop start fixed) = d \<and>
       length fixed = length elf_bytes \<and> take start fixed = take start elf_bytes \<and>
       drop (start + len) fixed = drop (start + len) elf_bytes
     else tc_legacy_fix_btf_section elf_parse elf_bytes =
       Err (BTF (if hdr_len (btf_hdr btf) < 24 then ''BTF section is bloated'' else ''BTF section is shrunk'')))"
proof -
  obtain btf' d where f: "filter_btf legacy_type btf = Ok btf'" and d: "dump btf' = Ok d"
    and l: "length d + unat (hdr_len (btf_hdr btf)) = length (take len (drop start elf_bytes)) + 24"
    and leg: "list_all (\<lambda>(_, ty). legacy_type ty) (types btf')" and c: "consecutive 1 (types btf')"
    using assms(7-8) by (rule filter_parsed_dump)
  have ld: "length d + unat (hdr_len (btf_hdr btf)) = len + 24" using l assms(6) by simp
  have e: "(uadd (sh_offset shdr) (sh_size shdr) :: u64 result) = Ok (sh_offset shdr + sh_size shdr)"
    and eu: "unat (sh_offset shdr + sh_size shdr) = start + len"
    using assms(3-5) unat_add_no_overflow [of "sh_offset shdr" "sh_size shdr"] by (simp_all add: uadd_def)
  have run: "tc_legacy_fix_btf_section elf_parse elf_bytes =
      (if len < length d then Err (BTF ''BTF section is bloated'')
       else if length d < len then Err (BTF ''BTF section is shrunk'')
       else Ok (take start elf_bytes @ d @ drop (start + len) elf_bytes))"
    using assms by (simp add: tc_legacy_fix_btf_section_def e eu Let_def slice_def slice_from_def f d)
  have h: "hdr_len (btf_hdr btf) = 24 \<longleftrightarrow> length d = len" "hdr_len (btf_hdr btf) < 24 \<longleftrightarrow> len < length d"
    using ld unat_inject [of "hdr_len (btf_hdr btf)" 24] by (auto simp: word_less_nat_alt)
  show ?thesis using f d c leg assms(6) by (auto simp: run h)
qed

definition sample_object :: Elf where
  "sample_object =
     \<lparr>section_headers = [\<lparr>sh_name = 0, sh_type = 1, sh_offset = 2, sh_size = 53, sh_info = 0\<rparr>],
      syms = [], strtab = (\<lambda>_. None), dynsyms = [], dynstrtab = (\<lambda>_. None),
      shdr_strtab = (\<lambda>i. if i = 0 then Some ''.BTF'' else None), shdr_relocs = []\<rparr>"

theorem tc_legacy_fix_correct_witness:
  "\<exists>fixed btf'. tc_legacy_fix_btf_section (\<lambda>_. Ok sample_object) ([7, 8] @ sample_raw @ [9]) = Ok fixed \<and>
     length fixed = 56 \<and> take 2 fixed = [7, 8] \<and> drop 55 fixed = [9] \<and>
     filter_btf legacy_type sample_fixed = Ok btf' \<and> dump btf' = Ok (take 53 (drop 2 fixed))"
proof -
  let ?bytes = "[7, 8] @ sample_raw @ [9]"
  let ?shdr = "\<lparr>sh_name = 0, sh_type = 1, sh_offset = 2, sh_size = 53, sh_info = 0\<rparr>"
  have l: "length sample_raw = 53" by (simp add: sample_raw_def)
  have sec: "take 53 (drop 2 ?bytes) = sample_raw" using l by simp
  have g: "get_section_header_by_name sample_object ''.BTF'' = Some ?shdr"
    by (simp add: get_section_header_by_name_def btf_get_section_name_def sample_object_def)
  have p: "parse_raw (take 53 (drop 2 ?bytes)) = Ok sample_fixed"
    unfolding sec by (rule sample_raw_parses)
  have h: "hdr_len (btf_hdr sample_fixed) = 24" by (simp add: sample_fixed_def)
  have "\<exists>btf' d. filter_btf legacy_type sample_fixed = Ok btf' \<and> dump btf' = Ok d \<and>
    consecutive 1 (types btf') \<and> list_all (\<lambda>(_, ty). legacy_type ty) (types btf') \<and>
    (if hdr_len (btf_hdr sample_fixed) = 24
     then \<exists>fixed. tc_legacy_fix_btf_section (\<lambda>_. Ok sample_object) ?bytes = Ok fixed \<and> take 53 (drop 2 fixed) = d \<and>
       length fixed = length ?bytes \<and> take 2 fixed = take 2 ?bytes \<and> drop (2 + 53) fixed = drop (2 + 53) ?bytes
     else tc_legacy_fix_btf_section (\<lambda>_. Ok sample_object) ?bytes =
       Err (BTF (if hdr_len (btf_hdr sample_fixed) < 24 then ''BTF section is bloated'' else ''BTF section is shrunk'')))"
    by (rule tc_legacy_fix_correct [OF refl g _ _ _ _ p]) (simp_all add: l sample_fixed_def)
  then show ?thesis using l unfolding h by auto
qed

end
