(* ===== verification/Btf_Elf.thy ===== *)
theory Btf_Elf
  imports Btf_Filter
begin

text \<open>
  The \<open>.BTF\<close> section of an object file: \<open>BTF::parse_elf\<close>, \<open>fix_datasection\<close>,
  \<open>get_type_by_id\<close>, \<open>get_map_type_ids\<close>, \<open>find_type_id\<close>, \<open>Drop\<close> and the
  \<open>Debug\<close> output of \<open>redbpf/src/btf.rs\<close>. The lemmas show what the fixed data
  sections contain, that the lookups return what their callers ask for, and that the
  debug output never unwraps a missing field.
\<close>

section \<open>Fixing the data sections\<close>

text \<open>The first loop: sizes of the sections, and the identifiers of their variables.\<close>

fun datasection_sizes :: "Elf \<Rightarrow> (u32 \<times> BtfType) list \<Rightarrow> ((u32 \<times> BtfType) list \<times> u32 list) result" where
  "datasection_sizes object [] = Ok ([], [])"
| "datasection_sizes object ((i, T_DataSection comm vsis) # tys) =
     and_then (ok_or (get_section_header_by_name object (name_raw comm))
                 (Section (''DataSection not found: '' @ name_raw comm))) (\<lambda>shdr.
     and_then (datasection_sizes object tys) (\<lambda>(tys', ids).
     Ok ((i, T_DataSection (comm_set_size comm (ucast (sh_size shdr))) vsis) # tys',
         map vs_type vsis @ ids)))"
| "datasection_sizes object (t # tys) =
     and_then (datasection_sizes object tys) (\<lambda>(tys', ids). Ok (t # tys', ids))"

fun as_variable :: "BtfType \<Rightarrow> (BtfTypeCommon \<times> btf_var) option" where
  "as_variable (T_Variable c v) = Some (c, v)"
| "as_variable _ = None"

fun find_variable :: "(u32 \<times> BtfType) list \<Rightarrow> u32 \<Rightarrow> (BtfTypeCommon \<times> btf_var) option" where
  "find_variable [] vti = None"
| "find_variable ((i, ty) # tys) vti =
     (case as_variable ty of
        Some v \<Rightarrow> if vti = i then Some v else find_variable tys vti
      | None \<Rightarrow> find_variable tys vti)"

text \<open>\<open>st_bind\<close> and \<open>st_type\<close> of the ELF specification, and the symbol the search accepts.\<close>

definition st_bind :: "u8 \<Rightarrow> u8" where "st_bind info = drop_bit 4 info"
definition st_type :: "u8 \<Rightarrow> u8" where "st_type info = info AND 0xf"

abbreviation (input) STB_GLOBAL :: u8 where "STB_GLOBAL \<equiv> 1"
abbreviation (input) STT_OBJECT :: u8 where "STT_OBJECT \<equiv> 1"

definition is_variable_symbol :: "Elf \<Rightarrow> string \<Rightarrow> Sym \<Rightarrow> bool" where
  "is_variable_symbol object name s \<longleftrightarrow>
     st_bind (st_info s) = STB_GLOBAL \<and> st_type (st_info s) = STT_OBJECT \<and>
     strtab object (st_name s) = Some name"

text \<open>The second loop: \<open>var_offsets\<close>, without the static variables.\<close>

fun collect_offsets ::
    "Elf \<Rightarrow> (u32 \<times> BtfType) list \<Rightarrow> u32 list \<Rightarrow> (u32 \<times> u64) list \<Rightarrow> (u32 \<times> u64) list result" where
  "collect_offsets object tys [] offs = Ok offs"
| "collect_offsets object tys (vti # vtis) offs =
     and_then (ok_or (find_variable tys vti)
                 (BTF (''Variable with type_id='' @ show_nat (unat vti) @ '' not found''))) (\<lambda>(common, v).
       if bv_linkage v = BTF_VAR_STATIC then collect_offsets object tys vtis offs
       else and_then (ok_or (find (is_variable_symbol object (name_raw common)) (syms object))
                        (BTF (''offset not found. BTF variable type_id='' @ show_nat (unat vti)))) (\<lambda>s.
            collect_offsets object tys vtis (AList.update vti (st_value s) offs)))"

text \<open>The third loop.\<close>

definition set_vsi_offset :: "(u32 \<times> u64) list \<Rightarrow> btf_var_secinfo \<Rightarrow> btf_var_secinfo" where
  "set_vsi_offset offs vsi =
     (case map_of offs (vs_type vsi) of
        Some offset \<Rightarrow> vsi\<lparr>vs_offset := ucast offset\<rparr>
      | None \<Rightarrow> vsi)"

fun set_offsets :: "(u32 \<times> u64) list \<Rightarrow> BtfType \<Rightarrow> BtfType" where
  "set_offsets offs (T_DataSection c vsis) = T_DataSection c (map (set_vsi_offset offs) vsis)"
| "set_offsets offs ty = ty"

definition fix_datasection :: "Elf \<Rightarrow> BTF_data \<Rightarrow> BTF_data result" where
  "fix_datasection object btf =
     and_then (datasection_sizes object (types btf)) (\<lambda>(tys, var_type_ids).
     and_then (collect_offsets object tys var_type_ids []) (\<lambda>var_offsets.
     Ok (btf\<lparr>types := map (\<lambda>(i, ty). (i, set_offsets var_offsets ty)) tys\<rparr>)))"

definition parse_elf :: "Elf \<Rightarrow> bytes \<Rightarrow> BTF_data result" where
  "parse_elf object bs =
     and_then (ok_or (get_section_header_by_name object ''.BTF'') (BTF ''section not found'')) (\<lambda>shdr.
     and_then (uadd (sh_offset shdr) (sh_size shdr)) (\<lambda>fin.
     and_then (slice bs (unat (sh_offset shdr)) (unat fin)) (\<lambda>btf_bytes.
     and_then (parse_raw btf_bytes) (\<lambda>btf.
     fix_datasection object btf))))"

section \<open>Lookups\<close>

fun get_type_by_id :: "(u32 \<times> BtfType) list \<Rightarrow> u32 \<Rightarrow> BtfType option" where
  "get_type_by_id [] i = None"
| "get_type_by_id ((tid, ty) # tys) i = (if i = tid then Some ty else get_type_by_id tys i)"

record MapBtfTypeId =
  btf_fd :: RawFd
  key_type_id :: u32
  value_type_id :: u32

fun find_named_variable :: "(u32 \<times> BtfType) list \<Rightarrow> string \<Rightarrow> BtfType option" where
  "find_named_variable [] name = None"
| "find_named_variable ((i, ty) # tys) name =
     (case as_variable ty of
        Some (common, _) \<Rightarrow> if name_raw common = name then Some ty else find_named_variable tys name
      | None \<Rightarrow> find_named_variable tys name)"

definition find_member :: "BtfMember list \<Rightarrow> string \<Rightarrow> u32 option" where
  "find_member membs name = map_option memb_type_id (find (\<lambda>m. memb_name m = name) membs)"

definition get_map_type_ids :: "BTF_data \<Rightarrow> string \<Rightarrow> MapBtfTypeId result" where
  "get_map_type_ids btf map_sym_name =
     (if \<not> is_loaded btf then Err (BTF ''BTF is not loaded yet'')
      else let map_btf_sym_name = ''MAP_BTF_'' @ map_sym_name
      in and_then (ok_or (find_named_variable (types btf) map_btf_sym_name)
                     (BTF (''Variable `'' @ map_btf_sym_name @ ''` not found''))) (\<lambda>var.
         and_then (unwrap (type_type_id var)) (\<lambda>tid.
         and_then (ok_or (get_type_by_id (types btf) tid) (BTF ''BTF is inconsistent'')) (\<lambda>map_btf_type.
         case map_btf_type of
           T_Structure struct_comm members \<Rightarrow>
             if name_raw struct_comm \<noteq> ''MapBtf''
             then Err (BTF (''illegal structure name: '' @ name_raw struct_comm))
             else and_then (ok_or (find_member members ''key_type'')
                              (BTF ''MapBtf::key_type field not found'')) (\<lambda>k.
                  and_then (ok_or (find_member members ''value_type'')
                              (BTF ''MapBtf::value_type field not found'')) (\<lambda>v.
                  and_then (unwrap (btf_fd_opt btf)) (\<lambda>fd.
                  Ok \<lparr>btf_fd = fd, key_type_id = k, value_type_id = v\<rparr>)))
         | _ \<Rightarrow> Err (BTF (''`'' @ map_btf_sym_name @ ''` must be a struct type but it isn't''))))))"

text \<open>The kind is read again from the header, so a bad kind would panic here.\<close>

fun find_type_id :: "(u32 \<times> BtfType) list \<Rightarrow> string \<Rightarrow> BtfKind \<Rightarrow> u32 option result" where
  "find_type_id [] type_name kind = Ok None"
| "find_type_id ((type_id, ty) # tys) type_name kind =
     and_then (comm_kind (btf_common ty)) (\<lambda>k.
       if k = kind \<and> name_raw (btf_common ty) = type_name then Ok (Some type_id)
       else find_type_id tys type_name kind)"

text \<open>\<open>Drop for BTF\<close>: the file descriptors that are closed.\<close>

definition drop_btf :: "BTF_data \<Rightarrow> RawFd list" where
  "drop_btf btf = (case btf_fd_opt btf of Some fd \<Rightarrow> [fd] | None \<Rightarrow> [])"

section \<open>Debug output\<close>

text \<open>The name between single quotes, \<open>(anon)\<close> if there is none.\<close>

definition quoted :: "string \<Rightarrow> string" where
  "quoted s = CHR 0x27 # s @ [CHR 0x27]"

definition anon_name :: "BtfTypeCommon \<Rightarrow> string" where
  "anon_name c = quoted (if name_raw c = [] then ''(anon)'' else name_raw c)"

definition show_u32 :: "u32 \<Rightarrow> string" where
  "show_u32 w = show_nat (unat w)"

fun join :: "string \<Rightarrow> string list \<Rightarrow> string" where
  "join sep [] = []"
| "join sep [x] = x"
| "join sep (x # xs) = x @ sep @ join sep xs"

abbreviation newline_tab :: string where
  "newline_tab \<equiv> [CHR 0x0A, CHR 0x09]"

definition fmt_type_kind :: "BtfType \<Rightarrow> BtfTypeCommon \<Rightarrow> string result" where
  "fmt_type_kind ty c =
     and_then (unwrap (type_type_id ty)) (\<lambda>tid.
     Ok (type_str ty @ '' '' @ anon_name c @ '' type_id='' @ show_u32 tid))"

definition fmt_member :: "BtfTypeCommon \<Rightarrow> BtfMember \<Rightarrow> string" where
  "fmt_member c bm =
     newline_tab @ quoted (memb_name bm) @ '' type_id='' @ show_u32 (memb_type_id bm) @
     '' bits_offset='' @ show_u32 (memb_bit_offset bm) @
     (if comm_kind_flag c then '' bitfield_size='' @ show_u32 (memb_bitfield_size bm) else [])"

definition fmt_sized :: "BtfType \<Rightarrow> BtfTypeCommon \<Rightarrow> string result" where
  "fmt_sized ty c =
     and_then (unwrap (type_size ty)) (\<lambda>sz.
     and_then (unwrap (type_vlen ty)) (\<lambda>vlen.
     Ok (type_str ty @ '' '' @ anon_name c @ '' size='' @ show_u32 sz @ '' vlen='' @ show_u32 vlen)))"

fun fmt_type :: "BtfType \<Rightarrow> string result" where
  "fmt_type (T_Integer c u) =
     (let enc_str = (if int_encoding_names u = [] then ''(none)'' else join '' '' (int_encoding_names u))
      in and_then (unwrap (type_size (T_Integer c u))) (\<lambda>sz.
         Ok (''Integer '' @ anon_name c @ '' size='' @ show_u32 sz @ '' encoding='' @ enc_str @
             '' bits_offset='' @ show_u32 (btf_int_offset u) @ '' nr_bits='' @ show_u32 (btf_int_bits u))))"
| "fmt_type (T_Array c a) =
     Ok (''Array '' @ anon_name c @ '' type_id='' @ show_u32 (ba_type a) @
         '' index_type_id='' @ show_u32 (ba_index_type a) @ '' nr_elems='' @ show_u32 (ba_nelems a))"
| "fmt_type (T_Structure c ms) =
     and_then (fmt_sized (T_Structure c ms) c) (\<lambda>s. Ok (s @ concat (map (fmt_member c) ms)))"
| "fmt_type (T_Union c ms) =
     and_then (fmt_sized (T_Union c ms) c) (\<lambda>s. Ok (s @ concat (map (fmt_member c) ms)))"
| "fmt_type (T_Enumeration c es) = fmt_sized (T_Enumeration c es) c"
| "fmt_type (T_Forward c) =
     Ok (''Forward '' @ anon_name c @ '' fwd_kind='' @
         (if comm_kind_flag c then ''Union'' else ''Structure''))"
| "fmt_type (T_Pointer c) = fmt_type_kind (T_Pointer c) c"
| "fmt_type (T_TypeDef c) = fmt_type_kind (T_TypeDef c) c"
| "fmt_type (T_Volatile c) = fmt_type_kind (T_Volatile c) c"
| "fmt_type (T_Constant c) = fmt_type_kind (T_Constant c) c"
| "fmt_type (T_Restrict c) = fmt_type_kind (T_Restrict c) c"
| "fmt_type (T_Function c) = fmt_type_kind (T_Function c) c"
| "fmt_type (T_Variable c v) = fmt_type_kind (T_Variable c v) c"
| "fmt_type (T_FunctionProtocol c ps) =
     and_then (unwrap (type_type_id (T_FunctionProtocol c ps))) (\<lambda>tid.
     and_then (unwrap (type_vlen (T_FunctionProtocol c ps))) (\<lambda>vlen.
     Ok (''FunctionProtocol '' @ anon_name c @ '' ret_type_id='' @ show_u32 tid @ '' vlen='' @ show_u32 vlen)))"
| "fmt_type (T_DataSection c vsis) =
     and_then (fmt_sized (T_DataSection c vsis) c) (\<lambda>s.
     Ok (s @ concat (map (\<lambda>vsi. newline_tab @ ''type_id='' @ show_u32 (vs_type vsi) @
             '' offset='' @ show_u32 (vs_offset vsi) @ '' size='' @ show_u32 (vs_size vsi)) vsis)))"
| "fmt_type (T_FloatingPoint c) =
     and_then (unwrap (type_size (T_FloatingPoint c))) (\<lambda>sz.
     Ok (''FloatingPoint '' @ anon_name c @ '' size='' @ show_u32 sz))"

section \<open>What the fixed data sections contain\<close>

definition vsi_fixed :: "Elf \<Rightarrow> (u32 \<times> BtfType) list \<Rightarrow> btf_var_secinfo \<Rightarrow> btf_var_secinfo \<Rightarrow> bool" where
  "vsi_fixed object tys vsi vsi' \<longleftrightarrow>
     (case find_variable tys (vs_type vsi) of
        None \<Rightarrow> False
      | Some (c, v) \<Rightarrow>
          if bv_linkage v = BTF_VAR_STATIC then vsi' = vsi
          else \<exists>s\<in>set (syms object). is_variable_symbol object (name_raw c) s \<and>
                 vsi' = vsi\<lparr>vs_offset := ucast (st_value s)\<rparr>)"

fun datasection_fixed :: "Elf \<Rightarrow> (u32 \<times> BtfType) list \<Rightarrow> BtfType \<Rightarrow> BtfType \<Rightarrow> bool" where
  "datasection_fixed object tys (T_DataSection c vsis) ty' \<longleftrightarrow>
     (\<exists>shdr vsis'. get_section_header_by_name object (name_raw c) = Some shdr \<and>
        ty' = T_DataSection (comm_set_size c (ucast (sh_size shdr))) vsis' \<and>
        list_all2 (vsi_fixed object tys) vsis vsis')"
| "datasection_fixed object tys ty ty' \<longleftrightarrow> ty' = ty"

lemma comm_set_size_facts [simp]:
  "name_raw (comm_set_size c n) = name_raw c" "comm_vlen (comm_set_size c n) = comm_vlen c"
  by (simp_all add: comm_set_size_def comm_vlen_def)

lemma datasection_sizes_find:
  "datasection_sizes object tys = Ok (tys', ids) \<Longrightarrow> find_variable tys' vti = find_variable tys vti"
  by (induction object tys arbitrary: tys' ids rule: datasection_sizes.induct)
    (auto simp: and_then_eq_Ok ok_or_eq_Ok split: option.split)

definition offset_found :: "Elf \<Rightarrow> (u32 \<times> BtfType) list \<Rightarrow> u32 \<Rightarrow> u64 option \<Rightarrow> u64 option \<Rightarrow> bool" where
  "offset_found object tys vti old new \<longleftrightarrow>
     (case find_variable tys vti of
        None \<Rightarrow> False
      | Some (c, v) \<Rightarrow>
          if bv_linkage v = BTF_VAR_STATIC then new = old
          else \<exists>s\<in>set (syms object). is_variable_symbol object (name_raw c) s \<and> new = Some (st_value s))"

lemma collect_offsets_Ok:
  assumes "collect_offsets object tys vtis offs = Ok offs'"
  shows "if vti \<in> set vtis then offset_found object tys vti (map_of offs vti) (map_of offs' vti)
    else map_of offs' vti = map_of offs vti"
  using assms
proof (induction object tys vtis offs rule: collect_offsets.induct)
  case (2 object tys w vtis offs)
  from "2.prems" obtain c v where w: "find_variable tys w = Some (c, v)"
    by (auto simp: and_then_eq_Ok ok_or_eq_Ok)
  show ?case
  proof (cases "bv_linkage v = BTF_VAR_STATIC")
    case True
    then show ?thesis
      using "2.IH"(1) [of "(c, v)" c v] "2.prems" w by (auto simp: offset_found_def split: if_splits option.splits)
  next
    case False
    from "2.prems" w False obtain s where s: "find (is_variable_symbol object (name_raw c)) (syms object) = Some s"
      and rest: "collect_offsets object tys vtis (AList.update w (st_value s) offs) = Ok offs'"
      by (auto simp: and_then_eq_Ok ok_or_eq_Ok)
    have "s \<in> set (syms object)" "is_variable_symbol object (name_raw c) s"
      using s by (auto simp: find_Some_iff)
    then show ?thesis
      using "2.IH"(2) [of "(c, v)" c v s] w False rest s
      by (cases "vti = w") (auto simp: update_conv' offset_found_def split: if_splits option.splits)
  qed
qed simp

lemma set_vsi_offset_fixed:
  assumes "collect_offsets object tys vtis [] = Ok offs" and "vs_type vsi \<in> set vtis"
  shows "vsi_fixed object tys vsi (set_vsi_offset offs vsi)"
  using collect_offsets_Ok [OF assms(1), of "vs_type vsi"] assms(2)
  by (auto simp: vsi_fixed_def offset_found_def set_vsi_offset_def split: if_splits option.splits)

lemma datasection_sizes_fixed:
  assumes "datasection_sizes object tys = Ok (tys', vtis)"
    and "\<And>vsi. vs_type vsi \<in> set vtis \<Longrightarrow> vsi_fixed object tys0 vsi (set_vsi_offset offs vsi)"
  shows "list_all2 (\<lambda>(i, ty) (j, ty'). j = i \<and> datasection_fixed object tys0 ty ty')
    tys (map (\<lambda>(i, ty). (i, set_offsets offs ty)) tys')"
  using assms
  by (induction object tys arbitrary: tys' vtis rule: datasection_sizes.induct)
    (auto simp: and_then_eq_Ok ok_or_eq_Ok list.rel_map list_all2_same)

text \<open>
  C35: when \<open>fix_datasection\<close> succeeds, only data sections change: each gets the size
  of the ELF section with its name, and each of its variables that is not static gets
  the value of a global object symbol with the variable's name as its offset, while
  static ones keep theirs.
\<close>

theorem fix_datasection_correct:
  assumes "fix_datasection object btf = Ok btf'"
  shows "list_all2 (\<lambda>(i, ty) (j, ty'). j = i \<and> datasection_fixed object (types btf) ty ty')
      (types btf) (types btf') \<and>
    btf_hdr btf' = btf_hdr btf \<and> raw_str_enc btf' = raw_str_enc btf \<and> btf_fd_opt btf' = btf_fd_opt btf"
proof -
  from assms obtain tys vtis offs where d: "datasection_sizes object (types btf) = Ok (tys, vtis)"
    and c: "collect_offsets object tys vtis [] = Ok offs"
    and b: "btf' = btf\<lparr>types := map (\<lambda>(i, ty). (i, set_offsets offs ty)) tys\<rparr>"
    by (auto simp: fix_datasection_def and_then_eq_Ok)
  have "vsi_fixed object (types btf) vsi (set_vsi_offset offs vsi)" if "vs_type vsi \<in> set vtis" for vsi
    using set_vsi_offset_fixed [OF c that] datasection_sizes_find [OF d] by (simp add: vsi_fixed_def)
  then show ?thesis using datasection_sizes_fixed [OF d] b by simp
qed

text \<open>One variable \<open>v\<close> in the section \<open>.data\<close>, at address 16.\<close>

definition sample_sections :: BTF_data where
  "sample_sections = sample_btf\<lparr>types :=
     [(1, T_Integer (sample_common 1 0x01000000 4 ''int'') 0x01000020),
      (2, T_Variable (sample_common 5 0x0e000000 1 ''v'') \<lparr>bv_linkage = 1\<rparr>),
      (3, T_DataSection (sample_common 7 0x0f000001 0 ''.data'') [\<lparr>vs_type = 2, vs_offset = 0, vs_size = 4\<rparr>])]\<rparr>"

definition sample_elf :: Elf where
  "sample_elf =
     \<lparr>section_headers = [\<lparr>sh_name = 1, sh_type = 1, sh_offset = 64, sh_size = 20, sh_info = 0\<rparr>],
      syms = [\<lparr>st_name = 3, st_info = 0x11, st_shndx = 0, st_value = 16\<rparr>],
      strtab = (\<lambda>i. if i = 3 then Some ''v'' else None), dynsyms = [], dynstrtab = (\<lambda>_. None),
      shdr_strtab = (\<lambda>i. if i = 1 then Some ''.data'' else None), shdr_relocs = []\<rparr>"

theorem fix_datasection_correct_witness:
  "\<exists>btf'. fix_datasection sample_elf sample_sections = Ok btf' \<and>
     types btf' ! 2 = (3, T_DataSection (sample_common 7 0x0f000001 20 ''.data'')
       [\<lparr>vs_type = 2, vs_offset = 16, vs_size = 4\<rparr>]) \<and>
     list_all2 (\<lambda>(i, ty) (j, ty'). j = i \<and> datasection_fixed sample_elf (types sample_sections) ty ty')
       (types sample_sections) (types btf')"
proof -
  let ?btf = "sample_sections\<lparr>types := (types sample_sections)[2 :=
    (3, T_DataSection (sample_common 7 0x0f000001 20 ''.data'') [\<lparr>vs_type = 2, vs_offset = 16, vs_size = 4\<rparr>])]\<rparr>"
  have "fix_datasection sample_elf sample_sections = Ok ?btf"
    by (simp add: fix_datasection_def sample_sections_def sample_elf_def sample_defs get_section_header_by_name_def
        btf_get_section_name_def is_variable_symbol_def st_bind_def st_type_def set_vsi_offset_def comm_set_size_def)
  then show ?thesis
    using fix_datasection_correct [of sample_elf sample_sections ?btf] by (auto simp: sample_sections_def)
qed

section \<open>Lookups in a parsed section\<close>

lemma get_type_by_id_nth:
  "consecutive n tys \<Longrightarrow>
   get_type_by_id tys i = (if n \<le> unat i \<and> unat i < n + length tys then Some (snd (tys ! (unat i - n))) else None)"
proof (induction tys arbitrary: n)
  case (Cons t tys)
  obtain j ty where t: "t = (j, ty)" by fastforce
  have IH: "get_type_by_id tys i =
      (if Suc n \<le> unat i \<and> unat i < Suc n + length tys then Some (snd (tys ! (unat i - Suc n))) else None)"
    using Cons t by auto
  show ?case
  proof (cases "i = j")
    case True
    then show ?thesis using Cons t by auto
  next
    case False
    then have "unat i \<noteq> n" using Cons t by (auto simp: unat_inject)
    then show ?thesis using False IH t by (auto simp: nth_Cons' Suc_diff_Suc)
  qed
qed simp

lemma parse_variant_kind: "parse_variant bs strs c k = Ok ty \<Longrightarrow> kind_of ty = k \<and> btf_common ty = c"
  by (cases k) (auto simp: and_then_eq_Ok)

lemma fix_type_name_kind:
  assumes "fix_type_name ty strs = Ok (ty', strs')"
  shows "kind_of ty' = kind_of ty" and "comm_kind (btf_common ty') = comm_kind (btf_common ty)"
proof -
  show "kind_of ty' = kind_of ty" using assms by (cases ty) (auto simp: rebuild_eq_Ok)
  show "comm_kind (btf_common ty') = comm_kind (btf_common ty)"
    using fix_type_name_dump [OF assms] same_but_name_vlen by blast
qed

lemma parse_type_kind: "parse_type bs strs = Ok (ty, strs') \<Longrightarrow> comm_kind (btf_common ty) = Ok (kind_of ty)"
  by (auto simp: parse_type_def and_then_eq_Ok fix_type_name_kind dest!: parse_variant_kind)

lemma parse_raw_kinds:
  assumes "parse_raw bs = Ok btf"
  shows "list_all (\<lambda>(_, ty). comm_kind (btf_common ty) = Ok (kind_of ty)) (types btf)"
  using parse_raw_Ok(9) [OF assms, unfolded parse_types_def]
  by (induction rule: parse_types_loop_induct) (auto dest: parse_type_kind)

lemma find_type_id_find:
  "list_all (\<lambda>(_, ty). comm_kind (btf_common ty) = Ok (kind_of ty)) tys \<Longrightarrow>
   find_type_id tys name kind =
     Ok (map_option fst (find (\<lambda>(_, ty). kind_of ty = kind \<and> name_raw (btf_common ty) = name) tys))"
proof (induction tys)
  case (Cons t tys)
  obtain i ty where t: "t = (i, ty)" by fastforce
  with Cons show ?case by (cases "kind_of ty = kind \<and> name_raw (btf_common ty) = name") auto
qed simp

text \<open>
  In a parsed section the identifiers are positions (\<open>get_type_by_id\<close> is array
  access from 1), and \<open>find_type_id\<close> never panics: it returns the first type of that
  kind and name.
\<close>

theorem parsed_lookups:
  assumes "parse_raw bs = Ok btf"
  shows "get_type_by_id (types btf) i =
      (if 1 \<le> unat i \<and> unat i \<le> length (types btf) then Some (snd (types btf ! (unat i - 1))) else None) \<and>
    find_type_id (types btf) name kind =
      Ok (map_option fst (find (\<lambda>(_, ty). kind_of ty = kind \<and> name_raw (btf_common ty) = name) (types btf)))"
proof
  have "consecutive 1 (types btf)"
    using parse_types_loop_ids [OF parse_raw_Ok(9) [OF assms, unfolded parse_types_def]] by simp
  then show "get_type_by_id (types btf) i =
      (if 1 \<le> unat i \<and> unat i \<le> length (types btf) then Some (snd (types btf ! (unat i - 1))) else None)"
    using get_type_by_id_nth [of 1 "types btf" i] by (simp add: less_Suc_eq_le)
  show "find_type_id (types btf) name kind =
      Ok (map_option fst (find (\<lambda>(_, ty). kind_of ty = kind \<and> name_raw (btf_common ty) = name) (types btf)))"
    using find_type_id_find parse_raw_kinds [OF assms] by blast
qed

theorem parsed_lookups_witness:
  "find_type_id (types sample_fixed) ''a<b'' K_Structure = Ok (Some 1) \<and>
   get_type_by_id (types sample_fixed) 3 = None"
  using parsed_lookups [OF sample_raw_parses, of 3 "''a<b''" K_Structure]
  by (simp add: sample_fixed_def)

text \<open>
  A loaded BTF gives the key and value types of a map exactly when a variable
  \<open>MAP_BTF_<name>\<close> has the structure \<open>MapBtf\<close> as its type, with both members; every
  other case is an error value, never a panic.
\<close>

theorem get_map_type_ids_correct:
  "case get_map_type_ids btf name of
     Ok r \<Rightarrow>
       \<exists>c v sc ms. btf_fd_opt btf = Some (btf_fd r) \<and>
         find_named_variable (types btf) (''MAP_BTF_'' @ name) = Some (T_Variable c v) \<and>
         get_type_by_id (types btf) (comm_type_id c) = Some (T_Structure sc ms) \<and> name_raw sc = ''MapBtf'' \<and>
         find_member ms ''key_type'' = Some (key_type_id r) \<and> find_member ms ''value_type'' = Some (value_type_id r)
   | Err e \<Rightarrow>
       \<nexists>c v sc ms k w. btf_fd_opt btf \<noteq> None \<and>
         find_named_variable (types btf) (''MAP_BTF_'' @ name) = Some (T_Variable c v) \<and>
         get_type_by_id (types btf) (comm_type_id c) = Some (T_Structure sc ms) \<and> name_raw sc = ''MapBtf'' \<and>
         find_member ms ''key_type'' = Some k \<and> find_member ms ''value_type'' = Some w
   | _ \<Rightarrow> False"
proof -
  have var: "\<exists>c v. ty = T_Variable c v" if "find_named_variable tys n = Some ty" for tys n ty
    using that by (induction tys n rule: find_named_variable.induct)
      (auto split: option.splits if_splits elim!: as_variable.elims)
  show ?thesis
  proof (cases "btf_fd_opt btf")
    case fd: (Some fd)
    show ?thesis
    proof (cases "find_named_variable (types btf) (''MAP_BTF_'' @ name)")
      case (Some ty)
      then obtain c v where v: "ty = T_Variable c v" using var by blast
      show ?thesis
      proof (cases "get_type_by_id (types btf) (comm_type_id c)")
        case None
        then show ?thesis using Some fd v by (simp add: get_map_type_ids_def is_loaded_def)
      next
        case (Some ty')
        then show ?thesis
          using \<open>find_named_variable _ _ = _\<close> fd v
          by (cases ty'; cases "find_member (members_of ty') ''key_type''";
              cases "find_member (members_of ty') ''value_type''")
            (simp_all add: get_map_type_ids_def is_loaded_def)
      qed
    qed (simp add: get_map_type_ids_def is_loaded_def fd)
  qed (simp add: get_map_type_ids_def is_loaded_def)
qed

text \<open>The debug output of every type is computed without unwrapping a missing field.\<close>

theorem fmt_type_total: "\<exists>s. fmt_type ty = Ok s"
  by (cases ty) (simp_all add: fmt_type_kind_def fmt_sized_def Let_def)

end
