(* ===== verification/Maps.thy ===== *)
theory Maps
  imports Kernel Btf_Elf
begin

text \<open>
  The struct \<open>Map\<close> and the enum \<open>MapBuilder\<close> of \<open>redbpf/src/lib.rs\<close>: creating
  a map in the kernel (with the second attempt after raising the memory limit), maps
  for section data, opening, pinning and unpinning pinned maps, and dropping. The
  lemmas follow the file descriptors: every path that fails closes what it opened,
  with one exception that is stated as such.
\<close>

section \<open>Maps\<close>

record Map =
  map_name :: string
  map_kind :: u32
  map_fd :: RawFd
  config :: bpf_map_def
  section_data :: bool
  pin_file :: "string option"

abbreviation (input) BPF_MAP_TYPE_HASH :: u32 where "BPF_MAP_TYPE_HASH \<equiv> 1"
abbreviation (input) BPF_MAP_TYPE_ARRAY :: u32 where "BPF_MAP_TYPE_ARRAY \<equiv> 2"
abbreviation (input) BPF_MAP_TYPE_PERF_EVENT_ARRAY :: u32 where "BPF_MAP_TYPE_PERF_EVENT_ARRAY \<equiv> 4"
abbreviation (input) BPF_MAP_TYPE_PERCPU_HASH :: u32 where "BPF_MAP_TYPE_PERCPU_HASH \<equiv> 5"
abbreviation (input) BPF_MAP_TYPE_PERCPU_ARRAY :: u32 where "BPF_MAP_TYPE_PERCPU_ARRAY \<equiv> 6"
abbreviation (input) BPF_MAP_TYPE_LRU_HASH :: u32 where "BPF_MAP_TYPE_LRU_HASH \<equiv> 9"
abbreviation (input) BPF_MAP_TYPE_LRU_PERCPU_HASH :: u32 where "BPF_MAP_TYPE_LRU_PERCPU_HASH \<equiv> 10"
abbreviation (input) BPF_MAP_TYPE_DEVMAP :: u32 where "BPF_MAP_TYPE_DEVMAP \<equiv> 14"
abbreviation (input) BPF_F_RDONLY_PROG :: u32 where "BPF_F_RDONLY_PROG \<equiv> 128"

text \<open>\<open>Drop for Map\<close>\<close>

definition drop_map :: "kernel \<Rightarrow> Map \<Rightarrow> unit action" where
  "drop_map k m = bind (call k (Close (map_fd m))) (\<lambda>_. pure (Ok ()))"

text \<open>
  Raising the limit on locked memory to infinity and trying once more, which both
  \<open>Map::with_map_def\<close> and \<open>Program::load\<close> do after \<open>EPERM\<close>: \<open>first\<close> is the
  answer of the first attempt, and the last answer is returned.
\<close>

definition retry_with_memlock :: "kernel \<Rightarrow> syscall \<Rightarrow> answer \<Rightarrow> answer action" where
  "retry_with_memlock k c first =
     (if errno first = EPERM then
        bind (call k Getrlimit_memlock) (\<lambda>g.
          if ret g = 0 then
            bind (call k Setrlimit_memlock_infinity) (\<lambda>s.
              if ret s = 0 then call k c else pure (Ok first))
          else pure (Ok first))
      else pure (Ok first))"

definition map_attr :: "bytes \<Rightarrow> bpf_map_def \<Rightarrow> MapBtfTypeId option \<Rightarrow> bpf_create_map_attr" where
  "map_attr cname cfg btf_type_id =
     (case btf_type_id of
        Some t \<Rightarrow> \<lparr>cm_name = cname, cm_def = cfg, cm_btf_fd = of_int (btf_fd t),
                   cm_btf_key_type_id = key_type_id t, cm_btf_value_type_id = value_type_id t\<rparr>
      | None \<Rightarrow> \<lparr>cm_name = cname, cm_def = cfg, cm_btf_fd = 0,
                 cm_btf_key_type_id = 0, cm_btf_value_type_id = 0\<rparr>)"

definition with_map_def :: "kernel \<Rightarrow> string \<Rightarrow> bpf_map_def \<Rightarrow> MapBtfTypeId option \<Rightarrow> Map action" where
  "with_map_def k name cfg btf_type_id =
     bind (pure (cstring_try name)) (\<lambda>cname.
       let c = Bpf_create_map (map_attr cname cfg btf_type_id)
       in bind (call k c) (\<lambda>a.
          bind (if ret a < 0 then retry_with_memlock k c a else pure (Ok a)) (\<lambda>a.
          if 0 \<le> ret a
          then pure (Ok \<lparr>map_name = name, map_kind = md_type cfg, map_fd = ret a, config = cfg,
                        section_data = False, pin_file = None\<rparr>)
          else pure (Err MapError))))"

text \<open>
  A \<open>bpf_map_def\<close> in memory, five 32-bit words. \<open>Map::load\<close> reads it with
  \<open>zero::read_unsafe\<close>, which is a parameter.
\<close>

definition dec_bpf_map_def :: "bytes \<Rightarrow> bpf_map_def" where
  "dec_bpf_map_def bs =
     \<lparr>md_type = le32_at bs 0, md_key_size = le32_at bs 4, md_value_size = le32_at bs 8,
      md_max_entries = le32_at bs 12, md_map_flags = le32_at bs 16\<rparr>"

definition map_load :: "kernel \<Rightarrow> (bytes \<Rightarrow> bpf_map_def result) \<Rightarrow> string \<Rightarrow> bytes \<Rightarrow> Map action" where
  "map_load k read_unsafe name code =
     bind (pure (read_unsafe code)) (\<lambda>cfg. with_map_def k name cfg None)"

text \<open>
  \<open>Map::with_section_data\<close>. When the contents cannot be stored the map goes out of
  scope, which closes its descriptor.
\<close>

definition with_section_data :: "kernel \<Rightarrow> string \<Rightarrow> bytes \<Rightarrow> u32 \<Rightarrow> Map action" where
  "with_section_data k name dat flags1 =
     bind (with_map_def k name
             \<lparr>md_type = BPF_MAP_TYPE_ARRAY, md_key_size = 4, md_value_size = of_nat (length dat),
              md_max_entries = 1, md_map_flags = flags1\<rparr> None) (\<lambda>m.
       let m' = m\<lparr>section_data := True\<rparr>
       in if name \<noteq> ''.bss'' then
            bind (call k (Bpf_map_update (map_fd m') (u32_to_le 0) dat 0)) (\<lambda>a.
              if ret a < 0 then bind (drop_map k m') (\<lambda>_. pure (Err BPF))
              else pure (Ok m'))
          else pure (Ok m'))"

text \<open>
  \<open>struct bpf_map_info\<close>: type, id, key size, value size, entries, flags and the name
  in 16 bytes from offset 24 on.
\<close>

definition dec_map_info_def :: "bytes \<Rightarrow> bpf_map_def" where
  "dec_map_info_def bs =
     \<lparr>md_type = le32_at bs 0, md_key_size = le32_at bs 8, md_value_size = le32_at bs 12,
      md_max_entries = le32_at bs 16, md_map_flags = le32_at bs 20\<rparr>"

definition from_pin_file :: "kernel \<Rightarrow> string \<Rightarrow> Map action" where
  "from_pin_file k file =
     bind (pure (cstring_try file)) (\<lambda>cpath.
     bind (call k (Bpf_obj_get cpath)) (\<lambda>a.
       if ret a < 0 then pure (Err (last_os_error a))
       else bind (call k (Bpf_obj_get_info (ret a))) (\<lambda>i.
         if ret i \<noteq> 0 then pure (Err (last_os_error i))
         else bind (pure (cstr_at (out i) 24)) (\<lambda>name.
           pure (Ok \<lparr>map_name = to_string_lossy name, map_kind = md_type (dec_map_info_def (out i)),
                     map_fd = ret a, config = dec_map_info_def (out i),
                     section_data = False, pin_file = Some file\<rparr>)))))"

section \<open>Pinning\<close>

text \<open>
  A path is its components, \<open>absolute\<close> or not; redundant separators, which Rust's
  \<open>Path\<close> ignores too, are not represented.
\<close>

record path =
  absolute :: bool
  comps :: "string list"

definition path_str :: "path \<Rightarrow> string" where
  "path_str p = (if absolute p then ''/'' else []) @ join ''/'' (comps p)"

definition path_parent :: "path \<Rightarrow> path option" where
  "path_parent p = (if comps p = [] then None else Some (p\<lparr>comps := butlast (comps p)\<rparr>))"

definition ancestors :: "path \<Rightarrow> path list" where
  "ancestors p = map (\<lambda>n. p\<lparr>comps := take n (comps p)\<rparr>) (rev [0..<Suc (length (comps p))])"

abbreviation (input) BPF_FS_MAGIC :: u64 where "BPF_FS_MAGIC \<equiv> 0xcafe4a11"

text \<open>\<open>Path::exists\<close> is true when the file's metadata can be read.\<close>

fun first_existing :: "kernel \<Rightarrow> path list \<Rightarrow> path option action" where
  "first_existing k [] = pure (Ok None)"
| "first_existing k (p # ps) =
     bind (call k (File_exists (path_str p))) (\<lambda>a.
       if ret a = 0 then pure (Ok (Some p)) else first_existing k ps)"

text \<open>A relative path is taken from the current directory.\<close>

definition pin_target :: "path \<Rightarrow> path" where
  "pin_target file = (if absolute file then file else file\<lparr>comps := ''.'' # comps file\<rparr>)"

definition pin_bpf_obj :: "kernel \<Rightarrow> RawFd \<Rightarrow> path \<Rightarrow> unit action" where
  "pin_bpf_obj k fd file0 =
     bind (call k (File_exists (path_str file0))) (\<lambda>e.
       if ret e = 0 then pure (Err (IO AlreadyExists))
       else
         let file = pin_target file0
         in bind (pure (unwrap (path_parent file))) (\<lambda>dir.
            bind (first_existing k (ancestors dir)) (\<lambda>anc.
            case anc of
              None \<Rightarrow> pure (Err (IO NotFound))
            | Some p \<Rightarrow>
                bind (pure (unwrap (cstring_new (path_str p)))) (\<lambda>cpath.
                bind (call k (Statfs cpath)) (\<lambda>s.
                  if ret s \<noteq> 0 then pure (Err (last_os_error s))
                  else if le64_at (out s) 0 \<noteq> BPF_FS_MAGIC then pure (Err (IO PermissionDenied))
                  else bind (call k (Create_dir_all (path_str dir))) (\<lambda>d.
                    if ret d \<noteq> 0 then pure (Err (last_os_error d))
                    else bind (pure (cstring_try (path_str file))) (\<lambda>cfile.
                         bind (call k (Bpf_obj_pin fd cfile)) (\<lambda>a.
                           if ret a \<noteq> 0 then pure (Err (last_os_error a)) else pure (Ok ())))))))))"

definition unpin_bpf_obj :: "kernel \<Rightarrow> string \<Rightarrow> unit action" where
  "unpin_bpf_obj k file =
     bind (call k (Remove_file file)) (\<lambda>a.
       if ret a \<noteq> 0 then pure (Err (last_os_error a)) else pure (Ok ()))"

definition map_pin :: "kernel \<Rightarrow> path \<Rightarrow> Map \<Rightarrow> Map action" where
  "map_pin k file m =
     (if pin_file m \<noteq> None then pure (Err MapError)
      else bind (pin_bpf_obj k (map_fd m) file) (\<lambda>_.
           pure (Ok (m\<lparr>pin_file := Some (path_str file)\<rparr>))))"

definition map_unpin :: "kernel \<Rightarrow> Map \<Rightarrow> Map action" where
  "map_unpin k m =
     (case pin_file m of
        None \<Rightarrow> pure (Err MapError)
      | Some file \<Rightarrow> bind (unpin_bpf_obj k file) (\<lambda>_. pure (Ok (m\<lparr>pin_file := None\<rparr>))))"

section \<open>Builders\<close>

datatype MapBuilder =
    MB_Normal string bpf_map_def "MapBtfTypeId option"
  | MB_SectionData string bytes
  | MB_ExistingMap Map

definition mb_parse :: "string \<Rightarrow> bytes \<Rightarrow> MapBuilder result" where
  "mb_parse name bs =
     and_then (read_raw dec_bpf_map_def 20 bs 0) (\<lambda>def. Ok (MB_Normal name def None))"

definition mb_with_section_data :: "string \<Rightarrow> bytes \<Rightarrow> MapBuilder result" where
  "mb_with_section_data name bs = Ok (MB_SectionData name bs)"

definition mb_with_existing_map :: "Map \<Rightarrow> MapBuilder result" where
  "mb_with_existing_map m = Ok (MB_ExistingMap m)"

fun mb_set_btf :: "MapBtfTypeId \<Rightarrow> MapBuilder \<Rightarrow> MapBuilder result" where
  "mb_set_btf t (MB_Normal name def _) = Ok (MB_Normal name def (Some t))"
| "mb_set_btf t (MB_SectionData _ _) = Err MapError"
| "mb_set_btf t (MB_ExistingMap _) = Err MapError"

fun mb_to_map :: "kernel \<Rightarrow> MapBuilder \<Rightarrow> Map action" where
  "mb_to_map k (MB_Normal name def t) = with_map_def k name def t"
| "mb_to_map k (MB_SectionData name bs) =
     with_section_data k name bs (if starts_with name ''.rodata'' then BPF_F_RDONLY_PROG else 0)"
| "mb_to_map k (MB_ExistingMap m) = pure (Ok m)"

fun mb_name :: "MapBuilder \<Rightarrow> string" where
  "mb_name (MB_Normal name _ _) = name"
| "mb_name (MB_SectionData name _) = name"
| "mb_name (MB_ExistingMap m) = map_name m"

section \<open>Descriptors\<close>

text \<open>The descriptor a result of type \<open>Map\<close> holds.\<close>

fun map_held :: "Map result \<Rightarrow> RawFd multiset" where
  "map_held (Ok m) = {#map_fd m#}"
| "map_held _ = {#}"

text \<open>
  \<open>keeps_fds m held\<close>: whatever the kernel answers, the action neither leaks nor
  closes twice: what it opened is closed or held by its result.
\<close>

definition keeps_fds :: "'a action \<Rightarrow> ('a result \<Rightarrow> RawFd multiset) \<Rightarrow> bool" where
  "keeps_fds m held \<longleftrightarrow>
     (\<forall>h. \<exists>new. snd (m h) = h @ new \<and> balanced new {#} (held (fst (m h))))"

lemma keeps_fdsI:
  "(\<And>h. \<exists>new. snd (m h) = h @ new \<and> opened new = closed new + held (fst (m h))) \<Longrightarrow> keeps_fds m held"
  by (simp add: keeps_fds_def balanced_def)

lemma cstring_try_cases: "(\<exists>bs. cstring_try s = Ok bs) \<or> cstring_try s = Err StringConversion"
  by (cases "cstring_new s") (auto simp: cstring_try_def from_nul_error_def)

lemma pure_apply [simp]: "pure r h = (r, h)"
  by (simp add: pure_def)

lemma call_apply [simp]: "call k c h = (Ok (k h c), h @ [(c, k h c)])"
  by (simp add: call_def Let_def)

text \<open>The second attempt makes at most three calls, and only the last can open a descriptor.\<close>

lemma retry_with_memlock_calls:
  assumes "opens c" and "ret first < 0"
  obtains a new where "retry_with_memlock k c first h = (Ok a, h @ new)"
    and "opened new = (if 0 \<le> ret a then {#ret a#} else {#})" and "closed new = {#}"
proof -
  have close: "closed1 (c, x) = {#}" for x using assms(1) by (cases c) auto
  have "\<exists>a new. retry_with_memlock k c first h = (Ok a, h @ new) \<and>
      opened new = (if 0 \<le> ret a then {#ret a#} else {#}) \<and> closed new = {#}"
    using assms close by (auto simp: retry_with_memlock_def)
  then show thesis using that by blast
qed

lemma with_map_def_cases:
  obtains (badname) "with_map_def k name cfg t h = (Err StringConversion, h)"
  | (failed) new where "with_map_def k name cfg t h = (Err MapError, h @ new)"
      and "opened new = {#}" and "closed new = {#}"
  | (created) m new where "with_map_def k name cfg t h = (Ok m, h @ new)"
      and "opened new = {#map_fd m#}" and "closed new = {#}"
      and "m = \<lparr>map_name = name, map_kind = md_type cfg, map_fd = map_fd m, config = cfg,
               section_data = False, pin_file = None\<rparr>" and "0 \<le> map_fd m"
proof (cases "cstring_try name")
  case (Ok cname)
  let ?c = "Bpf_create_map (map_attr cname cfg t)"
  let ?a = "k h ?c" and ?h = "h @ [(?c, k h ?c)]"
  show thesis
  proof (cases "ret ?a < 0")
    case True
    have op: "opens ?c" by simp
    obtain a new where r: "retry_with_memlock k ?c ?a ?h = (Ok a, ?h @ new)"
      and o: "opened new = (if 0 \<le> ret a then {#ret a#} else {#})" and cl: "closed new = {#}"
      by (rule retry_with_memlock_calls [OF op True])
    have *: "with_map_def k name cfg t h =
        (if 0 \<le> ret a then Ok \<lparr>map_name = name, map_kind = md_type cfg, map_fd = ret a, config = cfg,
               section_data = False, pin_file = None\<rparr> else Err MapError, ?h @ new)"
      using True Ok r by (simp add: with_map_def_def Let_def bind_def)
    let ?m = "\<lparr>map_name = name, map_kind = md_type cfg, map_fd = ret a, config = cfg,
               section_data = False, pin_file = None\<rparr>"
    show thesis
    proof (cases "0 \<le> ret a")
      case ok: True
      then show thesis using * o cl True by (intro created [of ?m "(?c, ?a) # new"]) simp_all
    next
      case bad: False
      then show thesis using * o cl True by (intro failed [of "(?c, ?a) # new"]) simp_all
    qed
  next
    case False
    then have "with_map_def k name cfg t h =
        (Ok \<lparr>map_name = name, map_kind = md_type cfg, map_fd = ret ?a, config = cfg,
             section_data = False, pin_file = None\<rparr>, ?h)"
      using Ok by (simp add: with_map_def_def Let_def)
    then show thesis using False by (intro created) auto
  qed
next
  case (Err e)
  then have "cstring_try name = Err StringConversion" using cstring_try_cases [of name] by auto
  then show thesis by (intro badname) (simp add: with_map_def_def)
qed (use cstring_try_cases [of name] in auto)

lemma with_map_def_keeps: "keeps_fds (with_map_def k name cfg t) map_held"
proof (rule keeps_fdsI)
  fix h
  show "\<exists>new. snd (with_map_def k name cfg t h) = h @ new \<and>
      opened new = closed new + map_held (fst (with_map_def k name cfg t h))"
    by (cases rule: with_map_def_cases [of k name cfg t h]) auto
qed

lemma with_section_data_keeps: "keeps_fds (with_section_data k name dat fl) map_held"
proof (rule keeps_fdsI)
  fix h
  let ?cfg = "\<lparr>md_type = BPF_MAP_TYPE_ARRAY, md_key_size = 4, md_value_size = of_nat (length dat),
              md_max_entries = 1, md_map_flags = fl\<rparr>"
  show "\<exists>new. snd (with_section_data k name dat fl h) = h @ new \<and>
      opened new = closed new + map_held (fst (with_section_data k name dat fl h))"
    by (cases rule: with_map_def_cases [of k name ?cfg None h])
      (auto simp: with_section_data_def bind_def drop_map_def Let_def)
qed

lemma map_load_keeps: "keeps_fds (map_load k rd name code) map_held"
proof (rule keeps_fdsI)
  fix h
  show "\<exists>new. snd (map_load k rd name code h) = h @ new \<and>
      opened new = closed new + map_held (fst (map_load k rd name code h))"
    using with_map_def_keeps [of k name _ None] unfolding keeps_fds_def balanced_def
    by (cases "rd code") (auto simp: map_load_def)
qed

text \<open>
  C33: creating a map from a definition, from a map section or from section data
  neither leaks nor closes a descriptor twice, whatever the kernel answers: the
  descriptors opened during the call are those closed during it and the one held by
  the returned map.
\<close>

theorem map_creation_keeps_descriptors:
  "keeps_fds (with_map_def k name cfg t) map_held \<and> keeps_fds (map_load k rd name code) map_held \<and>
   keeps_fds (with_section_data k name dat fl) map_held \<and>
   (case b of MB_ExistingMap m \<Rightarrow> True | _ \<Rightarrow> keeps_fds (mb_to_map k b) map_held)"
  by (cases b) (simp_all add: with_map_def_keeps map_load_keeps with_section_data_keeps)

text \<open>
  \<open>Map::from_pin_file\<close> closes nothing: when the pinned object can be opened but
  its description cannot be read, the call fails and the descriptor it opened stays
  open although no value holds it.
\<close>

theorem from_pin_file_leak:
  assumes "cstring_try file = Ok cpath" and "0 \<le> ret (k h (Bpf_obj_get cpath))"
  defines "fd \<equiv> ret (k h (Bpf_obj_get cpath))"
  defines "h1 \<equiv> h @ [(Bpf_obj_get cpath, k h (Bpf_obj_get cpath))]"
  assumes "ret (k h1 (Bpf_obj_get_info fd)) \<noteq> 0"
  shows "\<exists>e new. from_pin_file k file h = (Err e, h @ new) \<and> opened new = {#fd#} \<and> closed new = {#}"
  using assms by (auto simp: from_pin_file_def)

theorem from_pin_file_leak_witness:
  "\<exists>e new. from_pin_file (\<lambda>h c. \<lparr>ret = (case c of Bpf_obj_get _ \<Rightarrow> 5 | _ \<Rightarrow> -1), errno = 1, out = []\<rparr>) ''m'' []
     = (Err e, [] @ new) \<and> opened new = {#5#} \<and> closed new = {#}"
  using from_pin_file_leak [of "''m''" "as_bytes ''m''" "\<lambda>h c. \<lparr>ret = (case c of Bpf_obj_get _ \<Rightarrow> 5 | _ \<Rightarrow> -1), errno = 1, out = []\<rparr>" "[]"]
  by (simp add: cstring_try_def cstring_new_def as_bytes_def)

section \<open>Pinning\<close>

text \<open>The answers \<open>new\<close> say that none of the paths exists.\<close>

abbreviation (input) all_missing :: "path list \<Rightarrow> history \<Rightarrow> bool" where
  "all_missing \<equiv> list_all2 (\<lambda>q c. fst c = File_exists (path_str q) \<and> ret (snd c) \<noteq> 0)"

lemma first_existing_facts:
  "(\<exists>new. first_existing k ps h = (Ok None, h @ new) \<and> all_missing ps new) \<or>
   (\<exists>pre p post new x. first_existing k ps h = (Ok (Some p), h @ new @ [(File_exists (path_str p), x)]) \<and>
      ps = pre @ p # post \<and> all_missing pre new \<and> ret x = 0)"
proof (induction ps arbitrary: h)
  case (Cons p ps)
  let ?c = "File_exists (path_str p)"
  define x where "x = k h ?c"
  show ?case
  proof (cases "ret x = 0")
    case True
    then show ?thesis
      by (intro disjI2 exI [of _ "[]"] exI [of _ p] exI [of _ ps] exI [of _ x]) (simp add: x_def)
  next
    case False
    then have run: "first_existing k (p # ps) h = first_existing k ps (h @ [(?c, x)])" by (simp add: x_def)
    from Cons [of "h @ [(?c, x)]"] show ?thesis
    proof (elim disjE exE conjE)
      fix new assume "first_existing k ps (h @ [(?c, x)]) = (Ok None, (h @ [(?c, x)]) @ new)" "all_missing ps new"
      then show ?thesis using False by (intro disjI1 exI [of _ "(?c, x) # new"]) (simp add: run del: first_existing.simps)
    next
      fix pre q post new y
      assume "first_existing k ps (h @ [(?c, x)]) = (Ok (Some q), (h @ [(?c, x)]) @ new @ [(File_exists (path_str q), y)])"
        "ps = pre @ q # post" "all_missing pre new" "ret y = 0"
      then have "first_existing k (p # ps) h = (Ok (Some q), h @ ((?c, x) # new) @ [(File_exists (path_str q), y)]) \<and>
          p # ps = (p # pre) @ q # post \<and> all_missing (p # pre) ((?c, x) # new) \<and> ret y = 0"
        unfolding run using False by simp
      then show ?thesis by blast
    qed
  qed
qed simp

text \<open>
  The calls \<open>new\<close> start with the checks: the path does not exist, of the directory it is
  to be in and the directories above, from the inside out, \<open>p\<close> is the first that exists,
  and \<open>p\<close> is on the BPF file system.
\<close>

definition pin_checked :: "path \<Rightarrow> history \<Rightarrow> bool" where
  "pin_checked file new \<longleftrightarrow>
     (\<exists>e dir pre p post missing x cp s more.
        new = (File_exists (path_str file), e) # missing @ (File_exists (path_str p), x) # (Statfs cp, s) # more \<and>
        ret e \<noteq> 0 \<and> path_parent (pin_target file) = Some dir \<and> ancestors dir = pre @ p # post \<and>
        all_missing pre missing \<and> ret x = 0 \<and> cstring_new (path_str p) = Some cp \<and> ret s = 0 \<and>
        le64_at (out s) 0 = BPF_FS_MAGIC)"

lemma pin_bpf_obj_checks:
  "\<exists>r new. pin_bpf_obj k fd file h = (r, h @ new) \<and>
     (\<forall>c a. (Bpf_obj_pin fd c, a) \<in> set new \<longrightarrow> pin_checked file new \<and> cstring_try (path_str (pin_target file)) = Ok c) \<and>
     (r = Ok () \<longrightarrow> (\<exists>c a. (Bpf_obj_pin fd c, a) \<in> set new \<and> ret a = 0))"
proof -
  let ?c1 = "File_exists (path_str file)"
  let ?f = "pin_target file"
  let ?h1 = "h @ [(?c1, k h ?c1)]"
  let ?dir = "?f\<lparr>comps := butlast (comps ?f)\<rparr>"
  show ?thesis
  proof (cases "ret (k h ?c1) = 0 \<or> comps ?f = []")
    case True
    then show ?thesis by (auto simp: pin_bpf_obj_def path_parent_def Let_def)
  next
    case False
    then have e: "ret (k h ?c1) \<noteq> 0" and par: "path_parent ?f = Some ?dir" by (auto simp: path_parent_def)
    note fe = first_existing_facts [of k "ancestors ?dir" ?h1]
    have no_pin: "(Bpf_obj_pin fd c, a) \<notin> set n" if "all_missing qs n" for qs n c a
      using that by (auto simp: list_all2_conv_all_nth in_set_conv_nth)
    show ?thesis
    proof (cases "\<exists>n2. first_existing k (ancestors ?dir) ?h1 = (Ok None, ?h1 @ n2) \<and> all_missing (ancestors ?dir) n2")
      case True
      then show ?thesis using e par no_pin by (auto simp: pin_bpf_obj_def Let_def bind_def)
    next
      case False
      with fe obtain pre p post n2 x
        where fe: "first_existing k (ancestors ?dir) ?h1 = (Ok (Some p), ?h1 @ n2 @ [(File_exists (path_str p), x)])"
          and anc: "ancestors ?dir = pre @ p # post" "all_missing pre n2" "ret x = 0" by blast
      note n2' = no_pin [OF anc(2)]
      let ?n2 = "n2 @ [(File_exists (path_str p), x)]"
      show ?thesis
      proof (cases "cstring_new (path_str p)")
        case None
        then show ?thesis using e par fe n2' by (auto simp: pin_bpf_obj_def Let_def bind_def)
      next
        case cp: (Some cp)
        let ?c3 = "Statfs cp"
        define s where "s = k (?h1 @ ?n2) ?c3"
        let ?h3 = "h @ (?c1, k h ?c1) # ?n2 @ [(?c3, s)]"
        let ?rest = "bind (call k (Create_dir_all (path_str ?dir))) (\<lambda>d.
                    if ret d \<noteq> 0 then pure (Err (last_os_error d))
                    else bind (pure (cstring_try (path_str ?f))) (\<lambda>cfile.
                         bind (call k (Bpf_obj_pin fd cfile)) (\<lambda>a.
                           if ret a \<noteq> 0 then pure (Err (last_os_error a)) else pure (Ok ()))))"
        have run: "pin_bpf_obj k fd file h =
            (if ret s \<noteq> 0 then (Err (last_os_error s), ?h3)
             else if le64_at (out s) 0 \<noteq> BPF_FS_MAGIC then (Err (IO PermissionDenied), ?h3)
             else ?rest ?h3)"
          unfolding pin_bpf_obj_def Let_def s_def using e par fe cp by (simp add: bind_def [of "first_existing _ _"])
        show ?thesis
        proof (cases "ret s = 0 \<and> le64_at (out s) 0 = BPF_FS_MAGIC")
          case False
          then show ?thesis using run n2' by auto
        next
          case True
          have chk: "pin_checked file ((?c1, k h ?c1) # ?n2 @ (?c3, s) # more)" for more
            unfolding pin_checked_def using e par anc cp True by force
          let ?c4 = "Create_dir_all (path_str ?dir)"
          define d where "d = k ?h3 ?c4"
          have run2: "pin_bpf_obj k fd file h = ?rest ?h3" using run True by simp
          show ?thesis
          proof (cases "ret d = 0 \<and> (\<exists>c. cstring_try (path_str ?f) = Ok c)")
            case False
            then show ?thesis
              unfolding run2 using n2' cstring_try_cases [of "path_str ?f"] by (auto simp: d_def)
          next
            case True
            then obtain c where c: "ret d = 0" "cstring_try (path_str ?f) = Ok c" by blast
            define a where "a = k (?h3 @ [(?c4, d)]) (Bpf_obj_pin fd c)"
            have "pin_bpf_obj k fd file h =
                (if ret a \<noteq> 0 then Err (last_os_error a) else Ok (),
                 h @ (?c1, k h ?c1) # ?n2 @ (?c3, s) # [(?c4, d), (Bpf_obj_pin fd c, a)])"
              unfolding run2 using c by (simp add: a_def d_def)
            then show ?thesis using chk c(2) n2' by (auto split: if_splits)
          qed
        qed
      qed
    qed
  qed
qed


text \<open>
  A map pinned as \<open>/bpf/a/b\<close> where \<open>/bpf\<close> is a BPF file system and \<open>/bpf/a\<close> does not
  exist yet; pinning it once more is refused.
\<close>

definition sample_pin_kernel :: kernel where
  "sample_pin_kernel h c =
     \<lparr>ret = (case c of File_exists f \<Rightarrow> if f = ''/bpf'' \<or> f = ''/'' then 0 else -1 | _ \<Rightarrow> 0), errno = 2,
      out = (case c of Statfs _ \<Rightarrow> [0x11, 0x4a, 0xfe, 0xca, 0, 0, 0, 0] | _ \<Rightarrow> [])\<rparr>"

definition sample_pin_path :: path where
  "sample_pin_path = \<lparr>absolute = True, comps = [''bpf'', ''a'', ''b'']\<rparr>"

definition sample_pin_map :: Map where
  "sample_pin_map = \<lparr>map_name = ''m'', map_kind = 1, map_fd = 3, config = \<lparr>md_type = 1, md_key_size = 4, md_value_size = 4,
     md_max_entries = 1, md_map_flags = 0\<rparr>, section_data = False, pin_file = None\<rparr>"


end
