(* ===== verification/Fd_Logic.thy ===== *)
theory Fd_Logic
  imports Maps
begin

text \<open>
  Triples for file descriptors. \<open>fds B m F E\<close> says: when the descriptors \<open>B\<close> are held
  before \<open>m\<close>, then \<open>F x\<close> are held after it returns \<open>Ok x\<close> and \<open>E\<close> after it returns an
  error, and every descriptor that was opened in between and is not held was closed,
  whatever the kernel answers. The rules follow the structure of the actions, so a
  proof about an operation reads like the operation.
\<close>

definition fds :: "RawFd multiset \<Rightarrow> 'a action \<Rightarrow> ('a \<Rightarrow> RawFd multiset) \<Rightarrow> RawFd multiset \<Rightarrow> bool" where
  "fds B m F E \<longleftrightarrow>
     (\<forall>h. \<exists>new. snd (m h) = h @ new \<and>
        (case fst (m h) of
           Ok x \<Rightarrow> balanced new B (F x)
         | Err e \<Rightarrow> balanced new B E
         | _ \<Rightarrow> True))"

fun closes :: "syscall \<Rightarrow> bool" where
  "closes (Close _) = True"
| "closes _ = False"

named_theorems fds_intros \<open>structural rules of the descriptor triples\<close>

lemma fds_pure_Ok [fds_intros]: "F x = B \<Longrightarrow> fds B (pure (Ok x)) F E"
  by (simp add: fds_def)

lemma fds_pure_Err [fds_intros]: "E = B \<Longrightarrow> fds B (pure (Err e)) F E"
  by (simp add: fds_def)

lemma fds_pure_Panic [fds_intros, simp]: "fds B (pure Panic) F E" "fds B (pure Undefined) F E"
  by (simp_all add: fds_def)

lemma fds_pure: "E = B \<Longrightarrow> (\<And>x. r = Ok x \<Longrightarrow> F x = B) \<Longrightarrow> fds B (pure r) F E"
  by (cases r) (simp_all add: fds_def)

lemma fds_call_quiet:
  "\<not> opens c \<Longrightarrow> \<not> closes c \<Longrightarrow> fds B (call k c) (\<lambda>_. B) E"
  by (cases c) (simp_all add: fds_def balanced_def)

lemma fds_call_open:
  "opens c \<Longrightarrow> fds B (call k c) (\<lambda>a. if 0 \<le> ret a then add_mset (ret a) B else B) E"
  by (cases c) (simp_all add: fds_def balanced_def)

lemma fds_call_close: "fds (add_mset fd B) (call k (Close fd)) (\<lambda>_. B) E"
  by (simp add: fds_def balanced_def)

lemma fds_conseq: "fds B m F E \<Longrightarrow> (\<And>x. F x = G x) \<Longrightarrow> E = E' \<Longrightarrow> fds B m G E'"
  by (simp add: fds_def cong: outcome.case_cong)

lemma fds_apply:
  assumes "fds B m F E"
  obtains (ok) x new where "m h = (Ok x, h @ new)" "balanced new B (F x)"
  | (err) e new where "m h = (Err e, h @ new)" "balanced new B E"
  | (panic) new where "m h = (Panic, h @ new)"
  | (undef) new where "m h = (Undefined, h @ new)"
proof -
  obtain r h' where m: "m h = (r, h')" by (cases "m h")
  with assms [unfolded fds_def, rule_format, of h] show thesis
    using that by (cases r) auto
qed

lemma fds_bind:
  assumes "fds B m F E" and "\<And>x. fds (F x) (g x) G E"
  shows "fds B (bind m g) G E"
  unfolding fds_def
proof
  fix h
  show "\<exists>new. snd (bind m g h) = h @ new \<and>
      (case fst (bind m g h) of Ok x \<Rightarrow> balanced new B (G x) | Err e \<Rightarrow> balanced new B E | _ \<Rightarrow> True)"
  proof (rule fds_apply [OF assms(1), of h])
    fix x new assume m: "m h = (Ok x, h @ new)" and b: "balanced new B (F x)"
    show ?thesis
      by (rule fds_apply [OF assms(2) [of x], of "h @ new"])
        (use m b in \<open>auto simp: bind_def intro: balanced_trans\<close>)
  qed (auto simp: bind_def)
qed

lemma fds_catch:
  assumes "fds B m F E" and "\<And>x. fds (F x) (g (Ok x)) G E'" and "\<And>e. fds E (g (Err e)) G E'"
  shows "fds B (catch m g) G E'"
  unfolding fds_def
proof
  fix h
  show "\<exists>new. snd (catch m g h) = h @ new \<and>
      (case fst (catch m g h) of Ok x \<Rightarrow> balanced new B (G x) | Err e \<Rightarrow> balanced new B E' | _ \<Rightarrow> True)"
  proof (rule fds_apply [OF assms(1), of h])
    fix x new assume m: "m h = (Ok x, h @ new)" and b: "balanced new B (F x)"
    show ?thesis
      by (rule fds_apply [OF assms(2) [of x], of "h @ new"])
        (use m b in \<open>auto simp: catch_def intro: balanced_trans\<close>)
  next
    fix e new assume m: "m h = (Err e, h @ new)" and b: "balanced new B E"
    show ?thesis
      by (rule fds_apply [OF assms(3) [of e], of "h @ new"])
        (use m b in \<open>auto simp: catch_def intro: balanced_trans\<close>)
  qed (auto simp: catch_def)
qed

lemma balanced_frame: "balanced new B A \<Longrightarrow> balanced new (B + C) (A + C)"
  by (simp add: balanced_def add.assoc add.commute [of C] flip: add.assoc)

lemma fds_frame:
  assumes "fds B m F E" shows "fds (B + C) m (\<lambda>x. F x + C) (E + C)"
  unfolding fds_def
proof
  fix h
  show "\<exists>new. snd (m h) = h @ new \<and>
      (case fst (m h) of Ok x \<Rightarrow> balanced new (B + C) (F x + C) | Err e \<Rightarrow> balanced new (B + C) (E + C) | _ \<Rightarrow> True)"
    by (rule fds_apply [OF assms, of h]) (auto intro: balanced_frame)
qed

text \<open>An action that opens and closes nothing.\<close>

definition quiet :: "'a action \<Rightarrow> bool" where
  "quiet m \<longleftrightarrow> (\<forall>B. fds B m (\<lambda>_. B) B)"

lemma quietD: "quiet m \<Longrightarrow> fds B m (\<lambda>_. B) B"
  by (simp add: quiet_def)

lemma quiet_pure [simp]: "quiet (pure r)"
  by (simp add: quiet_def fds_pure)

lemma quiet_call: "\<not> opens c \<Longrightarrow> \<not> closes c \<Longrightarrow> quiet (call k c)"
  by (simp add: quiet_def fds_call_quiet)

lemma quiet_bind: "quiet m \<Longrightarrow> (\<And>x. quiet (g x)) \<Longrightarrow> quiet (bind m g)"
  unfolding quiet_def by (metis fds_bind)

lemma quiet_catch: "quiet m \<Longrightarrow> (\<And>r. quiet (g r)) \<Longrightarrow> quiet (catch m g)"
  unfolding quiet_def by (metis (no_types, lifting) fds_catch)

lemma fds_quiet: "quiet m \<Longrightarrow> (\<And>x. F x = B) \<Longrightarrow> E = B \<Longrightarrow> fds B m F E"
  by (rule fds_conseq [OF quietD]) auto

lemma fds_bind_quiet: "quiet m \<Longrightarrow> E = B \<Longrightarrow> (\<And>x. fds B (g x) G E) \<Longrightarrow> fds B (bind m g) G E"
  by (rule fds_bind [OF fds_quiet]) auto

text \<open>
  A call that changes no descriptor, before anything else; a call that may open one,
  with its two cases; and closing one.
\<close>

lemma fds_bind_call:
  "\<not> opens c \<Longrightarrow> \<not> closes c \<Longrightarrow> (\<And>a. fds B (g a) G E) \<Longrightarrow> fds B (bind (call k c) g) G E"
  by (rule fds_bind [OF fds_call_quiet])

lemma fds_bind_open:
  assumes "opens c" and "\<And>a. 0 \<le> ret a \<Longrightarrow> fds (add_mset (ret a) B) (g a) G E"
    and "\<And>a. ret a < 0 \<Longrightarrow> fds B (g a) G E"
  shows "fds B (bind (call k c) g) G E"
  by (rule fds_bind [OF fds_call_open [OF assms(1)]]) (use assms(2,3) in auto)

lemma fds_bind_close:
  assumes "B = add_mset fd C" and "\<And>a. fds C (g a) G E"
  shows "fds B (bind (call k (Close fd)) g) G E"
  unfolding assms(1) by (rule fds_bind [OF fds_call_close assms(2)])

lemma keeps_fds_triple:
  assumes "keeps_fds m map_held"
  shows "fds B m (\<lambda>x. add_mset (map_fd x) B) B"
proof -
  have "fds {#} m (\<lambda>x. {#map_fd x#}) {#}"
    unfolding fds_def
  proof
    fix h
    show "\<exists>new. snd (m h) = h @ new \<and>
        (case fst (m h) of Ok x \<Rightarrow> balanced new {#} {#map_fd x#} | Err e \<Rightarrow> balanced new {#} {#} | _ \<Rightarrow> True)"
      using assms unfolding keeps_fds_def by (cases "fst (m h)") fastforce+
  qed
  from fds_frame [OF this, of B] show ?thesis by simp
qed

lemma fds_Pair [simp]: "fds B (Pair (Ok x)) F E \<longleftrightarrow> F x = B" "fds B (Pair (Err e)) F E \<longleftrightarrow> E = B"
  by (auto simp: fds_def balanced_def)

lemma fds_close_Err:
  "B = add_mset fd E \<Longrightarrow> fds B (bind (call k (Close fd)) (\<lambda>a. pure (Err (e a)))) G E"
  by (rule fds_bind_close) (auto intro: fds_intros)

lemma fds_unwrap: "(\<And>x. fds B (g x) G E) \<Longrightarrow> fds B (bind (pure (unwrap v)) g) G E"
  by (cases v) (auto simp: fds_def)

end
