(* ===== verification/Map_Access.thy ===== *)
theory Map_Access
  imports Maps "HOL-Library.AList"
begin

text \<open>
  The typed views of a map of \<open>redbpf/src/lib.rs\<close> and \<open>redbpf/src/xdp.rs\<close>:
  \<open>HashMap\<close>, \<open>LruHashMap\<close>, the per-CPU maps, \<open>Array\<close>, \<open>ProgramArray\<close>,
  \<open>SockMap\<close>, \<open>StackTrace\<close>, \<open>DevMap\<close>, and the iterator \<open>MapIter\<close> over the trait
  \<open>MapIterable\<close>. A key or value type is its size and its representation in memory.
  The trait is a locale; its laws are proved for the hash maps from what \<open>bpf(2)\<close>
  documents of the commands that read a map. This is a second locale, which a kernel
  with a plain hash map and one with an LRU map meet, and the effects of writing a map
  that does not evict are a third. The lemmas show that a value that was set is read back, that
  iteration yields every entry once, and that the per-CPU layout is read back.
\<close>

section \<open>Types as bytes\<close>

text \<open>\<open>mem::size_of::<T>()\<close> and the bytes of a value of \<open>T\<close>.\<close>

record 'a repr =
  enc_of :: "'a \<Rightarrow> bytes"
  dec_of :: "bytes \<Rightarrow> 'a"
  size_of :: nat

definition u32_repr :: "u32 repr" where
  "u32_repr = \<lparr>enc_of = u32_to_le, dec_of = word_of_le, size_of = 4\<rparr>"

definition u64_repr :: "u64 repr" where
  "u64_repr = \<lparr>enc_of = u64_to_le, dec_of = word_of_le, size_of = 8\<rparr>"

text \<open>\<open>i32\<close> and \<open>RawFd\<close>, as the signed value of a 32-bit word.\<close>

definition i32_repr :: "int repr" where
  "i32_repr = \<lparr>enc_of = (\<lambda>i. u32_to_le (of_int i)), dec_of = (\<lambda>bs. sint (word_of_le bs :: u32)), size_of = 4\<rparr>"

text \<open>
  The kernel fills a zeroed buffer of the type's size with the map's value; a longer
  value would be written past the buffer.
\<close>

definition fill :: "'a repr \<Rightarrow> bytes \<Rightarrow> 'a result" where
  "fill r bs =
     (if length bs \<le> size_of r then Ok (dec_of r (bs @ replicate (size_of r - length bs) 0)) else Undefined)"

section \<open>The four map commands\<close>

definition bpf_map_set :: "kernel \<Rightarrow> 'k repr \<Rightarrow> 'v repr \<Rightarrow> RawFd \<Rightarrow> 'k \<Rightarrow> 'v \<Rightarrow> unit action" where
  "bpf_map_set k kr vr fd key val =
     bind (call k (Bpf_map_update fd (enc_of kr key) (enc_of vr val) 0)) (\<lambda>a.
       if ret a < 0 then pure (Err MapError) else pure (Ok ()))"

definition bpf_map_get :: "kernel \<Rightarrow> 'k repr \<Rightarrow> 'v repr \<Rightarrow> RawFd \<Rightarrow> 'k \<Rightarrow> 'v option action" where
  "bpf_map_get k kr vr fd key =
     bind (call k (Bpf_map_lookup fd (enc_of kr key))) (\<lambda>a.
       if ret a < 0 then pure (Ok None)
       else bind (pure (fill vr (out a))) (\<lambda>v. pure (Ok (Some v))))"

definition bpf_map_delete :: "kernel \<Rightarrow> 'k repr \<Rightarrow> RawFd \<Rightarrow> 'k \<Rightarrow> unit action" where
  "bpf_map_delete k kr fd key =
     bind (call k (Bpf_map_delete fd (enc_of kr key))) (\<lambda>a.
       if ret a < 0 then pure (Err MapError) else pure (Ok ()))"

definition bpf_map_get_next_key :: "kernel \<Rightarrow> 'k repr \<Rightarrow> RawFd \<Rightarrow> 'k option \<Rightarrow> 'k option action" where
  "bpf_map_get_next_key k kr fd key =
     bind (call k (Bpf_map_next_key fd (map_option (enc_of kr) key))) (\<lambda>a.
       if ret a < 0 then pure (Ok None)
       else bind (pure (fill kr (out a))) (\<lambda>x. pure (Ok (Some x))))"

text \<open>\<open>let _ = ...\<close>: the outcome is dropped.\<close>

definition ignore :: "'a action \<Rightarrow> unit action" where
  "ignore m = catch m (\<lambda>_. pure (Ok ()))"

section \<open>Values per CPU\<close>

text \<open>\<open>((value_size - 1) | (unit_size - 1)) + 1\<close> in \<open>usize\<close>\<close>

definition round_up :: "nat \<Rightarrow> nat \<Rightarrow> u64 result" where
  "round_up value_size unit_size =
     and_then (usub (of_nat value_size) 1) (\<lambda>a.
     and_then (usub (of_nat unit_size) 1) (\<lambda>b. uadd (a OR b) 1))"

definition possible_num :: "kernel \<Rightarrow> nat action" where
  "possible_num k =
     bind (call k (Read_file ''/sys/devices/system/cpu/possible'')) (\<lambda>a.
       pure (get_possible_num (\<lambda>_. if ret a < 0 then Err (OsError (errno a)) else Ok (out a))))"

definition percpu_values_new :: "kernel \<Rightarrow> 'v \<Rightarrow> 'v list action" where
  "percpu_values_new k v0 = bind (possible_num k) (\<lambda>count. pure (Ok (replicate count v0)))"

text \<open>The loops that write and read one value every \<open>value_size\<close> bytes.\<close>

fun write_values :: "'v repr \<Rightarrow> nat \<Rightarrow> nat \<Rightarrow> 'v list \<Rightarrow> bytes \<Rightarrow> bytes" where
  "write_values vr vsize i [] buf = buf"
| "write_values vr vsize i (v # vs) buf =
     write_values vr vsize (Suc i) vs (overwrite buf (vsize * i) (enc_of vr v))"

fun read_values :: "'v repr \<Rightarrow> nat \<Rightarrow> nat \<Rightarrow> nat \<Rightarrow> bytes \<Rightarrow> 'v list result" where
  "read_values vr vsize i 0 buf = Ok []"
| "read_values vr vsize i (Suc n) buf =
     and_then (read_raw (dec_of vr) (size_of vr) buf (vsize * i)) (\<lambda>v.
     and_then (read_values vr vsize (Suc i) n buf) (\<lambda>vs. Ok (v # vs)))"

text \<open>
  \<open>bpf_percpu_map_set\<close> and \<open>bpf_percpu_map_get\<close>; the kernel reads and writes
  \<open>value_size * count\<close> bytes.
\<close>

definition bpf_percpu_map_set :: "kernel \<Rightarrow> 'k repr \<Rightarrow> 'v repr \<Rightarrow> RawFd \<Rightarrow> 'k \<Rightarrow> 'v list \<Rightarrow> unit action" where
  "bpf_percpu_map_set k kr vr fd key vals =
     bind (possible_num k) (\<lambda>count.
       if length vals \<noteq> count then pure (Err MapError)
       else bind (pure (round_up (size_of vr) 8)) (\<lambda>vs.
            let buf = write_values vr (unat vs) 0 vals (replicate (unat vs * count) 0)
            in bind (call k (Bpf_map_update fd (enc_of kr key) buf 0)) (\<lambda>a.
               if ret a < 0 then pure (Err MapError) else pure (Ok ()))))"

definition bpf_percpu_map_get :: "kernel \<Rightarrow> 'k repr \<Rightarrow> 'v repr \<Rightarrow> RawFd \<Rightarrow> 'k \<Rightarrow> 'v list option action" where
  "bpf_percpu_map_get k kr vr fd key =
     bind (pure (round_up (size_of vr) 8)) (\<lambda>vs.
     bind (possible_num k) (\<lambda>count.
     bind (call k (Bpf_map_lookup fd (enc_of kr key))) (\<lambda>a.
       if ret a < 0 then pure (Ok None)
       else if unat vs * count < length (out a) then pure Undefined
       else let buf = out a @ replicate (unat vs * count - length (out a)) 0
            in bind (pure (read_values vr (unat vs) 0 count buf)) (\<lambda>vals. pure (Ok (Some vals))))))"

section \<open>The map types\<close>

text \<open>
  Each \<open>new\<close> checks the definition of the base map against the sizes of the type
  parameters; the view itself is the base map.
\<close>

definition hash_map_new :: "'k repr \<Rightarrow> 'v repr \<Rightarrow> Map \<Rightarrow> Map result" where
  "hash_map_new kr vr base =
     (if size_of kr \<noteq> unat (md_key_size (config base)) \<or> size_of vr \<noteq> unat (md_value_size (config base)) \<or>
         (BPF_MAP_TYPE_HASH \<noteq> md_type (config base) \<and> BPF_MAP_TYPE_PERF_EVENT_ARRAY \<noteq> md_type (config base))
      then Err MapError else Ok base)"

definition hash_map_set :: "kernel \<Rightarrow> 'k repr \<Rightarrow> 'v repr \<Rightarrow> Map \<Rightarrow> 'k \<Rightarrow> 'v \<Rightarrow> unit action" where
  "hash_map_set k kr vr base key val = ignore (bpf_map_set k kr vr (map_fd base) key val)"

definition hash_map_get :: "kernel \<Rightarrow> 'k repr \<Rightarrow> 'v repr \<Rightarrow> Map \<Rightarrow> 'k \<Rightarrow> 'v option action" where
  "hash_map_get k kr vr base key = bpf_map_get k kr vr (map_fd base) key"

definition hash_map_delete :: "kernel \<Rightarrow> 'k repr \<Rightarrow> Map \<Rightarrow> 'k \<Rightarrow> unit action" where
  "hash_map_delete k kr base key = ignore (bpf_map_delete k kr (map_fd base) key)"

definition hash_map_next_key :: "kernel \<Rightarrow> 'k repr \<Rightarrow> Map \<Rightarrow> 'k option \<Rightarrow> 'k option action" where
  "hash_map_next_key k kr base key = bpf_map_get_next_key k kr (map_fd base) key"

definition lru_hash_map_new :: "'k repr \<Rightarrow> 'v repr \<Rightarrow> Map \<Rightarrow> Map result" where
  "lru_hash_map_new kr vr base =
     (if size_of kr \<noteq> unat (md_key_size (config base)) \<or> size_of vr \<noteq> unat (md_value_size (config base)) \<or>
         BPF_MAP_TYPE_LRU_HASH \<noteq> md_type (config base)
      then Err MapError else Ok base)"

definition lru_hash_map_set :: "kernel \<Rightarrow> 'k repr \<Rightarrow> 'v repr \<Rightarrow> Map \<Rightarrow> 'k \<Rightarrow> 'v \<Rightarrow> unit action" where
  "lru_hash_map_set k kr vr base key val = ignore (bpf_map_set k kr vr (map_fd base) key val)"

definition lru_hash_map_get :: "kernel \<Rightarrow> 'k repr \<Rightarrow> 'v repr \<Rightarrow> Map \<Rightarrow> 'k \<Rightarrow> 'v option action" where
  "lru_hash_map_get k kr vr base key = bpf_map_get k kr vr (map_fd base) key"

definition lru_hash_map_delete :: "kernel \<Rightarrow> 'k repr \<Rightarrow> Map \<Rightarrow> 'k \<Rightarrow> unit action" where
  "lru_hash_map_delete k kr base key = ignore (bpf_map_delete k kr (map_fd base) key)"

definition lru_hash_map_next_key :: "kernel \<Rightarrow> 'k repr \<Rightarrow> Map \<Rightarrow> 'k option \<Rightarrow> 'k option action" where
  "lru_hash_map_next_key k kr base key = bpf_map_get_next_key k kr (map_fd base) key"

definition percpu_hash_map_new :: "'k repr \<Rightarrow> 'v repr \<Rightarrow> Map \<Rightarrow> Map result" where
  "percpu_hash_map_new kr vr base =
     (if size_of kr \<noteq> unat (md_key_size (config base)) \<or> size_of vr \<noteq> unat (md_value_size (config base)) \<or>
         BPF_MAP_TYPE_PERCPU_HASH \<noteq> md_type (config base)
      then Err MapError else Ok base)"

definition percpu_hash_map_set :: "kernel \<Rightarrow> 'k repr \<Rightarrow> 'v repr \<Rightarrow> Map \<Rightarrow> 'k \<Rightarrow> 'v list \<Rightarrow> unit action" where
  "percpu_hash_map_set k kr vr base key vals = bpf_percpu_map_set k kr vr (map_fd base) key vals"

definition percpu_hash_map_get :: "kernel \<Rightarrow> 'k repr \<Rightarrow> 'v repr \<Rightarrow> Map \<Rightarrow> 'k \<Rightarrow> 'v list option action" where
  "percpu_hash_map_get k kr vr base key = bpf_percpu_map_get k kr vr (map_fd base) key"

definition percpu_hash_map_delete :: "kernel \<Rightarrow> 'k repr \<Rightarrow> Map \<Rightarrow> 'k \<Rightarrow> unit action" where
  "percpu_hash_map_delete k kr base key = ignore (bpf_map_delete k kr (map_fd base) key)"

definition percpu_hash_map_next_key :: "kernel \<Rightarrow> 'k repr \<Rightarrow> Map \<Rightarrow> 'k option \<Rightarrow> 'k option action" where
  "percpu_hash_map_next_key k kr base key = bpf_map_get_next_key k kr (map_fd base) key"

definition lru_percpu_hash_map_new :: "'k repr \<Rightarrow> 'v repr \<Rightarrow> Map \<Rightarrow> Map result" where
  "lru_percpu_hash_map_new kr vr base =
     (if size_of kr \<noteq> unat (md_key_size (config base)) \<or> size_of vr \<noteq> unat (md_value_size (config base)) \<or>
         BPF_MAP_TYPE_LRU_PERCPU_HASH \<noteq> md_type (config base)
      then Err MapError else Ok base)"

definition lru_percpu_hash_map_set :: "kernel \<Rightarrow> 'k repr \<Rightarrow> 'v repr \<Rightarrow> Map \<Rightarrow> 'k \<Rightarrow> 'v list \<Rightarrow> unit action" where
  "lru_percpu_hash_map_set k kr vr base key vals = bpf_percpu_map_set k kr vr (map_fd base) key vals"

definition lru_percpu_hash_map_get :: "kernel \<Rightarrow> 'k repr \<Rightarrow> 'v repr \<Rightarrow> Map \<Rightarrow> 'k \<Rightarrow> 'v list option action" where
  "lru_percpu_hash_map_get k kr vr base key = bpf_percpu_map_get k kr vr (map_fd base) key"

definition lru_percpu_hash_map_delete :: "kernel \<Rightarrow> 'k repr \<Rightarrow> Map \<Rightarrow> 'k \<Rightarrow> unit action" where
  "lru_percpu_hash_map_delete k kr base key = ignore (bpf_map_delete k kr (map_fd base) key)"

definition lru_percpu_hash_map_next_key :: "kernel \<Rightarrow> 'k repr \<Rightarrow> Map \<Rightarrow> 'k option \<Rightarrow> 'k option action" where
  "lru_percpu_hash_map_next_key k kr base key = bpf_map_get_next_key k kr (map_fd base) key"

definition array_new :: "'v repr \<Rightarrow> Map \<Rightarrow> Map result" where
  "array_new vr base =
     (if size_of vr \<noteq> unat (md_value_size (config base)) \<or> BPF_MAP_TYPE_ARRAY \<noteq> md_type (config base)
      then Err MapError else Ok base)"

definition array_set :: "kernel \<Rightarrow> 'v repr \<Rightarrow> Map \<Rightarrow> u32 \<Rightarrow> 'v \<Rightarrow> unit action" where
  "array_set k vr base idx val =
     bind (call k (Bpf_map_update (map_fd base) (u32_to_le idx) (enc_of vr val) 0)) (\<lambda>a.
       if ret a < 0 then pure (Err MapError) else pure (Ok ()))"

definition array_get :: "kernel \<Rightarrow> 'v repr \<Rightarrow> Map \<Rightarrow> u32 \<Rightarrow> 'v option action" where
  "array_get k vr base idx =
     bind (call k (Bpf_map_lookup (map_fd base) (u32_to_le idx))) (\<lambda>a.
       if ret a < 0 then pure (Ok None)
       else bind (pure (fill vr (out a))) (\<lambda>v. pure (Ok (Some v))))"

definition array_len :: "Map \<Rightarrow> nat" where
  "array_len base = unat (md_max_entries (config base))"

definition percpu_array_new :: "'v repr \<Rightarrow> Map \<Rightarrow> Map result" where
  "percpu_array_new vr base =
     (if size_of vr \<noteq> unat (md_value_size (config base)) \<or> BPF_MAP_TYPE_PERCPU_ARRAY \<noteq> md_type (config base)
      then Err MapError else Ok base)"

definition percpu_array_set :: "kernel \<Rightarrow> 'v repr \<Rightarrow> Map \<Rightarrow> u32 \<Rightarrow> 'v list \<Rightarrow> unit action" where
  "percpu_array_set k vr base idx vals =
     bind (possible_num k) (\<lambda>count.
       if length vals \<noteq> count then pure (Err MapError)
       else bind (pure (round_up (size_of vr) 8)) (\<lambda>vs.
            let buf = write_values vr (unat vs) 0 vals (replicate (unat vs * count) 0)
            in bind (call k (Bpf_map_update (map_fd base) (u32_to_le idx) buf 0)) (\<lambda>a.
               if ret a < 0 then pure (Err MapError) else pure (Ok ()))))"

definition percpu_array_get :: "kernel \<Rightarrow> 'v repr \<Rightarrow> Map \<Rightarrow> u32 \<Rightarrow> 'v list option action" where
  "percpu_array_get k vr base idx =
     bind (pure (round_up (size_of vr) 8)) (\<lambda>vs.
     bind (possible_num k) (\<lambda>count.
     bind (call k (Bpf_map_lookup (map_fd base) (u32_to_le idx))) (\<lambda>a.
       if ret a < 0 then pure (Ok None)
       else if unat vs * count < length (out a) then pure Undefined
       else let buf = out a @ replicate (unat vs * count - length (out a)) 0
            in bind (pure (read_values vr (unat vs) 0 count buf)) (\<lambda>vals. pure (Ok (Some vals))))))"

text \<open>\<open>ProgramArray::new\<close> compares the two sizes but not the type of the map.\<close>

definition program_array_new :: "Map \<Rightarrow> Map result" where
  "program_array_new base =
     (if 4 \<noteq> unat (md_key_size (config base)) \<or> 4 \<noteq> unat (md_value_size (config base))
      then Err MapError else Ok base)"

definition program_array_get :: "kernel \<Rightarrow> Map \<Rightarrow> u32 \<Rightarrow> RawFd action" where
  "program_array_get k base idx =
     bind (call k (Bpf_map_lookup (map_fd base) (u32_to_le idx))) (\<lambda>a.
       if ret a < 0 then pure (Err MapError) else pure (fill i32_repr (out a)))"

definition program_array_set :: "kernel \<Rightarrow> Map \<Rightarrow> u32 \<Rightarrow> RawFd \<Rightarrow> unit action" where
  "program_array_set k base idx fd =
     bind (call k (Bpf_map_update (map_fd base) (u32_to_le idx) (enc_of i32_repr fd) 0)) (\<lambda>a.
       if ret a < 0 then pure (Err MapError) else pure (Ok ()))"

text \<open>\<open>StackTrace\<close>: 127 instruction pointers; the identifier is passed as eight bytes.\<close>

abbreviation (input) BPF_MAX_STACK_DEPTH :: nat where "BPF_MAX_STACK_DEPTH \<equiv> 127"

definition stack_trace_get :: "kernel \<Rightarrow> Map \<Rightarrow> u64 \<Rightarrow> u64 list option action" where
  "stack_trace_get k base sid =
     bind (call k (Bpf_map_lookup (map_fd base) (u64_to_le sid))) (\<lambda>a.
       if ret a = 0 then
         bind (pure (if length (out a) = BPF_MAX_STACK_DEPTH * 8
                     then read_array word_of_le 8 (out a) 0 BPF_MAX_STACK_DEPTH else Undefined)) (\<lambda>ips.
         pure (Ok (Some ips)))
       else pure (Ok None))"

definition stack_trace_delete :: "kernel \<Rightarrow> Map \<Rightarrow> u64 \<Rightarrow> unit action" where
  "stack_trace_delete k base sid =
     bind (call k (Bpf_map_delete (map_fd base) (u64_to_le sid))) (\<lambda>a.
       if ret a = 0 then pure (Ok ()) else pure (Err MapError))"

definition sock_map_new :: "Map \<Rightarrow> Map result" where
  "sock_map_new base = Ok base"

definition sock_map_set :: "kernel \<Rightarrow> Map \<Rightarrow> u32 \<Rightarrow> RawFd \<Rightarrow> unit action" where
  "sock_map_set k base idx fd =
     bind (call k (Bpf_map_update (map_fd base) (u32_to_le idx) (enc_of i32_repr fd) 0)) (\<lambda>a.
       if ret a < 0 then pure (Err MapError) else pure (Ok ()))"

definition sock_map_delete :: "kernel \<Rightarrow> Map \<Rightarrow> u32 \<Rightarrow> unit action" where
  "sock_map_delete k base idx =
     bind (call k (Bpf_map_delete (map_fd base) (u32_to_le idx))) (\<lambda>a.
       if ret a < 0 then pure (Err MapError) else pure (Ok ()))"

text \<open>\<open>DevMap\<close> of \<open>redbpf/src/xdp.rs\<close>\<close>

definition dev_map_new :: "Map \<Rightarrow> Map result" where
  "dev_map_new base =
     (if 4 \<noteq> unat (md_key_size (config base)) \<or> 4 \<noteq> unat (md_value_size (config base)) \<or>
         BPF_MAP_TYPE_DEVMAP \<noteq> md_type (config base)
      then Err MapError else Ok base)"

definition dev_map_set :: "kernel \<Rightarrow> Map \<Rightarrow> u32 \<Rightarrow> u32 \<Rightarrow> unit action" where
  "dev_map_set k base idx ifindex =
     bind (call k (Bpf_map_update (map_fd base) (u32_to_le idx) (u32_to_le ifindex) 0)) (\<lambda>a.
       if ret a < 0 then pure (Err MapError) else pure (Ok ()))"

definition dev_map_delete :: "kernel \<Rightarrow> Map \<Rightarrow> u32 \<Rightarrow> unit action" where
  "dev_map_delete k base idx =
     bind (call k (Bpf_map_delete (map_fd base) (u32_to_le idx))) (\<lambda>a.
       if ret a < 0 then pure (Err MapError) else pure (Ok ()))"

section \<open>Iteration\<close>

text \<open>
  \<open>MapIter::next\<close> over the two methods of the trait: the item and the new
  \<open>last_key\<close>. The \<open>get\<close> may find that the key is gone, which ends the call with
  nothing but keeps the key.
\<close>

definition map_iter_next ::
    "('k \<Rightarrow> 'v option action) \<Rightarrow> ('k option \<Rightarrow> 'k option action) \<Rightarrow> 'k option \<Rightarrow> (('k \<times> 'v) option \<times> 'k option) action" where
  "map_iter_next get next_key last_key =
     bind (next_key last_key) (\<lambda>nk.
       case nk of
         None \<Rightarrow> pure (Ok (None, None))
       | Some key \<Rightarrow> bind (get key) (\<lambda>v. pure (Ok (map_option (Pair key) v, Some key))))"

text \<open>A \<open>for\<close> loop over the iterator, \<open>fuel\<close> bounding its iterations.\<close>

fun map_iter_all ::
    "('k \<Rightarrow> 'v option action) \<Rightarrow> ('k option \<Rightarrow> 'k option action) \<Rightarrow> nat \<Rightarrow> 'k option \<Rightarrow> ('k \<times> 'v) list option action" where
  "map_iter_all get next_key 0 last_key = pure (Ok None)"
| "map_iter_all get next_key (Suc fuel) last_key =
     bind (map_iter_next get next_key last_key) (\<lambda>(item, last_key').
       case item of
         None \<Rightarrow> pure (Ok (Some []))
       | Some kv \<Rightarrow> bind (map_iter_all get next_key fuel last_key') (\<lambda>rest. pure (Ok (map_option (Cons kv) rest))))"

section \<open>The per-CPU layout\<close>

lemma or_7: "(m :: nat) OR 7 = 8 * (m div 8) + 7"
proof -
  have 7: "(7 :: nat) = mask 3" by (simp add: mask_eq_exp_minus_1)
  have "m OR 7 = push_bit 3 (drop_bit 3 m) OR 7"
    unfolding 7 by (rule bit_eqI) (auto simp: bit_simps)
  also have "\<dots> = push_bit 3 (drop_bit 3 m) + 7"
    by (rule disjunctive_add_eq_or [symmetric]) (auto simp: 7 bit_eq_iff bit_simps)
  finally show ?thesis by (simp add: push_bit_eq_mult drop_bit_eq_div)
qed

lemma round_up_8:
  assumes "0 < n" and "n < 2 ^ 63"
  shows "\<exists>w. round_up n 8 = Ok w \<and> unat w = 8 * ((n + 7) div 8)"
proof -
  let ?w = "of_nat n :: u64"
  have un: "unat ?w = n" using assms by (simp add: unat_of_nat)
  then have le: "1 \<le> ?w" using assms(1) by (simp add: word_le_nat_alt)
  then have u1: "unat (?w - 1) = n - 1" using un by (simp add: unat_sub)
  have u2: "unat ((?w - 1) OR 7) = 8 * ((n - 1) div 8) + 7"
    unfolding unsigned_or_eq u1 by (simp add: or_7)
  have b: "8 * ((n - 1) div 8) + 8 < 2 ^ 64"
  proof -
    have "8 * ((n - 1) div 8) \<le> n - 1" by simp
    moreover have "n < 9223372036854775808" using assms(2) by simp
    ultimately have "8 * ((n - 1) div 8) + 8 < 18446744073709551616" by linarith
    then show ?thesis by simp
  qed
  have "unat (((?w - 1) OR 7) + 1) = 8 * ((n - 1) div 8) + 8"
    using unat_add_no_overflow [of "(?w - 1) OR 7" 1] u2 b by simp
  moreover have "8 * ((n - 1) div 8) + 8 = 8 * ((n + 7) div 8)" using assms(1) div_add_self2 [of 8 "n - 1"] by (cases n) (simp_all add: add.commute)
  moreover have "round_up n 8 = Ok (((?w - 1) OR 7) + 1)"
    using le u2 b by (simp add: round_up_def usub_def uadd_def)
  ultimately show ?thesis by auto
qed

lemma overwrite_take: "a + length ys \<le> length xs \<Longrightarrow> n \<le> a \<Longrightarrow> take n (overwrite xs a ys) = take n xs"
  by (simp add: overwrite_def)

lemma take_drop_agree:
  assumes "take n xs = take n ys" and "a + k \<le> n"
  shows "take k (drop a xs) = take k (drop a ys)"
proof -
  have "take k (drop a zs) = drop a (take (a + k) (take n zs))" for zs :: "'a list"
    using assms(2) by (simp add: drop_take min_def)
  then show ?thesis using assms(1) by metis
qed

lemma write_values_facts:
  assumes "byte_codec (enc_of vr) (dec_of vr) (size_of vr)" and "size_of vr \<le> vsize"
    and "vsize * (i + length vals) \<le> length buf"
  shows "length (write_values vr vsize i vals buf) = length buf \<and>
    take (vsize * i) (write_values vr vsize i vals buf) = take (vsize * i) buf \<and>
    read_values vr vsize i (length vals) (write_values vr vsize i vals buf) = Ok vals"
  using assms(3)
proof (induction vals arbitrary: i buf)
  case (Cons v vals)
  note enc_length = byte_codec.enc_length [OF assms(1)] and dec_enc = byte_codec.dec_enc [OF assms(1)]
  let ?b = "overwrite buf (vsize * i) (enc_of vr v)"
  let ?w = "write_values vr vsize (Suc i) vals ?b"
  have "vsize * i + vsize \<le> length buf" 
    using Cons.prems by (simp add: distrib_left) 
  then have fits: "vsize * i + length (enc_of vr v) \<le> length buf"
    using assms(2) enc_length [of v] by simp
  then have lb: "length ?b = length buf" by simp
  have IH: "length ?w = length buf" "take (vsize * Suc i) ?w = take (vsize * Suc i) ?b"
    "read_values vr vsize (Suc i) (length vals) ?w = Ok vals"
    using Cons.IH [of "Suc i" ?b] Cons.prems lb by simp_all
  have "take (vsize * i) ?w = take (vsize * i) ?b"
    using take_drop_agree [OF IH(2), of 0 "vsize * i"] by simp
  moreover have "take (size_of vr) (drop (vsize * i) ?w) = take (size_of vr) (drop (vsize * i) ?b)"
    using take_drop_agree [OF IH(2), of "vsize * i" "size_of vr"] assms(2) by simp
  moreover have "take (size_of vr) (drop (vsize * i) ?b) = enc_of vr v"
    using overwrite_read_same [OF fits] enc_length [of v] by simp
  ultimately show ?case
    using IH fits enc_length [of v] overwrite_take [OF fits, of "vsize * i"]
    by (simp add: read_raw_def dec_enc)
qed simp

section \<open>What \<open>bpf(2)\<close> documents of the map commands\<close>

text \<open>
  The key after \<open>prev\<close>: the first one when there is no \<open>prev\<close> or it is not in the map.
\<close>

fun next_in :: "'a list \<Rightarrow> 'a option \<Rightarrow> 'a option" where
  "next_in [] prev = None"
| "next_in (x # xs) None = Some x"
| "next_in (x # xs) (Some l) =
     (if l \<in> set (x # xs)
      then (case tl (dropWhile (\<lambda>y. y \<noteq> l) (x # xs)) of [] \<Rightarrow> None | y # ys \<Rightarrow> Some y)
      else Some x)"

lemma next_in_None: "next_in xs None = (case xs of [] \<Rightarrow> None | x # _ \<Rightarrow> Some x)"
  by (cases xs) auto

lemma next_in_after:
  assumes "l \<notin> set xs"
  shows "next_in (xs @ l # ys) (Some l) = (case ys of [] \<Rightarrow> None | y # _ \<Rightarrow> Some y)"
proof -
  have "dropWhile (\<lambda>y. y \<noteq> l) (xs @ l # ys) = l # ys" using assms by (induction xs) auto
  moreover have "l \<in> set (xs @ l # ys)" by simp
  moreover obtain z zs where "xs @ l # ys = z # zs" by (cases "xs @ l # ys") auto
  ultimately show ?thesis by (simp del: dropWhile.simps)
qed

lemma next_in_mem:
  assumes "next_in xs prev = Some x"
  shows "x \<in> set xs"
proof (cases "\<exists>l. prev = Some l \<and> l \<in> set xs")
  case True
  then obtain l as bs where "prev = Some l" "xs = as @ l # bs" "l \<notin> set as"
    by (auto dest: split_list_first)
  then show ?thesis using assms by (auto simp: next_in_after split: list.splits)
next
  case False
  then show ?thesis using assms by (cases "(xs, prev)" rule: next_in.cases) auto
qed

lemma next_in_map:
  assumes "inj_on f (set xs \<union> set_option prev)"
  shows "next_in (map f xs) (map_option f prev) = map_option f (next_in xs prev)"
proof (cases prev)
  case (Some l)
  show ?thesis
  proof (cases "l \<in> set xs")
    case True
    then obtain as bs where xs: "xs = as @ l # bs" and l: "l \<notin> set as"
      by (auto dest: split_list_first)
    have "f l \<notin> set (map f as)" using assms l xs Some by (auto simp: inj_on_def)
    then show ?thesis unfolding xs Some by (simp add: next_in_after l split: list.split)
  next
    case False
    then have "f l \<notin> f ` set xs" using assms Some by (auto simp: inj_on_def)
    with False Some show ?thesis by (cases xs) auto
  qed
qed (simp add: next_in_None split: list.split)

fun reads_only :: "syscall \<Rightarrow> bool" where
  "reads_only (Bpf_map_lookup _ _) = True"
| "reads_only (Bpf_map_next_key _ _) = True"
| "reads_only (Read_file _) = True"
| "reads_only _ = False"

text \<open>
  The contract of the kernel for reading the map behind \<open>fd\<close>: \<open>entries\<close> gives its
  contents after any sequence of calls, and calls that only read leave them. It holds of
  every kind of hash map.
\<close>

locale bpf_map_reads =
  fixes k :: kernel and fd :: RawFd and entries :: "history \<Rightarrow> (bytes \<times> bytes) list"
    and ksize vsize :: nat
  assumes keys_distinct: "distinct (map fst (entries h))"
    and entry_sizes: "(key, val) \<in> set (entries h) \<Longrightarrow> length key = ksize \<and> length val = vsize"
    and lookup_found: "map_of (entries h) key = Some val \<Longrightarrow>
      0 \<le> ret (k h (Bpf_map_lookup fd key)) \<and> out (k h (Bpf_map_lookup fd key)) = val"
    and lookup_missing: "map_of (entries h) key = None \<Longrightarrow> ret (k h (Bpf_map_lookup fd key)) < 0"
    and next_key_found: "next_in (map fst (entries h)) prev = Some key \<Longrightarrow>
      0 \<le> ret (k h (Bpf_map_next_key fd prev)) \<and> out (k h (Bpf_map_next_key fd prev)) = key"
    and next_key_end: "next_in (map fst (entries h)) prev = None \<Longrightarrow> ret (k h (Bpf_map_next_key fd prev)) < 0"
    and reads_keep: "reads_only c \<Longrightarrow> entries (h @ [(c, k h c)]) = entries h"

text \<open>
  The contract for writing it: an update or a deletion changes the one key. A map that
  evicts old entries to make room does not promise this.
\<close>

locale bpf_map_cmds = bpf_map_reads +
  assumes update_effect: "length key = ksize \<Longrightarrow> length val = vsize \<Longrightarrow>
      map_of (entries (h @ [(Bpf_map_update fd key val 0, k h (Bpf_map_update fd key val 0))])) =
        (if ret (k h (Bpf_map_update fd key val 0)) < 0 then map_of (entries h)
         else (map_of (entries h))(key \<mapsto> val))"
    and delete_effect: "length key = ksize \<Longrightarrow>
      map_of (entries (h @ [(Bpf_map_delete fd key, k h (Bpf_map_delete fd key))])) =
        (if ret (k h (Bpf_map_delete fd key)) < 0 then map_of (entries h)
         else (map_of (entries h))(key := None))"

text \<open>The same map seen through a key type and a value type of the right sizes.\<close>

locale typed_reads = bpf_map_reads k fd entries "size_of kr" "size_of vr" +
    kc: byte_codec "enc_of kr" "dec_of kr" "size_of kr" + vc: byte_codec "enc_of vr" "dec_of vr" "size_of vr"
  for k fd entries and kr :: "'k repr" and vr :: "'v repr"
begin

definition lookup :: "history \<Rightarrow> 'k \<Rightarrow> 'v option" where
  "lookup h key = map_option (dec_of vr) (map_of (entries h) (enc_of kr key))"

lemma enc_inj: "enc_of kr x = enc_of kr y \<longleftrightarrow> x = y"
  by (metis kc.dec_enc)

lemma get_returns: "bpf_map_get k kr vr fd key h =
    (Ok (lookup h key), h @ [(Bpf_map_lookup fd (enc_of kr key), k h (Bpf_map_lookup fd (enc_of kr key)))])"
proof (cases "map_of (entries h) (enc_of kr key)")
  case None
  then show ?thesis using lookup_missing [OF None] by (simp add: bpf_map_get_def lookup_def)
next
  case (Some val)
  have "length val = size_of vr" using entry_sizes map_of_SomeD [OF Some] by blast
  then show ?thesis using lookup_found [OF Some] Some
    by (simp add: bpf_map_get_def lookup_def fill_def)
qed

lemma lookup_after_read: "reads_only c \<Longrightarrow> lookup (h @ [(c, k h c)]) key = lookup h key"
  by (simp add: lookup_def reads_keep)

definition typed :: "history \<Rightarrow> ('k \<times> 'v) list" where
  "typed h = map (\<lambda>(a, b). (dec_of kr a, dec_of vr b)) (entries h)"

lemma fst_typed: "map fst (typed h) = map (dec_of kr) (map fst (entries h))"
  by (simp add: typed_def case_prod_unfold)

lemma dec_key_inj: "inj_on (dec_of kr) {key. length key = size_of kr}"
  by (rule inj_onI) (metis (mono_tags) kc.enc_dec mem_Collect_eq)

lemma keys_sized: "set (map fst (entries h)) \<subseteq> {key. length key = size_of kr}"
  using entry_sizes by fastforce

lemma typed_distinct: "distinct (map fst (typed h))"
  unfolding fst_typed distinct_map [of "dec_of kr"]
  using keys_distinct [of h] inj_on_subset [OF dec_key_inj keys_sized [of h]] by blast

lemma lookup_typed: "(x, v) \<in> set (typed h) \<Longrightarrow> lookup h x = Some v"
proof -
  assume "(x, v) \<in> set (typed h)"
  then obtain a b where ab: "(a, b) \<in> set (entries h)" and x: "x = dec_of kr a" and v: "v = dec_of vr b"
    by (auto simp: typed_def)
  have "enc_of kr x = a" using entry_sizes [OF ab] x by (simp add: kc.enc_dec)
  moreover have "map_of (entries h) a = Some b" using keys_distinct ab by simp
  ultimately show ?thesis by (simp add: lookup_def v)
qed

lemma next_key_returns: "bpf_map_get_next_key k kr fd prev h =
    (Ok (next_in (map fst (typed h)) prev),
     h @ [(Bpf_map_next_key fd (map_option (enc_of kr) prev), k h (Bpf_map_next_key fd (map_option (enc_of kr) prev)))])"
proof -
  let ?l = "map_option (enc_of kr) prev" and ?ks = "map fst (entries h)"
  have dl: "map_option (dec_of kr) ?l = prev" by (cases prev) (simp_all add: kc.dec_enc)
  have "set_option ?l \<subseteq> {key. length key = size_of kr}" by (cases prev) (simp_all add: kc.enc_length)
  then have "inj_on (dec_of kr) (set ?ks \<union> set_option ?l)"
    using keys_sized [of h] by (intro inj_on_subset [OF dec_key_inj]) blast
  then have n: "next_in (map fst (typed h)) prev = map_option (dec_of kr) (next_in ?ks ?l)"
    using next_in_map [of "dec_of kr" ?ks ?l] unfolding fst_typed dl by blast
  show ?thesis
  proof (cases "next_in ?ks ?l")
    case None
    then show ?thesis using next_key_end [OF None] n by (simp add: bpf_map_get_next_key_def)
  next
    case (Some key)
    then have "key \<in> set ?ks" by (rule next_in_mem)
    then have "length key = size_of kr" using keys_sized by auto
    then show ?thesis using next_key_found [OF Some] n Some
      by (simp add: bpf_map_get_next_key_def fill_def)
  qed
qed

lemma typed_after_read: "reads_only c \<Longrightarrow> typed (h @ [(c, k h c)]) = typed h"
  by (simp add: typed_def reads_keep)

end

locale typed_map = typed_reads k fd entries kr vr + bpf_map_cmds k fd entries "size_of kr" "size_of vr"
  for k fd entries and kr :: "'k repr" and vr :: "'v repr"
begin

lemma set_effect:
  obtains h1 a where "bpf_map_set k kr vr fd key val h = (if ret a < 0 then Err MapError else Ok (), h1)"
    and "a = k h (Bpf_map_update fd (enc_of kr key) (enc_of vr val) 0)"
    and "\<And>x. lookup h1 x = (if \<not> ret a < 0 \<and> x = key then Some val else lookup h x)"
proof -
  let ?c = "Bpf_map_update fd (enc_of kr key) (enc_of vr val) 0"
  have "lookup (h @ [(?c, k h ?c)]) x = (if \<not> ret (k h ?c) < 0 \<and> x = key then Some val else lookup h x)" for x
    using update_effect [OF kc.enc_length [of key] vc.enc_length [of val], of h]
    by (auto simp: lookup_def enc_inj vc.dec_enc)
  then show thesis by (intro that) (auto simp: bpf_map_set_def)
qed

lemma delete_effect_typed:
  obtains h1 a where "bpf_map_delete k kr fd key h = (if ret a < 0 then Err MapError else Ok (), h1)"
    and "a = k h (Bpf_map_delete fd (enc_of kr key))"
    and "\<And>x. lookup h1 x = (if \<not> ret a < 0 \<and> x = key then None else lookup h x)"
proof -
  let ?c = "Bpf_map_delete fd (enc_of kr key)"
  have "lookup (h @ [(?c, k h ?c)]) x = (if \<not> ret (k h ?c) < 0 \<and> x = key then None else lookup h x)" for x
    using delete_effect [OF kc.enc_length [of key], of h]
    by (auto simp: lookup_def enc_inj)
  then show thesis by (intro that) (auto simp: bpf_map_delete_def)
qed

end

section \<open>The iterator over the trait\<close>

text \<open>
  \<open>MapIterable\<close>: its two methods, on states satisfying \<open>inv\<close> in which the map
  holds \<open>kvs\<close>.
\<close>

locale map_iterable =
  fixes get :: "'k \<Rightarrow> 'v option action" and next_key :: "'k option \<Rightarrow> 'k option action"
    and inv :: "history \<Rightarrow> bool" and kvs :: "('k \<times> 'v) list"
  assumes kvs_distinct: "distinct (map fst kvs)"
    and get_finds: "inv h \<Longrightarrow> (x, v) \<in> set kvs \<Longrightarrow> \<exists>h'. get x h = (Ok (Some v), h') \<and> inv h'"
    and next_key_follows: "inv h \<Longrightarrow> \<exists>h'. next_key prev h = (Ok (next_in (map fst kvs) prev), h') \<and> inv h'"
begin

lemma next_item:
  assumes "inv h" and "kvs = pre @ (x, v) # post"
    and "prev = (if pre = [] then None else Some (fst (List.last pre)))"
  shows "\<exists>h'. map_iter_next get next_key prev h = (Ok (Some (x, v), Some x), h') \<and> inv h'"
proof -
  have "next_in (map fst kvs) prev = Some x"
  proof (cases pre rule: rev_cases)
    case (snoc ys y)
    then have "fst y \<notin> set (map fst ys)" using kvs_distinct assms(2) by auto
    then have "next_in (map fst ys @ fst y # map fst ((x, v) # post)) (Some (fst y)) = Some x"
      by (subst next_in_after) auto
    then show ?thesis using assms(2,3) snoc by simp
  qed (use assms in simp)
  then obtain h1 where n: "next_key prev h = (Ok (Some x), h1)" and "inv h1"
    using next_key_follows [OF assms(1), of prev] by auto
  obtain h2 where "get x h1 = (Ok (Some v), h2)" "inv h2"
    using get_finds [OF \<open>inv h1\<close>, of x v] assms(2) by auto
  with n show ?thesis by (simp add: map_iter_next_def bind_def pure_def)
qed

lemma no_next_item:
  assumes "inv h" and "prev = (if kvs = [] then None else Some (fst (List.last kvs)))"
  shows "\<exists>h'. map_iter_next get next_key prev h = (Ok (None, None), h') \<and> inv h'"
proof -
  have "next_in (map fst kvs) prev = None"
  proof (cases kvs rule: rev_cases)
    case (snoc ys y)
    then have "fst y \<notin> set (map fst ys)" using kvs_distinct by auto
    then have "next_in (map fst ys @ [fst y]) (Some (fst y)) = None" by (subst next_in_after) auto
    then show ?thesis using assms(2) snoc by simp
  qed (use assms in simp)
  then show ?thesis
    using next_key_follows [OF assms(1), of prev] by (auto simp: map_iter_next_def bind_def pure_def)
qed

lemma iterate_rest:
  assumes "inv h" and "kvs = pre @ post" and "length post < fuel"
    and "prev = (if pre = [] then None else Some (fst (List.last pre)))"
  shows "\<exists>h'. map_iter_all get next_key fuel prev h = (Ok (Some post), h') \<and> inv h'"
  using assms
proof (induction post arbitrary: h pre fuel prev)
  case Nil
  then obtain f where fuel: "fuel = Suc f" by (cases fuel) auto
  show ?case using no_next_item [of h prev] Nil by (auto simp: fuel bind_def pure_def)
next
  case (Cons kv post)
  then obtain f where fuel: "fuel = Suc f" and f: "length post < f" by (cases fuel) auto
  obtain x v where kv: "kv = (x, v)" by (cases kv)
  obtain h1 where n: "map_iter_next get next_key prev h = (Ok (Some (x, v), Some x), h1)" and "inv h1"
    using next_item [of h pre x v post prev] Cons.prems kv by auto
  obtain h2 where "map_iter_all get next_key f (Some x) h1 = (Ok (Some post), h2)" "inv h2"
    using Cons.IH [of h1 "pre @ [(x, v)]" f "Some x"] \<open>inv h1\<close> Cons.prems(2) f kv by auto
  with n show ?case by (simp add: fuel bind_def kv pure_def)
qed

lemma iterate_all:
  "inv h \<Longrightarrow> length kvs < fuel \<Longrightarrow>
   \<exists>h'. map_iter_all get next_key fuel None h = (Ok (Some kvs), h') \<and> inv h'"
  using iterate_rest [of h "[]" kvs fuel None] by simp

end

text \<open>Two of the map types implement the trait on a map that is not written meanwhile.\<close>

locale typed_map_at = typed_reads k fd entries kr vr
  for k fd entries and kr :: "'k repr" and vr :: "'v repr" +
  fixes h0 :: history

sublocale typed_map_at \<subseteq> iter: map_iterable "bpf_map_get k kr vr fd" "bpf_map_get_next_key k kr fd"
  "\<lambda>h. entries h = entries h0" "typed h0"
proof
  show "distinct (map fst (typed h0))" by (rule typed_distinct)
next
  fix h x v assume h: "entries h = entries h0" and xv: "(x, v) \<in> set (typed h0)"
  have "lookup h x = Some v" using lookup_typed [of x v h0] xv h by (simp add: lookup_def typed_def)
  then show "\<exists>h'. bpf_map_get k kr vr fd x h = (Ok (Some v), h') \<and> entries h' = entries h0"
    using h by (simp add: get_returns reads_keep)
next
  fix h prev assume h: "entries h = entries h0"
  then show "\<exists>h'. bpf_map_get_next_key k kr fd prev h = (Ok (next_in (map fst (typed h0)) prev), h') \<and>
      entries h' = entries h0"
    by (simp add: next_key_returns reads_keep) (simp add: typed_def)
qed

context typed_map_at
begin

lemma iterate_typed:
  assumes "length (entries h0) < fuel"
  shows "\<exists>h1. map_iter_all (bpf_map_get k kr vr fd) (bpf_map_get_next_key k kr fd) fuel None h0 =
    (Ok (Some (typed h0)), h1) \<and> entries h1 = entries h0"
  using iter.iterate_all [of h0 fuel] assms by (simp add: typed_def)

end

section \<open>A kernel that meets the contract\<close>

text \<open>One map behind \<open>fd\<close>, whose contents are computed from the calls made so far, and two CPUs.\<close>

fun ref_step :: "RawFd \<Rightarrow> nat \<Rightarrow> nat \<Rightarrow> (bytes \<times> bytes) list \<Rightarrow> syscall \<times> answer \<Rightarrow> (bytes \<times> bytes) list" where
  "ref_step fd ksize vsize es (Bpf_map_update f key val fl, a) =
     (if f = fd \<and> length key = ksize \<and> length val = vsize \<and> \<not> ret a < 0 then AList.update key val es else es)"
| "ref_step fd ksize vsize es (Bpf_map_delete f key, a) =
     (if f = fd \<and> \<not> ret a < 0 then AList.delete key es else es)"
| "ref_step fd ksize vsize es _ = es"

definition ref_entries :: "RawFd \<Rightarrow> nat \<Rightarrow> nat \<Rightarrow> history \<Rightarrow> (bytes \<times> bytes) list" where
  "ref_entries fd ksize vsize h = foldl (ref_step fd ksize vsize) [] h"

text \<open>What the commands answer when the map holds \<open>es\<close>.\<close>

definition map_answer :: "nat \<Rightarrow> nat \<Rightarrow> (bytes \<times> bytes) list \<Rightarrow> syscall \<Rightarrow> answer" where
  "map_answer ksize vsize es c =
     (let found = (\<lambda>x. case x of Some v \<Rightarrow> \<lparr>ret = 0, errno = 0, out = v\<rparr> | None \<Rightarrow> \<lparr>ret = -1, errno = ENOENT, out = []\<rparr>)
      in case c of
           Bpf_map_lookup f key \<Rightarrow> found (map_of es key)
         | Bpf_map_next_key f prev \<Rightarrow> found (next_in (map fst es) prev)
         | Bpf_map_update f key val fl \<Rightarrow>
             found (if length key = ksize \<and> length val = vsize then Some [] else None)
         | Bpf_map_delete f key \<Rightarrow> found (map_option (\<lambda>_. []) (map_of es key))
         | Read_file f \<Rightarrow> \<lparr>ret = 0, errno = 0, out = as_bytes (show_ranges [(0, 1)] @ [CHR 0x0A])\<rparr>
         | _ \<Rightarrow> found None)"

definition ref_kernel :: "RawFd \<Rightarrow> nat \<Rightarrow> nat \<Rightarrow> kernel" where
  "ref_kernel fd ksize vsize h = map_answer ksize vsize (ref_entries fd ksize vsize h)"

lemma ref_entries_snoc: "ref_entries fd ksize vsize (h @ [x]) = ref_step fd ksize vsize (ref_entries fd ksize vsize h) x"
  by (simp add: ref_entries_def)

lemma ref_step_sound:
  assumes "distinct (map fst es)" and "\<forall>(key, val) \<in> set es. length key = ksize \<and> length val = vsize"
  shows "distinct (map fst (ref_step fd ksize vsize es x)) \<and>
    (\<forall>(key, val) \<in> set (ref_step fd ksize vsize es x). length key = ksize \<and> length val = vsize)"
proof -
  have upd: "set (AList.update key val es) \<subseteq> insert (key, val) (set es)" for key val
    by (induction es) auto
  have del: "set (AList.delete key es) \<subseteq> set es" for key by (auto simp: AList.delete_eq)
  show ?thesis
    using assms upd del
    by (cases "(fd, ksize, vsize, es, x)" rule: ref_step.cases)
      (auto simp: AList.distinct_update AList.distinct_delete dest!: subsetD [OF upd] subsetD [OF del])
qed

lemma ref_entries_sound:
  "distinct (map fst (ref_entries fd ksize vsize h)) \<and>
   (\<forall>(key, val) \<in> set (ref_entries fd ksize vsize h). length key = ksize \<and> length val = vsize)"
proof (induction h rule: rev_induct)
  case Nil
  then show ?case by (simp add: ref_entries_def)
next
  case (snoc x h)
  then show ?case unfolding ref_entries_snoc by (intro ref_step_sound) auto
qed

interpretation ref: bpf_map_cmds "ref_kernel fd ksize vsize" fd "ref_entries fd ksize vsize" ksize vsize
  for fd ksize vsize
proof
  fix h c assume "reads_only c"
  then show "ref_entries fd ksize vsize (h @ [(c, ref_kernel fd ksize vsize h c)]) = ref_entries fd ksize vsize h"
    by (cases c) (simp_all add: ref_entries_snoc)
qed (use ref_entries_sound [of fd ksize vsize] in
      \<open>fastforce simp: ref_kernel_def map_answer_def ref_entries_snoc AList.update_conv' AList.delete_conv' split: option.splits\<close>)+

text \<open>
  A map of type \<open>BPF_MAP_TYPE_LRU_HASH\<close> with room for \<open>cap\<close> entries: an update of a new
  key of a full map takes the place of an old entry. It can be read like the others.
\<close>

fun lru_room :: "nat \<Rightarrow> RawFd \<Rightarrow> (bytes \<times> bytes) list \<Rightarrow> syscall \<times> answer \<Rightarrow> (bytes \<times> bytes) list" where
  "lru_room cap fd es (Bpf_map_update f key val fl, a) =
     (if f = fd \<and> \<not> ret a < 0 \<and> key \<notin> fst ` set es \<and> cap \<le> length es then tl es else es)"
| "lru_room cap fd es _ = es"

definition lru_step :: "nat \<Rightarrow> RawFd \<Rightarrow> nat \<Rightarrow> nat \<Rightarrow> (bytes \<times> bytes) list \<Rightarrow> syscall \<times> answer \<Rightarrow> (bytes \<times> bytes) list" where
  "lru_step cap fd ksize vsize es x = ref_step fd ksize vsize (lru_room cap fd es x) x"

definition lru_entries :: "nat \<Rightarrow> RawFd \<Rightarrow> nat \<Rightarrow> nat \<Rightarrow> history \<Rightarrow> (bytes \<times> bytes) list" where
  "lru_entries cap fd ksize vsize h = foldl (lru_step cap fd ksize vsize) [] h"

definition lru_kernel :: "nat \<Rightarrow> RawFd \<Rightarrow> nat \<Rightarrow> nat \<Rightarrow> kernel" where
  "lru_kernel cap fd ksize vsize h = map_answer ksize vsize (lru_entries cap fd ksize vsize h)"

lemma lru_entries_snoc:
  "lru_entries cap fd ksize vsize (h @ [x]) = lru_step cap fd ksize vsize (lru_entries cap fd ksize vsize h) x"
  by (simp add: lru_entries_def)

lemma lru_step_sound:
  assumes "distinct (map fst es)" and "\<forall>(key, val) \<in> set es. length key = ksize \<and> length val = vsize"
  shows "distinct (map fst (lru_step cap fd ksize vsize es x)) \<and>
    (\<forall>(key, val) \<in> set (lru_step cap fd ksize vsize es x). length key = ksize \<and> length val = vsize)"
proof -
  have "lru_room cap fd es x = es \<or> lru_room cap fd es x = tl es"
    by (cases "(cap, fd, es, x)" rule: lru_room.cases) auto
  moreover have "distinct (map fst (tl es))" "\<forall>(key, val) \<in> set (tl es). length key = ksize \<and> length val = vsize"
    using assms by (cases es; simp)+
  ultimately have "distinct (map fst (lru_room cap fd es x))"
    "\<forall>(key, val) \<in> set (lru_room cap fd es x). length key = ksize \<and> length val = vsize"
    using assms by auto
  then show ?thesis unfolding lru_step_def by (rule ref_step_sound)
qed

lemma lru_entries_sound:
  "distinct (map fst (lru_entries cap fd ksize vsize h)) \<and>
   (\<forall>(key, val) \<in> set (lru_entries cap fd ksize vsize h). length key = ksize \<and> length val = vsize)"
proof (induction h rule: rev_induct)
  case Nil
  then show ?case by (simp add: lru_entries_def)
next
  case (snoc x h)
  then show ?case unfolding lru_entries_snoc by (intro lru_step_sound) auto
qed

interpretation lru: bpf_map_reads "lru_kernel cap fd ksize vsize" fd "lru_entries cap fd ksize vsize" ksize vsize
  for cap fd ksize vsize
proof
  fix h c assume "reads_only c"
  then show "lru_entries cap fd ksize vsize (h @ [(c, lru_kernel cap fd ksize vsize h c)]) = lru_entries cap fd ksize vsize h"
    by (cases c) (simp_all add: lru_entries_snoc lru_step_def)
qed (use lru_entries_sound [of cap fd ksize vsize] in
      \<open>fastforce simp: lru_kernel_def map_answer_def split: option.splits\<close>)+

section \<open>Map operations under the contract\<close>

definition sized_repr :: "'a repr \<Rightarrow> bool" where
  "sized_repr r \<longleftrightarrow> byte_codec (enc_of r) (dec_of r) (size_of r)"

lemma sized_u32 [simp]: "sized_repr u32_repr"
  unfolding sized_repr_def u32_repr_def by (simp add: u32c.byte_codec_axioms)

lemma sized_u64 [simp]: "sized_repr u64_repr"
  unfolding sized_repr_def u64_repr_def by (simp add: u64c.byte_codec_axioms)

text \<open>The reference kernel, seen through two concrete types, is a typed map and can be iterated over.\<close>

interpretation ref_writes: typed_map "ref_kernel fd 4 8" fd "ref_entries fd 4 8" u32_repr u64_repr
  for fd
proof -
  have "typed_map (ref_kernel fd 4 8) fd (ref_entries fd 4 8) u32_repr u64_repr"
    using ref.bpf_map_reads_axioms [of fd 4 8] ref.bpf_map_cmds_axioms [of fd 4 8] sized_u32 sized_u64
    by (simp add: typed_map_def typed_reads_def sized_repr_def) (simp add: u32_repr_def u64_repr_def)
  then show "typed_map (ref_kernel fd 4 8) fd (ref_entries fd 4 8) u32_repr u64_repr" .
qed

interpretation ref_typed: typed_map_at "ref_kernel fd 4 8" fd "ref_entries fd 4 8" u32_repr u64_repr h0
  for fd h0
proof -
  have "typed_reads (ref_kernel fd 4 8) fd (ref_entries fd 4 8) u32_repr u64_repr"
    using ref.bpf_map_reads_axioms [of fd 4 8] sized_u32 sized_u64
    by (simp add: typed_reads_def sized_repr_def) (simp add: u32_repr_def u64_repr_def)
  then show "typed_map_at (ref_kernel fd 4 8) fd (ref_entries fd 4 8) u32_repr u64_repr"
    by (rule typed_map_at.intro)
qed

lemma hash_map_typed:
  assumes "hash_map_new kr vr b = Ok base" and "sized_repr kr" and "sized_repr vr"
    and "bpf_map_cmds k (map_fd base) entries (unat (md_key_size (config base))) (unat (md_value_size (config base)))"
  shows "typed_map k (map_fd base) entries kr vr"
  using assms bpf_map_cmds.axioms(1) [OF assms(4)]
  by (auto simp: hash_map_new_def sized_repr_def typed_map_def typed_reads_def split: if_splits)

lemma hash_maps_typed_reads:
  assumes "hash_map_new kr vr b = Ok base \<or> lru_hash_map_new kr vr b = Ok base" and "sized_repr kr" and "sized_repr vr"
    and "bpf_map_reads k (map_fd base) entries (unat (md_key_size (config base))) (unat (md_value_size (config base)))"
  shows "typed_reads k (map_fd base) entries kr vr"
  using assms by (auto simp: hash_map_new_def lru_hash_map_new_def sized_repr_def typed_reads_def split: if_splits)

lemma ignore_set: "ignore m h = (Ok (), h1)" if "m h = (if b then Err e else Ok x, h1)"
  using that by (simp add: ignore_def catch_def)

text \<open>
  C32: a value set in a \<open>HashMap\<close> whose sizes \<open>new\<close> accepted is what \<open>get\<close> returns
  for its key from then on, every other key keeps its value, and when the kernel
  refuses the update \<open>set\<close> still returns but nothing has changed.
\<close>

theorem hash_map_set_then_get:
  assumes "hash_map_new kr vr b = Ok base" and "sized_repr kr" and "sized_repr vr"
    and "bpf_map_cmds k (map_fd base) entries (unat (md_key_size (config base))) (unat (md_value_size (config base)))"
  shows "\<exists>h1. hash_map_set k kr vr base key val h = (Ok (), h1) \<and>
    (\<forall>x. fst (hash_map_get k kr vr base x h1) =
      (if x = key \<and> 0 \<le> ret (k h (Bpf_map_update (map_fd base) (enc_of kr key) (enc_of vr val) 0))
       then Ok (Some val) else fst (hash_map_get k kr vr base x h)))"
proof -
  note t = hash_map_typed [OF assms]
  obtain h1 a where s: "bpf_map_set k kr vr (map_fd base) key val h = (if ret a < 0 then Err MapError else Ok (), h1)"
    and a: "a = k h (Bpf_map_update (map_fd base) (enc_of kr key) (enc_of vr val) 0)"
    and l: "\<And>x. typed_reads.lookup entries kr vr h1 x =
      (if \<not> ret a < 0 \<and> x = key then Some val else typed_reads.lookup entries kr vr h x)"
    by (rule typed_map.set_effect [OF t, of key val h]) blast
  have "hash_map_set k kr vr base key val h = (Ok (), h1)"
    unfolding hash_map_set_def using s by (rule ignore_set)
  then show ?thesis
    by (simp add: hash_map_get_def typed_reads.get_returns [OF typed_map.axioms(1) [OF t]] l a not_less)
qed

text \<open>
  C31: a \<open>for\<close> loop over a \<open>HashMap\<close> or a \<open>LruHashMap\<close> that nobody writes meanwhile ends,
  and yields every entry exactly once, in the order of the kernel. Only what the kernel
  promises of reading a map is used, so the eviction of a full LRU map does no harm.
\<close>

theorem map_iteration_complete:
  assumes "hash_map_new kr vr b = Ok base \<or> lru_hash_map_new kr vr b = Ok base"
    and "sized_repr kr" and "sized_repr vr"
    and "bpf_map_reads k (map_fd base) entries (unat (md_key_size (config base))) (unat (md_value_size (config base)))"
    and "length (entries h) < fuel"
  shows "\<exists>h1.
    map_iter_all (hash_map_get k kr vr base) (hash_map_next_key k kr base) fuel None h =
      (Ok (Some (map (\<lambda>(a, b). (dec_of kr a, dec_of vr b)) (entries h))), h1) \<and>
    map_iter_all (lru_hash_map_get k kr vr base) (lru_hash_map_next_key k kr base) fuel None h =
      (Ok (Some (map (\<lambda>(a, b). (dec_of kr a, dec_of vr b)) (entries h))), h1) \<and>
    distinct (map (\<lambda>(a, b). dec_of kr a) (entries h)) \<and> entries h1 = entries h"
proof -
  note t = hash_maps_typed_reads [OF assms(1-4)]
  obtain h1 where "map_iter_all (bpf_map_get k kr vr (map_fd base)) (bpf_map_get_next_key k kr (map_fd base)) fuel None h =
      (Ok (Some (typed_reads.typed entries kr vr h)), h1)" "entries h1 = entries h"
    using typed_map_at.iterate_typed [OF typed_map_at.intro [OF t] assms(5)] by blast
  moreover have "hash_map_get k kr vr base = bpf_map_get k kr vr (map_fd base)"
    "hash_map_next_key k kr base = bpf_map_get_next_key k kr (map_fd base)"
    "lru_hash_map_get k kr vr base = bpf_map_get k kr vr (map_fd base)"
    "lru_hash_map_next_key k kr base = bpf_map_get_next_key k kr (map_fd base)"
    by (simp_all add: fun_eq_iff hash_map_get_def hash_map_next_key_def lru_hash_map_get_def lru_hash_map_next_key_def)
  ultimately show ?thesis
    using typed_reads.typed_distinct [OF t, of h]
    by (auto simp: typed_reads.typed_def [OF t] comp_def case_prod_unfold)
qed

text \<open>
  \<open>PerCpuHashMap::set\<close> of as many values as there are possible CPUs succeeds when
  the kernel takes the update, and \<open>get\<close> then returns the same values: the layout,
  one value every multiple of eight bytes, is read as it was written.
\<close>

theorem percpu_set_then_get:
  assumes "percpu_hash_map_new kr vr b = Ok base" and "sized_repr kr" and "sized_repr vr"
    and "0 < size_of vr"
    and cpus: "\<And>h. possible_num k h = (Ok ncpus, h @ [(Read_file f, k h (Read_file f))])"
    and "length vals = ncpus" and "round_up (size_of vr) 8 = Ok vs"
    and "bpf_map_cmds k (map_fd base) entries (unat (md_key_size (config base))) (unat vs * ncpus)"
    and "\<And>h bs. length bs = unat vs * ncpus \<Longrightarrow> 0 \<le> ret (k h (Bpf_map_update (map_fd base) (enc_of kr key) bs 0))"
  shows "\<exists>h1. percpu_hash_map_set k kr vr base key vals h = (Ok (), h1) \<and>
    fst (percpu_hash_map_get k kr vr base key h1) = Ok (Some vals)"
proof -
  have kc: "byte_codec (enc_of kr) (dec_of kr) (size_of kr)" and vc: "byte_codec (enc_of vr) (dec_of vr) (size_of vr)"
    using assms(2,3) by (simp_all add: sized_repr_def)
  have sizes: "size_of kr = unat (md_key_size (config base))" "size_of vr = unat (md_value_size (config base))"
    using assms(1) by (auto simp: percpu_hash_map_new_def split: if_splits)
  have small: "size_of vr < 2 ^ 63" using unat_u32_less [of "md_value_size (config base)"] sizes by simp
  have vs: "unat vs = 8 * ((size_of vr + 7) div 8)" using round_up_8 [OF assms(4) small] assms(7) by auto
  then have le: "size_of vr \<le> unat vs" by simp
  let ?buf = "write_values vr (unat vs) 0 vals (replicate (unat vs * ncpus) 0)"
  have w: "length ?buf = unat vs * ncpus" "read_values vr (unat vs) 0 ncpus ?buf = Ok vals"
    using write_values_facts [OF vc le, of 0 vals "replicate (unat vs * ncpus) 0"] assms(6) by simp_all
  let ?ha = "h @ [(Read_file f, k h (Read_file f))]" and ?c = "Bpf_map_update (map_fd base) (enc_of kr key) ?buf 0"
  define h1 where "h1 = ?ha @ [(?c, k ?ha ?c)]"
  have ok: "0 \<le> ret (k ?ha ?c)" by (rule assms(9) [OF w(1)])
  have "percpu_hash_map_set k kr vr base key vals h = (Ok (), h1)"
    using assms(6,7) ok by (simp add: percpu_hash_map_set_def bpf_percpu_map_set_def bind_def cpus Let_def h1_def)
  moreover have "map_of (entries h1) (enc_of kr key) = Some ?buf"
    using bpf_map_cmds.update_effect [OF assms(8), of "enc_of kr key" ?buf ?ha] w ok
      byte_codec.enc_length [OF kc, of key] sizes unfolding h1_def by simp
  then have "map_of (entries (h1 @ [(Read_file f, k h1 (Read_file f))])) (enc_of kr key) = Some ?buf"
    using bpf_map_reads.reads_keep [OF bpf_map_cmds.axioms(1) [OF assms(8)]] by simp
  from bpf_map_reads.lookup_found [OF bpf_map_cmds.axioms(1) [OF assms(8)] this]
  have "fst (percpu_hash_map_get k kr vr base key h1) = Ok (Some vals)"
    using w assms(7) by (simp add: percpu_hash_map_get_def bpf_percpu_map_get_def bind_def cpus)
  ultimately show ?thesis by blast
qed

definition sample_map :: "u32 \<Rightarrow> Map" where
  "sample_map kind = \<lparr>map_name = ''m'', map_kind = kind, map_fd = 3,
     config = \<lparr>md_type = kind, md_key_size = 4, md_value_size = 4, md_max_entries = 8, md_map_flags = 0\<rparr>,
     section_data = False, pin_file = None\<rparr>"

theorem hash_map_set_then_get_witness:
  "\<exists>h1. hash_map_set (ref_kernel 3 4 4) u32_repr u32_repr (sample_map 1) 7 9 [] = (Ok (), h1) \<and>
     fst (hash_map_get (ref_kernel 3 4 4) u32_repr u32_repr (sample_map 1) 7 h1) = Ok (Some 9)"
proof -
  have "hash_map_new u32_repr u32_repr (sample_map 1) = Ok (sample_map 1)"
    by (simp add: hash_map_new_def sample_map_def u32_repr_def)
  moreover have "bpf_map_cmds (ref_kernel 3 4 4) (map_fd (sample_map 1)) (ref_entries 3 4 4)
      (unat (md_key_size (config (sample_map 1)))) (unat (md_value_size (config (sample_map 1))))"
    using ref.bpf_map_cmds_axioms [of 3 4 4] by (simp add: sample_map_def)
  moreover have "0 \<le> ret (ref_kernel 3 4 4 [] (Bpf_map_update (map_fd (sample_map 1)) (enc_of u32_repr 7) (enc_of u32_repr 9) 0))"
    by (simp add: ref_kernel_def map_answer_def u32_repr_def)
  ultimately show ?thesis
    using hash_map_set_then_get [of u32_repr u32_repr "sample_map 1" "sample_map 1" "ref_kernel 3 4 4" "ref_entries 3 4 4" 7 9 "[]"]
    by auto
qed

lemma dec_u32: "dec_of u32_repr (u32_to_le x) = x" "size_of u32_repr = 4"
  "length (enc_of u32_repr x) = 4"
  by (simp_all add: u32_repr_def)

text \<open>A hash map with one entry, and an LRU map of capacity one in which the second entry took the place of the first.\<close>

theorem map_iteration_complete_witness:
  "(\<exists>h1. map_iter_all (hash_map_get (ref_kernel 3 4 4) u32_repr u32_repr (sample_map 1))
      (hash_map_next_key (ref_kernel 3 4 4) u32_repr (sample_map 1)) 3 None
      [(Bpf_map_update 3 (u32_to_le 7) (u32_to_le 9) 0, \<lparr>ret = 0, errno = 0, out = []\<rparr>)] = (Ok (Some [(7, 9)]), h1)) \<and>
   (\<exists>h1. map_iter_all (lru_hash_map_get (lru_kernel 1 3 4 4) u32_repr u32_repr (sample_map 9))
      (lru_hash_map_next_key (lru_kernel 1 3 4 4) u32_repr (sample_map 9)) 3 None
      [(Bpf_map_update 3 (u32_to_le 7) (u32_to_le 9) 0, \<lparr>ret = 0, errno = 0, out = []\<rparr>),
       (Bpf_map_update 3 (u32_to_le 8) (u32_to_le 5) 0, \<lparr>ret = 0, errno = 0, out = []\<rparr>)] = (Ok (Some [(8, 5)]), h1))"
proof
  let ?u = "\<lambda>x y. (Bpf_map_update 3 (u32_to_le x) (u32_to_le y) 0, \<lparr>ret = 0, errno = 0, out = []\<rparr>)"
  let ?h = "[?u 7 9]"
  have "hash_map_new u32_repr u32_repr (sample_map 1) = Ok (sample_map 1)"
    by (simp add: hash_map_new_def sample_map_def u32_repr_def)
  moreover have "bpf_map_reads (ref_kernel 3 4 4) (map_fd (sample_map 1)) (ref_entries 3 4 4)
      (unat (md_key_size (config (sample_map 1)))) (unat (md_value_size (config (sample_map 1))))"
    using ref.bpf_map_reads_axioms [of 3 4 4] by (simp add: sample_map_def)
  moreover have "ref_entries 3 4 4 ?h = [(u32_to_le 7, u32_to_le 9)]"
    by (simp add: ref_entries_def)
  ultimately show "\<exists>h1. map_iter_all (hash_map_get (ref_kernel 3 4 4) u32_repr u32_repr (sample_map 1))
      (hash_map_next_key (ref_kernel 3 4 4) u32_repr (sample_map 1)) 3 None ?h = (Ok (Some [(7, 9)]), h1)"
    using map_iteration_complete [of u32_repr u32_repr "sample_map 1" "sample_map 1" "ref_kernel 3 4 4" "ref_entries 3 4 4" ?h 3]
    by (auto simp: dec_u32)
  let ?h = "[?u 7 9, ?u 8 5]"
  have "lru_hash_map_new u32_repr u32_repr (sample_map 9) = Ok (sample_map 9)"
    by (simp add: lru_hash_map_new_def sample_map_def u32_repr_def)
  moreover have "bpf_map_reads (lru_kernel 1 3 4 4) (map_fd (sample_map 9)) (lru_entries 1 3 4 4)
      (unat (md_key_size (config (sample_map 9)))) (unat (md_value_size (config (sample_map 9))))"
    using lru.bpf_map_reads_axioms [of 1 3 4 4] by (simp add: sample_map_def)
  moreover have "u32_to_le 8 \<noteq> u32_to_le 7" using dec_u32(1) [of 7] dec_u32(1) [of 8] by (auto dest: arg_cong [where f = "dec_of u32_repr"])
  then have "lru_entries 1 3 4 4 ?h = [(u32_to_le 8, u32_to_le 5)]"
    by (simp add: lru_entries_def lru_step_def)
  ultimately show "\<exists>h1. map_iter_all (lru_hash_map_get (lru_kernel 1 3 4 4) u32_repr u32_repr (sample_map 9))
      (lru_hash_map_next_key (lru_kernel 1 3 4 4) u32_repr (sample_map 9)) 3 None ?h = (Ok (Some [(8, 5)]), h1)"
    using map_iteration_complete [of u32_repr u32_repr "sample_map 9" "sample_map 9" "lru_kernel 1 3 4 4" "lru_entries 1 3 4 4" ?h 3]
    by (auto simp: dec_u32)
qed

theorem percpu_set_then_get_witness:
  "\<exists>h1. percpu_hash_map_set (ref_kernel 3 4 16) u32_repr u32_repr (sample_map 5) 7 [1, 2] [] = (Ok (), h1) \<and>
     fst (percpu_hash_map_get (ref_kernel 3 4 16) u32_repr u32_repr (sample_map 5) 7 h1) = Ok (Some [1, 2])"
proof (rule percpu_set_then_get [where b = "sample_map 5" and ncpus = 2 and vs = 8 and
      f = "''/sys/devices/system/cpu/possible''" and entries = "ref_entries 3 4 16"])
  show "percpu_hash_map_new u32_repr u32_repr (sample_map 5) = Ok (sample_map 5)"
    by (simp add: percpu_hash_map_new_def sample_map_def u32_repr_def)
  show "bpf_map_cmds (ref_kernel 3 4 16) (map_fd (sample_map 5)) (ref_entries 3 4 16)
      (unat (md_key_size (config (sample_map 5)))) (unat (8 :: u64) * 2)"
    using ref.bpf_map_cmds_axioms [of 3 4 16] by (simp add: sample_map_def)
  show "round_up (size_of u32_repr) 8 = Ok 8"
    by (simp add: round_up_def u32_repr_def usub_def uadd_def)
  show "possible_num (ref_kernel 3 4 16) h = (Ok 2, h @ [(Read_file ''/sys/devices/system/cpu/possible'',
      ref_kernel 3 4 16 h (Read_file ''/sys/devices/system/cpu/possible''))])" for h
    using read_back [of "[(0, 1)]"]
    by (simp add: possible_num_def get_possible_num_def get_possible_def ref_kernel_def map_answer_def range_cpus_def)
qed (simp_all add: dec_u32 ref_kernel_def map_answer_def)

end
