(* ===== verification/Perf_Ring.thy ===== *)
theory Perf_Ring
  imports Kernel
begin

text \<open>
  The ring buffer of perf events: \<open>PerfMap::read\<close> of \<open>redbpf/src/perf.rs\<close> and
  \<open>PerfMessageStream::read_messages\<close> and \<open>poll_next\<close> of
  \<open>redbpf/src/load/map_io.rs\<close>. The memory shared with the kernel is the ring's bytes
  with the two positions of the control page; one call of \<open>read\<close> sees one state of
  it. The specification is a queue of records whose encodings lie in the ring from
  the tail on, wrapping around its end: \<open>read\<close> takes the first record of the queue,
  and \<open>read_messages\<close> returns the payloads of the samples up to the first record
  that is neither a sample nor a notice of lost samples.
\<close>

section \<open>The operations\<close>

text \<open>Part of \<open>struct perf_event_mmap_page\<close>, and the data pages behind it.\<close>

record perf_mmap =
  data_head :: u64
  data_tail :: u64
  ring :: bytes

record PerfMap =
  base_ptr :: int
  base :: perf_mmap
  page_cnt :: nat
  page_size :: nat
  mmap_size :: nat
  pm_buf :: bytes
  pm_fd :: RawFd

datatype Event =
    Ev_Sample u32 bytes
  | Ev_Lost u64 u64

abbreviation (input) PERF_RECORD_LOST :: u32 where "PERF_RECORD_LOST \<equiv> 2"
abbreviation (input) PERF_RECORD_SAMPLE :: u32 where "PERF_RECORD_SAMPLE \<equiv> 9"

text \<open>\<open>slice::from_raw_parts(base.add(a), n)\<close> inside the mapped ring.\<close>

definition raw_slice :: "bytes \<Rightarrow> nat \<Rightarrow> nat \<Rightarrow> bytes result" where
  "raw_slice bs a n = (if a + n \<le> length bs then Ok (take n (drop a bs)) else Undefined)"

text \<open>
  The record is copied in two pieces when its end comes before its start in the ring.
\<close>

definition copy_event :: "bytes \<Rightarrow> nat \<Rightarrow> nat \<Rightarrow> nat \<Rightarrow> nat \<Rightarrow> bytes result" where
  "copy_event mem raw_size start fin size1 =
     (if fin < start then
        let len = raw_size - start
        in and_then (raw_slice mem start len) (\<lambda>a.
           if size1 < len then Panic
           else and_then (raw_slice mem 0 (size1 - len)) (\<lambda>b. Ok (a @ b)))
      else raw_slice mem start size1)"

text \<open>
  The buffer is used as a \<open>Sample\<close> (header, \<open>u32\<close> size, data) or as
  \<open>LostSamples\<close> (header, two \<open>u64\<close>); a shorter buffer would be read past its end.
\<close>

definition event_of :: "u32 \<Rightarrow> bytes \<Rightarrow> Event option result" where
  "event_of ty buf =
     (if ty = PERF_RECORD_SAMPLE then
        and_then (read_raw word_of_le 4 buf 8) (\<lambda>sz. Ok (Some (Ev_Sample sz (drop 12 buf))))
      else if ty = PERF_RECORD_LOST then
        and_then (read_raw word_of_le 8 buf 8) (\<lambda>i.
        and_then (read_raw word_of_le 8 buf 16) (\<lambda>n. Ok (Some (Ev_Lost i n))))
      else Ok None)"

definition perf_read :: "PerfMap \<Rightarrow> (Event option \<times> PerfMap) result" where
  "perf_read pm =
     (let hdr = base pm; raw_size = page_cnt pm * page_size pm
      in if 2 ^ 64 \<le> raw_size then Panic
         else if data_tail hdr = data_head hdr then Ok (None, pm)
         else if raw_size = 0 then Panic
         else
           let start = unat (data_tail hdr) mod raw_size
           in and_then (read_raw word_of_le 2 (ring hdr) (start + 6)) (\<lambda>size16 :: u16.
              and_then (uadd (data_tail hdr) (ucast size16)) (\<lambda>tail'.
              and_then (copy_event (ring hdr) raw_size start (unat tail' mod raw_size) (unat size16)) (\<lambda>buf.
              let pm' = pm\<lparr>pm_buf := buf, base := hdr\<lparr>data_tail := tail'\<rparr>\<rparr>
              in and_then (read_raw word_of_le 4 (ring hdr) start) (\<lambda>ty.
                 and_then (event_of ty buf) (\<lambda>ev. Ok (ev, pm')))))))"

text \<open>
  The loop of \<open>read_messages\<close>, with the number of iterations bounded by \<open>fuel\<close>;
  \<open>None\<close> means that the bound was too small.
\<close>

fun read_messages :: "nat \<Rightarrow> PerfMap \<Rightarrow> (bytes list \<times> PerfMap) result option" where
  "read_messages 0 pm = None"
| "read_messages (Suc fuel) pm =
     (case perf_read pm of
        Ok (None, pm') \<Rightarrow> Some (Ok ([], pm'))
      | Ok (Some (Ev_Lost _ _), pm') \<Rightarrow> read_messages fuel pm'
      | Ok (Some (Ev_Sample sz dat), pm') \<Rightarrow>
          (case raw_slice dat 0 (unat sz) of
             Ok msg \<Rightarrow>
               map_option (\<lambda>r. and_then r (\<lambda>(msgs, pm''). Ok (msg # msgs, pm''))) (read_messages fuel pm')
           | Err e \<Rightarrow> Some (Err e)
           | Panic \<Rightarrow> Some Panic
           | Undefined \<Rightarrow> Some Undefined)
      | Err e \<Rightarrow> Some (Err e)
      | Panic \<Rightarrow> Some Panic
      | Undefined \<Rightarrow> Some Undefined)"

text \<open>\<open>poll_next\<close>; the readiness of the descriptor comes from \<open>tokio\<close>.\<close>

datatype readiness = Pending | ReadyErr | ReadyOk
datatype 'a poll = Poll_Pending | Poll_Ready 'a

definition poll_next :: "readiness \<Rightarrow> nat \<Rightarrow> PerfMap \<Rightarrow> (bytes list option poll \<times> PerfMap) result option" where
  "poll_next rdy fuel pm =
     (case rdy of
        Pending \<Rightarrow> Some (Ok (Poll_Pending, pm))
      | ReadyErr \<Rightarrow> Some (Ok (Poll_Ready None, pm))
      | ReadyOk \<Rightarrow>
          map_option (\<lambda>r. and_then r (\<lambda>(msgs, pm'). Ok (Poll_Ready (Some msgs), pm')))
            (read_messages fuel pm))"

section \<open>The specification: a queue of records\<close>

datatype perf_record =
    Rec_Sample bytes bytes
  | Rec_Lost u64 u64
  | Rec_Other u32 bytes

text \<open>
  The body of a record as the kernel writes it: a sample is its size, its data and
  the padding to eight bytes; a notice of lost samples is an identifier and a count.
\<close>

fun rec_type :: "perf_record \<Rightarrow> u32" where
  "rec_type (Rec_Sample _ _) = PERF_RECORD_SAMPLE"
| "rec_type (Rec_Lost _ _) = PERF_RECORD_LOST"
| "rec_type (Rec_Other ty _) = ty"

fun rec_body :: "perf_record \<Rightarrow> bytes" where
  "rec_body (Rec_Sample dat pad) = u32_to_le (of_nat (length dat)) @ dat @ pad"
| "rec_body (Rec_Lost i n) = u64_to_le i @ u64_to_le n"
| "rec_body (Rec_Other _ body) = body"

definition rec_size :: "perf_record \<Rightarrow> nat" where
  "rec_size r = 8 + length (rec_body r)"

text \<open>\<open>struct perf_event_header\<close> (type, misc, size) and the body.\<close>

definition enc_record :: "u16 \<Rightarrow> perf_record \<Rightarrow> bytes" where
  "enc_record misc r = u32_to_le (rec_type r) @ u16_to_le misc @ u16_to_le (of_nat (rec_size r)) @ rec_body r"

fun rec_ok :: "perf_record \<Rightarrow> bool" where
  "rec_ok (Rec_Other ty body) \<longleftrightarrow>
     ty \<noteq> PERF_RECORD_SAMPLE \<and> ty \<noteq> PERF_RECORD_LOST \<and> rec_size (Rec_Other ty body) < 2 ^ 16 \<and>
     8 dvd rec_size (Rec_Other ty body)"
| "rec_ok r \<longleftrightarrow> rec_size r < 2 ^ 16 \<and> 8 dvd rec_size r"

text \<open>The \<open>n\<close> bytes of the ring from position \<open>pos\<close> on, around its end.\<close>

definition ring_bytes :: "bytes \<Rightarrow> nat \<Rightarrow> nat \<Rightarrow> bytes" where
  "ring_bytes mem pos n = map (\<lambda>i. mem ! ((pos + i) mod length mem)) [0..<n]"

text \<open>
  \<open>holds pm recs\<close>: the ring holds the records \<open>recs\<close>. It is larger than any
  record (\<open>bind\<close> is called with 16 pages, a record has less than 65536 bytes),
  the headers carry any \<open>misc\<close>, positions and sizes are multiples of eight, the head does not run more than one
  turn ahead of the tail, and the positions have not reached 2 ^ 64.
\<close>

definition holds :: "PerfMap \<Rightarrow> perf_record list \<Rightarrow> bool" where
  "holds pm recs \<longleftrightarrow>
     (let hdr = base pm; raw_size = page_cnt pm * page_size pm;
          total = sum_list (map rec_size recs)
      in length (ring hdr) = raw_size \<and> 2 ^ 16 \<le> raw_size \<and> raw_size < 2 ^ 64 \<and> 8 dvd raw_size \<and>
         8 dvd unat (data_tail hdr) \<and> unat (data_tail hdr) + total = unat (data_head hdr) \<and>
         total \<le> raw_size \<and> list_all rec_ok recs \<and>
         (\<exists>miscs. length miscs = length recs \<and>
            ring_bytes (ring hdr) (unat (data_tail hdr)) total = concat (map2 enc_record miscs recs)))"

fun event_of_record :: "perf_record \<Rightarrow> Event option" where
  "event_of_record (Rec_Sample dat pad) = Some (Ev_Sample (of_nat (length dat)) (dat @ pad))"
| "event_of_record (Rec_Lost i n) = Some (Ev_Lost i n)"
| "event_of_record (Rec_Other _ _) = None"

text \<open>What \<open>read_messages\<close> is meant to return, and what it leaves in the queue.\<close>

fun samples :: "perf_record list \<Rightarrow> bytes list" where
  "samples [] = []"
| "samples (Rec_Sample dat _ # rs) = dat # samples rs"
| "samples (Rec_Lost _ _ # rs) = samples rs"
| "samples (Rec_Other _ _ # rs) = []"

fun unread :: "perf_record list \<Rightarrow> perf_record list" where
  "unread [] = []"
| "unread (Rec_Other _ _ # rs) = rs"
| "unread (_ # rs) = unread rs"

section \<open>Bytes around the end of the ring\<close>

lemma length_ring_bytes [simp]: "length (ring_bytes mem pos n) = n"
  by (simp add: ring_bytes_def)

lemma ring_bytes_add: "ring_bytes mem pos (a + b) = ring_bytes mem pos a @ ring_bytes mem (pos + a) b"
proof (rule nth_equalityI)
  fix i assume "i < length (ring_bytes mem pos (a + b))"
  then have "i < a \<or> a \<le> i \<and> i - a < b" by auto
  then show "ring_bytes mem pos (a + b) ! i = (ring_bytes mem pos a @ ring_bytes mem (pos + a) b) ! i"
    by (auto simp: ring_bytes_def nth_append add.assoc)
qed simp

lemma ring_bytes_straight:
  assumes "pos mod length mem + n \<le> length mem"
  shows "ring_bytes mem pos n = take n (drop (pos mod length mem) mem)"
proof (rule nth_equalityI)
  fix i assume i: "i < length (ring_bytes mem pos n)"
  have "(pos + i) mod length mem = (pos mod length mem + i) mod length mem" by (simp add: mod_add_left_eq)
  also have "\<dots> = pos mod length mem + i" using assms i by simp
  finally show "ring_bytes mem pos n ! i = take n (drop (pos mod length mem) mem) ! i"
    using assms i by (simp add: ring_bytes_def)
qed (use assms in simp)

lemma ring_bytes_wrapped:
  assumes "pos mod length mem + n > length mem" and "n \<le> length mem" and "mem \<noteq> []"
  shows "ring_bytes mem pos n =
    drop (pos mod length mem) mem @ take (n - (length mem - pos mod length mem)) mem"
proof -
  let ?s = "pos mod length mem" and ?len = "length mem - pos mod length mem"
  have s: "?s < length mem" using assms(3) by simp
  have n: "n = ?len + (n - ?len)" using assms s by simp
  have "ring_bytes mem pos ?len = drop ?s mem"
    using ring_bytes_straight [of pos mem ?len] s by simp
  moreover have "(pos + ?len) mod length mem = 0"
    using s by (metis add_diff_inverse_nat mod_add_left_eq mod_self not_less_iff_gr_or_eq order.asym)
  then have "ring_bytes mem (pos + ?len) (n - ?len) = take (n - ?len) mem"
    using ring_bytes_straight [of "pos + ?len" mem "n - ?len"] assms(2) by simp
  ultimately show ?thesis using ring_bytes_add [of mem pos ?len "n - ?len"] n by simp
qed

lemma copy_event_ring:
  assumes "0 < n" and "n < length mem"
  shows "copy_event mem (length mem) (pos mod length mem) ((pos + n) mod length mem) n = Ok (ring_bytes mem pos n)"
proof -
  let ?R = "length mem" and ?s = "pos mod length mem"
  have ne: "mem \<noteq> []" using assms by auto
  then have s: "?s < ?R" by simp
  have f: "(pos + n) mod ?R = (?s + n) mod ?R" by (simp add: mod_add_left_eq)
  consider "?s + n < ?R" | "?R \<le> ?s + n" by linarith
  then show ?thesis
  proof cases
    case 1
    then have "(pos + n) mod ?R = ?s + n" using f by simp
    then show ?thesis
      using 1 by (simp add: copy_event_def raw_slice_def ring_bytes_straight)
  next
    case 2
    then have fin: "(pos + n) mod ?R = ?s + n - ?R" using f s assms by (simp add: le_mod_geq)
    then have lt: "(pos + n) mod ?R < ?s" using assms 2 by simp
    have "ring_bytes mem pos n = drop ?s mem @ take (n - (?R - ?s)) mem"
    proof (cases "?s + n = ?R")
      case True
      then show ?thesis using ring_bytes_straight [of pos mem n] by simp
    next
      case False
      then show ?thesis using ring_bytes_wrapped [of mem pos n] 2 assms ne by simp
    qed
    moreover have "\<not> n < ?R - ?s" "n - (?R - ?s) \<le> ?R" using 2 assms by linarith+
    ultimately show ?thesis
      using lt s by (simp only: copy_event_def raw_slice_def Let_def) simp
  qed
qed

section \<open>Reading one record\<close>

lemma length_enc_record [simp]: "length (enc_record misc r) = rec_size r"
  by (simp add: enc_record_def rec_size_def)

lemma rec_size_ge: "8 \<le> rec_size r"
  by (simp add: rec_size_def)

lemma rec_ok_size: "rec_ok r \<Longrightarrow> rec_size r < 2 ^ 16 \<and> 8 dvd rec_size r"
  by (cases r) auto

lemma enc_record_header:
  assumes "rec_ok r" and "take 8 bs = take 8 (enc_record misc r)" and "8 \<le> length bs"
  shows "(read_raw word_of_le 2 bs 6 :: u16 result) = Ok (of_nat (rec_size r))"
    and "(read_raw word_of_le 4 bs 0 :: u32 result) = Ok (rec_type r)"
proof -
  have "take 2 (drop 6 (take 8 bs)) = u16_to_le (of_nat (rec_size r))"
    unfolding assms(2) by (simp add: enc_record_def)
  then have "take 2 (drop 6 bs) = u16_to_le (of_nat (rec_size r))" by (simp add: drop_take)
  then show "(read_raw word_of_le 2 bs 6 :: u16 result) = Ok (of_nat (rec_size r))"
    using assms(3) by (simp add: read_raw_def word_of_le_to_le)
  have "take 4 (take 8 bs) = u32_to_le (rec_type r)"
    unfolding assms(2) by (simp add: enc_record_def)
  then have "take 4 bs = u32_to_le (rec_type r)" by simp
  then show "(read_raw word_of_le 4 bs 0 :: u32 result) = Ok (rec_type r)"
    using assms(3) by (simp add: read_raw_def word_of_le_to_le)
qed

lemma event_of_enc_record: "rec_ok r \<Longrightarrow> event_of (rec_type r) (enc_record misc r) = Ok (event_of_record r)"
proof (cases r)
  case (Rec_Sample dat pad)
  let ?pre = "u32_to_le (9 :: u32) @ u16_to_le misc @ u16_to_le (of_nat (rec_size r))"
  have "read_raw word_of_le 4 (?pre @ u32_to_le (of_nat (length dat)) @ dat @ pad) (length ?pre)
      = (Ok (of_nat (length dat)) :: u32 result)"
    by (rule u32c.read_written)
  then show ?thesis by (simp add: event_of_def enc_record_def Rec_Sample)
next
  case (Rec_Lost i n)
  let ?pre = "u32_to_le (2 :: u32) @ u16_to_le misc @ u16_to_le (of_nat (rec_size r))"
  have "read_raw word_of_le 8 (?pre @ u64_to_le i @ u64_to_le n) (length ?pre) = (Ok i :: u64 result)"
    by (rule u64c.read_written)
  moreover have "read_raw word_of_le 8 ((?pre @ u64_to_le i) @ u64_to_le n @ []) (length (?pre @ u64_to_le i)) = (Ok n :: u64 result)"
    by (rule u64c.read_written)
  ultimately show ?thesis by (simp add: event_of_def enc_record_def Rec_Lost)
qed (auto simp: event_of_def)

lemma read_raw_drop: "a \<le> length bs \<Longrightarrow> read_raw dec sz (drop a bs) off = read_raw dec sz bs (a + off)"
  by (auto simp: read_raw_def add.commute)

lemma aligned_room: "8 dvd (s :: nat) \<Longrightarrow> 8 dvd R \<Longrightarrow> s < R \<Longrightarrow> s + 8 \<le> R"
  by (auto simp: dvd_def)

text \<open>What \<open>read\<close> does to a queue that is not empty, as one equation.\<close>

definition after_read :: "PerfMap \<Rightarrow> u16 \<Rightarrow> perf_record \<Rightarrow> PerfMap" where
  "after_read pm misc r =
     pm\<lparr>pm_buf := enc_record misc r, base := (base pm)\<lparr>data_tail := data_tail (base pm) + of_nat (rec_size r)\<rparr>\<rparr>"

lemma perf_read_Cons:
  assumes "holds pm (r # rs)"
  shows "\<exists>misc. perf_read pm = Ok (event_of_record r, after_read pm misc r) \<and> holds (after_read pm misc r) rs"
proof -
  obtain misc miscs where enc: "length miscs = length rs"
    "ring_bytes (ring (base pm)) (unat (data_tail (base pm))) (rec_size r + sum_list (map rec_size rs))
      = enc_record misc r @ concat (map2 enc_record miscs rs)"
    using assms by (auto simp: holds_def Let_def length_Suc_conv)
  let ?h = "base pm" and ?R = "page_cnt pm * page_size pm" and ?n = "rec_size r"
  let ?tail = "unat (data_tail ?h)" and ?rest = "sum_list (map rec_size rs)"
  have hs: "length (ring ?h) = ?R" "2 ^ 16 \<le> ?R" "?R < 2 ^ 64" "8 dvd ?R" "8 dvd ?tail"
    "?tail + (?n + ?rest) = unat (data_head ?h)" "?n + ?rest \<le> ?R" "rec_ok r" "list_all rec_ok rs"
    using assms by (simp_all add: holds_def Let_def)
  note n = rec_ok_size [OF hs(8)] and n8 = rec_size_ge [of r]
  have R: "0 < ?R" and nR: "?n < ?R" using hs(2) n by linarith+
  have split: "ring_bytes (ring ?h) ?tail ?n = enc_record misc r"
    "ring_bytes (ring ?h) (?tail + ?n) ?rest = concat (map2 enc_record miscs rs)"
    using enc(2) unfolding ring_bytes_add by (auto dest: append_eq_append_conv [THEN iffD1, rotated])
  have tl: "data_tail ?h \<noteq> data_head ?h" using hs(6) n8 by auto
  have s8: "?tail mod ?R + 8 \<le> ?R"
    using hs(4,5) R by (intro aligned_room) (auto intro: dvd_mod)
  have head: "take 8 (drop (?tail mod ?R) (ring ?h)) = take 8 (enc_record misc r)"
    using ring_bytes_straight [of ?tail "ring ?h" 8] ring_bytes_add [of "ring ?h" ?tail 8 "?n - 8"] s8 hs(1) n8 split(1)
    by (metis append_eq_conv_conj le_add_diff_inverse length_ring_bytes)
  have len: "8 \<le> length (drop (?tail mod ?R) (ring ?h))" and le: "?tail mod ?R \<le> length (ring ?h)"
    using s8 hs(1) by auto
  have sz: "(read_raw word_of_le 2 (ring ?h) (?tail mod ?R + 6) :: u16 result) = Ok (of_nat ?n)"
    and ty: "(read_raw word_of_le 4 (ring ?h) (?tail mod ?R) :: u32 result) = Ok (rec_type r)"
    using enc_record_header [OF hs(8) head len] read_raw_drop [OF le] by (metis add.right_neutral)+
  have u: "unat (of_nat ?n :: u16) = ?n" "(ucast (of_nat ?n :: u16) :: u64) = of_nat ?n"
    using n by (simp_all add: unat_of_nat unsigned_of_nat take_bit_nat_eq_self)
  have lt: "?tail + ?n < 2 ^ 64" using hs(6) unat_u64_less [of "data_head ?h"] by simp
  have t: "unat (data_tail ?h + of_nat ?n) = ?tail + ?n"
    using lt n unat_add_no_overflow [of "data_tail ?h" "of_nat ?n"] by (simp add: unat_of_nat)
  have add: "(uadd (data_tail ?h) (of_nat ?n) :: u64 result) = Ok (data_tail ?h + of_nat ?n)"
    using lt n by (simp add: uadd_def unat_of_nat)
  have cp: "copy_event (ring ?h) ?R (?tail mod ?R) ((?tail + ?n) mod ?R) ?n = Ok (enc_record misc r)"
    using copy_event_ring [of ?n "ring ?h" ?tail] n8 nR hs(1) split(1) by simp
  have "perf_read pm = Ok (event_of_record r, after_read pm misc r)"
    using hs(3) R tl
    by (simp add: perf_read_def Let_def sz u add t cp ty event_of_enc_record [OF hs(8)] after_read_def)
  moreover have "holds (after_read pm misc r) rs"
    using hs split(2) n enc(1) by (auto simp: holds_def after_read_def Let_def t dvd_add)
  ultimately show ?thesis by blast
qed

lemma perf_read_Nil:
  assumes "holds pm []"
  shows "perf_read pm = Ok (None, pm)"
  using assms by (auto simp: holds_def perf_read_def Let_def unat_inject)

section \<open>Reading all messages\<close>

lemma sample_slice:
  "rec_ok (Rec_Sample dat pad) \<Longrightarrow>
   raw_slice (dat @ pad) 0 (unat (of_nat (length dat) :: u32)) = Ok dat"
  by (simp add: raw_slice_def rec_size_def unat_of_nat)

lemma read_messages_queue:
  assumes "holds pm recs" and "length recs < fuel"
  shows "\<exists>pm'. read_messages fuel pm = Some (Ok (samples recs, pm')) \<and> holds pm' (unread recs)"
  using assms
proof (induction fuel arbitrary: pm recs)
  case 0
  then show ?case by simp
next
  case (Suc fuel)
  show ?case
  proof (cases recs)
    case Nil
    then show ?thesis using Suc.prems perf_read_Nil by auto
  next
    case (Cons r rs)
    obtain misc where rd: "perf_read pm = Ok (event_of_record r, after_read pm misc r)" "holds (after_read pm misc r) rs"
      using perf_read_Cons [OF Suc.prems(1) [unfolded Cons]] by blast
    obtain pm' where IH: "read_messages fuel (after_read pm misc r) = Some (Ok (samples rs, pm'))" "holds pm' (unread rs)"
      using Suc.IH [OF rd(2)] Suc.prems(2) Cons by auto
    have ok: "rec_ok r" using Suc.prems(1) Cons by (simp add: holds_def Let_def)
    show ?thesis
    proof (cases r)
      case (Rec_Sample dat pad)
      then show ?thesis using rd(1) IH Cons sample_slice [OF ok [unfolded Rec_Sample]] by simp
    next
      case (Rec_Lost i n)
      then show ?thesis using rd(1) IH Cons by simp
    next
      case (Rec_Other ty body)
      then show ?thesis using rd Cons by simp
    qed
  qed
qed

text \<open>
  C6: one call of \<open>PerfMap::read\<close> refines taking a record from a queue, also when
  the record lies around the end of the ring: on an empty queue it returns nothing and
  changes nothing; otherwise it returns the first record (nothing for a record of
  another type) and the ring holds the rest of the queue.
\<close>

theorem perf_read_dequeues:
  assumes "holds pm recs"
  shows "case recs of
      [] \<Rightarrow> perf_read pm = Ok (None, pm)
    | r # rs \<Rightarrow> \<exists>pm'. perf_read pm = Ok (event_of_record r, pm') \<and> holds pm' rs"
  using assms perf_read_Nil perf_read_Cons by (cases recs) (auto, blast)

text \<open>The records that \<open>read\<close> returns as events, and the payloads of the samples among some records.\<close>

definition is_message :: "perf_record \<Rightarrow> bool" where
  "is_message r \<longleftrightarrow> event_of_record r \<noteq> None"

definition payloads :: "perf_record list \<Rightarrow> bytes list" where
  "payloads recs = concat (map (\<lambda>r. case r of Rec_Sample dat _ \<Rightarrow> [dat] | _ \<Rightarrow> []) recs)"

lemma samples_payloads: "samples recs = payloads (takeWhile is_message recs)"
  by (induction recs rule: samples.induct) (simp_all add: payloads_def is_message_def)

lemma unread_drop: "unread recs = drop (Suc (length (takeWhile is_message recs))) recs"
  by (induction recs rule: unread.induct) (simp_all add: is_message_def)


text \<open>A sample of four bytes that starts eight bytes before the end of a ring of 16 pages.\<close>

definition sample_record :: perf_record where
  "sample_record = Rec_Sample [1, 2, 3, 4] []"

definition sample_ring :: PerfMap where
  "sample_ring =
     \<lparr>base_ptr = 4096, base = \<lparr>data_head = 65544, data_tail = 65528,
               ring = drop 8 (enc_record 2 sample_record) @ replicate 65520 0 @ take 8 (enc_record 2 sample_record)\<rparr>,
      page_cnt = 16, page_size = 4096, mmap_size = 69632, pm_buf = [], pm_fd = 3\<rparr>"

lemma sample_ring_holds: "holds sample_ring [sample_record]"
proof -
  let ?mem = "ring (base sample_ring)"
  have n: "rec_size sample_record = 16" by (simp add: sample_record_def rec_size_def)
  have mem: "?mem = drop 8 (enc_record 2 sample_record) @ replicate 65520 0 @ take 8 (enc_record 2 sample_record)"
    by (simp add: sample_ring_def)
  have len: "length ?mem = 65536" by (simp add: mem n)
  have ne: "?mem \<noteq> []" by (simp add: mem sample_record_def enc_record_def)
  have "ring_bytes ?mem 65528 16 = drop 65528 ?mem @ take 8 ?mem"
    using ring_bytes_wrapped [of ?mem 65528 16, OF _ _ ne] len by simp
  also have "\<dots> = enc_record 2 sample_record" by (simp add: mem n)
  finally have "ring_bytes ?mem 65528 16 = enc_record 2 sample_record" .
  moreover have "rec_ok sample_record" using n by (simp add: sample_record_def)
  moreover have "8 dvd (65528 :: nat)" "8 dvd (65536 :: nat)" by presburger+
  ultimately show ?thesis
    using len n by (simp add: holds_def Let_def) (auto simp: sample_ring_def intro!: exI [of _ "[2]"])
qed

theorem perf_read_dequeues_witness:
  "\<exists>pm'. perf_read sample_ring = Ok (Some (Ev_Sample 4 [1, 2, 3, 4]), pm') \<and> holds pm' []"
  using perf_read_dequeues [OF sample_ring_holds] by (simp add: sample_record_def)


text \<open>
  A record of another type (a notice of throttling, say) ends the loop even though
  samples follow it: they are not returned by this call.
\<close>

theorem read_messages_stops_early:
  assumes "holds pm (Rec_Other ty body # Rec_Sample dat pad # rs)" and "0 < fuel"
  shows "\<exists>pm'. read_messages fuel pm = Some (Ok ([], pm')) \<and> holds pm' (Rec_Sample dat pad # rs) \<and>
    data_tail (base pm') \<noteq> data_head (base pm')"
proof -
  let ?r = "Rec_Other ty body"
  obtain misc where rd: "perf_read pm = Ok (event_of_record ?r, after_read pm misc ?r)"
    "holds (after_read pm misc ?r) (Rec_Sample dat pad # rs)"
    using perf_read_Cons [OF assms(1)] by blast
  obtain f where "fuel = Suc f" using assms(2) by (cases fuel) auto
  then have "read_messages fuel pm = Some (Ok ([], after_read pm misc ?r))" using rd(1) by simp
  moreover have "data_tail (base (after_read pm misc ?r)) \<noteq> data_head (base (after_read pm misc ?r))"
    using rd(2) rec_size_ge [of "Rec_Sample dat pad"] by (auto simp: holds_def Let_def)
  ultimately show ?thesis using rd(2) by blast
qed

definition sample_ring2 :: PerfMap where
  "sample_ring2 =
     \<lparr>base_ptr = 4096, base = \<lparr>data_head = 24, data_tail = 0,
               ring = enc_record 2 (Rec_Other 5 []) @ enc_record 2 sample_record @ replicate 65512 0\<rparr>,
      page_cnt = 16, page_size = 4096, mmap_size = 69632, pm_buf = [], pm_fd = 3\<rparr>"

theorem read_messages_stops_early_witness:
  "\<exists>pm'. read_messages 9 sample_ring2 = Some (Ok ([], pm')) \<and> holds pm' [sample_record]"
proof -
  let ?mem = "ring (base sample_ring2)"
  have n: "rec_size sample_record = 16" "rec_size (Rec_Other 5 []) = 8"
    by (simp_all add: sample_record_def rec_size_def)
  have mem: "?mem = enc_record 2 (Rec_Other 5 []) @ enc_record 2 sample_record @ replicate 65512 0"
    by (simp add: sample_ring2_def)
  have len: "length ?mem = 65536" by (simp add: mem n)
  have "ring_bytes ?mem 0 24 = take 24 ?mem"
    using ring_bytes_straight [of 0 ?mem 24] len by simp
  also have "\<dots> = enc_record 2 (Rec_Other 5 []) @ enc_record 2 sample_record" by (simp add: mem n)
  finally have "ring_bytes ?mem 0 24 = enc_record 2 (Rec_Other 5 []) @ enc_record 2 sample_record" .
  moreover have "rec_ok sample_record" "rec_ok (Rec_Other 5 [])" using n by (simp_all add: sample_record_def)
  moreover have "8 dvd (65536 :: nat)" by presburger
  ultimately have "holds sample_ring2 [Rec_Other 5 [], sample_record]"
    using len n by (simp add: holds_def Let_def) (auto simp: sample_ring2_def intro!: exI [of _ "[2, 2]"])
  then show ?thesis
    using read_messages_stops_early [of sample_ring2 5 "[]" "[1, 2, 3, 4]" "[]" "[]" 9]
    by (auto simp: sample_record_def)
qed

end
