(* ===== verification/Perf_Events.thy ===== *)
theory Perf_Events
  imports Fd_Logic Map_Access Perf_Ring
begin

text \<open>
  Opening, attaching and detaching perf events, and binding a perf map:
  \<open>redbpf/src/perf.rs\<close>, \<open>open_perf_buffer\<close> to \<open>open_tracepoint_perf_event\<close>,
  \<open>PerfMap::bind\<close> and \<open>Drop for PerfMap\<close>. The lemmas give each function its
  descriptor triple. \<open>bind\<close> has two: one for its normal course, and one for what is
  left open when it fails half-way.
\<close>

section \<open>Attributes\<close>

abbreviation (input) PERF_FLAG_FD_CLOEXEC :: u32 where "PERF_FLAG_FD_CLOEXEC \<equiv> 8"
abbreviation (input) PERF_EVENT_IOC_ENABLE :: u64 where "PERF_EVENT_IOC_ENABLE \<equiv> 9216"
abbreviation (input) PERF_EVENT_IOC_DISABLE :: u64 where "PERF_EVENT_IOC_DISABLE \<equiv> 9217"
abbreviation (input) PERF_EVENT_IOC_SET_BPF :: u64 where "PERF_EVENT_IOC_SET_BPF \<equiv> 0x40042408"

text \<open>\<open>mem::zeroed::<perf_event_attr>()\<close>, 112 bytes long\<close>

definition zeroed_attr :: perf_event_attr where
  "zeroed_attr = \<lparr>pe_type = 0, pe_size = 0, pe_config = 0, pe_sample_type = 0, pe_sample_period = 0,
                  pe_wakeup_events = 0, pe_config1 = [], pe_config2 = 0\<rparr>"

definition open_perf_buffer :: "kernel \<Rightarrow> int \<Rightarrow> int \<Rightarrow> RawFd \<Rightarrow> u32 \<Rightarrow> RawFd action" where
  "open_perf_buffer k pid cpu grp fl =
     (let attr = zeroed_attr\<lparr>pe_config := 10, pe_size := 112, pe_type := 1, pe_sample_type := 1024,
                             pe_sample_period := 1, pe_wakeup_events := 1\<rparr>
      in bind (call k (Perf_event_open attr pid cpu grp (fl OR PERF_FLAG_FD_CLOEXEC))) (\<lambda>a.
         if ret a < 0 then pure (Err (last_os_error a)) else pure (Ok (ret a))))"

definition attach_perf_event :: "kernel \<Rightarrow> RawFd \<Rightarrow> RawFd \<Rightarrow> unit action" where
  "attach_perf_event k prog_fd pfd =
     bind (call k (Ioctl pfd PERF_EVENT_IOC_SET_BPF prog_fd)) (\<lambda>a.
       if ret a < 0 then pure (Err (last_os_error a))
       else bind (call k (Ioctl pfd PERF_EVENT_IOC_ENABLE 0)) (\<lambda>b.
         if ret b < 0 then pure (Err (last_os_error b)) else pure (Ok ())))"

definition detach_perf_event :: "kernel \<Rightarrow> RawFd \<Rightarrow> unit action" where
  "detach_perf_event k pfd =
     bind (call k (Ioctl pfd PERF_EVENT_IOC_DISABLE 0)) (\<lambda>a.
       if ret a \<noteq> 0 then pure (Err (last_os_error a)) else pure (Ok ()))"

section \<open>Probe events\<close>

text \<open>
  \<open>fs::read_to_string(...).expect(...)\<close>: a file that cannot be read or is not UTF-8
  panics.
\<close>

definition read_to_string_expect :: "kernel \<Rightarrow> string \<Rightarrow> string action" where
  "read_to_string_expect k f =
     bind (call k (Read_file f)) (\<lambda>a. pure (if ret a < 0 then Panic else unwrap (to_str (out a))))"

text \<open>\<open>s.split(p)\<close> for a string pattern: the pieces between its occurrences.\<close>

fun split_str_from :: "string \<Rightarrow> string \<Rightarrow> string \<Rightarrow> string list" where
  "split_str_from p acc [] = [rev acc]"
| "split_str_from p acc (x # xs) =
     (if starts_with (x # xs) p then rev acc # split_str_from p [] (drop (length p - 1) xs)
      else split_str_from p (x # acc) xs)"

definition split_str :: "string \<Rightarrow> string \<Rightarrow> string list" where
  "split_str p s = split_str_from p [] s"

text \<open>\<open>1 << bit\<close> in 64 bits for a signed amount\<close>

definition shl_one :: "int \<Rightarrow> u64 result" where
  "shl_one b = (if 0 \<le> b \<and> b < 64 then Ok (push_bit (nat b) 1) else Panic)"

definition retprobe_bit :: "string \<Rightarrow> u64 result" where
  "retprobe_bit s =
     and_then (index (split_str ''config:'' (trim s)) 1) (\<lambda>v.
     and_then (unwrap (parse_i32 v)) shl_one)"

definition perf_event_open_kprobe :: "kernel \<Rightarrow> string \<Rightarrow> u64 \<Rightarrow> bool \<Rightarrow> RawFd action" where
  "perf_event_open_kprobe k name offset retprobe =
     bind (read_to_string_expect k ''/sys/bus/event_source/devices/kprobe/type'') (\<lambda>s.
     bind (pure (unwrap (parse_unsigned (2 ^ 32) (trim s)))) (\<lambda>type1.
     bind (if retprobe
           then bind (read_to_string_expect k ''/sys/bus/event_source/devices/kprobe/format/retprobe'')
                  (\<lambda>s. pure (retprobe_bit s))
           else pure (Ok 0)) (\<lambda>cfg.
     bind (pure (cstring_try name)) (\<lambda>cname.
     let attr = zeroed_attr\<lparr>pe_config := cfg, pe_size := 112, pe_type := of_nat type1,
                            pe_config1 := cname, pe_config2 := offset\<rparr>
     in bind (call k (Perf_event_open attr (-1) 0 (-1) PERF_FLAG_FD_CLOEXEC)) (\<lambda>a.
        if ret a < 0 then pure (Err (last_os_error a)) else pure (Ok (ret a)))))))"

definition open_kprobe_perf_event :: "kernel \<Rightarrow> string \<Rightarrow> u64 \<Rightarrow> RawFd action" where
  "open_kprobe_perf_event k name offset = perf_event_open_kprobe k name offset False"

definition open_kretprobe_perf_event :: "kernel \<Rightarrow> string \<Rightarrow> u64 \<Rightarrow> RawFd action" where
  "open_kretprobe_perf_event k name offset = perf_event_open_kprobe k name offset True"

definition perf_event_open_uprobe :: "kernel \<Rightarrow> string \<Rightarrow> u64 \<Rightarrow> int option \<Rightarrow> bool \<Rightarrow> RawFd action" where
  "perf_event_open_uprobe k name offset pid retprobe =
     bind (read_to_string_expect k ''/sys/bus/event_source/devices/uprobe/type'') (\<lambda>s.
     bind (pure (unwrap (parse_unsigned (2 ^ 32) (trim s)))) (\<lambda>type1.
     bind (if retprobe
           then bind (read_to_string_expect k ''/sys/bus/event_source/devices/uprobe/format/retprobe'')
                  (\<lambda>s. pure (retprobe_bit s))
           else pure (Ok 0)) (\<lambda>cfg.
     bind (pure (cstring_try name)) (\<lambda>cname.
     let attr = zeroed_attr\<lparr>pe_config := cfg, pe_size := 112, pe_type := of_nat type1,
                            pe_config1 := cname, pe_config2 := offset\<rparr>
     in bind (call k (Perf_event_open attr (case pid of Some p \<Rightarrow> p | None \<Rightarrow> -1) 0 (-1) PERF_FLAG_FD_CLOEXEC)) (\<lambda>a.
        if ret a < 0 then pure (Err (last_os_error a)) else pure (Ok (ret a)))))))"

definition open_uprobe_perf_event :: "kernel \<Rightarrow> string \<Rightarrow> u64 \<Rightarrow> int option \<Rightarrow> RawFd action" where
  "open_uprobe_perf_event k name offset pid = perf_event_open_uprobe k name offset pid False"

definition open_uretprobe_perf_event :: "kernel \<Rightarrow> string \<Rightarrow> u64 \<Rightarrow> int option \<Rightarrow> RawFd action" where
  "open_uretprobe_perf_event k name offset pid = perf_event_open_uprobe k name offset pid True"

definition open_tracepoint_perf_event :: "kernel \<Rightarrow> string \<Rightarrow> string \<Rightarrow> RawFd action" where
  "open_tracepoint_perf_event k category name =
     bind (read_to_string_expect k
             (''/sys/kernel/debug/tracing/events/'' @ category @ ''/'' @ name @ ''/id'')) (\<lambda>s.
     bind (pure (unwrap (parse_i32 s))) (\<lambda>tp_id.
       if tp_id < 0 then pure (Err BPF)
       else
         let attr = zeroed_attr\<lparr>pe_type := 2, pe_size := 112, pe_config := of_int tp_id\<rparr>
         in bind (call k (Perf_event_open attr (-1) 0 (-1) PERF_FLAG_FD_CLOEXEC)) (\<lambda>a.
            if ret a < 0 then pure (Err (last_os_error a)) else pure (Ok (ret a)))))"

section \<open>Perf maps\<close>

text \<open>
  The control page of the mapped memory holds \<open>data_head\<close> and \<open>data_tail\<close> at offsets
  1024 and 1032; the ring starts on the next page.
\<close>

definition mapped :: "nat \<Rightarrow> bytes \<Rightarrow> perf_mmap" where
  "mapped psize bs = \<lparr>data_head = le64_at bs 1024, data_tail = le64_at bs 1032, ring = drop psize bs\<rparr>"

definition perf_bind :: "kernel \<Rightarrow> Map \<Rightarrow> int \<Rightarrow> int \<Rightarrow> nat \<Rightarrow> RawFd \<Rightarrow> u32 \<Rightarrow> PerfMap action" where
  "perf_bind k m pid cpu pcnt grp fl =
     bind (open_perf_buffer k pid cpu grp fl) (\<lambda>fd.
     bind (call k Sysconf_pagesize) (\<lambda>s.
     let psize = unat (of_int (ret s) :: u64); msize = psize * (pcnt + 1)
     in if 2 ^ 64 \<le> pcnt + 1 \<or> 2 ^ 64 \<le> msize then pure Panic
        else bind (call k (Mmap msize fd)) (\<lambda>b.
          if ret b = -1 then pure (Err (last_os_error b))
          else bind (call k (Ioctl fd PERF_EVENT_IOC_ENABLE 0)) (\<lambda>e.
            if ret e \<noteq> 0 then pure (Err (last_os_error e))
            else bind (pure (case hash_map_new i32_repr i32_repr m of Ok tm \<Rightarrow> Ok tm | _ \<Rightarrow> Panic)) (\<lambda>tm.
                 bind (hash_map_set k i32_repr i32_repr tm cpu fd) (\<lambda>_.
                 pure (Ok \<lparr>base_ptr = ret b, base = mapped psize (out b), page_cnt = pcnt, page_size = psize,
                           mmap_size = msize, pm_buf = [], pm_fd = fd\<rparr>)))))))"

definition drop_perf_map :: "kernel \<Rightarrow> PerfMap \<Rightarrow> unit action" where
  "drop_perf_map k pm =
     bind (call k (Munmap (base_ptr pm) (mmap_size pm))) (\<lambda>_.
     bind (call k (Ioctl (pm_fd pm) PERF_EVENT_IOC_DISABLE 0)) (\<lambda>_.
     bind (call k (Close (pm_fd pm))) (\<lambda>_. pure (Ok ()))))"

section \<open>Descriptors\<close>

lemma open_perf_buffer_fds: "fds B (open_perf_buffer k pid cpu grp fl) (\<lambda>fd. add_mset fd B) B"
  unfolding open_perf_buffer_def Let_def
  by (rule fds_bind_open) (auto intro: fds_intros)

lemma attach_perf_event_quiet: "quiet (attach_perf_event k fd pfd)"
  unfolding attach_perf_event_def by (auto intro!: quiet_bind quiet_call)

lemma detach_perf_event_quiet: "quiet (detach_perf_event k pfd)"
  unfolding detach_perf_event_def by (auto intro!: quiet_bind quiet_call)

lemma read_to_string_expect_quiet: "quiet (read_to_string_expect k f)"
  unfolding read_to_string_expect_def by (auto intro!: quiet_bind quiet_call)

lemma perf_event_open_kprobe_fds: "fds B (perf_event_open_kprobe k name off r) (\<lambda>fd. add_mset fd B) B"
  unfolding perf_event_open_kprobe_def Let_def
  by (auto intro!: fds_bind_quiet quiet_bind read_to_string_expect_quiet fds_bind_open fds_intros)

lemma perf_event_open_uprobe_fds: "fds B (perf_event_open_uprobe k name off pid r) (\<lambda>fd. add_mset fd B) B"
  unfolding perf_event_open_uprobe_def Let_def
  by (auto intro!: fds_bind_quiet quiet_bind read_to_string_expect_quiet fds_bind_open fds_intros)

lemma open_tracepoint_perf_event_fds: "fds B (open_tracepoint_perf_event k c n) (\<lambda>fd. add_mset fd B) B"
  unfolding open_tracepoint_perf_event_def Let_def
  by (auto intro!: fds_bind_quiet read_to_string_expect_quiet fds_bind_open fds_intros)

lemmas open_event_fds = perf_event_open_kprobe_fds perf_event_open_uprobe_fds
  open_tracepoint_perf_event_fds

lemma drop_perf_map_fds: "fds (add_mset (pm_fd pm) B) (drop_perf_map k pm) (\<lambda>_. B) B"
  unfolding drop_perf_map_def by (auto intro!: fds_bind_call fds_bind_close fds_intros)

section \<open>Binding\<close>

text \<open>
  The calls of a \<open>bind\<close> that succeeds, in their order: a software event with BPF output
  is opened for the process, the CPU and the group; it is mapped and enabled; and the
  kernel is asked to store its descriptor in the map under the CPU. The answers to all
  but the last of them are checked.
\<close>

definition bound_by :: "Map \<Rightarrow> int \<Rightarrow> int \<Rightarrow> RawFd \<Rightarrow> PerfMap \<Rightarrow> history \<Rightarrow> bool" where
  "bound_by m pid cpu grp pm new \<longleftrightarrow> (\<exists>attr fl a s b e u.
     new = [(Perf_event_open attr pid cpu grp fl, a), (Sysconf_pagesize, s),
       (Mmap (mmap_size pm) (pm_fd pm), b), (Ioctl (pm_fd pm) PERF_EVENT_IOC_ENABLE 0, e),
       (Bpf_map_update (map_fd m) (enc_of i32_repr cpu) (enc_of i32_repr (pm_fd pm)) 0, u)] \<and>
     pe_type attr = 1 \<and> pe_config attr = 10 \<and> 0 \<le> ret a \<and> pm_fd pm = ret a \<and>
     ret b \<noteq> -1 \<and> base_ptr pm = ret b \<and> base pm = mapped (page_size pm) (out b) \<and> ret e = 0)"

text \<open>The sizes do not fit into 64 bits, or the map does not have keys and values of four bytes.\<close>

definition bind_panics :: "Map \<Rightarrow> nat \<Rightarrow> nat \<Rightarrow> bool" where
  "bind_panics m pcnt psize \<longleftrightarrow> 2 ^ 64 \<le> pcnt + 1 \<or> 2 ^ 64 \<le> psize * (pcnt + 1) \<or>
     md_key_size (config m) \<noteq> 4 \<or> md_value_size (config m) \<noteq> 4 \<or> md_type (config m) \<notin> {1, 4}"

lemma hash_map_new_i32:
  "hash_map_new i32_repr i32_repr m = Ok tm \<longleftrightarrow>
     tm = m \<and> md_key_size (config m) = 4 \<and> md_value_size (config m) = 4 \<and> md_type (config m) \<in> {1, 4}"
  by (auto simp: hash_map_new_def i32_repr_def word_unat_eq_iff)

text \<open>\<open>bind\<close> in its normal course, and its failures.\<close>

lemma perf_bind_cases:
  obtains (unopened) e new where "perf_bind k m pid cpu pcnt grp fl h = (Err e, h @ new)"
      and "opened new = {#}" and "closed new = {#}"
  | (leaking) e fd new where "perf_bind k m pid cpu pcnt grp fl h = (Err e, h @ new)"
      and "opened new = {#fd#}" and "closed new = {#}" and "\<And>b n. Munmap b n \<notin> fst ` set new"
  | (panicking) s new where "perf_bind k m pid cpu pcnt grp fl h = (Panic, h @ new)" and "closed new = {#}"
      and "(Sysconf_pagesize, s) \<in> set new" and "bind_panics m pcnt (unat (of_int (ret s) :: u64))"
  | (bound) pm new where "perf_bind k m pid cpu pcnt grp fl h = (Ok pm, h @ new)"
      and "opened new = {#pm_fd pm#}" and "closed new = {#}" and "bound_by m pid cpu grp pm new"
      and "\<exists>h1. k h1 (Mmap (mmap_size pm) (pm_fd pm)) = snd (new ! 2)"
      and "page_cnt pm = pcnt" and "mmap_size pm = page_size pm * (pcnt + 1)" and "mmap_size pm < 2 ^ 64"
proof -
  define attr where "attr = zeroed_attr\<lparr>pe_config := 10, pe_size := 112, pe_type := 1, pe_sample_type := 1024,
                             pe_sample_period := 1, pe_wakeup_events := 1\<rparr>"
  define c1 where "c1 = Perf_event_open attr pid cpu grp (fl OR PERF_FLAG_FD_CLOEXEC)"
  define a where "a = k h c1"
  define h1 where "h1 = h @ [(c1, a)]"
  define s where "s = k h1 Sysconf_pagesize"
  define psize where "psize = unat (of_int (ret s) :: u64)"
  define msize where "msize = psize * (pcnt + 1)"
  define h2 where "h2 = h1 @ [(Sysconf_pagesize, s)]"
  define b where "b = k h2 (Mmap msize (ret a))"
  define h3 where "h3 = h2 @ [(Mmap msize (ret a), b)]"
  define e where "e = k h3 (Ioctl (ret a) PERF_EVENT_IOC_ENABLE 0)"
  define h4 where "h4 = h3 @ [(Ioctl (ret a) PERF_EVENT_IOC_ENABLE 0, e)]"
  note defs = a_def h1_def s_def psize_def msize_def h2_def b_def h3_def e_def h4_def c1_def attr_def
  have open1: "open_perf_buffer k pid cpu grp fl h = (if ret a < 0 then Err (last_os_error a) else Ok (ret a), h1)"
    by (simp add: open_perf_buffer_def defs Let_def)
  have o: "opened1 (c1, a) = (if 0 \<le> ret a then {#ret a#} else {#})" "closed1 (c1, a) = {#}"
    by (simp_all add: c1_def)
  have eq: "perf_bind k m pid cpu pcnt grp fl h =
      (if ret a < 0 then (Err (last_os_error a), h1)
       else if 2 ^ 64 \<le> pcnt + 1 \<or> 2 ^ 64 \<le> msize then (Panic, h2)
       else if ret b = -1 then (Err (last_os_error b), h3)
       else if ret e \<noteq> 0 then (Err (last_os_error e), h4)
       else bind (pure (case hash_map_new i32_repr i32_repr m of Ok tm \<Rightarrow> Ok tm | _ \<Rightarrow> Panic)) (\<lambda>tm.
                 bind (hash_map_set k i32_repr i32_repr tm cpu (ret a)) (\<lambda>_.
                 pure (Ok \<lparr>base_ptr = ret b, base = mapped psize (out b), page_cnt = pcnt, page_size = psize,
                           mmap_size = msize, pm_buf = [], pm_fd = ret a\<rparr>))) h4)"
    by (simp add: perf_bind_def bind_def [of "open_perf_buffer k pid cpu grp fl"] open1 Let_def
        s_def psize_def msize_def h2_def b_def h3_def e_def h4_def)
  show thesis
  proof (cases "ret a < 0 \<or> 2 ^ 64 \<le> pcnt + 1 \<or> 2 ^ 64 \<le> msize \<or> ret b = -1 \<or> ret e \<noteq> 0")
    case True
    then show thesis
      using unopened [of "last_os_error a" "[(c1, a)]"] panicking [of "[(c1, a), (Sysconf_pagesize, s)]" s]
        leaking [of "last_os_error b" "[(c1, a), (Sysconf_pagesize, s), (Mmap msize (ret a), b)]" "ret a"]
        leaking [of "last_os_error e" "[(c1, a), (Sysconf_pagesize, s), (Mmap msize (ret a), b), (Ioctl (ret a) PERF_EVENT_IOC_ENABLE 0, e)]" "ret a"]
        eq o by (auto simp: h1_def h2_def h3_def h4_def c1_def bind_panics_def msize_def psize_def split: if_splits)
  next
    case good: False
    show thesis
    proof (cases "hash_map_new i32_repr i32_repr m = Ok m")
      case True
      let ?u = "Bpf_map_update (map_fd m) (enc_of i32_repr cpu) (enc_of i32_repr (ret a)) 0"
      let ?pm = "\<lparr>base_ptr = ret b, base = mapped psize (out b), page_cnt = pcnt, page_size = psize,
                           mmap_size = msize, pm_buf = [], pm_fd = ret a\<rparr>"
      let ?new = "[(c1, a), (Sysconf_pagesize, s), (Mmap msize (ret a), b),
            (Ioctl (ret a) PERF_EVENT_IOC_ENABLE 0, e), (?u, k h4 ?u)]"
      have "perf_bind k m pid cpu pcnt grp fl h = (Ok ?pm, h4 @ [(?u, k h4 ?u)])"
        using good True unfolding eq
        by (simp add: hash_map_set_def ignore_def catch_def bpf_map_set_def bind_def [of "catch _ _"]
            split: if_splits)
      moreover have "bound_by m pid cpu grp ?pm ?new"
        unfolding bound_by_def c1_def using good by (intro exI conjI) (auto simp: attr_def)
      ultimately show thesis
        using good o by (intro bound [of ?pm ?new])
          (auto simp: h1_def h2_def h3_def h4_def msize_def b_def)
    next
      case False
      let ?new = "[(c1, a), (Sysconf_pagesize, s), (Mmap msize (ret a), b), (Ioctl (ret a) PERF_EVENT_IOC_ENABLE 0, e)]"
      have "perf_bind k m pid cpu pcnt grp fl h = (Panic, h @ ?new)"
        using good False unfolding eq
        by (cases "hash_map_new i32_repr i32_repr m") (auto simp: hash_map_new_i32 h1_def h2_def h3_def h4_def)
      moreover have "bind_panics m pcnt psize" using False by (auto simp: hash_map_new_i32 bind_panics_def)
      ultimately show thesis using panicking [of ?new s] o by (simp add: psize_def)
    qed
  qed
qed


text \<open>
  C40: a perf map that was bound and is dropped leaves no descriptor open and unmaps
  what it mapped, and while it lives its ring has the size that \<open>read\<close> relies on.
\<close>

theorem perf_map_lifetime:
  assumes "perf_bind k m pid cpu pcnt grp fl h = (Ok pm, h1)"
    and "\<And>h n fd. ret (k h (Mmap n fd)) \<noteq> -1 \<Longrightarrow> length (out (k h (Mmap n fd))) = n"
  shows "length (ring (base pm)) = page_cnt pm * page_size pm \<and>
    (\<exists>new b. drop_perf_map k pm h1 = (Ok (), h @ new) \<and> opened new = closed new \<and>
       (Mmap (mmap_size pm) (pm_fd pm), b) \<in> set new \<and> Munmap (ret b) (mmap_size pm) \<in> fst ` set new)"
proof (cases rule: perf_bind_cases [of k m pid cpu pcnt grp fl h])
  case (bound pm' new)
  then have pm: "pm' = pm" and h1: "h1 = h @ new" using assms(1) by auto
  obtain b where b: "(Mmap (mmap_size pm) (pm_fd pm), b) \<in> set new" "b = snd (new ! 2)" "ret b \<noteq> -1"
    "base pm = mapped (page_size pm) (out b)" "base_ptr pm = ret b"
    using bound(4) unfolding pm bound_by_def by fastforce
  then have "length (out b) = mmap_size pm" using bound(5) assms(2) unfolding pm by metis
  then have "length (ring (base pm)) = page_cnt pm * page_size pm"
    using bound(6,7) b unfolding pm by (simp add: mapped_def)
  moreover have "\<exists>new2. drop_perf_map k pm h1 = (Ok (), h @ new @ new2) \<and> opened new2 = {#} \<and>
      closed new2 = {#pm_fd pm#} \<and> Munmap (ret b) (mmap_size pm) \<in> fst ` set new2"
    by (auto simp: drop_perf_map_def h1 b(5))
  ultimately show ?thesis
    using bound(2,3) b(1) unfolding pm by (force simp: image_iff)
qed (use assms(1) in auto)

definition sample_perf_kernel :: kernel where
  "sample_perf_kernel h c =
     \<lparr>ret = (case c of Perf_event_open _ _ _ _ _ \<Rightarrow> 7 | Sysconf_pagesize \<Rightarrow> 4096 | _ \<Rightarrow> 0), errno = 0,
      out = (case c of Mmap n _ \<Rightarrow> replicate n 0 | _ \<Rightarrow> [])\<rparr>"

definition sample_perf_map :: Map where
  "sample_perf_map = \<lparr>map_name = ''m'', map_kind = 4, map_fd = 3,
     config = \<lparr>md_type = 4, md_key_size = 4, md_value_size = 4, md_max_entries = 8, md_map_flags = 0\<rparr>,
     section_data = False, pin_file = None\<rparr>"

theorem perf_map_lifetime_witness:
  "\<exists>pm h1 new. perf_bind sample_perf_kernel sample_perf_map (-1) 0 16 (-1) 0 [] = (Ok pm, h1) \<and>
     length (ring (base pm)) = 65536 \<and> drop_perf_map sample_perf_kernel pm h1 = (Ok (), new) \<and>
     opened new = closed new"
proof -
  have new: "hash_map_new i32_repr i32_repr sample_perf_map = Ok sample_perf_map"
    by (simp add: hash_map_new_def sample_perf_map_def i32_repr_def)
  obtain pm h1 where pm: "perf_bind sample_perf_kernel sample_perf_map (-1) 0 16 (-1) 0 [] = (Ok pm, h1)"
    and geo: "page_cnt pm * page_size pm = 65536"
    by (simp add: perf_bind_def open_perf_buffer_def sample_perf_kernel_def Let_def bind_def call_def pure_def new
        hash_map_set_def ignore_def catch_def bpf_map_set_def)
  have "ret (sample_perf_kernel h (Mmap n fd)) \<noteq> -1 \<Longrightarrow> length (out (sample_perf_kernel h (Mmap n fd))) = n" for h n fd
    by (simp add: sample_perf_kernel_def)
  from perf_map_lifetime [OF pm this] show ?thesis using pm geo by fastforce
qed

end
