(* ===== verification/Symbols.thy ===== *)
theory Symbols
  imports Kernel
begin

text \<open>
  \<open>redbpf/src/symbols.rs\<close>: symbol lookup in a parsed ELF file, the parser of the cache
  of the dynamic linker with its lookup, and the libraries mapped into a process. The
  main lemma is that a cache written in the format of \<open>glibc-ld.so.cache1.1\<close> is read
  back entry by entry.
\<close>

section \<open>Symbols of an ELF file\<close>

definition resolve_dyn_syms :: "Elf \<Rightarrow> string \<Rightarrow> Sym option" where
  "resolve_dyn_syms elf sym_name =
     find (\<lambda>s. case dynstrtab elf (st_name s) of Some n \<Rightarrow> n = sym_name | None \<Rightarrow> False) (dynsyms elf)"

definition resolve_syms :: "Elf \<Rightarrow> string \<Rightarrow> Sym option" where
  "resolve_syms elf sym_name =
     find (\<lambda>s. case strtab elf (st_name s) of Some n \<Rightarrow> n = sym_name | None \<Rightarrow> False) (syms elf)"

definition resolve_symbol :: "Elf \<Rightarrow> string \<Rightarrow> Sym option" where
  "resolve_symbol elf sym_name =
     (case resolve_dyn_syms elf sym_name of Some s \<Rightarrow> Some s | None \<Rightarrow> resolve_syms elf sym_name)"

section \<open>The cache of the dynamic linker\<close>

datatype CacheError = IOError io_error | InvalidHeader

record CacheEntry =
  ce_key :: string
  ce_value :: string
  ce_flags :: int

abbreviation (input) CACHE_HEADER :: string where "CACHE_HEADER \<equiv> ''glibc-ld.so.cache1.1''"

text \<open>
  \<open>Cursor::read_exact\<close> and the readers built on it: the bytes at the position and the
  position after them. A position beyond the end reads nothing.
\<close>

definition read_exact :: "bytes \<Rightarrow> nat \<Rightarrow> nat \<Rightarrow> (CacheError, bytes) outcome" where
  "read_exact dat pos n =
     (if pos + n \<le> length dat then Ok (take n (drop pos dat)) else Err (IOError UnexpectedEof))"

definition cursor_u32 :: "bytes \<Rightarrow> nat \<Rightarrow> (CacheError, u32) outcome" where
  "cursor_u32 dat pos = and_then (read_exact dat pos 4) (\<lambda>bs. Ok (word_of_le bs))"

definition cursor_i32 :: "bytes \<Rightarrow> nat \<Rightarrow> (CacheError, int) outcome" where
  "cursor_i32 dat pos = and_then (read_exact dat pos 4) (\<lambda>bs. Ok (sint (word_of_le bs :: u32)))"

text \<open>\<open>CStr::from_ptr(data[pos..].as_ptr()).to_string_lossy()\<close>\<close>

definition cstr_from :: "bytes \<Rightarrow> nat \<Rightarrow> (CacheError, string) outcome" where
  "cstr_from dat pos =
     and_then (slice_from dat pos) (\<lambda>tl. and_then (cstr_at tl 0) (\<lambda>bs. Ok (to_string_lossy bs)))"

fun cache_entries :: "bytes \<Rightarrow> nat \<Rightarrow> nat \<Rightarrow> (CacheError, CacheEntry list) outcome" where
  "cache_entries dat pos 0 = Ok []"
| "cache_entries dat pos (Suc n) =
     and_then (cursor_i32 dat pos) (\<lambda>fl.
     and_then (cursor_u32 dat (pos + 4)) (\<lambda>k_pos.
     and_then (cursor_u32 dat (pos + 8)) (\<lambda>v_pos.
     and_then (cstr_from dat (unat k_pos)) (\<lambda>key.
     and_then (cstr_from dat (unat v_pos)) (\<lambda>val.
     and_then (cache_entries dat (pos + 24) n) (\<lambda>rest.
     Ok (\<lparr>ce_key = key, ce_value = val, ce_flags = fl\<rparr> # rest)))))))"

definition cache_parse :: "bytes \<Rightarrow> (CacheError, CacheEntry list) outcome" where
  "cache_parse dat =
     and_then (read_exact dat 0 20) (\<lambda>buf.
     case to_str buf of
       None \<Rightarrow> Err InvalidHeader
     | Some header \<Rightarrow>
         if header \<noteq> CACHE_HEADER then Err InvalidHeader
         else and_then (cursor_u32 dat 20) (\<lambda>num_entries.
              and_then (cursor_u32 dat 24) (\<lambda>str_tab_len.
              cache_entries dat 48 (unat num_entries))))"

definition cache_load :: "(string \<Rightarrow> (io_error, bytes) outcome) \<Rightarrow> string \<Rightarrow> (CacheError, CacheEntry list) outcome" where
  "cache_load fs_read p =
     (case fs_read p of
        Ok dat \<Rightarrow> cache_parse dat
      | Err e \<Rightarrow> Err (IOError e)
      | Panic \<Rightarrow> Panic
      | Undefined \<Rightarrow> Undefined)"

definition cache_resolve :: "CacheEntry list \<Rightarrow> string \<Rightarrow> string option" where
  "cache_resolve entries lib0 =
     (let lib = (if contains lib0 ''.so'' then lib0 else lib0 @ ''.so'')
      in map_option ce_value (find (\<lambda>e. starts_with (ce_key e) lib) entries))"

section \<open>Libraries of a process\<close>

text \<open>\<open>str::lines\<close>: a final line end starts no new line, and a carriage return before it is dropped.\<close>

definition str_lines :: "string \<Rightarrow> string list" where
  "str_lines s =
     (let ls = split_on CHR 0x0A s; ls' = (if last ls = [] then butlast ls else ls)
      in map (\<lambda>(l, ended). if ended \<and> l \<noteq> [] \<and> last l = CHR 0x0D then butlast l else l)
           (zip ls' (map (\<lambda>i. i + 1 < length ls) [0..<length ls'])))"

text \<open>\<open>line.split_whitespace().last()\<close>\<close>

definition last_word :: "string \<Rightarrow> string option" where
  "last_word l =
     (let w = takeWhile (\<lambda>c. \<not> is_whitespace c) (dropWhile is_whitespace (rev (str_chars l)))
      in if w = [] then None else Some (concat (map utf8_encode (rev w))))"

text \<open>
  \<open>PathBuf::from(p).file_name()\<close> for an absolute path: its last component, unless
  there is none or it is \<open>..\<close>.
\<close>

definition file_name :: "string \<Rightarrow> string option" where
  "file_name p =
     (let cs = filter (\<lambda>c. c \<noteq> [] \<and> c \<noteq> ''.'') (split_on CHR ''/'' p)
      in if cs = [] \<or> last cs = ''..'' then None else Some (last cs))"

definition lib_line :: "string \<Rightarrow> (string \<times> string) option result" where
  "lib_line l =
     (case last_word l of
        None \<Rightarrow> Ok None
      | Some w \<Rightarrow>
          if starts_with w ''/'' then and_then (unwrap (file_name w)) (\<lambda>key. Ok (Some (key, w)))
          else Ok None)"

definition show_pid :: "int \<Rightarrow> string" where
  "show_pid p = (if p < 0 then CHR ''-'' # show_nat (nat (- p)) else show_nat (nat p))"

definition maps_file :: "int \<Rightarrow> string" where
  "maps_file pid = ''/proc/'' @ show_pid pid @ ''/maps''"

definition proc_maps_libs :: "kernel \<Rightarrow> int \<Rightarrow> (string \<times> string) list action" where
  "proc_maps_libs k pid =
     bind (call k (Read_file (maps_file pid))) (\<lambda>a.
       if ret a < 0 then pure (Err (last_os_error a))
       else case to_str (out a) of
              None \<Rightarrow> pure (Err (IO (OtherIo ''invalid UTF-8'')))
            | Some contents \<Rightarrow>
                bind (pure (try_map lib_line (str_lines contents))) (\<lambda>ls.
                pure (Ok (map the (filter (\<lambda>x. x \<noteq> None) ls)))))"

definition resolve_proc_maps_lib :: "kernel \<Rightarrow> int \<Rightarrow> string \<Rightarrow> string option action" where
  "resolve_proc_maps_lib k pid lib =
     catch (proc_maps_libs k pid) (\<lambda>r.
       case r of
         Ok libs \<Rightarrow>
           pure (Ok (map_option snd
             (if contains lib ''.so'' then find (\<lambda>(key, _). starts_with key lib) libs
              else find (\<lambda>(key, _). starts_with key (lib @ ''.so'') \<or> starts_with key (lib @ ''-'')) libs)))
       | _ \<Rightarrow> pure (Ok None))"

section \<open>Reading a cache back\<close>

text \<open>The format: header, counts, five unused words, the table, then the strings.\<close>

definition show_entry :: "CacheEntry \<Rightarrow> bytes" where
  "show_entry e = as_bytes (ce_key e) @ [0] @ as_bytes (ce_value e) @ [0]"

fun show_table :: "nat \<Rightarrow> CacheEntry list \<Rightarrow> bytes" where
  "show_table pos [] = []"
| "show_table pos (e # es) =
     u32_to_le (of_int (ce_flags e)) @ u32_to_le (of_nat pos) @
     u32_to_le (of_nat (pos + length (ce_key e) + 1)) @ replicate 12 0 @
     show_table (pos + length (show_entry e)) es"

definition show_cache :: "CacheEntry list \<Rightarrow> bytes" where
  "show_cache es =
     as_bytes CACHE_HEADER @ u32_to_le (of_nat (length es)) @
     u32_to_le (of_nat (length (concat (map show_entry es)))) @ replicate 20 0 @
     show_table (48 + 24 * length es) es @ concat (map show_entry es)"

definition cache_entry_ok :: "CacheEntry \<Rightarrow> bool" where
  "cache_entry_ok e \<longleftrightarrow>
     ascii (ce_key e) \<and> ascii (ce_value e) \<and> CHR 0x00 \<notin> set (ce_key e) \<and> CHR 0x00 \<notin> set (ce_value e) \<and>
     - (2 ^ 31) \<le> ce_flags e \<and> ce_flags e < 2 ^ 31"

lemma length_show_table: "length (show_table pos es) = 24 * length es"
  by (induction pos es rule: show_table.induct) simp_all

lemma cstr_from_string:
  assumes "ascii s" and "CHR 0x00 \<notin> set s" and "drop pos dat = as_bytes s @ 0 # rest" and "pos \<le> length dat"
  shows "cstr_from dat pos = Ok s"
proof -
  have z: "0 \<notin> set (as_bytes s)" 
  proof
    assume "0 \<in> set (as_bytes s)"
    then obtain c where "c \<in> set s" and "(of_nat (of_char c) :: u8) = 0" by (auto simp: as_bytes_def)
    then have "unat (of_nat (of_char c) :: u8) = 0" by simp
    then have "of_char c = (0 :: nat)" by simp
    then have "c = char_of (0 :: nat)" by (metis char_of_char)
    then have "c = CHR 0x00" by (simp add: char_of_def)
    then show False using \<open>c \<in> set s\<close> assms(2) by simp
  qed
  then have "takeWhile (\<lambda>b. b \<noteq> 0) (as_bytes s @ 0 # rest) = as_bytes s"
    by (subst takeWhile_append2) auto
  then show ?thesis
    using assms by (simp add: cstr_from_def slice_from_def cstr_at_def to_string_lossy_as_bytes)
qed

lemma cursor_u32_at: "length pre = pos \<Longrightarrow> cursor_u32 (pre @ u32_to_le w @ post) pos = Ok w"
  by (simp add: cursor_u32_def read_exact_def)

lemma sint_of_int_u32: "- (2 ^ 31) \<le> i \<Longrightarrow> i < 2 ^ 31 \<Longrightarrow> sint (of_int i :: u32) = i"
  by (simp add: sint_sbintrunc' signed_take_bit_int_eq_self)

lemma unat_of_nat_u32: "n < 2 ^ 32 \<Longrightarrow> unat (of_nat n :: u32) = n"
  by (simp add: unat_of_nat)

lemma cursor_i32_at:
  "length pre = pos \<Longrightarrow> - (2 ^ 31) \<le> i \<Longrightarrow> i < 2 ^ 31 \<Longrightarrow>
   cursor_i32 (pre @ u32_to_le (of_int i) @ post) pos = Ok i"
  by (simp add: cursor_i32_def read_exact_def sint_of_int_u32)

lemma cache_entries_shown:
  assumes "list_all cache_entry_ok es" and "dat = pre @ show_table pos es @ mid @ concat (map show_entry es)"
    and "pos = length pre + 24 * length es + length mid" and "length dat < 2 ^ 32"
  shows "cache_entries dat (length pre) (length es) = Ok es"
  using assms
proof (induction es arbitrary: pre pos mid)
  case (Cons e es)
  let ?vpos = "pos + length (ce_key e) + 1" and ?pos' = "pos + length (show_entry e)"
  let ?row = "u32_to_le (of_int (ce_flags e)) @ u32_to_le (of_nat pos) @ u32_to_le (of_nat ?vpos) @ replicate 12 0"
  let ?strs = "concat (map show_entry es)"
  have ok: "cache_entry_ok e" and oks: "list_all cache_entry_ok es" using Cons.prems(1) by auto
  have dat: "dat = (pre @ ?row) @ show_table ?pos' es @ (mid @ show_entry e) @ ?strs"
    using Cons.prems(2) by simp
  have pos': "?pos' = length (pre @ ?row) + 24 * length es + length (mid @ show_entry e)"
    using Cons.prems(3) by simp
  have IH: "cache_entries dat (length pre + 24) (length es) = Ok es"
    using Cons.IH [OF oks dat pos' Cons.prems(4)] by simp
  have len: "length dat = pos + length (show_entry e) + length ?strs"
    using Cons.prems(2,3) by (simp add: length_show_table)
  then have small: "unat (of_nat pos :: u32) = pos" "unat (of_nat ?vpos :: u32) = ?vpos"
    using Cons.prems(4) by (intro unat_of_nat_u32; simp add: show_entry_def)+
  have key: "drop pos dat = as_bytes (ce_key e) @ 0 # as_bytes (ce_value e) @ [0] @ ?strs"
    using Cons.prems(2,3) by (simp add: show_entry_def [of e] length_show_table)
  have "drop ?vpos dat = drop (length (ce_key e) + 1) (drop pos dat)" by (simp add: add.commute)
  then have val: "drop ?vpos dat = as_bytes (ce_value e) @ 0 # ?strs" unfolding key by simp
  have "cstr_from dat pos = Ok (ce_key e)" "cstr_from dat ?vpos = Ok (ce_value e)"
    using ok cstr_from_string [OF _ _ key] cstr_from_string [OF _ _ val] len
    by (simp_all add: cache_entry_ok_def show_entry_def)
  moreover have "cursor_i32 dat (length pre) = Ok (ce_flags e)"
    using ok dat by (simp add: cache_entry_ok_def cursor_i32_at)
  moreover have "cursor_u32 dat (length pre + 4) = Ok (of_nat pos)"
    using cursor_u32_at [of "pre @ u32_to_le (of_int (ce_flags e))" "length pre + 4" "of_nat pos"] dat by simp
  moreover have "cursor_u32 dat (length pre + 8) = Ok (of_nat ?vpos)"
    using cursor_u32_at [of "pre @ u32_to_le (of_int (ce_flags e)) @ u32_to_le (of_nat pos)" "length pre + 8" "of_nat ?vpos"] dat
    by simp
  ultimately show ?case using IH small by simp
qed simp

text \<open>
  C38: a cache file in the format of \<open>glibc-ld.so.cache1.1\<close>, written for any list of
  entries (ASCII names without NUL) that fits in 32-bit offsets, is parsed to exactly
  these entries, in order.
\<close>

theorem cache_parse_roundtrip:
  assumes "list_all cache_entry_ok es" and "length (show_cache es) < 2 ^ 32"
  shows "cache_parse (show_cache es) = Ok es"
proof -
  let ?pre = "as_bytes CACHE_HEADER @ u32_to_le (of_nat (length es)) @
     u32_to_le (of_nat (length (concat (map show_entry es)))) @ replicate 20 0"
  have "24 * length es \<le> length (show_cache es)" by (simp add: show_cache_def length_show_table)
  then have n: "unat (of_nat (length es) :: u32) = length es" using assms(2) by (simp add: unat_of_nat)
  have dat: "show_cache es = ?pre @ show_table (48 + 24 * length es) es @ [] @ concat (map show_entry es)"
    by (simp add: show_cache_def)
  have "cache_entries (show_cache es) 48 (length es) = Ok es"
    using cache_entries_shown [OF assms(1) dat _ assms(2)] by simp
  moreover have "read_exact (show_cache es) 0 20 = Ok (as_bytes CACHE_HEADER)"
    by (simp add: read_exact_def show_cache_def)
  moreover have "ascii CACHE_HEADER" by (simp add: ascii_def)
  then have "to_str (as_bytes CACHE_HEADER) = Some CACHE_HEADER"
    by (simp only: to_str_def to_string_lossy_as_bytes) simp
  moreover have "cursor_u32 (show_cache es) 20 = Ok (of_nat (length es))"
    "cursor_u32 (show_cache es) 24 = Ok (of_nat (length (concat (map show_entry es))))"
    using cursor_u32_at [of "as_bytes CACHE_HEADER" 20 "of_nat (length es)"]
      cursor_u32_at [of "as_bytes CACHE_HEADER @ u32_to_le (of_nat (length es))" 24]
    by (simp_all add: show_cache_def)
  ultimately show ?thesis using n by (simp add: cache_parse_def)
qed

theorem cache_parse_roundtrip_witness:
  "cache_parse (show_cache [\<lparr>ce_key = ''libc.so.6'', ce_value = ''/lib/libc.so.6'', ce_flags = 771\<rparr>]) =
     Ok [\<lparr>ce_key = ''libc.so.6'', ce_value = ''/lib/libc.so.6'', ce_flags = 771\<rparr>]"
  by (rule cache_parse_roundtrip)
    (simp_all add: cache_entry_ok_def ascii_def show_cache_def show_entry_def)

section \<open>Finding a mapped library\<close>

lemma lib_line_Some:
  "lib_line l = Ok (Some (key, w)) \<longleftrightarrow> last_word l = Some w \<and> starts_with w ''/'' \<and> file_name w = Some key"
  by (auto simp: lib_line_def outcome_simps split: option.splits)

lemma proc_maps_libs_run:
  "proc_maps_libs k pid h =
     (let a = k h (Read_file (maps_file pid))
      in (if ret a < 0 then Err (last_os_error a)
          else case to_str (out a) of
                 None \<Rightarrow> Err (IO (OtherIo ''invalid UTF-8''))
               | Some contents \<Rightarrow>
                   and_then (try_map lib_line (str_lines contents)) (\<lambda>ls. Ok (map the (filter (\<lambda>x. x \<noteq> None) ls))),
          h @ [(Read_file (maps_file pid), a)]))"
proof (cases "to_str (out (k h (Read_file (maps_file pid))))")
  case (Some contents)
  then show ?thesis
    by (cases "try_map lib_line (str_lines contents)") (simp_all add: proc_maps_libs_def pure_def Let_def)
qed (simp add: proc_maps_libs_def pure_def Let_def)

lemma proc_maps_libs_lines:
  assumes "proc_maps_libs k pid h = (Ok libs, h1)" and "(key, w) \<in> set libs"
  shows "\<exists>contents l. to_str (out (k h (Read_file (maps_file pid)))) = Some contents \<and>
    l \<in> set (str_lines contents) \<and> last_word l = Some w \<and> starts_with w ''/'' \<and> file_name w = Some key"
proof -
  let ?a = "k h (Read_file (maps_file pid))"
  obtain contents where c: "to_str (out ?a) = Some contents"
    using assms(1) by (auto simp: proc_maps_libs_run Let_def split: if_splits option.splits)
  obtain ls where ls: "try_map lib_line (str_lines contents) = Ok ls" and "(key, w) \<in> set (map the (filter (\<lambda>x. x \<noteq> None) ls))"
    using assms c by (auto simp: proc_maps_libs_run Let_def outcome_simps simp del: set_map split: if_splits)
  then have "Some (key, w) \<in> set ls" by auto
  then obtain l where "l \<in> set (str_lines contents)" "lib_line l = Ok (Some (key, w))"
    using ls unfolding try_map_Ok_iff list_all2_conv_all_nth in_set_conv_nth by metis
  then show ?thesis using c lib_line_Some by blast
qed

lemma find_SomeD: "find P xs = Some x \<Longrightarrow> x \<in> set xs \<and> P x"
  by (auto simp: find_Some_iff)

text \<open>
  A library found for a process is an absolute path at the end of a line of its
  \<open>maps\<close> file, and the name of the file it denotes begins with the library asked for,
  followed by \<open>.so\<close> or \<open>-\<close> when that was not part of it.
\<close>

theorem resolve_proc_maps_lib_sound:
  assumes "resolve_proc_maps_lib k pid lib h = (Ok (Some v), h1)"
  shows "\<exists>contents l key. to_str (out (k h (Read_file (maps_file pid)))) = Some contents \<and>
    l \<in> set (str_lines contents) \<and> last_word l = Some v \<and> starts_with v ''/'' \<and> file_name v = Some key \<and>
    (if contains lib ''.so'' then starts_with key lib
     else starts_with key (lib @ ''.so'') \<or> starts_with key (lib @ ''-''))"
proof -
  obtain r h2 where r: "proc_maps_libs k pid h = (r, h2)" by (cases "proc_maps_libs k pid h")
  obtain libs where p: "proc_maps_libs k pid h = (Ok libs, h2)"
    using assms r by (cases r) (auto simp: resolve_proc_maps_lib_def catch_def pure_def)
  let ?P = "\<lambda>key. if contains lib ''.so'' then starts_with key lib
     else starts_with key (lib @ ''.so'') \<or> starts_with key (lib @ ''-'')"
  have "map_option snd (find (\<lambda>(key, _). ?P key) libs) = Some v"
    using assms p by (auto simp: resolve_proc_maps_lib_def catch_def pure_def split: if_splits)
  then obtain key where "(key, v) \<in> set libs" "?P key"
    by (auto dest!: find_SomeD)
  then show ?thesis using proc_maps_libs_lines [OF p] by blast
qed

definition sample_maps :: string where
  "sample_maps = ''7f r /l/c-2.so'' @ [CHR 0x0A]"

theorem resolve_proc_maps_lib_sound_witness:
  "\<exists>h1. resolve_proc_maps_lib (\<lambda>h c. \<lparr>ret = 0, errno = 0, out = as_bytes sample_maps\<rparr>) 1 ''c'' []
      = (Ok (Some ''/l/c-2.so''), h1) \<and> starts_with ''/l/c-2.so'' ''/''"
proof -
  let ?k = "\<lambda>h c. \<lparr>ret = 0, errno = 0, out = as_bytes sample_maps\<rparr>"
  have "ascii sample_maps" by (simp add: ascii_def sample_maps_def)
  then have t: "to_str (as_bytes sample_maps) = Some sample_maps"
    by (simp only: to_str_def to_string_lossy_as_bytes) simp
  have "ascii ''7f r /l/c-2.so''" by (simp add: ascii_def)
  then have w: "last_word ''7f r /l/c-2.so'' = Some ''/l/c-2.so''"
    by (simp add: last_word_def str_chars_ascii is_whitespace_def utf8_encode_def char_of_def bit_0)
  have l: "str_lines sample_maps = [''7f r /l/c-2.so'']"
    by (simp add: str_lines_def sample_maps_def)
  have "\<exists>h1. resolve_proc_maps_lib ?k 1 ''c'' [] = (Ok (Some ''/l/c-2.so''), h1)"
    by (simp add: resolve_proc_maps_lib_def catch_def proc_maps_libs_run t l w lib_line_def file_name_def pure_def Let_def)
  then obtain h1 where "resolve_proc_maps_lib ?k 1 ''c'' [] = (Ok (Some ''/l/c-2.so''), h1)" by blast
  with resolve_proc_maps_lib_sound [OF this] show ?thesis by blast
qed

end
