(* ===== verification/Programs.thy ===== *)
theory Programs
  imports Perf_Events Symbols
begin

text \<open>
  The programs of \<open>redbpf/src/lib.rs\<close>: the enum \<open>Program\<close> with its variants, loading
  into the kernel, attaching and detaching, and \<open>Drop\<close>. The lemmas follow the file
  descriptors through every operation, bound the number of attempts to load, and say
  which operations leave a descriptor behind.
\<close>

section \<open>Data\<close>

datatype ProbeAttachType = Entry | Return

record ProgramData =
  pd_name :: string
  pd_code :: "bpf_insn list"
  pd_fd :: "RawFd option"

record KProbeAttachmentPoint =
  ka_fn_name :: string
  ka_offset :: u64
  ka_pfd :: RawFd

record UProbeAttachmentPoint =
  ua_fn_name :: "string option"
  ua_offset :: u64
  ua_target :: string
  ua_pid :: "int option"
  ua_pfd :: RawFd

record KProbe =
  kp_common :: ProgramData
  kp_attach_type :: ProbeAttachType
  kp_points :: "KProbeAttachmentPoint list"

record UProbe =
  up_common :: ProgramData
  up_attach_type :: ProbeAttachType
  up_points :: "UProbeAttachmentPoint list"

record SocketFilter = sf_common :: ProgramData
record TracePoint = tp_common :: ProgramData
record StreamParser = spp_common :: ProgramData
record StreamVerdict = sv_common :: ProgramData

record XDP =
  xdp_common :: ProgramData
  xdp_interfaces :: "string list"

record TaskIter =
  ti_common :: ProgramData
  ti_attach_btf_id :: u32
  ti_link_fd :: "RawFd option"

record SkLookup =
  sl_common :: ProgramData
  sl_link :: "(RawFd \<times> RawFd) option"

datatype Program =
    P_KProbe KProbe
  | P_KRetProbe KProbe
  | P_UProbe UProbe
  | P_URetProbe UProbe
  | P_SocketFilter SocketFilter
  | P_TracePoint TracePoint
  | P_XDP XDP
  | P_StreamParser StreamParser
  | P_StreamVerdict StreamVerdict
  | P_TaskIter TaskIter
  | P_SkLookup SkLookup

section \<open>Making programs\<close>

text \<open>\<open>read_insns\<close> is \<open>zero::read_array_unsafe\<close>, which gives the instructions in the section.\<close>

definition program_new :: "(bytes \<Rightarrow> bpf_insn list result) \<Rightarrow> string \<Rightarrow> string \<Rightarrow> bytes \<Rightarrow> Program result" where
  "program_new read_insns kind name code =
     and_then (read_insns code) (\<lambda>insns.
       let common = \<lparr>pd_name = name, pd_code = insns, pd_fd = None\<rparr>
       in if kind = ''kprobe'' then Ok (P_KProbe \<lparr>kp_common = common, kp_attach_type = Entry, kp_points = []\<rparr>)
          else if kind = ''kretprobe'' then Ok (P_KProbe \<lparr>kp_common = common, kp_attach_type = Return, kp_points = []\<rparr>)
          else if kind = ''uprobe'' then Ok (P_UProbe \<lparr>up_common = common, up_attach_type = Entry, up_points = []\<rparr>)
          else if kind = ''uretprobe'' then Ok (P_UProbe \<lparr>up_common = common, up_attach_type = Return, up_points = []\<rparr>)
          else if kind = ''tracepoint'' then Ok (P_TracePoint \<lparr>tp_common = common\<rparr>)
          else if kind = ''socketfilter'' then Ok (P_SocketFilter \<lparr>sf_common = common\<rparr>)
          else if kind = ''xdp'' then Ok (P_XDP \<lparr>xdp_common = common, xdp_interfaces = []\<rparr>)
          else if kind = ''streamparser'' then Ok (P_StreamParser \<lparr>spp_common = common\<rparr>)
          else if kind = ''streamverdict'' then Ok (P_StreamVerdict \<lparr>sv_common = common\<rparr>)
          else if kind = ''sk_lookup'' then Ok (P_SkLookup \<lparr>sl_common = common, sl_link = None\<rparr>)
          else Err (Section kind))"

definition program_with_btf ::
    "(bytes \<Rightarrow> bpf_insn list result) \<Rightarrow> string \<Rightarrow> string \<Rightarrow> bytes \<Rightarrow> BTF_data \<Rightarrow> Program result" where
  "program_with_btf read_insns kind name code btf =
     and_then (read_insns code) (\<lambda>insns.
       let common = \<lparr>pd_name = name, pd_code = insns, pd_fd = None\<rparr>
       in if kind = ''task_iter'' then
            and_then (find_type_id (types btf) ''bpf_iter_task'' K_Function) (\<lambda>i.
            and_then (ok_or i (BTF ''type id of bpf_iter_task not found'')) (\<lambda>btf_id.
            Ok (P_TaskIter \<lparr>ti_common = common, ti_attach_btf_id = btf_id, ti_link_fd = None\<rparr>)))
          else Err (Section kind))"

fun to_prog_type :: "Program \<Rightarrow> u32" where
  "to_prog_type (P_KProbe _) = 2"
| "to_prog_type (P_KRetProbe _) = 2"
| "to_prog_type (P_UProbe _) = 2"
| "to_prog_type (P_URetProbe _) = 2"
| "to_prog_type (P_XDP _) = 6"
| "to_prog_type (P_SocketFilter _) = 1"
| "to_prog_type (P_TracePoint _) = 5"
| "to_prog_type (P_StreamParser _) = 14"
| "to_prog_type (P_StreamVerdict _) = 14"
| "to_prog_type (P_TaskIter _) = 26"
| "to_prog_type (P_SkLookup _) = 30"

fun prog_data :: "Program \<Rightarrow> ProgramData" where
  "prog_data (P_KProbe p) = kp_common p"
| "prog_data (P_KRetProbe p) = kp_common p"
| "prog_data (P_UProbe p) = up_common p"
| "prog_data (P_URetProbe p) = up_common p"
| "prog_data (P_XDP p) = xdp_common p"
| "prog_data (P_SocketFilter p) = sf_common p"
| "prog_data (P_TracePoint p) = tp_common p"
| "prog_data (P_StreamParser p) = spp_common p"
| "prog_data (P_StreamVerdict p) = sv_common p"
| "prog_data (P_TaskIter p) = ti_common p"
| "prog_data (P_SkLookup p) = sl_common p"

text \<open>\<open>data_mut\<close>, as the function that changes the data through it.\<close>

fun upd_data :: "(ProgramData \<Rightarrow> ProgramData) \<Rightarrow> Program \<Rightarrow> Program" where
  "upd_data f (P_KProbe p) = P_KProbe (p\<lparr>kp_common := f (kp_common p)\<rparr>)"
| "upd_data f (P_KRetProbe p) = P_KRetProbe (p\<lparr>kp_common := f (kp_common p)\<rparr>)"
| "upd_data f (P_UProbe p) = P_UProbe (p\<lparr>up_common := f (up_common p)\<rparr>)"
| "upd_data f (P_URetProbe p) = P_URetProbe (p\<lparr>up_common := f (up_common p)\<rparr>)"
| "upd_data f (P_XDP p) = P_XDP (p\<lparr>xdp_common := f (xdp_common p)\<rparr>)"
| "upd_data f (P_SocketFilter p) = P_SocketFilter (p\<lparr>sf_common := f (sf_common p)\<rparr>)"
| "upd_data f (P_TracePoint p) = P_TracePoint (p\<lparr>tp_common := f (tp_common p)\<rparr>)"
| "upd_data f (P_StreamParser p) = P_StreamParser (p\<lparr>spp_common := f (spp_common p)\<rparr>)"
| "upd_data f (P_StreamVerdict p) = P_StreamVerdict (p\<lparr>sv_common := f (sv_common p)\<rparr>)"
| "upd_data f (P_TaskIter p) = P_TaskIter (p\<lparr>ti_common := f (ti_common p)\<rparr>)"
| "upd_data f (P_SkLookup p) = P_SkLookup (p\<lparr>sl_common := f (sl_common p)\<rparr>)"

definition prog_name :: "Program \<Rightarrow> string" where
  "prog_name p = pd_name (prog_data p)"

definition prog_fd :: "Program \<Rightarrow> RawFd option" where
  "prog_fd p = pd_fd (prog_data p)"

abbreviation set_fd :: "RawFd \<Rightarrow> Program \<Rightarrow> Program" where
  "set_fd fd \<equiv> upd_data (\<lambda>d. d\<lparr>pd_fd := Some fd\<rparr>)"

section \<open>Loading\<close>

definition load_attr :: "Program \<Rightarrow> bytes \<Rightarrow> bytes \<Rightarrow> u32 \<Rightarrow> bpf_load_program_attr" where
  "load_attr p cname clicense kernel_version =
     \<lparr>lp_prog_type = to_prog_type p,
      lp_expected_attach_type = (case p of P_TaskIter _ \<Rightarrow> 28 | P_SkLookup _ \<Rightarrow> 36 | _ \<Rightarrow> 0),
      lp_name = cname, lp_insns = pd_code (prog_data p), lp_license = clicense, lp_log_level = 0,
      lp_kern_version = (case p of P_TaskIter _ \<Rightarrow> 0 | _ \<Rightarrow> kernel_version),
      lp_attach_btf_id = (case p of P_TaskIter t \<Rightarrow> ti_attach_btf_id t | _ \<Rightarrow> 0)\<rparr>"

text \<open>
  \<open>CStr::from_ptr(log_buffer).to_str().unwrap()\<close> on the zeroed buffer of \<open>vec_len\<close> bytes
  that the kernel wrote its log into.
\<close>

definition log_text :: "nat \<Rightarrow> bytes \<Rightarrow> string result" where
  "log_text vec_len log =
     (if length log \<le> vec_len \<and> (length log < vec_len \<or> 0 \<in> set log)
      then unwrap (to_str (takeWhile (\<lambda>b. b \<noteq> 0) log)) else Undefined)"

text \<open>
  The loop that repeats a failed load with a buffer for the verifier's log, twice as
  long after each \<open>ENOSPC\<close>. A vector of more than \<open>isize::MAX\<close> bytes panics.
\<close>

function load_log_loop :: "kernel \<Rightarrow> Program \<Rightarrow> bpf_load_program_attr \<Rightarrow> nat \<Rightarrow> Program action" where
  "load_log_loop k p attr vec_len =
     (if vec_len = 0 \<or> 2 ^ 63 \<le> vec_len then pure Panic
      else bind (call k (Bpf_load_program attr vec_len)) (\<lambda>a.
        if 0 \<le> ret a then pure (Ok (set_fd (ret a) p))
        else if errno a = ENOSPC then load_log_loop k p attr (vec_len * 2)
        else bind (pure (log_text vec_len (out a))) (\<lambda>_. pure (Err BPF))))"
  by pat_completeness auto
termination
  by (relation "measure (\<lambda>(k, p, attr, vec_len). 2 ^ 63 - vec_len)") auto

declare load_log_loop.simps [simp del]

definition program_load :: "kernel \<Rightarrow> Program \<Rightarrow> u32 \<Rightarrow> string \<Rightarrow> Program action" where
  "program_load k p kernel_version license =
     (if prog_fd p \<noteq> None then pure (Err ProgramAlreadyLoaded)
      else bind (pure (cstring_try (prog_name p))) (\<lambda>cname.
           bind (pure (cstring_try license)) (\<lambda>clicense.
           let attr = load_attr p cname clicense kernel_version; c = Bpf_load_program attr 0
           in bind (call k c) (\<lambda>a.
              if 0 \<le> ret a then pure (Ok (set_fd (ret a) p))
              else bind (retry_with_memlock k c a) (\<lambda>b.
                   if 0 \<le> ret b then pure (Ok (set_fd (ret b) p))
                   else load_log_loop k p (attr\<lparr>lp_log_level := 1\<rparr>) (64 * 1024))))))"

section \<open>Dropping\<close>

text \<open>The loop that runs an action for every element.\<close>

fun for_each :: "('a \<Rightarrow> unit action) \<Rightarrow> 'a list \<Rightarrow> unit action" where
  "for_each f [] = pure (Ok ())"
| "for_each f (x # xs) = bind (f x) (\<lambda>_. for_each f xs)"

definition drop_program_data :: "kernel \<Rightarrow> ProgramData \<Rightarrow> unit action" where
  "drop_program_data k d =
     (case pd_fd d of
        Some fd \<Rightarrow> bind (call k (Close fd)) (\<lambda>_. pure (Ok ()))
      | None \<Rightarrow> pure (Ok ()))"

text \<open>\<open>Drop for KProbeAttachmentPoint\<close> and \<open>UProbeAttachmentPoint\<close>\<close>

definition drop_point :: "kernel \<Rightarrow> RawFd \<Rightarrow> unit action" where
  "drop_point k pfd =
     bind (ignore (detach_perf_event k pfd)) (\<lambda>_. bind (call k (Close pfd)) (\<lambda>_. pure (Ok ())))"

section \<open>Probes\<close>

definition attach_kprobe :: "kernel \<Rightarrow> KProbe \<Rightarrow> string \<Rightarrow> u64 \<Rightarrow> KProbe action" where
  "attach_kprobe k p fn_name offset =
     bind (pure (ok_or (pd_fd (kp_common p)) ProgramNotLoaded)) (\<lambda>fd.
     bind (case kp_attach_type p of
             Entry \<Rightarrow> open_kprobe_perf_event k fn_name offset
           | Return \<Rightarrow> open_kretprobe_perf_event k fn_name offset) (\<lambda>pfd.
     catch (attach_perf_event k fd pfd) (\<lambda>r.
       case r of
         Ok _ \<Rightarrow> pure (Ok (p\<lparr>kp_points := kp_points p @ [\<lparr>ka_fn_name = fn_name, ka_offset = offset, ka_pfd = pfd\<rparr>]\<rparr>))
       | Err e \<Rightarrow> bind (call k (Close pfd)) (\<lambda>_. pure (Err e))
       | Panic \<Rightarrow> pure Panic
       | Undefined \<Rightarrow> pure Undefined)))"

text \<open>\<open>Vec::retain\<close> drops the elements it removes, in order.\<close>

definition detach_kprobe :: "kernel \<Rightarrow> KProbe \<Rightarrow> string \<Rightarrow> u64 \<Rightarrow> KProbe action" where
  "detach_kprobe k p fn_name offset =
     (let keep = (\<lambda>ap. \<not> (ka_fn_name ap = fn_name \<and> ka_offset ap = offset))
      in bind (for_each (\<lambda>ap. drop_point k (ka_pfd ap)) (filter (\<lambda>ap. \<not> keep ap) (kp_points p))) (\<lambda>_.
         pure (Ok (p\<lparr>kp_points := filter keep (kp_points p)\<rparr>))))"

definition attach_type_str :: "KProbe \<Rightarrow> string" where
  "attach_type_str p = (case kp_attach_type p of Entry \<Rightarrow> ''Kprobe'' | Return \<Rightarrow> ''Kretprobe'')"

text \<open>
  \<open>UProbe::attach_uprobe\<close>; \<open>cache\<close> is the lazily loaded \<open>LD_SO_CACHE\<close> and
  \<open>elf_parse\<close> is \<open>goblin\<close>'s \<open>Elf::parse\<close>, its error already converted.
\<close>

definition uprobe_path :: "kernel \<Rightarrow> (CacheError, CacheEntry list) outcome \<Rightarrow> string \<Rightarrow> int option \<Rightarrow> string action" where
  "uprobe_path k cache target pid =
     (case pid of
        Some p \<Rightarrow>
          bind (resolve_proc_maps_lib k p target) (\<lambda>r. pure (Ok (case r of Some v \<Rightarrow> v | None \<Rightarrow> target)))
      | None \<Rightarrow>
          pure (Ok (case (starts_with target ''/'', cache) of
                      (False, Ok c) \<Rightarrow> (case cache_resolve c target of Some v \<Rightarrow> v | None \<Rightarrow> target)
                    | _ \<Rightarrow> target)))"

definition uprobe_sym_offset :: "kernel \<Rightarrow> (bytes \<Rightarrow> Elf result) \<Rightarrow> string \<Rightarrow> string option \<Rightarrow> u64 action" where
  "uprobe_sym_offset k elf_parse p fn_name =
     (case fn_name of
        None \<Rightarrow> pure (Ok 0)
      | Some f \<Rightarrow>
          bind (call k (Read_file p)) (\<lambda>a.
            if ret a < 0 then pure (Err (last_os_error a))
            else bind (pure (elf_parse (out a))) (\<lambda>elf.
                 bind (pure (ok_or (resolve_symbol elf f) (SymbolNotFound f))) (\<lambda>s.
                 pure (Ok (st_value s))))))"

definition attach_uprobe ::
    "kernel \<Rightarrow> (CacheError, CacheEntry list) outcome \<Rightarrow> (bytes \<Rightarrow> Elf result) \<Rightarrow> UProbe \<Rightarrow>
     string option \<Rightarrow> u64 \<Rightarrow> string \<Rightarrow> int option \<Rightarrow> UProbe action" where
  "attach_uprobe k cache elf_parse p fn_name offset target pid =
     bind (pure (ok_or (pd_fd (up_common p)) ProgramNotLoaded)) (\<lambda>fd.
     bind (uprobe_path k cache target pid) (\<lambda>path.
     bind (uprobe_sym_offset k elf_parse path fn_name) (\<lambda>sym_offset.
     bind (pure (uadd offset sym_offset)) (\<lambda>addr.
     bind (case up_attach_type p of
             Entry \<Rightarrow> open_uprobe_perf_event k path addr pid
           | Return \<Rightarrow> open_uretprobe_perf_event k path addr pid) (\<lambda>pfd.
     catch (attach_perf_event k fd pfd) (\<lambda>r.
       case r of
         Ok _ \<Rightarrow> pure (Ok (p\<lparr>up_points := up_points p @
                   [\<lparr>ua_fn_name = fn_name, ua_offset = offset, ua_target = target, ua_pid = pid, ua_pfd = pfd\<rparr>]\<rparr>))
       | Err e \<Rightarrow> bind (call k (Close pfd)) (\<lambda>_. pure (Err e))
       | Panic \<Rightarrow> pure Panic
       | Undefined \<Rightarrow> pure Undefined))))))"

definition detach_uprobe ::
    "kernel \<Rightarrow> UProbe \<Rightarrow> string option \<Rightarrow> u64 \<Rightarrow> string \<Rightarrow> int option \<Rightarrow> UProbe action" where
  "detach_uprobe k p fn_name offset target pid =
     (let keep = (\<lambda>ap. \<not> (ua_fn_name ap = fn_name \<and> ua_offset ap = offset \<and> ua_target ap = target \<and> ua_pid ap = pid))
      in bind (for_each (\<lambda>ap. drop_point k (ua_pfd ap)) (filter (\<lambda>ap. \<not> keep ap) (up_points p))) (\<lambda>_.
         pure (Ok (p\<lparr>up_points := filter keep (up_points p)\<rparr>))))"

text \<open>The perf event of a trace point is kept nowhere.\<close>

definition attach_trace_point :: "kernel \<Rightarrow> TracePoint \<Rightarrow> string \<Rightarrow> string \<Rightarrow> unit action" where
  "attach_trace_point k p category name =
     bind (pure (ok_or (pd_fd (tp_common p)) ProgramNotLoaded)) (\<lambda>fd.
     bind (open_tracepoint_perf_event k category name) (\<lambda>pfd.
     attach_perf_event k fd pfd))"

section \<open>Network programs\<close>

text \<open>The functions \<open>attach_xdp\<close>, \<open>detach_xdp\<close> and \<open>open_raw_sock\<close>\<close>

definition attach_xdp :: "kernel \<Rightarrow> string \<Rightarrow> int \<Rightarrow> u32 \<Rightarrow> unit action" where
  "attach_xdp k dev_name progfd fl =
     bind (pure (unwrap (cstring_new dev_name))) (\<lambda>ciface.
     bind (call k (If_nametoindex ciface)) (\<lambda>i.
       if ret i = 0 then pure (Err (last_os_error i))
       else bind (call k (Set_link_xdp_fd (ret i) progfd fl)) (\<lambda>a.
         if ret a \<noteq> 0 then pure (Err (last_os_error a)) else pure (Ok ()))))"

definition detach_xdp :: "kernel \<Rightarrow> string \<Rightarrow> unit action" where
  "detach_xdp k dev_name = attach_xdp k dev_name (-1) 0"

text \<open>
  \<open>XDP::attach_xdp\<close>. The interface is recorded before it is attached, so the state
  after a failure is returned with the error.
\<close>

definition xdp_attach :: "kernel \<Rightarrow> XDP \<Rightarrow> string \<Rightarrow> u32 \<Rightarrow> (unit result \<times> XDP) action" where
  "xdp_attach k p iface fl =
     (case pd_fd (xdp_common p) of
        None \<Rightarrow> pure (Ok (Err ProgramNotLoaded, p))
      | Some fd \<Rightarrow>
          let p' = p\<lparr>xdp_interfaces := xdp_interfaces p @ [iface]\<rparr>
          in catch (attach_xdp k iface fd fl) (\<lambda>r.
             pure (Ok (case r of Ok _ \<Rightarrow> Ok () | _ \<Rightarrow> Err BPF, p'))))"

text \<open>\<open>Vec::swap_remove\<close>: the last element takes the place of the removed one.\<close>

definition swap_remove :: "nat \<Rightarrow> 'a list \<Rightarrow> 'a list" where
  "swap_remove i xs = (if i = length xs - 1 then butlast xs else butlast (xs[i := last xs]))"

definition position :: "('a \<Rightarrow> bool) \<Rightarrow> 'a list \<Rightarrow> nat option" where
  "position P xs = find (\<lambda>i. P (xs ! i)) [0..<length xs]"

definition xdp_detach :: "kernel \<Rightarrow> XDP \<Rightarrow> string \<Rightarrow> XDP action" where
  "xdp_detach k p iface =
     bind (pure (ok_or (position (\<lambda>v. v = iface) (xdp_interfaces p)) ProgramNotLoaded)) (\<lambda>i.
     bind (detach_xdp k iface) (\<lambda>_.
     pure (Ok (p\<lparr>xdp_interfaces := swap_remove i (xdp_interfaces p)\<rparr>))))"

definition drop_xdp :: "kernel \<Rightarrow> XDP \<Rightarrow> unit action" where
  "drop_xdp k p = for_each (\<lambda>iface. ignore (detach_xdp k iface)) (xdp_interfaces p)"

definition open_raw_sock :: "kernel \<Rightarrow> string \<Rightarrow> RawFd action" where
  "open_raw_sock k name =
     bind (call k Socket_packet) (\<lambda>s.
       if ret s < 0 then pure (Err (last_os_error s))
       else if name = [] then pure (Ok (ret s))
       else bind (pure (unwrap (cstring_new name))) (\<lambda>ciface.
            bind (call k (If_nametoindex ciface)) (\<lambda>i.
              if ret i = 0 then bind (call k (Close (ret s))) (\<lambda>c. pure (Err (last_os_error c)))
              else bind (call k (Bind (ret s) (ret i))) (\<lambda>b.
                if ret b < 0 then bind (call k (Close (ret s))) (\<lambda>c. pure (Err (last_os_error c)))
                else pure (Ok (ret s))))))"

definition attach_socket_filter :: "kernel \<Rightarrow> SocketFilter \<Rightarrow> string \<Rightarrow> RawFd action" where
  "attach_socket_filter k p iface =
     bind (pure (ok_or (pd_fd (sf_common p)) ProgramNotLoaded)) (\<lambda>fd.
     bind (open_raw_sock k iface) (\<lambda>sfd.
     bind (call k (Setsockopt_attach_bpf sfd fd)) (\<lambda>a.
       if ret a < 0 then bind (call k (Close sfd)) (\<lambda>c. pure (Err (last_os_error c)))
       else pure (Ok sfd))))"

definition attach_sk_lookup :: "kernel \<Rightarrow> SkLookup \<Rightarrow> string \<Rightarrow> SkLookup action" where
  "attach_sk_lookup k p namespace =
     (if sl_link p \<noteq> None then pure (Err ProgramAlreadyLinked)
      else bind (pure (ok_or (pd_fd (sl_common p)) ProgramNotLoaded)) (\<lambda>fd.
           bind (pure (cstring_try namespace)) (\<lambda>ns.
           bind (call k (Open ns)) (\<lambda>n.
             if ret n < 0 then pure (Err (last_os_error n))
             else bind (call k (Bpf_link_create fd (ret n) 36)) (\<lambda>l.
               if ret l < 0 then bind (call k (Close (ret n))) (\<lambda>c. pure (Err (last_os_error c)))
               else pure (Ok (p\<lparr>sl_link := Some (ret n, ret l)\<rparr>)))))))"

definition drop_sk_lookup :: "kernel \<Rightarrow> SkLookup \<Rightarrow> unit action" where
  "drop_sk_lookup k p =
     (case sl_link p of
        Some (nfd, lfd) \<Rightarrow> bind (call k (Close lfd)) (\<lambda>_. bind (call k (Close nfd)) (\<lambda>_. pure (Ok ())))
      | None \<Rightarrow> pure (Ok ()))"

text \<open>\<open>StreamParser::attach_sockmap\<close> and \<open>StreamVerdict::attach_sockmap\<close>; not loaded panics.\<close>

definition stream_parser_attach_sockmap :: "kernel \<Rightarrow> StreamParser \<Rightarrow> Map \<Rightarrow> unit action" where
  "stream_parser_attach_sockmap k p sock_map =
     bind (pure (unwrap (pd_fd (spp_common p)))) (\<lambda>fd.
     bind (call k (Bpf_prog_attach fd (map_fd sock_map) 4)) (\<lambda>a.
       if ret a < 0 then pure (Err BPF) else pure (Ok ())))"

definition stream_verdict_attach_sockmap :: "kernel \<Rightarrow> StreamVerdict \<Rightarrow> Map \<Rightarrow> unit action" where
  "stream_verdict_attach_sockmap k p sock_map =
     bind (pure (unwrap (pd_fd (sv_common p)))) (\<lambda>fd.
     bind (call k (Bpf_prog_attach fd (map_fd sock_map) 5)) (\<lambda>a.
       if ret a < 0 then pure (Err BPF) else pure (Ok ())))"

section \<open>Task iterators\<close>

definition create_link :: "kernel \<Rightarrow> TaskIter \<Rightarrow> TaskIter action" where
  "create_link k p =
     bind (pure (unwrap (pd_fd (ti_common p)))) (\<lambda>fd.
     bind (call k (Bpf_link_create fd 0 28)) (\<lambda>l.
       if ret l < 0 then pure (Err BPF) else pure (Ok (p\<lparr>ti_link_fd := Some (ret l)\<rparr>))))"

text \<open>
  \<open>TaskIter::bpf_iter\<close>: the descriptor that \<open>BPFIter\<close> reads from, with the program,
  which keeps a link that was created even when the iterator was not.
\<close>

definition bpf_iter :: "kernel \<Rightarrow> TaskIter \<Rightarrow> (RawFd result \<times> TaskIter) action" where
  "bpf_iter k p =
     (if pd_fd (ti_common p) = None then pure (Ok (Err ProgramNotLoaded, p))
      else catch (if ti_link_fd p = None then create_link k p else pure (Ok p)) (\<lambda>r.
        case r of
          Ok p' \<Rightarrow>
            bind (pure (unwrap (ti_link_fd p'))) (\<lambda>link_fd.
            bind (call k (Bpf_iter_create link_fd)) (\<lambda>a.
            pure (Ok (if ret a < 0 then Err BPF else Ok (ret a), p'))))
        | Err e \<Rightarrow> pure (Ok (Err e, p))
        | Panic \<Rightarrow> pure Panic
        | Undefined \<Rightarrow> pure Undefined))"

definition drop_task_iter :: "kernel \<Rightarrow> TaskIter \<Rightarrow> unit action" where
  "drop_task_iter k p =
     (case ti_link_fd p of
        Some fd \<Rightarrow> bind (call k (Close fd)) (\<lambda>_. pure (Ok ()))
      | None \<Rightarrow> pure (Ok ()))"

text \<open>
  \<open>BPFIter::item\<close>: \<open>read_exact\<close> of one value from what is left to read; the rest is
  the state after it.
\<close>

definition bpf_iter_item :: "'a repr \<Rightarrow> bytes \<Rightarrow> 'a option \<times> bytes" where
  "bpf_iter_item r rest =
     (if size_of r \<le> length rest then (Some (dec_of r (take (size_of r) rest)), drop (size_of r) rest)
      else (None, []))"

section \<open>Dropping a program\<close>

text \<open>\<open>Drop\<close> of the variant, then its fields in the order of their declaration.\<close>

fun drop_program :: "kernel \<Rightarrow> Program \<Rightarrow> unit action" where
  "drop_program k (P_XDP p) = bind (drop_xdp k p) (\<lambda>_. drop_program_data k (xdp_common p))"
| "drop_program k (P_SkLookup p) = bind (drop_sk_lookup k p) (\<lambda>_. drop_program_data k (sl_common p))"
| "drop_program k (P_TaskIter p) = bind (drop_task_iter k p) (\<lambda>_. drop_program_data k (ti_common p))"
| "drop_program k (P_KProbe p) =
     bind (drop_program_data k (kp_common p)) (\<lambda>_. for_each (\<lambda>ap. drop_point k (ka_pfd ap)) (kp_points p))"
| "drop_program k (P_KRetProbe p) =
     bind (drop_program_data k (kp_common p)) (\<lambda>_. for_each (\<lambda>ap. drop_point k (ka_pfd ap)) (kp_points p))"
| "drop_program k (P_UProbe p) =
     bind (drop_program_data k (up_common p)) (\<lambda>_. for_each (\<lambda>ap. drop_point k (ua_pfd ap)) (up_points p))"
| "drop_program k (P_URetProbe p) =
     bind (drop_program_data k (up_common p)) (\<lambda>_. for_each (\<lambda>ap. drop_point k (ua_pfd ap)) (up_points p))"
| "drop_program k p = drop_program_data k (prog_data p)"

end
