(* ===== verification/Program_Life.thy ===== *)
theory Program_Life
  imports Programs
begin

text \<open>
  What holds of the programs of theory \<open>Programs\<close>: the descriptors each one holds and
  a triple for every operation, a step relation over the methods with an invariant
  that accounts for every descriptor, the number and kind of the calls made by \<open>load\<close>,
  and the trace point whose perf event is never closed.
\<close>

section \<open>The descriptors a program holds\<close>

definition data_fds :: "ProgramData \<Rightarrow> RawFd multiset" where
  "data_fds d = mset_set (set_option (pd_fd d))"

fun prog_fds :: "Program \<Rightarrow> RawFd multiset" where
  "prog_fds (P_KProbe p) = data_fds (kp_common p) + mset (map ka_pfd (kp_points p))"
| "prog_fds (P_KRetProbe p) = data_fds (kp_common p) + mset (map ka_pfd (kp_points p))"
| "prog_fds (P_UProbe p) = data_fds (up_common p) + mset (map ua_pfd (up_points p))"
| "prog_fds (P_URetProbe p) = data_fds (up_common p) + mset (map ua_pfd (up_points p))"
| "prog_fds (P_TaskIter p) = data_fds (ti_common p) + mset_set (set_option (ti_link_fd p))"
| "prog_fds (P_SkLookup p) =
     data_fds (sl_common p) + (case sl_link p of Some (n, l) \<Rightarrow> {#n, l#} | None \<Rightarrow> {#})"
| "prog_fds p = data_fds (prog_data p)"

lemma data_fds_simps [simp]:
  "pd_fd d = None \<Longrightarrow> data_fds d = {#}" "pd_fd d = Some fd \<Longrightarrow> data_fds d = {#fd#}"
  by (simp_all add: data_fds_def)

lemma prog_fds_set_fd: "prog_fd p = None \<Longrightarrow> prog_fds (set_fd fd p) = add_mset fd (prog_fds p)"
  by (cases p) (simp_all add: prog_fd_def data_fds_def)

lemma retry_with_memlock_fds:
  assumes "opens c" and "ret first < 0"
  shows "fds B (retry_with_memlock k c first) (\<lambda>a. if 0 \<le> ret a then add_mset (ret a) B else B) E"
  unfolding fds_def
proof
  fix h
  show "\<exists>new. snd (retry_with_memlock k c first h) = h @ new \<and>
      (case fst (retry_with_memlock k c first h) of
         Ok x \<Rightarrow> balanced new B (if 0 \<le> ret x then add_mset (ret x) B else B)
       | Err e \<Rightarrow> balanced new B E | _ \<Rightarrow> True)"
    by (rule retry_with_memlock_calls [OF assms, of k h]) (auto simp: balanced_def)
qed

lemma load_log_loop_fds:
  assumes "prog_fd p = None"
  shows "fds (prog_fds p) (load_log_loop k p attr n) prog_fds (prog_fds p)"
  using assms
proof (induction k p attr n rule: load_log_loop.induct)
  case (1 k p attr n)
  show ?case
  proof (cases "n = 0 \<or> 2 ^ 63 \<le> n")
    case True
    then show ?thesis by (subst load_log_loop.simps) (auto intro: fds_intros)
  next
    case False
    have rec: "fds (prog_fds p) (load_log_loop k p attr (n * 2)) prog_fds (prog_fds p)"
      if "\<not> 0 \<le> ret a" "errno a = ENOSPC" for a :: answer
      by (rule "1.IH" [OF False that "1.prems"])
    have "fds (prog_fds p) (bind (call k (Bpf_load_program attr n)) (\<lambda>a.
        if 0 \<le> ret a then pure (Ok (set_fd (ret a) p))
        else if errno a = ENOSPC then load_log_loop k p attr (n * 2)
        else bind (pure (log_text n (out a))) (\<lambda>_. pure (Err BPF)))) prog_fds (prog_fds p)"
    proof (rule fds_bind_open)
      fix a :: answer assume "0 \<le> ret a"
      then show "fds (add_mset (ret a) (prog_fds p)) (if 0 \<le> ret a then pure (Ok (set_fd (ret a) p))
          else if errno a = ENOSPC then load_log_loop k p attr (n * 2)
          else bind (pure (log_text n (out a))) (\<lambda>_. pure (Err BPF))) prog_fds (prog_fds p)"
        using "1.prems" by (auto intro!: fds_intros prog_fds_set_fd)
    next
      fix a :: answer assume "ret a < 0"
      then show "fds (prog_fds p) (if 0 \<le> ret a then pure (Ok (set_fd (ret a) p))
          else if errno a = ENOSPC then load_log_loop k p attr (n * 2)
          else bind (pure (log_text n (out a))) (\<lambda>_. pure (Err BPF))) prog_fds (prog_fds p)"
        using rec [of a] by (auto intro!: fds_intros fds_bind_quiet)
    qed simp
    then show ?thesis using False by (subst load_log_loop.simps) simp
  qed
qed

lemma program_load_fds: "fds (prog_fds p) (program_load k p v lic) prog_fds (prog_fds p)"
proof (cases "prog_fd p")
  case None
  note s = prog_fds_set_fd [OF None]
  show ?thesis
    unfolding program_load_def Let_def
    by (auto simp: None s intro!: fds_bind_quiet fds_bind_open fds_intros fds_bind [OF retry_with_memlock_fds]
        load_log_loop_fds [OF None] split: if_splits)
qed (simp add: program_load_def fds_intros)

lemma ignore_fds: "quiet m \<Longrightarrow> fds B (ignore m) (\<lambda>_. B) E"
  unfolding ignore_def by (rule fds_catch [OF quietD]) (auto intro: fds_intros)

lemma drop_program_data_fds: "fds (data_fds d + B) (drop_program_data k d) (\<lambda>_. B) E"
  unfolding drop_program_data_def
  by (cases "pd_fd d") (auto intro!: fds_bind_close fds_intros)

lemma drop_program_data_all: "fds (data_fds d) (drop_program_data k d) (\<lambda>_. {#}) E"
  using drop_program_data_fds [of d "{#}"] by simp

lemma drop_point_fds: "fds (add_mset pfd B) (drop_point k pfd) (\<lambda>_. B) E"
  unfolding drop_point_def
  by (rule fds_bind [OF ignore_fds [OF detach_perf_event_quiet]]) (auto intro!: fds_bind_close fds_intros)

lemma for_each_drop_fds:
  "fds (mset (map pfd xs) + B) (for_each (\<lambda>x. drop_point k (pfd x)) xs) (\<lambda>_. B) E"
proof (induction xs)
  case (Cons x xs)
  show ?case using fds_bind [OF drop_point_fds Cons] by simp
qed simp

lemma for_each_quiet: "(\<And>x. quiet (f x)) \<Longrightarrow> quiet (for_each f xs)"
  by (induction xs) (auto intro: quiet_bind)

lemma for_each_ignore_fds: "(\<And>x. quiet (f x)) \<Longrightarrow> fds B (for_each (\<lambda>x. ignore (f x)) xs) (\<lambda>_. B) E"
  by (induction xs) (auto intro: fds_intros fds_bind [OF ignore_fds])

lemma attach_xdp_quiet: "quiet (attach_xdp k d fd fl)"
  unfolding attach_xdp_def by (auto intro!: quiet_bind quiet_call)

lemma detach_xdp_quiet: "quiet (detach_xdp k d)"
  unfolding detach_xdp_def by (rule attach_xdp_quiet)

lemma drop_program_fds: "fds (prog_fds p) (drop_program k p) (\<lambda>_. {#}) E"
proof (cases p)
  case (P_KProbe q)
  then show ?thesis
    using fds_bind [OF drop_program_data_fds for_each_drop_fds [where B = "{#}"]] by fastforce
next
  case (P_KRetProbe q)
  then show ?thesis
    using fds_bind [OF drop_program_data_fds for_each_drop_fds [where B = "{#}"]] by fastforce
next
  case (P_UProbe q)
  then show ?thesis
    using fds_bind [OF drop_program_data_fds for_each_drop_fds [where B = "{#}"]] by fastforce
next
  case (P_URetProbe q)
  then show ?thesis
    using fds_bind [OF drop_program_data_fds for_each_drop_fds [where B = "{#}"]] by fastforce
next
  case (P_XDP q)
  have "fds (data_fds (xdp_common q)) (drop_xdp k q) (\<lambda>_. data_fds (xdp_common q)) E"
    unfolding drop_xdp_def by (rule for_each_ignore_fds) (rule detach_xdp_quiet)
  from fds_bind [OF this drop_program_data_all] P_XDP show ?thesis by simp
next
  case (P_TaskIter q)
  have "fds (prog_fds p) (drop_task_iter k q) (\<lambda>_. data_fds (ti_common q)) E"
    unfolding drop_task_iter_def P_TaskIter
    by (cases "ti_link_fd q") (auto intro!: fds_bind_close fds_intros)
  from fds_bind [OF this drop_program_data_all] P_TaskIter show ?thesis by simp
next
  case (P_SkLookup q)
  have "fds (prog_fds p) (drop_sk_lookup k q) (\<lambda>_. data_fds (sl_common q)) E"
    unfolding drop_sk_lookup_def P_SkLookup
    by (cases "sl_link q") (auto intro!: fds_bind_close fds_intros)
  from fds_bind [OF this drop_program_data_all] P_SkLookup show ?thesis by simp
qed (use drop_program_data_all in simp_all)

text \<open>Attaching and detaching.\<close>

lemma attach_point_fds:
  assumes "G p' = add_mset pfd B"
  shows "fds (add_mset pfd B) (catch (attach_perf_event k fd pfd) (\<lambda>r.
       case r of
         Ok _ \<Rightarrow> pure (Ok p')
       | Err e \<Rightarrow> bind (call k (Close pfd)) (\<lambda>_. pure (Err e))
       | Panic \<Rightarrow> pure Panic
       | Undefined \<Rightarrow> pure Undefined)) G B"
  by (rule fds_catch [OF quietD [OF attach_perf_event_quiet]])
    (use assms in \<open>auto intro!: fds_close_Err fds_intros\<close>)

lemma attach_kprobe_fds:
  "fds (prog_fds (P_KProbe p)) (attach_kprobe k p f off) (\<lambda>p'. prog_fds (P_KProbe p')) (prog_fds (P_KProbe p))"
  unfolding attach_kprobe_def open_kprobe_perf_event_def open_kretprobe_perf_event_def
  by (cases "kp_attach_type p")
    (auto intro!: fds_bind_quiet fds_bind [OF open_event_fds(1)] attach_point_fds)

lemma detach_fds:
  "fds (B + mset (map pfd xs)) (for_each (\<lambda>x. drop_point k (pfd x)) (filter (\<lambda>x. \<not> keep x) xs))
    (\<lambda>_. B + mset (map pfd (filter keep xs))) E"
proof -
  have "mset (map pfd xs) = mset (map pfd (filter (\<lambda>x. \<not> keep x) xs)) + mset (map pfd (filter keep xs))"
    by (induction xs) auto
  then have "B + mset (map pfd xs) =
      mset (map pfd (filter (\<lambda>x. \<not> keep x) xs)) + (B + mset (map pfd (filter keep xs)))"
    by (simp add: add.left_commute)
  then show ?thesis by (simp only: for_each_drop_fds)
qed

lemma detach_kprobe_fds:
  "fds (prog_fds (P_KProbe p)) (detach_kprobe k p f off) (\<lambda>p'. prog_fds (P_KProbe p')) (prog_fds (P_KProbe p))"
  unfolding detach_kprobe_def Let_def prog_fds.simps
  by (rule fds_bind [OF detach_fds]) (rule fds_pure_Ok, simp)

lemma detach_uprobe_fds:
  "fds (prog_fds (P_UProbe p)) (detach_uprobe k p f off t pid) (\<lambda>p'. prog_fds (P_UProbe p')) (prog_fds (P_UProbe p))"
  unfolding detach_uprobe_def Let_def prog_fds.simps
  by (rule fds_bind [OF detach_fds]) (rule fds_pure_Ok, simp)

lemma resolve_proc_maps_lib_quiet: "quiet (resolve_proc_maps_lib k pid lib)"
  unfolding resolve_proc_maps_lib_def proc_maps_libs_def
  by (auto intro!: quiet_catch quiet_bind quiet_call split: outcome.splits option.splits)

lemma uprobe_path_quiet: "quiet (uprobe_path k cache t pid)"
  unfolding uprobe_path_def
  by (auto intro!: quiet_bind resolve_proc_maps_lib_quiet split: option.splits)

lemma uprobe_sym_offset_quiet: "quiet (uprobe_sym_offset k elf_parse p f)"
  unfolding uprobe_sym_offset_def by (auto intro!: quiet_bind quiet_call split: option.splits)

lemma attach_uprobe_fds:
  "fds (prog_fds (P_UProbe p)) (attach_uprobe k cache elf_parse p f off t pid) (\<lambda>p'. prog_fds (P_UProbe p')) (prog_fds (P_UProbe p))"
  unfolding attach_uprobe_def open_uprobe_perf_event_def open_uretprobe_perf_event_def
  by (cases "up_attach_type p")
    (auto intro!: fds_bind_quiet uprobe_path_quiet uprobe_sym_offset_quiet fds_bind [OF open_event_fds(2)] attach_point_fds)

lemma xdp_attach_fds:
  "fds (prog_fds (P_XDP p)) (xdp_attach k p i fl) (\<lambda>(r, p'). prog_fds (P_XDP p')) (prog_fds (P_XDP p))"
  unfolding xdp_attach_def Let_def
  by (auto intro!: fds_catch [OF quietD [OF attach_xdp_quiet]] fds_intros split: option.splits)

lemma xdp_detach_fds:
  "fds (prog_fds (P_XDP p)) (xdp_detach k p i) (\<lambda>p'. prog_fds (P_XDP p')) (prog_fds (P_XDP p))"
  unfolding xdp_detach_def by (auto intro!: fds_bind_quiet detach_xdp_quiet fds_intros)

lemma open_raw_sock_fds: "fds B (open_raw_sock k name) (\<lambda>fd. add_mset fd B) B"
  unfolding open_raw_sock_def
proof (rule fds_bind_open)
  fix s :: answer assume s: "0 \<le> ret s"
  show "fds (add_mset (ret s) B) (if ret s < 0 then pure (Err (last_os_error s))
       else if name = [] then pure (Ok (ret s))
       else bind (pure (unwrap (cstring_new name))) (\<lambda>ciface.
            bind (call k (If_nametoindex ciface)) (\<lambda>i.
              if ret i = 0 then bind (call k (Close (ret s))) (\<lambda>c. pure (Err (last_os_error c)))
              else bind (call k (Bind (ret s) (ret i))) (\<lambda>b.
                if ret b < 0 then bind (call k (Close (ret s))) (\<lambda>c. pure (Err (last_os_error c)))
                else pure (Ok (ret s)))))) (\<lambda>fd. add_mset fd B) B"
    using s by (auto intro!: fds_unwrap fds_close_Err fds_bind_call fds_intros)
qed (auto intro: fds_intros)

lemma attach_sk_lookup_fds:
  "fds (prog_fds (P_SkLookup p)) (attach_sk_lookup k p ns) (\<lambda>p'. prog_fds (P_SkLookup p')) (prog_fds (P_SkLookup p))"
  by (cases "sl_link p")
    (auto simp: attach_sk_lookup_def intro!: fds_bind_quiet fds_bind_open fds_close_Err fds_intros)


lemma attach_socket_filter_fds:
  "fds (prog_fds (P_SocketFilter p)) (attach_socket_filter k p i) (\<lambda>fd. add_mset fd (prog_fds (P_SocketFilter p))) (prog_fds (P_SocketFilter p))"
  unfolding attach_socket_filter_def
  by (auto intro!: fds_bind_quiet fds_bind [OF open_raw_sock_fds] fds_bind_call fds_close_Err fds_intros)

lemma create_link_fds:
  assumes "ti_link_fd p = None"
  shows "fds (prog_fds (P_TaskIter p)) (create_link k p) (\<lambda>p'. prog_fds (P_TaskIter p')) (prog_fds (P_TaskIter p))"
  unfolding create_link_def
  by (rule fds_unwrap, rule fds_bind_open) (use assms in \<open>auto intro!: fds_intros\<close>)

lemma bpf_iter_fds:
  "fds (prog_fds (P_TaskIter p)) (bpf_iter k p)
     (\<lambda>(r, p'). (case r of Ok fd \<Rightarrow> {#fd#} | _ \<Rightarrow> {#}) + prog_fds (P_TaskIter p')) (prog_fds (P_TaskIter p))"
proof -
  have l: "fds (prog_fds (P_TaskIter p)) (if ti_link_fd p = None then create_link k p else pure (Ok p))
      (\<lambda>p'. prog_fds (P_TaskIter p')) (prog_fds (P_TaskIter p))"
    using create_link_fds by (auto intro: fds_intros)
  show ?thesis
  proof (cases "pd_fd (ti_common p)")
    case (Some fd)
    show ?thesis
      unfolding bpf_iter_def Some
      by (simp only: option.distinct if_False, rule fds_catch [OF l])
        (auto simp del: prog_fds.simps intro!: fds_unwrap fds_bind_open fds_intros)
  qed (auto simp: bpf_iter_def intro!: fds_intros)
qed

lemma sockmap_quiet: "quiet (stream_parser_attach_sockmap k q m)" "quiet (stream_verdict_attach_sockmap k v m)"
  unfolding stream_parser_attach_sockmap_def stream_verdict_attach_sockmap_def
  by (auto intro!: quiet_bind quiet_call)

section \<open>Dropping always finishes\<close>

definition always_ok :: "'a action \<Rightarrow> bool" where
  "always_ok m \<longleftrightarrow> (\<forall>h. \<exists>x h'. m h = (Ok x, h'))"

lemma always_ok_simps [simp]: "always_ok (pure (Ok x))" "always_ok (call k c)"
  by (auto simp: always_ok_def pure_def call_def Let_def)

lemma always_ok_bind: "always_ok m \<Longrightarrow> (\<And>x. always_ok (f x)) \<Longrightarrow> always_ok (bind m f)"
  unfolding always_ok_def bind_def by (metis bind_result.simps(1))

lemma always_ok_for_each: "(\<And>x. x \<in> set xs \<Longrightarrow> always_ok (f x)) \<Longrightarrow> always_ok (for_each f xs)"
  by (induction xs) (auto intro!: always_ok_bind)

lemma always_ok_drop_point: "always_ok (drop_point k pfd)"
proof -
  have "always_ok (ignore (detach_perf_event k pfd))"
    by (auto simp: always_ok_def ignore_def catch_def detach_perf_event_def pure_def)
  then show ?thesis unfolding drop_point_def by (intro always_ok_bind) auto
qed

lemma always_ok_detach_xdp:
  "cstring_new iface \<noteq> None \<Longrightarrow> always_ok (ignore (detach_xdp k iface))"
  by (auto simp: always_ok_def ignore_def catch_def detach_xdp_def attach_xdp_def pure_def)

text \<open>The names of the recorded interfaces are C strings: attaching panics on any other.\<close>

fun ifaces_ok :: "Program \<Rightarrow> bool" where
  "ifaces_ok (P_XDP p) = list_all (\<lambda>i. cstring_new i \<noteq> None) (xdp_interfaces p)"
| "ifaces_ok _ = True"

lemma always_ok_drop_data: "always_ok (drop_program_data k d)"
  unfolding drop_program_data_def by (cases "pd_fd d") (auto intro!: always_ok_bind)

lemma drop_program_ok: "ifaces_ok p \<Longrightarrow> always_ok (drop_program k p)"
  by (cases p)
    (auto simp: drop_xdp_def drop_task_iter_def drop_sk_lookup_def list_all_iff split: option.splits
      intro!: always_ok_bind always_ok_drop_data always_ok_for_each always_ok_drop_point always_ok_detach_xdp)

section \<open>What loading returns\<close>

text \<open>
  \<open>load_result p new r\<close>: after the calls \<open>new\<close> the program is loaded with the
  descriptor of the last one, which succeeded, or loading failed. \<open>load_call attr c\<close>:
  the call loads \<open>attr\<close> at some log level or raises the memory limit.
\<close>

definition load_result :: "Program \<Rightarrow> history \<Rightarrow> Program result \<Rightarrow> bool" where
  "load_result p new r \<longleftrightarrow>
     (case r of
        Ok p' \<Rightarrow> new \<noteq> [] \<and> 0 \<le> ret (snd (last new)) \<and> p' = set_fd (ret (snd (last new))) p
      | Err e \<Rightarrow> e = BPF
      | _ \<Rightarrow> True)"

definition load_call :: "bpf_load_program_attr \<Rightarrow> syscall \<Rightarrow> bool" where
  "load_call attr c \<longleftrightarrow> c = Getrlimit_memlock \<or> c = Setrlimit_memlock_infinity \<or>
     (\<exists>lvl m. c = Bpf_load_program (attr\<lparr>lp_log_level := lvl\<rparr>) m)"

lemma load_callI [simp]:
  "load_call attr Getrlimit_memlock" "load_call attr Setrlimit_memlock_infinity"
  "load_call attr (Bpf_load_program (attr\<lparr>lp_log_level := lvl\<rparr>) m)"
  by (auto simp: load_call_def)

lemma load_call_same: "load_call attr (Bpf_load_program attr m)"
  using load_callI(3) [of attr "lp_log_level attr" m] by simp

lemma log_text_no_error: "log_text n bs \<noteq> Err e"
  by (cases "to_str (takeWhile (\<lambda>b. b \<noteq> 0) bs)") (simp_all add: log_text_def)

lemma load_log_loop_step:
  assumes "0 < n" and "n < 2 ^ 63"
  shows "load_log_loop k p attr n h =
    (let a = k h (Bpf_load_program attr n); h1 = h @ [(Bpf_load_program attr n, a)]
     in if 0 \<le> ret a then (Ok (set_fd (ret a) p), h1)
        else if errno a = ENOSPC then load_log_loop k p attr (n * 2) h1
        else bind (pure (log_text n (out a))) (\<lambda>_. pure (Err BPF)) h1)"
  using assms by (subst load_log_loop.simps) (simp add: Let_def)

lemma load_log_loop_run:
  assumes "load_log_loop k p attr n h = (r, h')"
  shows "\<exists>new. h' = h @ new \<and> (\<forall>c \<in> fst ` set new. \<exists>m. c = Bpf_load_program attr m) \<and>
    (new = [] \<or> n * 2 ^ (length new - 1) < 2 ^ 63) \<and> load_result p new r"
  using assms
proof (induction k p attr n arbitrary: h rule: load_log_loop.induct)
  case (1 k p attr n)
  show ?case
  proof (cases "n = 0 \<or> 2 ^ 63 \<le> n")
    case True
    then show ?thesis using "1.prems"
      by (subst (asm) load_log_loop.simps) (auto simp: pure_def load_result_def)
  next
    case False
    let ?c = "Bpf_load_program attr n"
    let ?a = "k h ?c"
    have n: "0 < n" "n < 2 ^ 63" using False by auto
    note eq = "1.prems" [unfolded load_log_loop_step [OF n] Let_def]
    consider (ok) "0 \<le> ret ?a" | (more) "\<not> 0 \<le> ret ?a" "errno ?a = ENOSPC" | (fail) "\<not> 0 \<le> ret ?a" "errno ?a \<noteq> ENOSPC"
      by blast
    then show ?thesis
    proof cases
      case ok
      then show ?thesis using eq n by (intro exI [of _ "[(?c, ?a)]"]) (auto simp: load_result_def)
    next
      case more
      then have "load_log_loop k p attr (n * 2) (h @ [(?c, ?a)]) = (r, h')" using eq by simp
      from "1.IH" [OF False more this] obtain new where new: "h' = (h @ [(?c, ?a)]) @ new"
        "\<forall>c \<in> fst ` set new. \<exists>m. c = Bpf_load_program attr m"
        "new = [] \<or> n * 2 * 2 ^ (length new - 1) < 2 ^ 63" "load_result p new r" by blast
      have "n * 2 ^ length new < 2 ^ 63"
        using new(3) n by (cases new) (auto simp: mult.assoc)
      moreover have "load_result p ((?c, ?a) # new) r"
        using new(4) by (auto simp: load_result_def split: outcome.splits)
      ultimately show ?thesis using new(1,2) by (intro exI [of _ "(?c, ?a) # new"]) auto
    next
      case fail
      then show ?thesis using eq n
        by (intro exI [of _ "[(?c, ?a)]"]; cases "log_text n (out ?a)") (auto simp: load_result_def pure_def log_text_no_error)
    qed
  qed
qed

lemma retry_with_memlock_run:
  "\<exists>b new. retry_with_memlock k c a h = (Ok b, h @ new) \<and> length new \<le> 3 \<and>
     (\<forall>x \<in> fst ` set new. x = c \<or> x = Getrlimit_memlock \<or> x = Setrlimit_memlock_infinity) \<and>
     (b = a \<or> (new \<noteq> [] \<and> last new = (c, b)))"
  by (auto simp: retry_with_memlock_def)

lemma program_load_run:
  assumes "program_load k p v lic h = (r, h')" and "prog_fd p = None"
    and "cstring_try (prog_name p) = Ok cname" and "cstring_try lic = Ok clic"
  defines "attr \<equiv> load_attr p cname clic v"
  shows "\<exists>new. h' = h @ new \<and> length new \<le> 51 \<and>
    (\<forall>c \<in> fst ` set new. load_call attr c) \<and> load_result p new r"
proof -
  let ?c = "Bpf_load_program attr 0"
  let ?a = "k h ?c" and ?h1 = "h @ [(?c, k h ?c)]"
  have eq: "program_load k p v lic h =
      (if 0 \<le> ret ?a then (Ok (set_fd (ret ?a) p), ?h1)
       else bind (retry_with_memlock k ?c ?a) (\<lambda>b.
            if 0 \<le> ret b then pure (Ok (set_fd (ret b) p))
            else load_log_loop k p (attr\<lparr>lp_log_level := 1\<rparr>) (64 * 1024)) ?h1)"
    unfolding attr_def using assms(2-4) by (simp add: program_load_def Let_def)
  show ?thesis
  proof (cases "0 \<le> ret ?a")
    case True
    then show ?thesis using assms(1) eq
      by (intro exI [of _ "[(?c, ?a)]"]) (auto simp: load_result_def load_call_same)
  next
    case False
    obtain b n1 where b: "retry_with_memlock k ?c ?a ?h1 = (Ok b, ?h1 @ n1)" and l1: "length n1 \<le> 3"
      and c1: "\<forall>x \<in> fst ` set n1. x = ?c \<or> x = Getrlimit_memlock \<or> x = Setrlimit_memlock_infinity"
      and b1: "b = ?a \<or> (n1 \<noteq> [] \<and> last n1 = (?c, b))"
      using retry_with_memlock_run by blast
    have c1': "\<forall>x \<in> fst ` set ((?c, ?a) # n1). load_call attr x"
      using c1 load_call_same by auto
    show ?thesis
    proof (cases "0 \<le> ret b")
      case True
      then have "n1 \<noteq> [] \<and> last n1 = (?c, b)" using b1 False by auto
      then have "load_result p ((?c, ?a) # n1) (Ok (set_fd (ret b) p))"
        using True by (simp add: load_result_def)
      moreover have "r = Ok (set_fd (ret b) p)" "h' = h @ (?c, ?a) # n1"
        using assms(1) eq False True b by (simp_all add: bind_def)
      ultimately show ?thesis using l1 c1' by (intro exI [of _ "(?c, ?a) # n1"]) auto
    next
      case F2: False
      have "load_log_loop k p (attr\<lparr>lp_log_level := 1\<rparr>) (64 * 1024) (?h1 @ n1) = (r, h')"
        using assms(1) eq False F2 b by (simp add: bind_def)
      from load_log_loop_run [OF this] obtain n2 where h': "h' = (?h1 @ n1) @ n2"
        and c2: "\<forall>c \<in> fst ` set n2. \<exists>m. c = Bpf_load_program (attr\<lparr>lp_log_level := 1\<rparr>) m"
        and l2: "n2 = [] \<or> 64 * 1024 * 2 ^ (length n2 - 1) < (2 :: nat) ^ 63" and r: "load_result p n2 r" by blast
      have "length n2 \<le> 47"
      proof (rule ccontr)
        assume "\<not> length n2 \<le> 47"
        then have "(2 :: nat) ^ 47 \<le> 2 ^ (length n2 - 1)" by (intro power_increasing) auto
        then have "64 * 1024 * 2 ^ 47 \<le> 64 * 1024 * (2 :: nat) ^ (length n2 - 1)" by simp
        then show False using l2 \<open>\<not> length n2 \<le> 47\<close> by auto
      qed
      moreover have "load_result p ((?c, ?a) # n1 @ n2) r"
        using r by (auto simp: load_result_def split: outcome.splits)
      moreover have "\<forall>x \<in> fst ` set n2. load_call attr x"
        using c2 by fastforce
      ultimately show ?thesis using l1 c1' h'
        by (intro exI [of _ "(?c, ?a) # n1 @ n2"]) auto
    qed
  qed
qed

lemma program_load_variant:
  assumes "program_load k p v lic h = (Ok p', h')"
  shows "\<exists>fd. p' = set_fd fd p"
proof -
  obtain cname clic where "prog_fd p = None" "cstring_try (prog_name p) = Ok cname" "cstring_try lic = Ok clic"
    using assms by (cases "cstring_try (prog_name p)"; cases "cstring_try lic")
      (auto simp: program_load_def pure_def split: if_splits)
  from program_load_run [OF assms this] show ?thesis by (auto simp: load_result_def)
qed

section \<open>The life of a program\<close>

text \<open>
  One call of a method of a program, with the state and the history before and after
  it. A method that fails leaves the program as it was, except where its result says
  otherwise.
\<close>

definition runs_to :: "'a action \<Rightarrow> ('a \<Rightarrow> Program) \<Rightarrow> Program \<Rightarrow> history \<Rightarrow> Program \<Rightarrow> history \<Rightarrow> bool" where
  "runs_to m wrap p h p' h' \<longleftrightarrow>
     (\<exists>x. m h = (Ok x, h') \<and> p' = wrap x) \<or> (\<exists>e. m h = (Err e, h') \<and> p' = p)"

type_synonym prog_state = "Program \<times> RawFd multiset \<times> RawFd multiset \<times> history"

text \<open>
  The second component collects the descriptors that were handed to the caller: the
  socket of a socket filter and the file of a task iterator. The third collects the perf
  events of trace points, which neither the program nor the caller gets to know.
\<close>

definition trace_point_event :: "kernel \<Rightarrow> TracePoint \<Rightarrow> string \<Rightarrow> string \<Rightarrow> history \<Rightarrow> RawFd multiset" where
  "trace_point_event k t c n h =
     (if pd_fd (tp_common t) = None then {#}
      else case fst (open_tracepoint_perf_event k c n h) of Ok pfd \<Rightarrow> {#pfd#} | _ \<Rightarrow> {#})"

inductive prog_step ::
    "kernel \<Rightarrow> (CacheError, CacheEntry list) outcome \<Rightarrow> (bytes \<Rightarrow> Elf result) \<Rightarrow> prog_state \<Rightarrow> prog_state \<Rightarrow> bool"
  for k cache elf_parse where
  load: "runs_to (program_load k p v lic) id p h p' h' \<Longrightarrow>
    prog_step k cache elf_parse (p, G, T, h) (p', G, T, h')"
| attach_kprobe: "runs_to (attach_kprobe k q f off) P_KProbe (P_KProbe q) h p' h' \<Longrightarrow>
    prog_step k cache elf_parse (P_KProbe q, G, T, h) (p', G, T, h')"
| detach_kprobe: "runs_to (detach_kprobe k q f off) P_KProbe (P_KProbe q) h p' h' \<Longrightarrow>
    prog_step k cache elf_parse (P_KProbe q, G, T, h) (p', G, T, h')"
| attach_uprobe: "runs_to (attach_uprobe k cache elf_parse u fn off t pid) P_UProbe (P_UProbe u) h p' h' \<Longrightarrow>
    prog_step k cache elf_parse (P_UProbe u, G, T, h) (p', G, T, h')"
| detach_uprobe: "runs_to (detach_uprobe k u fn off t pid) P_UProbe (P_UProbe u) h p' h' \<Longrightarrow>
    prog_step k cache elf_parse (P_UProbe u, G, T, h) (p', G, T, h')"
| attach_xdp: "xdp_attach k x i fl h = (Ok (r, x'), h') \<Longrightarrow>
    prog_step k cache elf_parse (P_XDP x, G, T, h) (P_XDP x', G, T, h')"
| detach_xdp: "runs_to (xdp_detach k x i) P_XDP (P_XDP x) h p' h' \<Longrightarrow>
    prog_step k cache elf_parse (P_XDP x, G, T, h) (p', G, T, h')"
| attach_socket_filter: "attach_socket_filter k s i h = (Ok fd, h') \<Longrightarrow>
    prog_step k cache elf_parse (P_SocketFilter s, G, T, h) (P_SocketFilter s, add_mset fd G, T, h')"
| attach_socket_filter_error: "attach_socket_filter k s i h = (Err e, h') \<Longrightarrow>
    prog_step k cache elf_parse (P_SocketFilter s, G, T, h) (P_SocketFilter s, G, T, h')"
| attach_sk_lookup: "runs_to (attach_sk_lookup k l ns) P_SkLookup (P_SkLookup l) h p' h' \<Longrightarrow>
    prog_step k cache elf_parse (P_SkLookup l, G, T, h) (p', G, T, h')"
| bpf_iter: "bpf_iter k t h = (Ok (r, t'), h') \<Longrightarrow>
    prog_step k cache elf_parse (P_TaskIter t, G, T, h)
      (P_TaskIter t', (case r of Ok fd \<Rightarrow> {#fd#} | _ \<Rightarrow> {#}) + G, T, h')"
| attach_trace_point: "runs_to (attach_trace_point k tp c n) (\<lambda>_. P_TracePoint tp) (P_TracePoint tp) h p' h' \<Longrightarrow>
    prog_step k cache elf_parse (P_TracePoint tp, G, T, h) (p', G, trace_point_event k tp c n h + T, h')"
| attach_parser: "runs_to (stream_parser_attach_sockmap k sp m) (\<lambda>_. P_StreamParser sp) (P_StreamParser sp) h p' h' \<Longrightarrow>
    prog_step k cache elf_parse (P_StreamParser sp, G, T, h) (p', G, T, h')"
| attach_verdict: "runs_to (stream_verdict_attach_sockmap k sv m) (\<lambda>_. P_StreamVerdict sv) (P_StreamVerdict sv) h p' h' \<Longrightarrow>
    prog_step k cache elf_parse (P_StreamVerdict sv, G, T, h) (p', G, T, h')"

text \<open>
  The ledger: what was opened so far is what was closed, what the program holds, what was
  handed out and what was lost; and only a trace point loses anything.
\<close>

fun ledger :: "prog_state \<Rightarrow> bool" where
  "ledger (p, G, T, h) \<longleftrightarrow> balanced h {#} (prog_fds p + (G + T)) \<and> (T \<noteq> {#} \<longrightarrow> (\<exists>t. p = P_TracePoint t))"

lemma ledger_action:
  assumes "fds B m F E" and "balanced h {#} (B + G)"
  shows "m h = (Ok x, h') \<Longrightarrow> balanced h' {#} (F x + G)" and "m h = (Err e, h') \<Longrightarrow> balanced h' {#} (E + G)"
  by (rule fds_apply [OF assms(1), of h];
      use assms(2) in \<open>auto intro: balanced_trans balanced_frame\<close>)+

lemma ledger_runs_to:
  assumes "fds (prog_fds p) m F (prog_fds p)" and "\<And>x. F x = prog_fds (wrap x)"
    and "runs_to m wrap p h p' h'" and "ledger (p, G, T, h)"
    and "\<And>x t. m h = (Ok x, h') \<Longrightarrow> p = P_TracePoint t \<Longrightarrow> \<exists>t. wrap x = P_TracePoint t"
  shows "ledger (p', G, T, h')"
  using assms ledger_action [OF assms(1)] unfolding runs_to_def by fastforce

text \<open>Whether attaching succeeds or fails after the event was opened, the event is left open and kept nowhere.\<close>

lemma open_then_attach:
  assumes "pd_fd (tp_common p) = Some fd" and "open_tracepoint_perf_event k c n h = (Ok pfd, h1)"
  shows "\<exists>r new1 new2. h1 = h @ new1 \<and> attach_trace_point k p c n h = (r, h @ new1 @ new2) \<and>
    balanced new1 {#} {#pfd#} \<and> opened new2 = {#} \<and> closed new2 = {#}"
proof -
  from open_event_fds(3) [of "{#}" k c n] obtain new1 where "h1 = h @ new1" "balanced new1 {#} {#pfd#}"
    by (rule fds_apply [of _ _ _ _ h]) (use assms(2) in auto)
  moreover have "\<exists>r new2. attach_perf_event k fd pfd h1 = (r, h1 @ new2) \<and> opened new2 = {#} \<and> closed new2 = {#}"
    by (auto simp: attach_perf_event_def pure_def)
  ultimately show ?thesis using assms by (auto simp: attach_trace_point_def bind_def)
qed

lemma attach_trace_point_balance:
  assumes "runs_to (attach_trace_point k t c n) w p h p' h'"
  shows "\<exists>new. h' = h @ new \<and> balanced new {#} (trace_point_event k t c n h)"
proof (cases "pd_fd (tp_common t)")
  case None
  then show ?thesis using assms
    by (auto simp: runs_to_def attach_trace_point_def trace_point_event_def balanced_def)
next
  case (Some fd)
  show ?thesis
  proof (cases "fst (open_tracepoint_perf_event k c n h)")
    case (Ok pfd)
    then obtain h1 where "open_tracepoint_perf_event k c n h = (Ok pfd, h1)" by (metis prod.collapse)
    from open_then_attach [OF Some this] assms Some Ok show ?thesis
      by (force simp: runs_to_def trace_point_event_def balanced_def)
  next
    case (Err e)
    then obtain h1 where h1: "open_tracepoint_perf_event k c n h = (Err e, h1)" by (metis prod.collapse)
    from open_event_fds(3) [of "{#}" k c n] obtain new where "h1 = h @ new" "balanced new {#} {#}"
      by (rule fds_apply [of _ _ _ _ h]) (use h1 in auto)
    with h1 Some assms show ?thesis
      by (auto simp: runs_to_def attach_trace_point_def trace_point_event_def bind_def)
  qed (use Some assms in \<open>cases "open_tracepoint_perf_event k c n h"; auto simp: runs_to_def attach_trace_point_def bind_def\<close>)+
qed

lemma trace_point_kept:
  "program_load k (P_TracePoint t) v lic h = (Ok x, h') \<Longrightarrow> \<exists>t. x = P_TracePoint t"
  using program_load_variant [of k "P_TracePoint t" v lic h x h'] by auto

lemma prog_step_ledger: "prog_step k cache elf_parse s s' \<Longrightarrow> ledger s \<Longrightarrow> ledger s'"
proof (induction rule: prog_step.induct)
  case (attach_xdp x i fl h r x' h' G T)
  then show ?case using ledger_action(1) [OF xdp_attach_fds, of h x "G + T" k i fl "(r, x')" h'] by auto
next
  case (attach_socket_filter s i h fd h' G T)
  then show ?case using ledger_action(1) [OF attach_socket_filter_fds, of h s "G + T" k i fd h'] by auto
next
  case (attach_socket_filter_error s i h e h' G T)
  then show ?case using ledger_action(2) [OF attach_socket_filter_fds, of h s "G + T" k i e h'] by auto
next
  case (bpf_iter t h r t' h' G T)
  then show ?case using ledger_action(1) [OF bpf_iter_fds, of h t "G + T" k "(r, t')" h']
    by (auto simp: add.commute add.left_commute simp del: prog_fds.simps)
next
  case (load p v lic h p' h' G T)
  then show ?case by (intro ledger_runs_to [OF program_load_fds _ load(1)]) (auto dest: trace_point_kept)
next
  case (attach_kprobe q f off h p' h' G T)
  then show ?case by (intro ledger_runs_to [OF attach_kprobe_fds _ attach_kprobe(1)]) auto
next
  case (detach_kprobe q f off h p' h' G T)
  then show ?case by (intro ledger_runs_to [OF detach_kprobe_fds _ detach_kprobe(1)]) auto
next
  case (attach_uprobe u fn off t pid h p' h' G T)
  then show ?case by (intro ledger_runs_to [OF attach_uprobe_fds _ attach_uprobe(1)]) auto
next
  case (detach_uprobe u fn off t pid h p' h' G T)
  then show ?case by (intro ledger_runs_to [OF detach_uprobe_fds _ detach_uprobe(1)]) auto
next
  case (detach_xdp x i h p' h' G T)
  then show ?case by (intro ledger_runs_to [OF xdp_detach_fds _ detach_xdp(1)]) auto
next
  case (attach_sk_lookup l ns h p' h' G T)
  then show ?case by (intro ledger_runs_to [OF attach_sk_lookup_fds _ attach_sk_lookup(1)]) auto
next
  case (attach_parser sp m h p' h' G T)
  then show ?case by (intro ledger_runs_to [OF quietD [OF sockmap_quiet(1)] _ attach_parser(1)]) auto
next
  case (attach_verdict sv m h p' h' G T)
  then show ?case by (intro ledger_runs_to [OF quietD [OF sockmap_quiet(2)] _ attach_verdict(1)]) auto
next
  case (attach_trace_point tp c n h p' h' G T)
  then have "p' = P_TracePoint tp" by (auto simp: runs_to_def)
  moreover obtain new where h': "h' = h @ new" and n: "balanced new {#} (trace_point_event k tp c n h)"
    using attach_trace_point_balance [OF attach_trace_point(1)] by blast
  moreover have "balanced h {#} (prog_fds (P_TracePoint tp) + (G + T))" using attach_trace_point(2) by simp
  from balanced_trans [OF this balanced_frame [OF n, of "prog_fds (P_TracePoint tp) + (G + T)", unfolded add_0]]
  have "balanced h' {#} (trace_point_event k tp c n h + (prog_fds (P_TracePoint tp) + (G + T)))" by (simp add: h')
  ultimately show ?case by (simp add: ac_simps)
qed

lemma ifaces_ok_set_fd: "ifaces_ok (set_fd fd p) = ifaces_ok p"
  by (cases p) simp_all

lemma xdp_attach_ifaces:
  assumes "xdp_attach k x i fl h = (Ok (r, x'), h')" and "ifaces_ok (P_XDP x)"
  shows "ifaces_ok (P_XDP x')"
  using assms by (cases "cstring_new i")
    (auto simp: xdp_attach_def attach_xdp_def catch_def pure_def split: option.splits if_splits)

lemma swap_remove_subset: "set (swap_remove i xs) \<subseteq> set xs"
proof (cases "xs = []")
  case False
  then have "set (xs[i := last xs]) \<subseteq> set xs" using set_update_subset_insert [of xs i "last xs"] by auto
  then show ?thesis by (auto simp: swap_remove_def dest!: in_set_butlastD)
qed (simp add: swap_remove_def)


lemma xdp_detach_ifaces:
  assumes "xdp_detach k x i h = (Ok x', h')" and "ifaces_ok (P_XDP x)"
  shows "ifaces_ok (P_XDP x')"
proof -
  obtain j where "x' = x\<lparr>xdp_interfaces := swap_remove j (xdp_interfaces x)\<rparr>"
    using assms(1)
    by (cases "position (\<lambda>v. v = i) (xdp_interfaces x)"; cases "detach_xdp k i h"; cases "fst (detach_xdp k i h)")
      (auto simp: xdp_detach_def pure_def bind_def)
  then show ?thesis using assms(2) swap_remove_subset [of j "xdp_interfaces x"] by (auto simp: list_all_iff)
qed

lemma prog_step_ifaces: "prog_step k cache elf_parse s s' \<Longrightarrow> ifaces_ok (fst s) \<Longrightarrow> ifaces_ok (fst s')"
proof (induction rule: prog_step.induct)
  case (load p v lic h p' h' G T)
  then show ?case using program_load_variant by (fastforce simp: runs_to_def ifaces_ok_set_fd)
next
  case (attach_xdp x i fl h r x' h' G T)
  then show ?case using xdp_attach_ifaces by fastforce
next
  case (detach_xdp x i h p' h' G T)
  then show ?case using xdp_detach_ifaces by (fastforce simp: runs_to_def)
qed (auto simp: runs_to_def)

lemma reachable_prog:
  assumes "(prog_step k cache elf_parse)\<^sup>*\<^sup>* s s'" and "ledger s" and "ifaces_ok (fst s)"
  shows "ledger s' \<and> ifaces_ok (fst s')"
  using assms by (induction rule: rtranclp_induct) (auto intro: prog_step_ledger prog_step_ifaces)

lemma program_fresh:
  "program_new rd kind name code = Ok p \<or> program_with_btf rd kind name code btf = Ok p \<Longrightarrow>
   prog_fds p = {#} \<and> ifaces_ok p"
  by (cases "rd code"; cases "find_type_id (types btf) ''bpf_iter_task'' K_Function")
    (auto simp: program_new_def program_with_btf_def Let_def and_then_eq_Ok split: if_splits)

text \<open>
  C3: whatever the kernel answers and in whatever order the methods of a program are
  called (load, attach and detach of every kind of program, returning a value or an
  error), dropping it in the end always finishes, and then every descriptor opened since
  the program was made has been closed exactly once, except those handed to the caller
  and the perf events that \<open>attach_trace_point\<close> opened, which stay open; a program
  that is no trace point has none of these. A method that panics ends the sequence.
\<close>

theorem program_lifetime:
  assumes "program_new rd kind name code = Ok p0 \<or> program_with_btf rd kind name code btf = Ok p0"
    and "(prog_step k cache elf_parse)\<^sup>*\<^sup>* (p0, {#}, {#}, []) (p, G, T, h)"
  shows "\<exists>h'. drop_program k p h = (Ok (), h') \<and> opened h' = closed h' + G + T \<and>
    ((\<forall>t. p \<noteq> P_TracePoint t) \<longrightarrow> T = {#})"
proof -
  have l: "ledger (p, G, T, h)" "ifaces_ok p"
    using reachable_prog [OF assms(2)] program_fresh [OF assms(1)] by auto
  obtain h' where d: "drop_program k p h = (Ok (), h')"
    using drop_program_ok [OF l(2), of k] by (auto simp: always_ok_def)
  have "balanced h' {#} ({#} + (G + T))"
    using ledger_action(1) [OF drop_program_fds, of h p "G + T" k _ h'] l(1) d by simp
  then show ?thesis using d l(1) by (auto simp: balanced_def)
qed

definition sample_prog_kernel :: kernel where
  "sample_prog_kernel h c = \<lparr>ret = (case c of Bpf_load_program _ _ \<Rightarrow> 9 | _ \<Rightarrow> 0), errno = 0, out = []\<rparr>"

definition sample_kprobe :: Program where
  "sample_kprobe = P_KProbe \<lparr>kp_common = \<lparr>pd_name = ''f'', pd_code = [], pd_fd = None\<rparr>,
     kp_attach_type = Entry, kp_points = []\<rparr>"

lemma sample_kprobe_loads:
  "\<exists>h. program_load sample_prog_kernel sample_kprobe 0 ''GPL'' [] = (Ok (set_fd 9 sample_kprobe), h)"
  by (simp add: program_load_def sample_kprobe_def prog_fd_def prog_name_def cstring_try_def cstring_new_def
      as_bytes_def sample_prog_kernel_def Let_def)

theorem program_lifetime_witness:
  "\<exists>h h'. program_load sample_prog_kernel sample_kprobe 0 ''GPL'' [] = (Ok (set_fd 9 sample_kprobe), h) \<and>
     drop_program sample_prog_kernel (set_fd 9 sample_kprobe) h = (Ok (), h') \<and> opened h' = closed h' + {#} + {#}"
proof -
  obtain h where h: "program_load sample_prog_kernel sample_kprobe 0 ''GPL'' [] = (Ok (set_fd 9 sample_kprobe), h)"
    using sample_kprobe_loads by blast
  have "program_new (\<lambda>_. Ok []) ''kprobe'' ''f'' [] = Ok sample_kprobe"
    by (simp add: program_new_def sample_kprobe_def)
  moreover have "prog_step sample_prog_kernel (Ok []) (\<lambda>_. Err ElfError) (sample_kprobe, {#}, {#}, []) (set_fd 9 sample_kprobe, {#}, {#}, h)"
    using h by (intro prog_step.load [where v = 0 and lic = "''GPL''"]) (simp add: runs_to_def)
  ultimately show ?thesis
    using h program_lifetime [of "\<lambda>_. Ok []" "''kprobe''" "''f''" "[]" sample_kprobe undefined sample_prog_kernel
      "Ok []" "\<lambda>_. Err ElfError" "set_fd 9 sample_kprobe" "{#}" "{#}" h] by blast
qed



text \<open>
  A trace point's perf event is never closed: whether attaching succeeds or fails
  after the event was opened, its descriptor is neither closed nor kept by the program.
\<close>

theorem attach_trace_point_leaks:
  assumes "pd_fd (tp_common p) = Some fd" and "open_tracepoint_perf_event k c n h = (Ok pfd, h1)"
  shows "\<exists>r new1 new2. h1 = h @ new1 \<and> attach_trace_point k p c n h = (r, h @ new1 @ new2) \<and>
    balanced new1 {#} {#pfd#} \<and> opened new2 = {#} \<and> closed new2 = {#}"
  using assms by (rule open_then_attach)

definition sample_tp_kernel :: kernel where
  "sample_tp_kernel h c = \<lparr>ret = (case c of Perf_event_open _ _ _ _ _ \<Rightarrow> 5 | _ \<Rightarrow> 0), errno = 0,
     out = (case c of Read_file _ \<Rightarrow> as_bytes ''7'' | _ \<Rightarrow> [])\<rparr>"

theorem attach_trace_point_leaks_witness:
  "\<exists>r h1 new. attach_trace_point sample_tp_kernel \<lparr>tp_common = \<lparr>pd_name = ''t'', pd_code = [], pd_fd = Some 4\<rparr>\<rparr> ''c'' ''n'' [] = (r, h1 @ new) \<and>
     balanced h1 {#} {#5#} \<and> closed new = {#}"
proof -
  have "to_str (as_bytes ''7'') = Some ''7''"
    by (subst to_str_def, subst (1 2) to_string_lossy_as_bytes) (simp_all add: ascii_def)
  then have "\<exists>h1. open_tracepoint_perf_event sample_tp_kernel ''c'' ''n'' [] = (Ok 5, h1)"
    by (simp add: open_tracepoint_perf_event_def read_to_string_expect_def sample_tp_kernel_def bind_def pure_def
        parse_i32_def parse_unsigned_def parse_digits_def char_digit_def)
  then obtain h1 where h1: "open_tracepoint_perf_event sample_tp_kernel ''c'' ''n'' [] = (Ok 5, h1)" by blast
  from attach_trace_point_leaks [OF _ h1, of "\<lparr>tp_common = \<lparr>pd_name = ''t'', pd_code = [], pd_fd = Some 4\<rparr>\<rparr>" 4]
  show ?thesis by auto
qed

end
