(* ===== verification/Uname.thy ===== *)
theory Uname
  imports Cpus
begin

text \<open>
  The kernel version of \<open>bpf-sys/src/uname.rs\<close>: \<open>parse_version\<close>,
  \<open>parse_version_signature\<close>, \<open>get_kernel_internal_version\<close>, \<open>get_fqdn\<close>. The
  system call \<open>uname\<close> and the file \<open>/proc/version_signature\<close> are parameters.
  The lemmas show that a printed version is parsed back whatever suffix follows it,
  and for which versions the packed number is unambiguous.
\<close>

record utsname =
  nodename :: bytes
  release :: bytes
  domainname :: bytes

text \<open>\<open>libc::uname\<close> returns a negative number on failure; the buffer it filled is the second part.\<close>

definition uname :: "int \<times> utsname \<Rightarrow> (unit, utsname) outcome" where
  "uname sys = (if fst sys < 0 then Err () else Ok (snd sys))"

text \<open>\<open>uname::to_str\<close>: a C string inside the array, taken as UTF-8 unchecked.\<close>

definition c_chars_to_str :: "bytes \<Rightarrow> string result" where
  "c_chars_to_str bs = and_then (cstr_at bs 0) from_utf8_unchecked"

definition parse_version_signature :: "string \<Rightarrow> string option" where
  "parse_version_signature signature =
     (let parts = split_on CHR '' '' signature
      in if length parts \<noteq> 3 then None else Some (last parts))"

abbreviation parse_u32 :: "string \<Rightarrow> nat option" where
  "parse_u32 \<equiv> parse_unsigned (2 ^ 32)"

definition parse_version :: "string \<Rightarrow> (u32 \<times> u32 \<times> u32) option" where
  "parse_version version =
     (let v1 = hd (splitn 2 CHR ''-'' version);
          v2 = hd (splitn 2 CHR ''+'' v1);
          parts = List.map_filter parse_u32 (splitn 3 CHR ''.'' v2)
      in if length parts \<noteq> 3 then None
         else Some (of_nat (parts ! 0), of_nat (parts ! 1), of_nat (parts ! 2)))"

text \<open>\<open>major << 16 | minor << 8 | patch\<close>\<close>

definition version_code :: "u32 \<times> u32 \<times> u32 \<Rightarrow> u32" where
  "version_code v = (case v of (major, minor, patch) \<Rightarrow> (push_bit 16 major OR push_bit 8 minor) OR patch)"

definition get_kernel_internal_version ::
    "(string \<Rightarrow> string option) \<Rightarrow> int \<times> utsname \<Rightarrow> u32 option result" where
  "get_kernel_internal_version read_to_string sys =
     (case read_to_string ''/proc/version_signature'' of
        Some sig \<Rightarrow>
          (case parse_version_signature (trim sig) of
             None \<Rightarrow> Ok None
           | Some version \<Rightarrow> Ok (map_option version_code (parse_version version)))
      | None \<Rightarrow>
          (case uname sys of
             Ok u \<Rightarrow> and_then (c_chars_to_str (release u))
                       (\<lambda>version. Ok (map_option version_code (parse_version version)))
           | _ \<Rightarrow> Ok None))"

definition get_fqdn :: "int \<times> utsname \<Rightarrow> string option result" where
  "get_fqdn sys =
     (case uname sys of
        Ok u \<Rightarrow>
          and_then (c_chars_to_str (nodename u)) (\<lambda>hostname.
          and_then (c_chars_to_str (domainname u)) (\<lambda>domain.
          Ok (Some (if domain \<noteq> ''(none)'' then hostname @ ''.'' @ domain else hostname))))
      | _ \<Rightarrow> Ok None)"

section \<open>Printed versions\<close>

definition show_version :: "nat \<Rightarrow> nat \<Rightarrow> nat \<Rightarrow> string" where
  "show_version major minor patch = show_nat major @ ''.'' @ show_nat minor @ ''.'' @ show_nat patch"

text \<open>What may follow the number: nothing, or anything from the first dash or plus on.\<close>

definition version_suffix :: "string \<Rightarrow> bool" where
  "version_suffix s \<longleftrightarrow> (case s of [] \<Rightarrow> True | c # _ \<Rightarrow> c = CHR ''-'' \<or> c = CHR ''+'')"

lemma show_version_no:
  "c = CHR ''-'' \<or> c = CHR ''+'' \<Longrightarrow> c \<notin> set (show_version a b d)"
  by (auto simp: show_version_def show_nat_no_sep)

lemma takeWhile_until: "c \<notin> set v \<Longrightarrow> takeWhile (\<lambda>x. x \<noteq> c) (v @ c # t) = v"
  by (induction v) auto

lemma takeWhile_never: "c \<notin> set v \<Longrightarrow> takeWhile (\<lambda>x. x \<noteq> c) v = v"
  by (induction v) auto

lemma hd_splitn_2: "hd (splitn 2 c s) = takeWhile (\<lambda>x. x \<noteq> c) s"
proof (cases "c \<in> set s")
  case False
  then show ?thesis using takeWhile_never [OF False] by (simp only: numeral_2_eq_2 splitn.simps if_False list.sel)
qed (simp add: numeral_2_eq_2)

lemma strip_suffix:
  assumes "version_suffix suffix" and "CHR ''-'' \<notin> set v" and "CHR ''+'' \<notin> set v"
  shows "hd (splitn 2 CHR ''+'' (hd (splitn 2 CHR ''-'' (v @ suffix)))) = v"
proof -
  have "takeWhile (\<lambda>x. x \<noteq> CHR ''-'') (v @ suffix) = v @ takeWhile (\<lambda>x. x \<noteq> CHR ''-'') suffix"
    using assms(2) by (intro takeWhile_append2) auto
  moreover consider "suffix = []" | t where "suffix = CHR ''-'' # t" | t where "suffix = CHR ''+'' # t"
    using assms(1) by (cases suffix) (auto simp: version_suffix_def)
  then have "takeWhile (\<lambda>x. x \<noteq> CHR ''+'') (v @ takeWhile (\<lambda>x. x \<noteq> CHR ''-'') suffix) = v"
    by cases (simp_all add: takeWhile_until takeWhile_never assms(3) del: takeWhile_eq_all_conv)
  ultimately show ?thesis by (simp add: hd_splitn_2)
qed

lemma splitn_show_version:
  "splitn 3 CHR ''.'' (show_version a b c) = [show_nat a, show_nat b, show_nat c]"
proof -
  have no: "CHR ''.'' \<notin> set (show_nat n)" for n by (simp add: show_nat_no_sep)
  show ?thesis
    using splitn_append_sep [OF no, of 1 a "show_nat b @ ''.'' @ show_nat c"]
      splitn_append_sep [OF no, of 0 b "show_nat c"]
    by (simp add: show_version_def numeral_3_eq_3)
qed

text \<open>
  A version printed as three decimal numbers that fit in 32 bits is parsed back,
  whatever follows from the first dash or plus on (\<open>-generic\<close>, \<open>+\<close>, ...).
\<close>

theorem parse_version_roundtrip:
  assumes "major < 2 ^ 32" and "minor < 2 ^ 32" and "patch < 2 ^ 32" and "version_suffix suffix"
  shows "parse_version (show_version major minor patch @ suffix) =
    Some (of_nat major, of_nat minor, of_nat patch)"
proof -
  have "hd (splitn 2 CHR ''+'' (hd (splitn 2 CHR ''-'' (show_version major minor patch @ suffix))))
      = show_version major minor patch"
    by (rule strip_suffix [OF assms(4)]) (simp_all add: show_version_no)
  then show ?thesis
    using assms(1-3) by (simp add: parse_version_def splitn_show_version List.map_filter_def)
qed

theorem parse_version_roundtrip_witness:
  "parse_version ''4.15.1-generic-foo'' = Some (4, 15, 1)"
proof -
  have "show_version 4 15 1 @ ''-generic-foo'' = ''4.15.1-generic-foo''"
    by (simp add: show_version_def show_nat.simps digit_char_def char_of_def bit_0)
  then show ?thesis
    using parse_version_roundtrip [of 4 15 1 "''-generic-foo''"] by (simp add: version_suffix_def)
qed

text \<open>Below the field widths the packed number is the sum and loses nothing.\<close>

lemma version_code_sum:
  assumes "unat a < 2 ^ 16" and "unat b < 2 ^ 8" and "unat c < 2 ^ 8"
  shows "unat (version_code (a, b, c)) = unat a * 65536 + unat b * 256 + unat c"
proof -
  have b: "\<not> bit b i" and c: "\<not> bit c i" if "8 \<le> i" for i
    using small_word_bit assms(2,3) that by blast+
  have "push_bit 16 a AND push_bit 8 b = 0" "(push_bit 16 a OR push_bit 8 b) AND c = 0"
    by (rule bit_word_eqI; auto simp: bit_simps b c)+
  then have "version_code (a, b, c) = push_bit 16 a + push_bit 8 b + c"
    by (simp add: version_code_def disjunctive_add_eq_or)
  then show ?thesis
    using assms by (simp add: unat_word_ariths push_bit_eq_mult)
qed

lemma base256: "c < 256 \<Longrightarrow> c' < 256 \<Longrightarrow> x * 256 + c = x' * 256 + (c' :: nat) \<Longrightarrow> x = x' \<and> c = c'"
proof -
  assume c: "c < 256" "c' < 256" and eq: "x * 256 + c = x' * 256 + c'"
  have "(x * 256 + c) div 256 = x" "(x * 256 + c) mod 256 = c"
    "(x' * 256 + c') div 256 = x'" "(x' * 256 + c') mod 256 = c'"
    using c by simp_all
  then show ?thesis using eq by metis
qed

text \<open>
  The packed version numbers of two versions are equal only if the versions are,
  as long as the second and third part are below 256 and the first below 65536; with
  a third part of 256 a version gets the number of another one.
\<close>

theorem version_code_injective:
  assumes "unat a < 2 ^ 16" "unat b < 2 ^ 8" "unat c < 2 ^ 8"
    and "unat a' < 2 ^ 16" "unat b' < 2 ^ 8" "unat c' < 2 ^ 8"
  shows "(version_code (a, b, c) = version_code (a', b', c') \<longleftrightarrow> (a, b, c) = (a', b', c')) \<and>
    version_code (4, 14, 256) = version_code (4, 15, 0)"
proof -
  have "(a, b, c) = (a', b', c')" if "version_code (a, b, c) = version_code (a', b', c')"
  proof -
    have "unat a * 65536 + unat b * 256 + unat c = unat a' * 65536 + unat b' * 256 + unat c'"
      using that version_code_sum [OF assms(1-3)] version_code_sum [OF assms(4-6)] by simp
    then have "(unat a * 256 + unat b) * 256 + unat c = (unat a' * 256 + unat b') * 256 + unat c'" by simp
    then have "unat a = unat a' \<and> unat b = unat b' \<and> unat c = unat c'"
      using base256 [of "unat c" "unat c'" "unat a * 256 + unat b" "unat a' * 256 + unat b'"]
        base256 [of "unat b" "unat b'" "unat a" "unat a'"] assms by simp
    then show ?thesis by (simp add: unat_inject)
  qed
  moreover have "version_code (4, 14, 256) = version_code (4, 15, 0)" by (simp add: version_code_def)
  ultimately show ?thesis by blast
qed

theorem version_code_injective_witness:
  "version_code (4, 14, 138) \<noteq> version_code (4, 15, 0)"
  using version_code_injective [of 4 14 138 4 15 0] by simp

end
