(* ===== verification/Modules.thy ===== *)
theory Modules
  imports Program_Life Uname
begin

text \<open>
  \<open>Module\<close>, \<open>ModuleBuilder\<close> and \<open>RelocationInfo\<close> of \<open>redbpf/src/lib.rs\<close>: sorting the
  sections of an object file into maps, programs and relocations, making the maps,
  rewriting the programs, replacing a map by an existing one, and the lookups. A
  \<open>HashMap\<close> of the standard library is an association list, and a loop over it goes
  through the list; the theorems about a builder hold for every order of its lists.
\<close>

section \<open>Data\<close>

text \<open>
  What the code takes from other crates and from files: \<open>goblin\<close>'s \<open>Elf::parse\<close>, three
  readers of the \<open>zero\<close> crate, and the two sources of the kernel version.
\<close>

record env =
  elf_parse :: "bytes \<Rightarrow> Elf result"
  zero_read_array :: "bytes \<Rightarrow> bpf_insn list result"
  zero_read_u32 :: "bytes \<Rightarrow> u32 result"
  zero_read_str :: "bytes \<Rightarrow> string result"
  version_file :: "string \<Rightarrow> string option"
  uname_call :: "int \<times> utsname"

record RelocationInfo =
  target_sec_idx :: nat
  rel_offset :: u64
  sym_idx :: nat

record ModuleBuilder =
  bd_object :: Elf
  bd_programs :: "(nat \<times> Program) list"
  bd_map_builders :: "(nat \<times> MapBuilder) list"
  bd_symval_builders :: "(u64 \<times> MapBuilder) list"
  bd_rels :: "RelocationInfo list"
  bd_license :: string
  bd_version :: u32
  bd_btf :: "BTF_data option"

record Module =
  mod_programs :: "Program list"
  mod_maps :: "Map list"
  mod_license :: string
  mod_version :: u32

abbreviation (input) SHT_PROGBITS :: u32 where "SHT_PROGBITS \<equiv> 1"
abbreviation (input) SHT_NOBITS :: u32 where "SHT_NOBITS \<equiv> 8"
abbreviation (input) SHT_REL :: u32 where "SHT_REL \<equiv> 9"

section \<open>Sections\<close>

definition get_section_name :: "Elf \<Rightarrow> SectionHeader \<Rightarrow> string result" where
  "get_section_name object shdr = ok_or (shdr_strtab object (sh_name shdr)) (Section ''Section name not found'')"

definition get_split_section_name :: "Elf \<Rightarrow> SectionHeader \<Rightarrow> nat \<Rightarrow> (string option \<times> string option) result" where
  "get_split_section_name object shdr shndx =
     (case get_section_name object shdr of
        Ok name \<Rightarrow>
          (case splitn 2 CHR ''/'' name of
             [] \<Rightarrow> Ok (None, None)
           | [a] \<Rightarrow> Ok (Some a, None)
           | a # b # _ \<Rightarrow> Ok (Some a, Some b))
      | Err _ \<Rightarrow> Err (Section (''Section name not found: '' @ show_nat shndx))
      | Panic \<Rightarrow> Panic
      | Undefined \<Rightarrow> Undefined)"

definition section_content :: "bytes \<Rightarrow> SectionHeader \<Rightarrow> bytes result" where
  "section_content bs shdr =
     and_then (uadd (sh_offset shdr) (sh_size shdr)) (\<lambda>fin. slice bs (unat (sh_offset shdr)) (unat fin))"

definition get_version :: "env \<Rightarrow> bytes \<Rightarrow> u32 result" where
  "get_version E bs =
     and_then (zero_read_u32 E bs) (\<lambda>version.
       if version = 0xFFFFFFFE
       then and_then (get_kernel_internal_version (version_file E) (uname_call E)) unwrap
       else Ok version)"

definition add_relocation ::
    "RelocationInfo list \<Rightarrow> nat \<Rightarrow> SectionHeader \<Rightarrow> (nat \<times> Rel list) list \<Rightarrow> RelocationInfo list result" where
  "add_relocation rels shndx shdr relocs =
     and_then (unwrap (find (\<lambda>(idx, _). idx = shndx) relocs)) (\<lambda>(_, section_rels).
     Ok (rels @ map (\<lambda>r. \<lparr>target_sec_idx = unat (sh_info shdr), rel_offset = r_offset r, sym_idx = r_sym r\<rparr>)
                  section_rels))"

section \<open>Parsing\<close>

text \<open>The local variables of \<open>ModuleBuilder::parse\<close> that the loop over the sections changes.\<close>

record parse_state =
  ps_rels :: "RelocationInfo list"
  ps_programs :: "(nat \<times> Program) list"
  ps_maps :: "(nat \<times> MapBuilder) list"
  ps_symval :: "(u64 \<times> MapBuilder) list"
  ps_license :: string
  ps_version :: u32
  ps_vmlinux :: "BTF_data option"

text \<open>\<open>if let Ok(ids) = btf.get_map_type_ids(name) { let _ = map_builder.set_btf(ids); }\<close>\<close>

definition try_set_btf :: "BTF_data option \<Rightarrow> string \<Rightarrow> MapBuilder \<Rightarrow> MapBuilder result" where
  "try_set_btf btf name mb =
     (case btf of
        None \<Rightarrow> Ok mb
      | Some b \<Rightarrow>
          (case get_map_type_ids b name of
             Ok ids \<Rightarrow> (case mb_set_btf ids mb of Ok mb' \<Rightarrow> Ok mb' | _ \<Rightarrow> Ok mb)
           | Err _ \<Rightarrow> Ok mb
           | Panic \<Rightarrow> Panic
           | Undefined \<Rightarrow> Undefined))"

text \<open>A section \<open>maps/name\<close>: one map, whose BTF is found by the name of its symbol.\<close>

definition parse_map_section ::
    "Elf \<Rightarrow> BTF_data option \<Rightarrow> nat \<Rightarrow> string \<Rightarrow> bytes \<Rightarrow> MapBuilder result" where
  "parse_map_section object btf shndx name content =
     (let ss = filter (\<lambda>s. st_shndx s = shndx) (syms object)
      in if 1 < length ss then Err MapError
         else and_then (mb_parse name content) (\<lambda>mb.
              case (btf, ss) of
                (Some _, s # _) \<Rightarrow>
                  and_then (ok_or (strtab object (st_name s)) ElfError) (\<lambda>sym_name. try_set_btf btf sym_name mb)
              | _ \<Rightarrow> Ok mb))"

text \<open>The section \<open>maps\<close>: one map per symbol that lies in it.\<close>

fun parse_maps_loop ::
    "Elf \<Rightarrow> BTF_data option \<Rightarrow> bytes \<Rightarrow> Sym list \<Rightarrow> (u64 \<times> MapBuilder) list \<Rightarrow> (u64 \<times> MapBuilder) list result" where
  "parse_maps_loop object btf content [] acc = Ok acc"
| "parse_maps_loop object btf content (s # ss) acc =
     and_then (ok_or (strtab object (st_name s)) ElfError) (\<lambda>name.
     and_then (slice_from content (unat (st_value s))) (\<lambda>cur_content.
     and_then (mb_parse name cur_content) (\<lambda>mb.
     and_then (try_set_btf btf name mb) (\<lambda>mb.
     parse_maps_loop object btf content ss (AList.update (st_value s) mb acc)))))"

definition is_program_kind :: "string \<Rightarrow> bool" where
  "is_program_kind kind \<longleftrightarrow>
     kind \<in> set [''kprobe'', ''kretprobe'', ''uprobe'', ''uretprobe'', ''xdp'', ''socketfilter'',
                ''streamparser'', ''streamverdict'', ''sk_lookup'']"

definition load_vmlinux_btf :: "kernel \<Rightarrow> BTF_data action" where
  "load_vmlinux_btf k =
     bind (call k (Read_file ''/sys/kernel/btf/vmlinux'')) (\<lambda>a.
     pure (parse_vmlinux_btf (\<lambda>_. if ret a < 0 then Err (OsError (errno a)) else Ok (out a))))"

text \<open>
  The body of the loop. The arms of the match that only compute, in the order of the
  source, and the arm of \<open>task_iter\<close>, which reads the kernel's own BTF the first time.
\<close>

definition section_arm ::
    "env \<Rightarrow> Elf \<Rightarrow> BTF_data option \<Rightarrow> parse_state \<Rightarrow> nat \<Rightarrow> SectionHeader \<Rightarrow> string option \<Rightarrow> string option \<Rightarrow> bytes \<Rightarrow>
     parse_state result" where
  "section_arm E object btf st shndx shdr kind name content =
     (if sh_type shdr = SHT_REL then
        and_then (add_relocation (ps_rels st) shndx shdr (shdr_relocs object)) (\<lambda>rels. Ok (st\<lparr>ps_rels := rels\<rparr>))
      else if sh_type shdr = SHT_PROGBITS \<and> kind = Some ''version'' then
        and_then (get_version E content) (\<lambda>v. Ok (st\<lparr>ps_version := v\<rparr>))
      else if sh_type shdr = SHT_PROGBITS \<and> kind = Some ''license'' then
        and_then (zero_read_str E content) (\<lambda>s. Ok (st\<lparr>ps_license := s\<rparr>))
      else if sh_type shdr = SHT_NOBITS \<and> kind = Some ''.bss'' \<and> name = None then
        and_then (mb_with_section_data ''.bss'' content) (\<lambda>mb. Ok (st\<lparr>ps_maps := AList.update shndx mb (ps_maps st)\<rparr>))
      else case (kind, name) of
        (Some kd, None) \<Rightarrow>
          if sh_type shdr = SHT_PROGBITS \<and> (starts_with kd ''.data'' \<or> starts_with kd ''.rodata'') then
            and_then (mb_with_section_data kd content) (\<lambda>mb. Ok (st\<lparr>ps_maps := AList.update shndx mb (ps_maps st)\<rparr>))
          else if sh_type shdr = SHT_PROGBITS \<and> kd = ''maps'' then
            and_then (parse_maps_loop object btf content (filter (\<lambda>s. st_shndx s = shndx) (syms object)) (ps_symval st))
              (\<lambda>sv. Ok (st\<lparr>ps_symval := sv\<rparr>))
          else Ok st
      | (Some kd, Some nm) \<Rightarrow>
          if sh_type shdr = SHT_PROGBITS \<and> kd = ''maps'' then
            and_then (parse_map_section object btf shndx nm content) (\<lambda>mb.
            Ok (st\<lparr>ps_maps := AList.update shndx mb (ps_maps st)\<rparr>))
          else if sh_type shdr = SHT_PROGBITS \<and> is_program_kind kd then
            and_then (program_new (zero_read_array E) kd nm content) (\<lambda>prog.
            Ok (st\<lparr>ps_programs := AList.update shndx prog (ps_programs st)\<rparr>))
          else Ok st
      | _ \<Rightarrow> Ok st)"

definition task_iter_arm ::
    "kernel \<Rightarrow> env \<Rightarrow> parse_state \<Rightarrow> nat \<Rightarrow> string \<Rightarrow> bytes \<Rightarrow> parse_state action" where
  "task_iter_arm k E st shndx name content =
     bind (case ps_vmlinux st of Some b \<Rightarrow> pure (Ok b) | None \<Rightarrow> load_vmlinux_btf k) (\<lambda>vmlinux.
     bind (pure (program_with_btf (zero_read_array E) ''task_iter'' name content vmlinux)) (\<lambda>prog.
     pure (Ok (st\<lparr>ps_vmlinux := Some vmlinux, ps_programs := AList.update shndx prog (ps_programs st)\<rparr>))))"

definition parse_section ::
    "kernel \<Rightarrow> env \<Rightarrow> Elf \<Rightarrow> bytes \<Rightarrow> BTF_data option \<Rightarrow> parse_state \<Rightarrow> nat \<times> SectionHeader \<Rightarrow> parse_state action" where
  "parse_section k E object bs btf st ish =
     (case ish of (shndx, shdr) \<Rightarrow>
       bind (pure (get_split_section_name object shdr shndx)) (\<lambda>(kind, name).
       bind (pure (section_content bs shdr)) (\<lambda>content.
       case name of
         Some nm \<Rightarrow>
           if sh_type shdr = SHT_PROGBITS \<and> kind = Some ''task_iter''
           then task_iter_arm k E st shndx nm content
           else pure (section_arm E object btf st shndx shdr kind name content)
       | None \<Rightarrow> pure (section_arm E object btf st shndx shdr kind name content))))"

fun fold_action :: "('s \<Rightarrow> 'x \<Rightarrow> 's action) \<Rightarrow> 's \<Rightarrow> 'x list \<Rightarrow> 's action" where
  "fold_action f s [] = pure (Ok s)"
| "fold_action f s (x # xs) = bind (f s x) (\<lambda>s'. fold_action f s' xs)"

text \<open>\<open>BTF::load\<close> as an action, and \<open>Drop for BTF\<close>.\<close>

definition btf_load :: "kernel \<Rightarrow> BTF_data \<Rightarrow> BTF_data action" where
  "btf_load k btf =
     (if is_loaded btf then pure (load_btf (\<lambda>_. (0, 0, [])) btf)
      else bind (pure (dump btf)) (\<lambda>raw.
           bind (call k (Bpf_load_btf raw)) (\<lambda>a.
           pure (load_btf (\<lambda>_. (ret a, errno a, out a)) btf))))"

definition drop_btf_opt :: "kernel \<Rightarrow> BTF_data option \<Rightarrow> unit action" where
  "drop_btf_opt k btf =
     (case btf of
        None \<Rightarrow> pure (Ok ())
      | Some b \<Rightarrow> for_each (\<lambda>fd. bind (call k (Close fd)) (\<lambda>_. pure (Ok ()))) (drop_btf b))"

definition optional_btf :: "kernel \<Rightarrow> Elf \<Rightarrow> bytes \<Rightarrow> BTF_data option action" where
  "optional_btf k object bs =
     catch (bind (pure (parse_elf object bs)) (btf_load k)) (\<lambda>r.
     pure (Ok (case r of Ok b \<Rightarrow> Some b | _ \<Rightarrow> None)))"

definition empty_parse_state :: parse_state where
  "empty_parse_state = \<lparr>ps_rels = [], ps_programs = [], ps_maps = [], ps_symval = [], ps_license = [],
                        ps_version = 0, ps_vmlinux = None\<rparr>"

definition module_builder_parse :: "kernel \<Rightarrow> env \<Rightarrow> bytes \<Rightarrow> ModuleBuilder action" where
  "module_builder_parse k E bs =
     bind (pure (elf_parse E bs)) (\<lambda>object.
     bind (optional_btf k object bs) (\<lambda>btf.
     catch (fold_action (parse_section k E object bs btf) empty_parse_state
              (enumerate 0 (section_headers object))) (\<lambda>r.
       case r of
         Ok st \<Rightarrow>
           pure (Ok \<lparr>bd_object = object, bd_programs = ps_programs st, bd_map_builders = ps_maps st,
                     bd_symval_builders = ps_symval st, bd_rels = ps_rels st, bd_license = ps_license st,
                     bd_version = ps_version st, bd_btf = btf\<rparr>)
       | Err e \<Rightarrow> bind (drop_btf_opt k btf) (\<lambda>_. pure (Err e))
       | Panic \<Rightarrow> pure Panic
       | Undefined \<Rightarrow> pure Undefined)))"

section \<open>Relocation\<close>

text \<open>\<open>bpf_insn::set_src_reg\<close> is the setter of a field of the structure.\<close>

abbreviation (input) BPF_PSEUDO_MAP_FD :: u8 where "BPF_PSEUDO_MAP_FD \<equiv> 1"
abbreviation (input) BPF_PSEUDO_MAP_VALUE :: u8 where "BPF_PSEUDO_MAP_VALUE \<equiv> 2"

text \<open>\<open>i32\<close> addition, which panics on overflow\<close>

definition sadd32 :: "u32 \<Rightarrow> u32 \<Rightarrow> u32 result" where
  "sadd32 a b = (if - (2 ^ 31) \<le> sint a + sint b \<and> sint a + sint b < 2 ^ 31 then Ok (a + b) else Panic)"

definition patch_insns :: "bpf_insn list \<Rightarrow> nat \<Rightarrow> Map \<Rightarrow> u64 \<Rightarrow> bpf_insn list result" where
  "patch_insns code idx m st_val =
     and_then (if section_data m then
         and_then (index code idx) (\<lambda>i.
         and_then (index code (idx + 1)) (\<lambda>j.
         and_then (sadd32 (insn_imm i) (ucast st_val)) (\<lambda>imm.
         Ok (code[idx := i\<lparr>insn_src_reg := BPF_PSEUDO_MAP_VALUE\<rparr>, idx + 1 := j\<lparr>insn_imm := imm\<rparr>]))))
       else
         and_then (index code idx) (\<lambda>i. Ok (code[idx := i\<lparr>insn_src_reg := BPF_PSEUDO_MAP_FD\<rparr>])))
     (\<lambda>code. Ok (code[idx := (code ! idx)\<lparr>insn_imm := of_int (map_fd m)\<rparr>]))"

definition rel_insn_idx :: "RelocationInfo \<Rightarrow> nat" where
  "rel_insn_idx rel = unat (rel_offset rel) div 8"

definition upd_code :: "(bpf_insn list \<Rightarrow> bpf_insn list) \<Rightarrow> Program \<Rightarrow> Program" where
  "upd_code f = upd_data (\<lambda>d. d\<lparr>pd_code := f (pd_code d)\<rparr>)"

definition rel_apply ::
    "RelocationInfo \<Rightarrow> (nat \<times> Program) list \<Rightarrow> (nat \<times> Map) list \<Rightarrow> Sym list \<Rightarrow> (nat \<times> Program) list result" where
  "rel_apply rel programs maps symtab =
     and_then (ok_or (map_of programs (target_sec_idx rel)) Reloc) (\<lambda>prog.
     and_then (index symtab (sym_idx rel)) (\<lambda>s.
     and_then (ok_or (map_of maps (st_shndx s)) Reloc) (\<lambda>m.
     and_then (patch_insns (pd_code (prog_data prog)) (rel_insn_idx rel) m (st_value s)) (\<lambda>code.
     Ok (AList.update (target_sec_idx rel) (upd_code (\<lambda>_. code) prog) programs)))))"

definition rel_apply_with_symmap ::
    "RelocationInfo \<Rightarrow> (nat \<times> Program) list \<Rightarrow> (u64 \<times> Map) list \<Rightarrow> Sym list \<Rightarrow> (nat \<times> Program) list result" where
  "rel_apply_with_symmap rel programs symval_to_maps symtab =
     and_then (ok_or (map_of programs (target_sec_idx rel)) Reloc) (\<lambda>prog.
     and_then (index symtab (sym_idx rel)) (\<lambda>s.
     and_then (ok_or (map_of symval_to_maps (st_value s)) Reloc) (\<lambda>m.
     and_then (index (pd_code (prog_data prog)) (rel_insn_idx rel)) (\<lambda>i.
     Ok (AList.update (target_sec_idx rel)
           (upd_code (\<lambda>code. code[rel_insn_idx rel := i\<lparr>insn_src_reg := BPF_PSEUDO_MAP_FD, insn_imm := of_int (map_fd m)\<rparr>]) prog)
           programs)))))"

text \<open>One round of the loop over the relocations: the second kind is tried when the first fails.\<close>

definition relocate ::
    "(nat \<times> Map) list \<Rightarrow> (u64 \<times> Map) list \<Rightarrow> Sym list \<Rightarrow> RelocationInfo \<Rightarrow> (nat \<times> Program) list \<Rightarrow> (nat \<times> Program) list result" where
  "relocate maps symval_to_maps symtab rel programs =
     (if map_of programs (target_sec_idx rel) = None then Ok programs
      else case rel_apply rel programs maps symtab of
             Ok ps \<Rightarrow> Ok ps
           | Err _ \<Rightarrow> rel_apply_with_symmap rel programs symval_to_maps symtab
           | Panic \<Rightarrow> Panic
           | Undefined \<Rightarrow> Undefined)"

fun relocate_all ::
    "(nat \<times> Map) list \<Rightarrow> (u64 \<times> Map) list \<Rightarrow> Sym list \<Rightarrow> RelocationInfo list \<Rightarrow> (nat \<times> Program) list \<Rightarrow> (nat \<times> Program) list result" where
  "relocate_all maps symval_to_maps symtab [] programs = Ok programs"
| "relocate_all maps symval_to_maps symtab (rel # rels) programs =
     and_then (relocate maps symval_to_maps symtab rel programs) (relocate_all maps symval_to_maps symtab rels)"

section \<open>From the builder to the module\<close>

fun drop_builder :: "kernel \<Rightarrow> MapBuilder \<Rightarrow> unit action" where
  "drop_builder k (MB_ExistingMap m) = drop_map k m"
| "drop_builder k _ = pure (Ok ())"

text \<open>
  A loop that makes the maps of some builders, which have distinct keys. When one
  cannot be made, the builders that are left and the maps made so far are dropped.
\<close>

fun make_maps :: "kernel \<Rightarrow> ('key \<times> MapBuilder) list \<Rightarrow> ('key \<times> Map) list \<Rightarrow> ('key \<times> Map) list action" where
  "make_maps k [] acc = pure (Ok acc)"
| "make_maps k ((key, b) # bs) acc =
     catch (mb_to_map k b) (\<lambda>r.
       case r of
         Ok m \<Rightarrow> make_maps k bs (acc @ [(key, m)])
       | Err e \<Rightarrow>
           bind (for_each (drop_builder k) (map snd bs)) (\<lambda>_.
           bind (for_each (drop_map k) (map snd acc)) (\<lambda>_. pure (Err e)))
       | Panic \<Rightarrow> pure Panic
       | Undefined \<Rightarrow> pure Undefined)"

text \<open>
  \<open>ModuleBuilder::to_module\<close>. It takes the builder, so whatever does not go into the
  module is dropped: always the BTF, and everything when it fails.
\<close>

definition to_module :: "kernel \<Rightarrow> ModuleBuilder \<Rightarrow> Module action" where
  "to_module k b =
     catch (make_maps k (bd_map_builders b) []) (\<lambda>r.
       case r of
         Ok maps \<Rightarrow>
           catch (make_maps k (bd_symval_builders b) []) (\<lambda>r.
             case r of
               Ok symval_to_maps \<Rightarrow>
                 (case relocate_all maps symval_to_maps (syms (bd_object b)) (bd_rels b) (bd_programs b) of
                    Ok programs \<Rightarrow>
                      bind (drop_btf_opt k (bd_btf b)) (\<lambda>_.
                      pure (Ok \<lparr>mod_programs = map snd programs, mod_maps = map snd maps @ map snd symval_to_maps,
                                mod_license = bd_license b, mod_version = bd_version b\<rparr>))
                  | Err e \<Rightarrow>
                      bind (for_each (drop_map k) (map snd symval_to_maps)) (\<lambda>_.
                      bind (for_each (drop_map k) (map snd maps)) (\<lambda>_.
                      bind (for_each (drop_program k) (map snd (bd_programs b))) (\<lambda>_.
                      bind (drop_btf_opt k (bd_btf b)) (\<lambda>_. pure (Err e)))))
                  | Panic \<Rightarrow> pure Panic
                  | Undefined \<Rightarrow> pure Undefined)
             | Err e \<Rightarrow>
                 bind (for_each (drop_map k) (map snd maps)) (\<lambda>_.
                 bind (for_each (drop_program k) (map snd (bd_programs b))) (\<lambda>_.
                 bind (drop_btf_opt k (bd_btf b)) (\<lambda>_. pure (Err e))))
             | Panic \<Rightarrow> pure Panic
             | Undefined \<Rightarrow> pure Undefined)
       | Err e \<Rightarrow>
           bind (for_each (drop_program k) (map snd (bd_programs b))) (\<lambda>_.
           bind (for_each (drop_builder k) (map snd (bd_symval_builders b))) (\<lambda>_.
           bind (drop_btf_opt k (bd_btf b)) (\<lambda>_. pure (Err e))))
       | Panic \<Rightarrow> pure Panic
       | Undefined \<Rightarrow> pure Undefined)"

text \<open>The fields of a module are dropped in the order of their declaration.\<close>

definition drop_module :: "kernel \<Rightarrow> Module \<Rightarrow> unit action" where
  "drop_module k M =
     bind (for_each (drop_program k) (mod_programs M)) (\<lambda>_.
     bind (for_each (drop_map k) (mod_maps M)) (\<lambda>_. pure (Ok ())))"

definition module_parse :: "kernel \<Rightarrow> env \<Rightarrow> bytes \<Rightarrow> Module action" where
  "module_parse k E bs = bind (module_builder_parse k E bs) (to_module k)"

section \<open>Replacing a map\<close>

definition same_def :: "bpf_map_def \<Rightarrow> bpf_map_def \<Rightarrow> bool" where
  "same_def d new \<longleftrightarrow>
     md_type d = md_type new \<and> md_key_size d = md_key_size new \<and> md_value_size d = md_value_size new \<and>
     md_max_entries d = md_max_entries new"

fun can_replace :: "MapBuilder \<Rightarrow> Map \<Rightarrow> bool" where
  "can_replace (MB_Normal _ def _) new = same_def def (config new)"
| "can_replace (MB_SectionData _ _) new = section_data new"
| "can_replace (MB_ExistingMap m) new = same_def (config m) (config new)"

text \<open>The builders after the replacement, and the builder that was replaced.\<close>

fun replace_builder :: "string \<Rightarrow> Map \<Rightarrow> (nat \<times> MapBuilder) list \<Rightarrow> ((nat \<times> MapBuilder) list \<times> MapBuilder) result" where
  "replace_builder name new [] = Err MapError"
| "replace_builder name new ((i, b) # bs) =
     (if mb_name b = name then
        (if can_replace b new then Ok ((i, MB_ExistingMap new) # bs, b) else Err MapError)
      else and_then (replace_builder name new bs) (\<lambda>(bs', old). Ok ((i, b) # bs', old)))"

text \<open>The new map is moved in, so it is dropped when it is not used.\<close>

definition replace_map :: "kernel \<Rightarrow> string \<Rightarrow> Map \<Rightarrow> ModuleBuilder \<Rightarrow> ModuleBuilder action" where
  "replace_map k name new b =
     catch (pure (replace_builder name new (bd_map_builders b))) (\<lambda>r.
       case r of
         Ok (bs, old) \<Rightarrow> bind (drop_builder k old) (\<lambda>_. pure (Ok (b\<lparr>bd_map_builders := bs\<rparr>)))
       | Err e \<Rightarrow> bind (drop_map k new) (\<lambda>_. pure (Err e))
       | Panic \<Rightarrow> pure Panic
       | Undefined \<Rightarrow> pure Undefined)"

section \<open>Lookups\<close>

definition module_map :: "Module \<Rightarrow> string \<Rightarrow> Map option" where
  "module_map M name = find (\<lambda>m. map_name m = name) (mod_maps M)"

definition module_program :: "Module \<Rightarrow> string \<Rightarrow> Program option" where
  "module_program M name = find (\<lambda>p. prog_name p = name) (mod_programs M)"

definition kprobes :: "Module \<Rightarrow> KProbe list" where
  "kprobes M = List.map_filter (\<lambda>p. case p of P_KProbe q \<Rightarrow> Some q | P_KRetProbe q \<Rightarrow> Some q | _ \<Rightarrow> None) (mod_programs M)"

definition kprobe_mut :: "Module \<Rightarrow> string \<Rightarrow> KProbe option" where
  "kprobe_mut M name = find (\<lambda>p. pd_name (kp_common p) = name) (kprobes M)"

definition uprobes :: "Module \<Rightarrow> UProbe list" where
  "uprobes M = List.map_filter (\<lambda>p. case p of P_UProbe q \<Rightarrow> Some q | P_URetProbe q \<Rightarrow> Some q | _ \<Rightarrow> None) (mod_programs M)"

definition uprobe_mut :: "Module \<Rightarrow> string \<Rightarrow> UProbe option" where
  "uprobe_mut M name = find (\<lambda>p. pd_name (up_common p) = name) (uprobes M)"

definition xdps :: "Module \<Rightarrow> XDP list" where
  "xdps M = List.map_filter (\<lambda>p. case p of P_XDP q \<Rightarrow> Some q | _ \<Rightarrow> None) (mod_programs M)"

definition xdp_mut :: "Module \<Rightarrow> string \<Rightarrow> XDP option" where
  "xdp_mut M name = find (\<lambda>p. pd_name (xdp_common p) = name) (xdps M)"

definition socket_filters :: "Module \<Rightarrow> SocketFilter list" where
  "socket_filters M = List.map_filter (\<lambda>p. case p of P_SocketFilter q \<Rightarrow> Some q | _ \<Rightarrow> None) (mod_programs M)"

definition socket_filter_mut :: "Module \<Rightarrow> string \<Rightarrow> SocketFilter option" where
  "socket_filter_mut M name = find (\<lambda>p. pd_name (sf_common p) = name) (socket_filters M)"

definition trace_points :: "Module \<Rightarrow> TracePoint list" where
  "trace_points M = List.map_filter (\<lambda>p. case p of P_TracePoint q \<Rightarrow> Some q | _ \<Rightarrow> None) (mod_programs M)"

definition trace_point_mut :: "Module \<Rightarrow> string \<Rightarrow> TracePoint option" where
  "trace_point_mut M name = find (\<lambda>p. pd_name (tp_common p) = name) (trace_points M)"

definition stream_parsers :: "Module \<Rightarrow> StreamParser list" where
  "stream_parsers M = List.map_filter (\<lambda>p. case p of P_StreamParser q \<Rightarrow> Some q | _ \<Rightarrow> None) (mod_programs M)"

definition stream_parser_mut :: "Module \<Rightarrow> string \<Rightarrow> StreamParser option" where
  "stream_parser_mut M name = find (\<lambda>p. pd_name (spp_common p) = name) (stream_parsers M)"

definition stream_verdicts :: "Module \<Rightarrow> StreamVerdict list" where
  "stream_verdicts M = List.map_filter (\<lambda>p. case p of P_StreamVerdict q \<Rightarrow> Some q | _ \<Rightarrow> None) (mod_programs M)"

definition stream_verdict_mut :: "Module \<Rightarrow> string \<Rightarrow> StreamVerdict option" where
  "stream_verdict_mut M name = find (\<lambda>p. pd_name (sv_common p) = name) (stream_verdicts M)"

definition sk_lookups :: "Module \<Rightarrow> SkLookup list" where
  "sk_lookups M = List.map_filter (\<lambda>p. case p of P_SkLookup q \<Rightarrow> Some q | _ \<Rightarrow> None) (mod_programs M)"

definition sk_lookup_mut :: "Module \<Rightarrow> string \<Rightarrow> SkLookup option" where
  "sk_lookup_mut M name = find (\<lambda>p. pd_name (sl_common p) = name) (sk_lookups M)"

definition task_iters :: "Module \<Rightarrow> TaskIter list" where
  "task_iters M = List.map_filter (\<lambda>p. case p of P_TaskIter q \<Rightarrow> Some q | _ \<Rightarrow> None) (mod_programs M)"

definition task_iter_mut :: "Module \<Rightarrow> string \<Rightarrow> TaskIter option" where
  "task_iter_mut M name = find (\<lambda>p. pd_name (ti_common p) = name) (task_iters M)"

end
