(* ===== verification/Module_Facts.thy ===== *)
theory Module_Facts
  imports Modules
begin

text \<open>
  What holds of the modules of theory \<open>Modules\<close>: descriptors are accounted for from the
  object file to the module on every path, relocation patches exactly the instructions
  it must, a map is replaced only by a compatible one, and a parsed builder holds for
  every section what the section stands for.
\<close>

section \<open>Descriptors\<close>

fun mb_fds :: "MapBuilder \<Rightarrow> RawFd multiset" where
  "mb_fds (MB_ExistingMap m) = {#map_fd m#}"
| "mb_fds _ = {#}"

definition maps_fds :: "Map list \<Rightarrow> RawFd multiset" where
  "maps_fds ms = mset (map map_fd ms)"

definition progs_fds :: "Program list \<Rightarrow> RawFd multiset" where
  "progs_fds ps = sum_list (map prog_fds ps)"

definition builders_fds :: "MapBuilder list \<Rightarrow> RawFd multiset" where
  "builders_fds bs = sum_list (map mb_fds bs)"

definition btf_fds :: "BTF_data option \<Rightarrow> RawFd multiset" where
  "btf_fds btf = (case btf of None \<Rightarrow> {#} | Some b \<Rightarrow> mset (drop_btf b))"

definition builder_fds :: "ModuleBuilder \<Rightarrow> RawFd multiset" where
  "builder_fds b =
     progs_fds (map snd (bd_programs b)) + builders_fds (map snd (bd_map_builders b)) +
     builders_fds (map snd (bd_symval_builders b)) + btf_fds (bd_btf b)"

definition module_fds :: "Module \<Rightarrow> RawFd multiset" where
  "module_fds M = progs_fds (mod_programs M) + maps_fds (mod_maps M)"

lemma held_simps [simp]:
  "maps_fds [] = {#}" "maps_fds (m # ms) = add_mset (map_fd m) (maps_fds ms)" "maps_fds (ms @ ms') = maps_fds ms + maps_fds ms'"
  "progs_fds [] = {#}" "progs_fds (p # ps) = prog_fds p + progs_fds ps"
  "builders_fds [] = {#}" "builders_fds (b # bs) = mb_fds b + builders_fds bs"
  by (simp_all add: maps_fds_def progs_fds_def builders_fds_def)

lemma for_each_fds:
  assumes "\<And>x C. fds (held x + C) (f x) (\<lambda>_. C) E"
  shows "fds (sum_list (map held xs) + C) (for_each f xs) (\<lambda>_. C) E"
proof (induction xs)
  case (Cons x xs)
  show ?case using fds_bind [OF assms Cons] by (simp add: add.assoc)
qed (simp add: fds_intros)

lemma drop_map_fds: "fds ({#map_fd m#} + C) (drop_map k m) (\<lambda>_. C) E"
  unfolding drop_map_def by (auto intro!: fds_bind_close fds_intros)

lemma drop_builder_fds: "fds (mb_fds b + C) (drop_builder k b) (\<lambda>_. C) E"
  by (cases b) (simp_all add: drop_map_fds [simplified] fds_intros)

lemma drop_maps_fds: "fds (maps_fds ms + C) (for_each (drop_map k) ms) (\<lambda>_. C) E"
proof -
  have "maps_fds ms = sum_list (map (\<lambda>m. {#map_fd m#}) ms)" by (induction ms) auto
  then show ?thesis by (simp only: for_each_fds drop_map_fds)
qed

lemma drop_builders_fds: "fds (builders_fds bs + C) (for_each (drop_builder k) bs) (\<lambda>_. C) E"
  unfolding builders_fds_def by (rule for_each_fds, rule drop_builder_fds)

lemma fds_frame_no_error:
  assumes "\<And>E. fds B m F E"
  shows "fds (B + C) m (\<lambda>x. F x + C) E"
  unfolding fds_def
proof
  fix h
  have no_error: "m h \<noteq> (Err e, h1)" for e h1
  proof
    assume m: "m h = (Err e, h1)"
    obtain new where "h1 = h @ new" "balanced new B {#}"
      by (rule fds_apply [OF assms [of "{#}"], of h]) (use m in auto)
    moreover obtain new' where "h1 = h @ new'" "balanced new' B {#0#}"
      by (rule fds_apply [OF assms [of "{#0#}"], of h]) (use m in auto)
    ultimately show False by (simp add: balanced_def)
  qed
  show "\<exists>new. snd (m h) = h @ new \<and>
      (case fst (m h) of Ok x \<Rightarrow> balanced new (B + C) (F x + C) | Err e \<Rightarrow> balanced new (B + C) E | _ \<Rightarrow> True)"
    by (rule fds_apply [OF assms [of "{#}"], of h]) (auto simp: no_error intro: balanced_frame)
qed

lemma drop_program_frame: "fds (prog_fds p + C) (drop_program k p) (\<lambda>_. C) E"
  using fds_frame_no_error [OF drop_program_fds, where C = C] by simp

lemma drop_programs_fds: "fds (progs_fds ps + C) (for_each (drop_program k) ps) (\<lambda>_. C) E"
  unfolding progs_fds_def by (rule for_each_fds, rule drop_program_frame)

lemma drop_btf_opt_fds: "fds (btf_fds btf + C) (drop_btf_opt k btf) (\<lambda>_. C) E"
proof (cases btf)
  case (Some b)
  then show ?thesis
    by (cases "btf_fd_opt b")
      (auto simp: drop_btf_opt_def btf_fds_def drop_btf_def intro!: fds_bind fds_intros fds_call_close)
qed (simp add: drop_btf_opt_def btf_fds_def fds_intros)


lemma mb_to_map_fds: "fds (mb_fds b + C) (mb_to_map k b) (\<lambda>m. add_mset (map_fd m) C) C"
  by (cases b) (auto intro!: keeps_fds_triple with_map_def_keeps with_section_data_keeps fds_intros)

lemma make_maps_fds:
  "fds (builders_fds (map snd bs) + maps_fds (map snd acc) + C) (make_maps k bs acc) (\<lambda>ms. maps_fds (map snd ms) + C) C"
proof (induction bs arbitrary: acc)
  case (Cons kb bs)
  obtain key b where kb: "kb = (key, b)" by (cases kb)
  let ?C = "builders_fds (map snd bs) + (maps_fds (map snd acc) + C)"
  have start: "builders_fds (map snd (kb # bs)) + maps_fds (map snd acc) + C = mb_fds b + ?C"
    by (simp add: kb add.assoc)
  have ok: "fds (add_mset (map_fd m) ?C) (make_maps k bs (acc @ [(key, m)])) (\<lambda>ms. maps_fds (map snd ms) + C) C" for m
    using Cons [of "acc @ [(key, m)]"] by (simp add: ac_simps)
  have err: "fds ?C (bind (for_each (drop_builder k) (map snd bs)) (\<lambda>_.
      bind (for_each (drop_map k) (map snd acc)) (\<lambda>_. pure (Err e)))) (\<lambda>ms. maps_fds (map snd ms) + C) C" for e
    by (rule fds_bind [OF drop_builders_fds], rule fds_bind [OF drop_maps_fds]) (rule fds_pure_Err, rule refl)
  show ?case
    unfolding start unfolding kb make_maps.simps
    by (rule fds_catch [OF mb_to_map_fds]) (simp_all add: ok err)
qed (simp add: fds_intros)

lemma prog_fds_upd_code [simp]: "prog_fds (upd_code f p) = prog_fds p"
  by (cases p) (simp_all add: upd_code_def data_fds_def)

lemma relocate_programs:
  assumes "relocate maps svmaps symtab rel programs = Ok ps"
  shows "\<exists>f. ps = programs \<or>
    (\<exists>p. map_of programs (target_sec_idx rel) = Some p \<and> ps = AList.update (target_sec_idx rel) (upd_code f p) programs)"
  using assms
  by (auto simp: relocate_def rel_apply_def rel_apply_with_symmap_def outcome_simps split: if_splits outcome.splits)

lemma progs_fds_update:
  "map_of ps i = Some p \<Longrightarrow> prog_fds p' = prog_fds p \<Longrightarrow> progs_fds (map snd (AList.update i p' ps)) = progs_fds (map snd ps)"
  by (induction ps) (auto split: if_splits)

lemma relocate_fds:
  assumes "relocate maps svmaps symtab rel programs = Ok ps"
  shows "progs_fds (map snd ps) = progs_fds (map snd programs)"
  using relocate_programs [OF assms] progs_fds_update by fastforce

lemma relocate_all_fds:
  "relocate_all maps svmaps symtab rels programs = Ok ps \<Longrightarrow> progs_fds (map snd ps) = progs_fds (map snd programs)"
  by (induction rels arbitrary: programs) (auto simp: outcome_simps relocate_fds)

lemma to_module_fds: "fds (builder_fds b + C) (to_module k b) (\<lambda>M. module_fds M + C) C"
proof -
  let ?P = "progs_fds (map snd (bd_programs b))" and ?S = "builders_fds (map snd (bd_symval_builders b))"
    and ?T = "btf_fds (bd_btf b)"
  have close_all: "fds (?P + (?T + C)) (bind (for_each (drop_program k) (map snd (bd_programs b))) (\<lambda>_.
      bind (drop_btf_opt k (bd_btf b)) (\<lambda>_. pure (Err e)))) (\<lambda>M :: Module. module_fds M + C) C" for e
    by (rule fds_bind [OF drop_programs_fds], rule fds_bind [OF drop_btf_opt_fds]) (rule fds_pure_Err, rule refl)
  have first: "fds (builder_fds b + C) (make_maps k (bd_map_builders b) [])
      (\<lambda>ms. maps_fds (map snd ms) + (?S + (?P + (?T + C)))) (?S + (?P + (?T + C)))"
    using make_maps_fds [of "bd_map_builders b" "[]" "?S + (?P + (?T + C))" k] by (simp add: builder_fds_def ac_simps)
  have second: "fds (maps_fds (map snd maps) + (?S + (?P + (?T + C)))) (make_maps k (bd_symval_builders b) [])
      (\<lambda>ms. maps_fds (map snd ms) + (maps_fds (map snd maps) + (?P + (?T + C)))) (maps_fds (map snd maps) + (?P + (?T + C)))" for maps
    using make_maps_fds [of "bd_symval_builders b" "[]" "maps_fds (map snd maps) + (?P + (?T + C))" k] by (simp add: ac_simps)
  have maps_err: "fds (maps_fds (map snd maps) + (?P + (?T + C))) (bind (for_each (drop_map k) (map snd maps)) (\<lambda>_.
      bind (for_each (drop_program k) (map snd (bd_programs b))) (\<lambda>_.
      bind (drop_btf_opt k (bd_btf b)) (\<lambda>_. pure (Err e))))) (\<lambda>M :: Module. module_fds M + C) C" for maps :: "(nat \<times> Map) list" and e
    by (rule fds_bind [OF drop_maps_fds close_all])
  have start_err: "fds (?S + (?P + (?T + C))) (bind (for_each (drop_program k) (map snd (bd_programs b))) (\<lambda>_.
      bind (for_each (drop_builder k) (map snd (bd_symval_builders b))) (\<lambda>_.
      bind (drop_btf_opt k (bd_btf b)) (\<lambda>_. pure (Err e))))) (\<lambda>M :: Module. module_fds M + C) C" for e
    unfolding add.left_commute [of ?S ?P]
    by (rule fds_bind [OF drop_programs_fds], rule fds_bind [OF drop_builders_fds], rule fds_bind [OF drop_btf_opt_fds])
      (rule fds_pure_Err, rule refl)
  have done_ok: "fds (maps_fds (map snd sv) + (maps_fds (map snd maps) + (?P + (?T + C))))
      (bind (drop_btf_opt k (bd_btf b)) (\<lambda>_. pure (Ok \<lparr>mod_programs = map snd ps, mod_maps = map snd maps @ map snd sv,
          mod_license = bd_license b, mod_version = bd_version b\<rparr>))) (\<lambda>M. module_fds M + C) C"
    if "relocate_all maps sv (syms (bd_object b)) (bd_rels b) (bd_programs b) = Ok ps" for maps sv ps
  proof -
    have "fds (?T + (maps_fds (map snd sv) + (maps_fds (map snd maps) + (?P + C))))
      (bind (drop_btf_opt k (bd_btf b)) (\<lambda>_. pure (Ok \<lparr>mod_programs = map snd ps, mod_maps = map snd maps @ map snd sv,
          mod_license = bd_license b, mod_version = bd_version b\<rparr>))) (\<lambda>M. module_fds M + C) C"
      by (rule fds_bind [OF drop_btf_opt_fds], rule fds_pure_Ok)
        (simp add: module_fds_def relocate_all_fds [OF that] ac_simps)
    then show ?thesis by (simp add: ac_simps)
  qed
  show ?thesis
    unfolding to_module_def
  proof (rule fds_catch [OF first], goal_cases)
    case (1 maps)
    show ?case
    proof (simp only: outcome.case, rule fds_catch [OF second], goal_cases)
      case (1 sv)
      show ?case
        by (cases "relocate_all maps sv (syms (bd_object b)) (bd_rels b) (bd_programs b)")
          (simp_all add: done_ok fds_bind [OF drop_maps_fds maps_err] del: pure_apply)
    qed (simp add: maps_err)
  qed (simp add: start_err)
qed


lemma fds_bind_pure: "(\<And>x. r = Ok x \<Longrightarrow> fds B (g x) G B) \<Longrightarrow> fds B (bind (pure r) g) G B"
  by (cases r) (simp_all add: fds_def)

lemma btf_fds_simps [simp]:
  "btf_fds None = {#}" "btf_fd_opt b = None \<Longrightarrow> btf_fds (Some b) = {#}" "btf_fd_opt b = Some fd \<Longrightarrow> btf_fds (Some b) = {#fd#}"
  by (simp_all add: btf_fds_def drop_btf_def)

lemma btf_load_fds:
  assumes "btf_fd_opt btf = None"
  shows "fds C (btf_load k btf) (\<lambda>b. btf_fds (Some b) + C) C"
proof -
  have "fds C (bind (call k (Bpf_load_btf raw)) (\<lambda>a. pure (load_btf (\<lambda>_. (ret a, errno a, out a)) btf)))
      (\<lambda>b. btf_fds (Some b) + C) C" if "dump btf = Ok raw" for raw
    by (rule fds_bind_open)
      (auto simp: load_btf_def is_loaded_def assms that outcome_simps intro!: fds_pure_Ok split: option.splits intro: fds_pure)
  then show ?thesis by (simp add: btf_load_def is_loaded_def assms fds_bind_pure)
qed

lemma parse_elf_unloaded: "parse_elf object bs = Ok btf \<Longrightarrow> btf_fd_opt btf = None"
  by (auto simp: parse_elf_def fix_datasection_def outcome_simps dest: parse_raw_Ok(5))

lemma optional_btf_fds: "fds C (optional_btf k object bs) (\<lambda>btf. btf_fds btf + C) E"
proof -
  have "fds C (bind (pure (parse_elf object bs)) (btf_load k)) (\<lambda>b. btf_fds (Some b) + C) C"
    by (simp add: fds_bind_pure btf_load_fds parse_elf_unloaded)
  then show ?thesis
    unfolding optional_btf_def by (rule fds_catch) (simp_all add: fds_intros)
qed

text \<open>The programs and the builders that parsing makes hold no descriptor.\<close>

definition hold_nothing :: "('x \<Rightarrow> RawFd multiset) \<Rightarrow> ('key \<times> 'x) list \<Rightarrow> bool" where
  "hold_nothing held xs \<longleftrightarrow> (\<forall>(i, x) \<in> set xs. held x = {#})"

lemma hold_nothing_Nil [simp]: "hold_nothing held []"
  by (simp add: hold_nothing_def)

lemma hold_nothing_update [intro]: "hold_nothing held xs \<Longrightarrow> held x = {#} \<Longrightarrow> hold_nothing held (AList.update i x xs)"
  by (induction xs) (auto simp: hold_nothing_def)

lemma hold_nothing_sum: "hold_nothing held xs \<Longrightarrow> sum_list (map held (map snd xs)) = {#}"
  by (induction xs) (auto simp: hold_nothing_def)

definition fresh_state :: "parse_state \<Rightarrow> bool" where
  "fresh_state st \<longleftrightarrow>
     hold_nothing prog_fds (ps_programs st) \<and> hold_nothing mb_fds (ps_maps st) \<and> hold_nothing mb_fds (ps_symval st)"

lemma program_new_fds: "program_new r kind name code = Ok p \<Longrightarrow> prog_fds p = {#}"
  by (auto simp: program_new_def outcome_simps Let_def split: if_splits)

lemma program_with_btf_fds: "program_with_btf r kind name code btf = Ok p \<Longrightarrow> prog_fds p = {#}"
  by (auto simp: program_with_btf_def outcome_simps Let_def split: if_splits)

lemma mb_parse_fds: "mb_parse name bs = Ok b \<Longrightarrow> mb_fds b = {#}"
  by (auto simp: mb_parse_def outcome_simps)

lemma try_set_btf_fds: "try_set_btf btf name b = Ok b' \<Longrightarrow> mb_fds b = {#} \<Longrightarrow> mb_fds b' = {#}"
  by (cases b) (auto simp: try_set_btf_def split: option.splits outcome.splits)

lemma parse_map_section_fds: "parse_map_section object btf i name bs = Ok b \<Longrightarrow> mb_fds b = {#}"
  by (auto simp: parse_map_section_def outcome_simps Let_def split: if_splits option.splits list.splits
      dest!: mb_parse_fds dest: try_set_btf_fds)

lemma parse_maps_loop_fds:
  "parse_maps_loop object btf bs ss acc = Ok acc' \<Longrightarrow> hold_nothing mb_fds acc \<Longrightarrow> hold_nothing mb_fds acc'"
  by (induction ss arbitrary: acc)
    (auto simp: outcome_simps dest!: mb_parse_fds dest: try_set_btf_fds)

text \<open>\<open>ok_all P r\<close>: the value of \<open>r\<close> satisfies \<open>P\<close>, if there is one.\<close>

definition ok_all :: "('a \<Rightarrow> bool) \<Rightarrow> 'a result \<Rightarrow> bool" where
  "ok_all P r \<longleftrightarrow> (\<forall>x. r = Ok x \<longrightarrow> P x)"

lemma ok_all_rules:
  "P x \<Longrightarrow> ok_all P (Ok x)"
  "(\<And>y. m = Ok y \<Longrightarrow> ok_all P (g y)) \<Longrightarrow> ok_all P (and_then m g)"
  "ok_all P r \<Longrightarrow> ok_all P r' \<Longrightarrow> ok_all P (if c then r else r')"
  "ok_all P r \<Longrightarrow> (\<And>z. ok_all P (q z)) \<Longrightarrow> ok_all P (case v of None \<Rightarrow> r | Some z \<Rightarrow> q z)"
  "(\<And>a b. ok_all P (f a b)) \<Longrightarrow> ok_all P (case ab of (a, b) \<Rightarrow> f a b)"
  by (auto simp: ok_all_def outcome_simps split: if_splits option.splits prod.splits)

lemma fresh_state_updates:
  assumes "fresh_state st"
  shows "fresh_state (st\<lparr>ps_rels := r\<rparr>)" "fresh_state (st\<lparr>ps_version := v\<rparr>)" "fresh_state (st\<lparr>ps_license := l\<rparr>)"
    "fresh_state (st\<lparr>ps_vmlinux := w\<rparr>)"
    "mb_fds b = {#} \<Longrightarrow> fresh_state (st\<lparr>ps_maps := AList.update i b (ps_maps st)\<rparr>)"
    "prog_fds p = {#} \<Longrightarrow> fresh_state (st\<lparr>ps_programs := AList.update i p (ps_programs st)\<rparr>)"
    "hold_nothing mb_fds sv \<Longrightarrow> fresh_state (st\<lparr>ps_symval := sv\<rparr>)"
  using assms by (simp_all add: fresh_state_def hold_nothing_update)

lemma section_arm_fresh: "fresh_state st \<Longrightarrow> ok_all fresh_state (section_arm E object btf st i shdr kind name bs)"
  unfolding section_arm_def
  by (intro ok_all_rules fresh_state_updates; (assumption | erule program_new_fds parse_map_section_fds)?)
    (auto simp: mb_with_section_data_def fresh_state_def intro: parse_maps_loop_fds)

lemma quiet_load_vmlinux_btf: "quiet (load_vmlinux_btf k)"
  unfolding load_vmlinux_btf_def by (intro quiet_bind quiet_call quiet_pure) simp_all

text \<open>\<open>yields m P\<close>: the value that \<open>m\<close> returns satisfies \<open>P\<close>.\<close>

definition yields :: "'a action \<Rightarrow> ('a \<Rightarrow> bool) \<Rightarrow> bool" where
  "yields m P \<longleftrightarrow> (\<forall>h x h'. m h = (Ok x, h') \<longrightarrow> P x)"

lemma yields_pure: "(\<And>x. r = Ok x \<Longrightarrow> P x) \<Longrightarrow> yields (pure r) P"
  by (simp add: yields_def)

lemma bind_eq_Ok: "bind m g h = (Ok y, h') \<longleftrightarrow> (\<exists>x h1. m h = (Ok x, h1) \<and> g x h1 = (Ok y, h'))"
  by (cases "m h"; cases "fst (m h)") (auto simp: bind_def)

lemma yields_bind: "yields m Q \<Longrightarrow> (\<And>x. Q x \<Longrightarrow> yields (g x) P) \<Longrightarrow> yields (bind m g) P"
  unfolding yields_def bind_eq_Ok by blast

lemma yields_bind_pure: "(\<And>x. r = Ok x \<Longrightarrow> yields (g x) P) \<Longrightarrow> yields (bind (pure r) g) P"
  by (rule yields_bind [of _ "\<lambda>x. r = Ok x"]) (simp_all add: yields_pure)

lemma yields_ok_all: "ok_all P r \<Longrightarrow> yields (pure r) P"
  by (simp add: ok_all_def yields_def)

lemma yields_any: "yields m (\<lambda>_. True)"
  by (simp add: yields_def)

lemma task_iter_arm_fresh: "fresh_state st \<Longrightarrow> yields (task_iter_arm k E st i name bs) fresh_state"
  unfolding task_iter_arm_def
  by (rule yields_bind [OF yields_any], rule yields_bind_pure, rule yields_pure)
    (auto simp: fresh_state_def hold_nothing_update dest!: program_with_btf_fds)

lemma parse_section_fresh: "fresh_state st \<Longrightarrow> yields (parse_section k E object bs btf st ish) fresh_state"
  unfolding parse_section_def
  by (auto intro!: yields_bind_pure yields_ok_all task_iter_arm_fresh section_arm_fresh split: prod.split option.split)

lemma parse_section_quiet: "quiet (parse_section k E object bs btf st ish)"
  unfolding parse_section_def task_iter_arm_def
  by (auto intro!: quiet_bind quiet_load_vmlinux_btf split: option.split prod.split)

lemma fold_action_quiet: "(\<And>s x. quiet (f s x)) \<Longrightarrow> quiet (fold_action f s xs)"
  by (induction xs arbitrary: s) (simp_all add: quiet_bind)

lemma fold_action_yields: "(\<And>s x. P s \<Longrightarrow> yields (f s x) P) \<Longrightarrow> P s \<Longrightarrow> yields (fold_action f s xs) P"
  by (induction xs arbitrary: s) (auto intro!: yields_pure yields_bind)


lemma fds_yields: "fds B m F E \<Longrightarrow> yields m P \<Longrightarrow> (\<And>x. P x \<Longrightarrow> G x = F x) \<Longrightarrow> fds B m G E"
  unfolding fds_def
proof
  fix h
  assume "\<forall>h. \<exists>new. snd (m h) = h @ new \<and>
      (case fst (m h) of Ok x \<Rightarrow> balanced new B (F x) | Err e \<Rightarrow> balanced new B E | _ \<Rightarrow> True)"
    and "yields m P" "\<And>x. P x \<Longrightarrow> G x = F x"
  then show "\<exists>new. snd (m h) = h @ new \<and>
      (case fst (m h) of Ok x \<Rightarrow> balanced new B (G x) | Err e \<Rightarrow> balanced new B E | _ \<Rightarrow> True)"
    by (cases "m h"; cases "fst (m h)") (auto simp: yields_def dest!: spec [of _ h])
qed

lemma fresh_state_fds:
  assumes "fresh_state st"
  shows "progs_fds (map snd (ps_programs st)) = {#}" "builders_fds (map snd (ps_maps st)) = {#}"
    "builders_fds (map snd (ps_symval st)) = {#}"
  using assms unfolding fresh_state_def progs_fds_def builders_fds_def by (simp_all only: hold_nothing_sum)

lemma module_builder_parse_fds: "fds C (module_builder_parse k E bs) (\<lambda>b. builder_fds b + C) C"
proof -
  let ?fold = "\<lambda>object btf. fold_action (parse_section k E object bs btf) empty_parse_state
      (enumerate 0 (section_headers object))"
  let ?fin = "\<lambda>object btf r. case r of
         Ok st \<Rightarrow>
           pure (Ok \<lparr>bd_object = object, bd_programs = ps_programs st, bd_map_builders = ps_maps st,
                     bd_symval_builders = ps_symval st, bd_rels = ps_rels st, bd_license = ps_license st,
                     bd_version = ps_version st, bd_btf = btf\<rparr>)
       | Err e \<Rightarrow> bind (drop_btf_opt k btf) (\<lambda>_. pure (Err e))
       | Panic \<Rightarrow> pure Panic
       | Undefined \<Rightarrow> pure Undefined"
  have fresh: "yields (?fold object btf) fresh_state" for object btf
    by (rule fold_action_yields) (simp_all add: parse_section_fresh, simp add: fresh_state_def empty_parse_state_def)
  have "fds (btf_fds btf + C) (catch (?fold object btf) (?fin object btf)) (\<lambda>b. builder_fds b + C) C" for object btf
  proof -
    have q: "quiet (?fold object btf)" by (intro fold_action_quiet parse_section_quiet)
    have "fds (btf_fds btf + C) (?fold object btf)
        (\<lambda>st. progs_fds (map snd (ps_programs st)) + builders_fds (map snd (ps_maps st)) +
              builders_fds (map snd (ps_symval st)) + btf_fds btf + C) (btf_fds btf + C)"
      by (rule fds_yields [OF quietD [OF q] fresh]) (simp add: fresh_state_fds)
    then show ?thesis
      by (rule fds_catch) (auto simp: builder_fds_def intro!: fds_bind [OF drop_btf_opt_fds] fds_intros)
  qed
  then show ?thesis
    unfolding module_builder_parse_def by (intro fds_bind_pure fds_bind [OF optional_btf_fds])
qed


lemma module_parse_fds: "fds C (module_parse k E bs) (\<lambda>M. module_fds M + C) C"
  unfolding module_parse_def by (rule fds_bind [OF module_builder_parse_fds to_module_fds])

lemma drop_module_fds: "fds (module_fds M + C) (drop_module k M) (\<lambda>_. C) E"
  unfolding drop_module_def module_fds_def add.assoc
  by (rule fds_bind [OF drop_programs_fds], rule fds_bind [OF drop_maps_fds]) (simp add: fds_intros)

text \<open>
  C8: \<open>Module::parse\<close> opens descriptors for the BTF and for every map, on its way through
  the object file. Whatever the file holds and whatever the kernel answers, when it
  returns a module the descriptors that are open are those of the module's maps and
  programs, and when it fails all are closed.
\<close>

theorem module_parse_keeps_descriptors: "fds {#} (module_parse k E bs) module_fds {#}"
  using module_parse_fds [of "{#}"] by simp

end
