(* ===== verification/Module_Props.thy ===== *)
theory Module_Props
  imports Module_Facts
begin

text \<open>
  Relocation, the replacement of a map and the typed iterators of theory \<open>Modules\<close>: what
  a relocation does to the instructions, which maps may stand for others, and that the
  iterators hand out every program once.
\<close>

section \<open>Relocation\<close>

text \<open>The map that a relocation refers to: by the section of its symbol, or by its value.\<close>

definition reloc_map ::
    "(nat \<times> Map) list \<Rightarrow> (u64 \<times> Map) list \<Rightarrow> Sym list \<Rightarrow> RelocationInfo \<Rightarrow> (Map \<times> bool) option" where
  "reloc_map maps svmaps symtab rel =
     (if sym_idx rel < length symtab then
        (let s = symtab ! sym_idx rel in
         case map_of maps (st_shndx s) of
           Some m \<Rightarrow> Some (m, section_data m)
         | None \<Rightarrow> map_option (\<lambda>m. (m, False)) (map_of svmaps (st_value s)))
      else None)"

text \<open>The code after the load of an address at \<open>i\<close>, an instruction of two slots, is patched.\<close>

definition code_patched :: "nat \<Rightarrow> Map \<Rightarrow> bool \<Rightarrow> u64 \<Rightarrow> bpf_insn list \<Rightarrow> bpf_insn list \<Rightarrow> bool" where
  "code_patched i m as_value v code code' \<longleftrightarrow>
     length code' = length code \<and> i < length code \<and>
     (\<forall>j < length code. j \<noteq> i \<and> \<not> (as_value \<and> j = i + 1) \<longrightarrow> code' ! j = code ! j) \<and>
     insn_code (code' ! i) = insn_code (code ! i) \<and> insn_dst_reg (code' ! i) = insn_dst_reg (code ! i) \<and>
     insn_off (code' ! i) = insn_off (code ! i) \<and>
     insn_src_reg (code' ! i) = (if as_value then 2 else 1) \<and> insn_imm (code' ! i) = of_int (map_fd m) \<and>
     (as_value \<longrightarrow> i + 1 < length code \<and>
        code' ! (i + 1) = (code ! (i + 1))\<lparr>insn_imm := insn_imm (code ! i) + ucast v\<rparr>)"

lemma patch_insns_code:
  "patch_insns code i m v = Ok code' \<Longrightarrow> code_patched i m (section_data m) v code code'"
  by (auto simp: patch_insns_def code_patched_def index_def sadd32_def outcome_simps nth_list_update split: if_splits)

lemma upd_code_const: "upd_code f p = upd_code (\<lambda>_. f (pd_code (prog_data p))) p"
  by (cases p) (simp_all add: upd_code_def)

lemma patch_insns_no_error: "patch_insns code i m v \<noteq> Err e"
  by (auto simp: patch_insns_def index_def sadd32_def outcome_simps split: if_splits)

text \<open>
  C9: a relocation against a program patches that program and no other, and of it only
  the load of the map's address: the instruction at the offset gets the map's descriptor
  and the kind of the reference, its operation, destination and offset stay; when the
  symbol lies in a data section, the second slot gets the address inside the section.
\<close>

theorem relocate_correct:
  assumes "relocate maps svmaps symtab rel programs = Ok ps" and "map_of programs (target_sec_idx rel) = Some p"
  shows "\<exists>m as_value code'. reloc_map maps svmaps symtab rel = Some (m, as_value) \<and>
      map_of ps = (map_of programs)(target_sec_idx rel \<mapsto> upd_code (\<lambda>_. code') p) \<and>
      code_patched (unat (rel_offset rel) div 8) m as_value (st_value (symtab ! sym_idx rel)) (pd_code (prog_data p)) code'"
proof (cases "rel_apply rel programs maps symtab")
  case (Ok qs)
  then show ?thesis
    using assms patch_insns_code
    by (fastforce simp: relocate_def rel_apply_def reloc_map_def outcome_simps index_def rel_insn_idx_def update_conv'
        split: if_splits)
next
  case (Err e)
  let ?i = "rel_insn_idx rel" and ?code = "pd_code (prog_data p)"
  from Err assms obtain m where m: "reloc_map maps svmaps symtab rel = Some (m, False)" and i: "?i < length ?code"
    and ps: "ps = AList.update (target_sec_idx rel)
      (upd_code (\<lambda>_. ?code[?i := (?code ! ?i)\<lparr>insn_src_reg := 1, insn_imm := of_int (map_fd m)\<rparr>]) p) programs"
    by (auto simp: relocate_def rel_apply_def rel_apply_with_symmap_def reloc_map_def outcome_simps index_def
          patch_insns_no_error upd_code_const [where f = "\<lambda>code. code[?i := x code]" for x] split: if_splits)
  have "code_patched ?i m False (st_value (symtab ! sym_idx rel)) ?code
      (?code[?i := (?code ! ?i)\<lparr>insn_src_reg := 1, insn_imm := of_int (map_fd m)\<rparr>])"
    using i by (simp add: code_patched_def)
  with m show ?thesis unfolding ps rel_insn_idx_def update_conv' by blast
qed (use assms in \<open>simp_all add: relocate_def\<close>)


text \<open>The load of a map's address: two slots of an instruction.\<close>

definition sample_insn :: bpf_insn where
  "sample_insn = \<lparr>insn_code = 0x18, insn_dst_reg = 1, insn_src_reg = 0, insn_off = 0, insn_imm = 0\<rparr>"

definition sample_code :: Program where
  "sample_code = P_KProbe \<lparr>kp_common = \<lparr>pd_name = ''f'', pd_code = [sample_insn, sample_insn], pd_fd = None\<rparr>,
     kp_attach_type = Entry, kp_points = []\<rparr>"

theorem relocate_correct_witness:
  "\<exists>ps. relocate [(1, sample_map 1)] [] [\<lparr>st_name = 0, st_info = 0, st_shndx = 1, st_value = 0\<rparr>]
       \<lparr>target_sec_idx = 0, rel_offset = 0, sym_idx = 0\<rparr> [(0, sample_code)] = Ok ps \<and>
     (\<exists>code'. map_of ps = [0 \<mapsto> upd_code (\<lambda>_. code') sample_code] \<and>
        code_patched 0 (sample_map 1) False 0 [sample_insn, sample_insn] code')"
proof -
  let ?s = "[\<lparr>st_name = 0, st_info = 0, st_shndx = 1, st_value = 0\<rparr>]" and ?r = "\<lparr>target_sec_idx = 0, rel_offset = 0, sym_idx = 0\<rparr>"
  obtain ps where r: "relocate [(1, sample_map 1)] [] ?s ?r [(0, sample_code)] = Ok ps"
    by (simp add: relocate_def rel_apply_def rel_insn_idx_def patch_insns_def index_def sample_code_def sample_map_def)
  from relocate_correct [OF r] show ?thesis using r by (auto simp: reloc_map_def sample_map_def sample_code_def)
qed

section \<open>What parsing makes of the sections\<close>

lemma fold_action_indexed:
  assumes "fold_action f s (enumerate n xs) h = (Ok s', h')" and "\<forall>j \<ge> n. g s j = None"
    and step: "\<And>s i x h s' h'. f s (i, x) h = (Ok s', h') \<Longrightarrow> g s i = None \<Longrightarrow>
      Q i x (g s' i) \<and> (\<forall>j. j \<noteq> i \<longrightarrow> g s' j = g s j)"
  shows "(\<forall>j < length xs. Q (n + j) (xs ! j) (g s' (n + j))) \<and>
    (\<forall>j. j < n \<or> n + length xs \<le> j \<longrightarrow> g s' j = g s j)"
  using assms(1,2)
proof (induction xs arbitrary: s n h)
  case (Cons x xs)
  from Cons.prems obtain s1 h1 where s1: "f s (n, x) h = (Ok s1, h1)"
    and rest: "fold_action f s1 (enumerate (Suc n) xs) h1 = (Ok s', h')"
    by (auto simp: bind_eq_Ok)
  have st: "Q n x (g s1 n)" "\<forall>j. j \<noteq> n \<longrightarrow> g s1 j = g s j"
    using step [OF s1] Cons.prems(2) by auto
  then have "\<forall>j \<ge> Suc n. g s1 j = None" using Cons.prems(2) by auto
  from Cons.IH [OF rest this]
  have rest: "\<forall>j < length xs. Q (Suc n + j) (xs ! j) (g s' (Suc n + j))"
    "\<forall>j. j < Suc n \<or> Suc n + length xs \<le> j \<longrightarrow> g s' j = g s1 j" by auto
  show ?case
  proof (intro conjI allI impI)
    fix j assume "j < length (x # xs)"
    then show "Q (n + j) ((x # xs) ! j) (g s' (n + j))" using st(1) rest by (cases j) auto
  next
    fix j assume "j < n \<or> n + length (x # xs) \<le> j"
    then show "g s' j = g s j" using st(2) rest(2) by auto
  qed
qed simp

text \<open>Which sections hold a program, and which a map, with the kind and the name.\<close>

definition program_section :: "Elf \<Rightarrow> nat \<Rightarrow> SectionHeader \<Rightarrow> (string \<times> string) option" where
  "program_section object i shdr =
     (case get_split_section_name object shdr i of
        Ok (Some kd, Some nm) \<Rightarrow>
          if sh_type shdr = SHT_PROGBITS \<and> (kd = ''task_iter'' \<or> is_program_kind kd) then Some (kd, nm) else None
      | _ \<Rightarrow> None)"

definition map_section :: "Elf \<Rightarrow> nat \<Rightarrow> SectionHeader \<Rightarrow> (string \<times> bool) option" where
  "map_section object i shdr =
     (case get_split_section_name object shdr i of
        Ok (Some kd, None) \<Rightarrow>
          if sh_type shdr = SHT_NOBITS \<and> kd = ''.bss'' \<or>
             sh_type shdr = SHT_PROGBITS \<and> (starts_with kd ''.data'' \<or> starts_with kd ''.rodata'')
          then Some (kd, True) else None
      | Ok (Some kd, Some nm) \<Rightarrow> if sh_type shdr = SHT_PROGBITS \<and> kd = ''maps'' then Some (nm, False) else None
      | _ \<Rightarrow> None)"

definition program_made :: "env \<Rightarrow> Elf \<Rightarrow> bytes \<Rightarrow> nat \<Rightarrow> SectionHeader \<Rightarrow> Program option \<Rightarrow> bool" where
  "program_made E object bs i shdr v \<longleftrightarrow>
     (case program_section object i shdr of
        None \<Rightarrow> v = None
      | Some (kd, nm) \<Rightarrow> (\<exists>content p. section_content bs shdr = Ok content \<and> v = Some p \<and>
          (if kd = ''task_iter'' then \<exists>vmlinux. program_with_btf (zero_read_array E) kd nm content vmlinux = Ok p
           else program_new (zero_read_array E) kd nm content = Ok p)))"

definition map_made :: "Elf \<Rightarrow> bytes \<Rightarrow> BTF_data option \<Rightarrow> nat \<Rightarrow> SectionHeader \<Rightarrow> MapBuilder option \<Rightarrow> bool" where
  "map_made object bs btf i shdr v \<longleftrightarrow>
     (case map_section object i shdr of
        None \<Rightarrow> v = None
      | Some (nm, is_data) \<Rightarrow> (\<exists>content. section_content bs shdr = Ok content \<and>
          (if is_data then v = Some (MB_SectionData nm content)
           else \<exists>b. parse_map_section object btf i nm content = Ok b \<and> v = Some b)))"

lemma is_program_kind_not:
  "\<not> is_program_kind ''version''" "\<not> is_program_kind ''license''" "\<not> is_program_kind ''maps''"
  "\<not> is_program_kind ''task_iter''" "\<not> is_program_kind ''.bss''"
  by (simp_all add: is_program_kind_def)

lemma section_arm_programs:
  assumes "get_split_section_name object shdr i = Ok (kind, name)" and "section_content bs shdr = Ok content"
    and "\<not> (sh_type shdr = SHT_PROGBITS \<and> kind = Some ''task_iter'' \<and> name \<noteq> None)" and "map_of (ps_programs st) i = None"
    and "section_arm E object btf st i shdr kind name content = Ok st'"
  shows "program_made E object bs i shdr (map_of (ps_programs st') i) \<and>
    (\<forall>j. j \<noteq> i \<longrightarrow> map_of (ps_programs st') j = map_of (ps_programs st) j)"
  using assms(3,4,5) unfolding program_made_def program_section_def assms(1,2)
  by (cases kind; cases name) (auto simp: section_arm_def is_program_kind_not outcome_simps update_conv' split: if_splits)

lemma section_arm_maps:
  assumes "get_split_section_name object shdr i = Ok (kind, name)" and "section_content bs shdr = Ok content"
    and "map_of (ps_maps st) i = None"
    and "section_arm E object btf st i shdr kind name content = Ok st'"
  shows "map_made object bs btf i shdr (map_of (ps_maps st') i) \<and>
    (\<forall>j. j \<noteq> i \<longrightarrow> map_of (ps_maps st') j = map_of (ps_maps st) j)"
  using assms(3,4) unfolding map_made_def map_section_def assms(1,2)
  by (cases kind; cases name)
    (auto simp: section_arm_def is_program_kind_not mb_with_section_data_def outcome_simps update_conv' split: if_splits)


lemma catch_eq_Ok:
  "catch m g h = (Ok y, h') \<longleftrightarrow>
     (\<exists>x h1. m h = (Ok x, h1) \<and> g (Ok x) h1 = (Ok y, h')) \<or> (\<exists>e h1. m h = (Err e, h1) \<and> g (Err e) h1 = (Ok y, h'))"
  by (cases "m h"; cases "fst (m h)") (auto simp: catch_def)

lemma parse_section_programs:
  assumes "parse_section k E object bs btf st (i, shdr) h = (Ok st', h')" and "map_of (ps_programs st) i = None"
  shows "program_made E object bs i shdr (map_of (ps_programs st') i) \<and>
    (\<forall>j. j \<noteq> i \<longrightarrow> map_of (ps_programs st') j = map_of (ps_programs st) j)"
proof -
  from assms(1) obtain kind name content
    where n: "get_split_section_name object shdr i = Ok (kind, name)" and c: "section_content bs shdr = Ok content"
      and r: "(case name of Some nm \<Rightarrow>
           if sh_type shdr = SHT_PROGBITS \<and> kind = Some ''task_iter'' then task_iter_arm k E st i nm content
           else pure (section_arm E object btf st i shdr kind name content)
         | None \<Rightarrow> pure (section_arm E object btf st i shdr kind name content)) h = (Ok st', h')"
    by (auto simp: parse_section_def bind_eq_Ok)
  show ?thesis
  proof (cases "sh_type shdr = SHT_PROGBITS \<and> kind = Some ''task_iter'' \<and> name \<noteq> None")
    case True
    then obtain nm where nm: "name = Some nm" by auto
    with True r obtain vmlinux p
      where p: "program_with_btf (zero_read_array E) ''task_iter'' nm content vmlinux = Ok p"
        and st': "ps_programs st' = AList.update i p (ps_programs st)"
      by (auto simp: task_iter_arm_def bind_eq_Ok)
    have "program_section object i shdr = Some (''task_iter'', nm)"
      using n nm True by (simp add: program_section_def)
    with c p show ?thesis unfolding st' by (auto simp: program_made_def update_conv')
  next
    case False
    with r have "section_arm E object btf st i shdr kind name content = Ok st'"
      by (auto split: option.splits if_splits)
    with section_arm_programs [OF n c False assms(2)] show ?thesis by blast
  qed
qed

lemma parse_section_maps:
  assumes "parse_section k E object bs btf st (i, shdr) h = (Ok st', h')" and "map_of (ps_maps st) i = None"
  shows "map_made object bs btf i shdr (map_of (ps_maps st') i) \<and>
    (\<forall>j. j \<noteq> i \<longrightarrow> map_of (ps_maps st') j = map_of (ps_maps st) j)"
proof -
  from assms(1) obtain kind name content
    where n: "get_split_section_name object shdr i = Ok (kind, name)" and c: "section_content bs shdr = Ok content"
      and r: "(\<exists>nm. sh_type shdr = SHT_PROGBITS \<and> kind = Some ''task_iter'' \<and> name = Some nm \<and>
           task_iter_arm k E st i nm content h = (Ok st', h')) \<or>
         section_arm E object btf st i shdr kind name content = Ok st'"
    by (auto simp: parse_section_def bind_eq_Ok split: option.splits if_splits)
  from r show ?thesis
  proof (elim disjE exE conjE)
    fix nm assume "task_iter_arm k E st i nm content h = (Ok st', h')" "kind = Some ''task_iter''" "name = Some nm"
    with n c assms(2) show ?thesis
      by (auto simp: task_iter_arm_def bind_eq_Ok map_made_def map_section_def)
  qed (rule section_arm_maps [OF n c assms(2)])
qed

text \<open>
  C10: in the builder of a parsed object file, the sections of the kinds of programs stand
  for the program that \<open>Program::new\<close> (or \<open>with_btf\<close>) makes of their name and content, the
  data sections and the sections \<open>maps/name\<close> stand for a map, and no other section
  stands for a program or a map of its own.
\<close>

theorem module_builder_parse_sections:
  assumes "module_builder_parse k E bs h = (Ok b, h')" and "i < length (section_headers (bd_object b))"
  shows "program_made E (bd_object b) bs i (section_headers (bd_object b) ! i) (map_of (bd_programs b) i) \<and>
    map_made (bd_object b) bs (bd_btf b) i (section_headers (bd_object b) ! i) (map_of (bd_map_builders b) i)"
proof -
  from assms(1) obtain object btf st h1 h2
    where fold: "fold_action (parse_section k E object bs btf) empty_parse_state (enumerate 0 (section_headers object)) h1 = (Ok st, h2)"
      and b: "bd_object b = object" "bd_programs b = ps_programs st" "bd_map_builders b = ps_maps st" "bd_btf b = btf"
    by (auto simp: module_builder_parse_def bind_eq_Ok catch_eq_Ok drop_btf_opt_def split: outcome.splits option.splits)
  have e: "map_of (ps_programs empty_parse_state) j = None" "map_of (ps_maps empty_parse_state) j = None" for j
    by (simp_all add: empty_parse_state_def)
  from fold_action_indexed [OF fold, where g = "\<lambda>s. map_of (ps_programs s)" and Q = "program_made E object bs"]
    fold_action_indexed [OF fold, where g = "\<lambda>s. map_of (ps_maps s)" and Q = "map_made object bs btf"]
  show ?thesis
    using assms(2) parse_section_programs parse_section_maps by (simp add: b e)
qed


text \<open>An object file with a kprobe and a section of data.\<close>

definition sample_module_elf :: Elf where
  "sample_module_elf =
     \<lparr>section_headers =
        [\<lparr>sh_name = 1, sh_type = 1, sh_offset = 0, sh_size = 16, sh_info = 0\<rparr>,
         \<lparr>sh_name = 2, sh_type = 1, sh_offset = 16, sh_size = 4, sh_info = 0\<rparr>],
      syms = [], strtab = (\<lambda>_. None), dynsyms = [], dynstrtab = (\<lambda>_. None),
      shdr_strtab = (\<lambda>i. if i = 1 then Some ''kprobe/f'' else Some ''.data''), shdr_relocs = []\<rparr>"

definition sample_env :: env where
  "sample_env = \<lparr>elf_parse = (\<lambda>_. Ok sample_module_elf), zero_read_array = (\<lambda>_. Ok [sample_insn, sample_insn]),
     zero_read_u32 = (\<lambda>_. Ok 0), zero_read_str = (\<lambda>_. Ok ''GPL''), version_file = (\<lambda>_. None),
     uname_call = (0, \<lparr>nodename = [], release = [], domainname = []\<rparr>)\<rparr>"

definition sample_builder :: ModuleBuilder where
  "sample_builder =
     \<lparr>bd_object = sample_module_elf,
      bd_programs = [(0, sample_code)],
      bd_map_builders = [(1, MB_Normal ''m'' \<lparr>md_type = 1, md_key_size = 4, md_value_size = 4, md_max_entries = 8, md_map_flags = 0\<rparr> None)],
      bd_symval_builders = [], bd_rels = [], bd_license = [], bd_version = 0, bd_btf = None\<rparr>"

theorem module_builder_parse_sections_witness:
  "\<exists>b h'. module_builder_parse sample_prog_kernel sample_env (replicate 20 0) [] = (Ok b, h') \<and>
     0 < length (section_headers (bd_object b)) \<and>
     program_made sample_env (bd_object b) (replicate 20 0) 0 (section_headers (bd_object b) ! 0) (map_of (bd_programs b) 0) \<and>
     map_of (bd_programs b) 0 \<noteq> None \<and> map_of (bd_map_builders b) 1 = Some (MB_SectionData ''.data'' (replicate 4 0))"
proof -
  let ?bs = "replicate 20 0 :: bytes" and ?sh = "section_headers sample_module_elf"
  let ?st1 = "empty_parse_state\<lparr>ps_programs := [(0, sample_code)]\<rparr>"
  let ?st2 = "?st1\<lparr>ps_maps := [(1, MB_SectionData ''.data'' (replicate 4 0))]\<rparr>"
  have split: "splitn 2 CHR ''/'' ''kprobe/f'' = [''kprobe'', ''f'']" "splitn 2 CHR ''/'' ''.data'' = [''.data'']"
    by (simp_all add: numeral_2_eq_2)
  note defs = split parse_section_def get_split_section_name_def get_section_name_def section_content_def section_arm_def
    is_program_kind_def program_new_def mb_with_section_data_def empty_parse_state_def uadd_def slice_def Let_def
    sample_module_elf_def sample_env_def sample_code_def bind_def
  have "parse_section sample_prog_kernel sample_env sample_module_elf ?bs None empty_parse_state (0, ?sh ! 0) [] = (Ok ?st1, [])"
    by (simp add: defs)
  moreover have "parse_section sample_prog_kernel sample_env sample_module_elf ?bs None ?st1 (1, ?sh ! 1) [] = (Ok ?st2, [])"
    by (simp add: defs)
  moreover have "enumerate 0 ?sh = [(0, ?sh ! 0), (1, ?sh ! 1)]" by (simp add: sample_module_elf_def)
  ultimately have f: "fold_action (parse_section sample_prog_kernel sample_env sample_module_elf ?bs None) empty_parse_state
      (enumerate 0 ?sh) [] = (Ok ?st2, [])"
    by (simp add: bind_def)
  have o: "optional_btf sample_prog_kernel sample_module_elf ?bs [] = (Ok None, [])"
    by (simp add: optional_btf_def parse_elf_def get_section_header_by_name_def btf_get_section_name_def sample_module_elf_def
        bind_def catch_def)
  have "elf_parse sample_env ?bs = Ok sample_module_elf" by (simp add: sample_env_def)
  with f o have "\<exists>b h'. module_builder_parse sample_prog_kernel sample_env ?bs [] = (Ok b, h') \<and>
     bd_object b = sample_module_elf \<and>
     map_of (bd_programs b) 0 \<noteq> None \<and> map_of (bd_map_builders b) 1 = Some (MB_SectionData ''.data'' (replicate 4 0))"
    by (simp add: module_builder_parse_def bind_def catch_def)
  moreover have "0 < length ?sh" by (simp add: sample_module_elf_def)
  ultimately show ?thesis
    using module_builder_parse_sections [of sample_prog_kernel sample_env ?bs "[]"] by metis
qed

section \<open>Replacing a map\<close>

lemma replace_builder_Ok:
  "replace_builder name new bs = Ok (bs', old) \<Longrightarrow>
   \<exists>before i after. bs = before @ (i, old) # after \<and> bs' = before @ (i, MB_ExistingMap new) # after \<and>
     (\<forall>(j, c) \<in> set before. mb_name c \<noteq> name) \<and> mb_name old = name \<and> can_replace old new"
proof (induction name new bs arbitrary: bs' rule: replace_builder.induct)
  case (2 name new i b bs)
  show ?case
  proof (cases "mb_name b = name")
    case True
    with "2.prems" show ?thesis by (intro exI [of _ "[]"] exI [of _ i] exI [of _ bs]) (auto split: if_splits)
  next
    case False
    with "2.prems" obtain bs1 where r: "replace_builder name new bs = Ok (bs1, old)" and bs': "bs' = (i, b) # bs1"
      by (auto simp: outcome_simps)
    from "2.IH" [OF False r] obtain before j after where "bs = before @ (j, old) # after"
      "bs1 = before @ (j, MB_ExistingMap new) # after" "\<forall>(j, c) \<in> set before. mb_name c \<noteq> name"
      "mb_name old = name" "can_replace old new" by blast
    with False bs' show ?thesis by (intro exI [of _ "(i, b) # before"] exI [of _ j] exI [of _ after]) auto
  qed
qed simp

lemma replace_builder_no_panic: "replace_builder name new bs \<noteq> Panic" "replace_builder name new bs \<noteq> Undefined"
proof -
  have "replace_builder name new bs \<noteq> Panic \<and> replace_builder name new bs \<noteq> Undefined"
  proof (induction bs)
    case (Cons x bs)
    obtain i b where "x = (i, b)" by (cases x)
    with Cons show ?case by (cases "replace_builder name new bs") auto
  qed simp
  then show "replace_builder name new bs \<noteq> Panic" "replace_builder name new bs \<noteq> Undefined" by auto
qed

text \<open>What a map must have in common with the one it replaces.\<close>

definition map_shape :: "bpf_map_def \<Rightarrow> u32 \<times> u32 \<times> u32 \<times> u32" where
  "map_shape d = (md_type d, md_key_size d, md_value_size d, md_max_entries d)"

definition fits :: "MapBuilder \<Rightarrow> Map \<Rightarrow> bool" where
  "fits old new \<longleftrightarrow>
     (case old of
        MB_Normal _ d _ \<Rightarrow> map_shape (config new) = map_shape d
      | MB_SectionData _ _ \<Rightarrow> section_data new
      | MB_ExistingMap m \<Rightarrow> map_shape (config new) = map_shape (config m))"

lemma can_replace_fits: "can_replace old new \<longleftrightarrow> fits old new"
  by (cases old) (auto simp: fits_def map_shape_def same_def_def)



section \<open>The typed iterators\<close>

text \<open>
  The iterators over the programs of one kind together hand out every program of the
  module exactly once.
\<close>

theorem iterators_partition_programs:
  "mset (map prog_data (mod_programs M)) =
     mset (map kp_common (kprobes M)) + mset (map up_common (uprobes M)) + mset (map xdp_common (xdps M)) +
     mset (map sf_common (socket_filters M)) + mset (map tp_common (trace_points M)) +
     mset (map spp_common (stream_parsers M)) + mset (map sv_common (stream_verdicts M)) +
     mset (map sl_common (sk_lookups M)) + mset (map ti_common (task_iters M))"
proof -
  have "mset (map prog_data ps) = mset (map kp_common (kprobes (M\<lparr>mod_programs := ps\<rparr>))) +
     mset (map up_common (uprobes (M\<lparr>mod_programs := ps\<rparr>))) + mset (map xdp_common (xdps (M\<lparr>mod_programs := ps\<rparr>))) +
     mset (map sf_common (socket_filters (M\<lparr>mod_programs := ps\<rparr>))) + mset (map tp_common (trace_points (M\<lparr>mod_programs := ps\<rparr>))) +
     mset (map spp_common (stream_parsers (M\<lparr>mod_programs := ps\<rparr>))) + mset (map sv_common (stream_verdicts (M\<lparr>mod_programs := ps\<rparr>))) +
     mset (map sl_common (sk_lookups (M\<lparr>mod_programs := ps\<rparr>))) + mset (map ti_common (task_iters (M\<lparr>mod_programs := ps\<rparr>)))" for ps
  proof (induction ps)
    case (Cons p ps)
    then show ?case
      by (cases p) (simp_all add: kprobes_def uprobes_def xdps_def socket_filters_def trace_points_def stream_parsers_def
          stream_verdicts_def sk_lookups_def task_iters_def List.map_filter_simps)
  qed (simp add: kprobes_def uprobes_def xdps_def socket_filters_def trace_points_def stream_parsers_def
          stream_verdicts_def sk_lookups_def task_iters_def List.map_filter_simps)
  from this [of "mod_programs M"] show ?thesis by simp
qed

end
