(* ===== verification/Loader.thy ===== *)
theory Loader
  imports Module_Props
begin

text \<open>
  \<open>Loader\<close> and \<open>Loaded\<close> of \<open>redbpf/src/load/loader.rs\<close>: parse an object file, load every
  program, and read every perf event array on every online CPU. The tasks that the code
  hands to \<open>tokio\<close> are the list of the streams they own; what one of them does when it
  is polled is \<open>task_poll\<close>, and the channel they send to is the list of what was sent.
\<close>

section \<open>Loading\<close>

datatype LoaderError =
    FileError io_error
  | ParseError error
  | LoadError string error

type_synonym 'a loader_result = "(LoaderError, 'a) outcome"

text \<open>\<open>PerfMessageStream\<close>, without the registration of its descriptor in the event loop.\<close>

record PerfMessageStream =
  pms_name :: string
  pms_map :: PerfMap

record Loaded =
  ld_module :: Module
  ld_tasks :: "PerfMessageStream list"

text \<open>\<open>Result::unwrap\<close> of the result of an action\<close>

definition expect_ok :: "'a action \<Rightarrow> 'a action" where
  "expect_ok m = catch m (\<lambda>r. pure (case r of Ok x \<Rightarrow> Ok x | _ \<Rightarrow> Panic))"

text \<open>\<open>AsyncFd::with_interest\<close> of \<open>tokio\<close> is \<open>registers\<close>: whether the descriptor could be registered.\<close>

definition perf_message_stream_new :: "(RawFd \<Rightarrow> bool) \<Rightarrow> string \<Rightarrow> PerfMap \<Rightarrow> PerfMessageStream result" where
  "perf_message_stream_new registers name pm =
     (if registers (pm_fd pm) then Ok \<lparr>pms_name = name, pms_map = pm\<rparr> else Panic)"

text \<open>The loop over the programs. The programs are changed in place, so they are a result on every path.\<close>

fun load_programs ::
    "kernel \<Rightarrow> u32 \<Rightarrow> string \<Rightarrow> Program list \<Rightarrow> history \<Rightarrow> unit loader_result \<times> Program list \<times> history" where
  "load_programs k ver lic [] h = (Ok (), [], h)"
| "load_programs k ver lic (p # ps) h =
     (case program_load k p ver lic h of
        (Ok p', h1) \<Rightarrow>
          (case load_programs k ver lic ps h1 of (r, ps', h2) \<Rightarrow> (r, p' # ps', h2))
      | (Err e, h1) \<Rightarrow> (Err (LoadError (prog_name p) e), p # ps, h1)
      | (Panic, h1) \<Rightarrow> (Panic, p # ps, h1)
      | (Undefined, h1) \<Rightarrow> (Undefined, p # ps, h1))"

definition online_cpus :: "kernel \<Rightarrow> CpuId list action" where
  "online_cpus k =
     bind (call k (Read_file ''/sys/devices/system/cpu/online'')) (\<lambda>a.
       pure (get_online (\<lambda>_. if ret a < 0 then Err (OsError (errno a)) else Ok (out a))))"

text \<open>The inner and the outer loop over the perf event arrays.\<close>

fun bind_cpus :: "kernel \<Rightarrow> (RawFd \<Rightarrow> bool) \<Rightarrow> Map \<Rightarrow> CpuId list \<Rightarrow> PerfMessageStream list action" where
  "bind_cpus k registers m [] = pure (Ok [])"
| "bind_cpus k registers m (cpuid # cpus) =
     bind (expect_ok (perf_bind k m (-1) cpuid 16 (-1) 0)) (\<lambda>pm.
     bind (pure (perf_message_stream_new registers (map_name m) pm)) (\<lambda>s.
     bind (bind_cpus k registers m cpus) (\<lambda>ss. pure (Ok (s # ss)))))"

fun bind_maps :: "kernel \<Rightarrow> (RawFd \<Rightarrow> bool) \<Rightarrow> CpuId list \<Rightarrow> Map list \<Rightarrow> PerfMessageStream list action" where
  "bind_maps k registers cpus [] = pure (Ok [])"
| "bind_maps k registers cpus (m # ms) =
     bind (bind_cpus k registers m cpus) (\<lambda>ss.
     bind (bind_maps k registers cpus ms) (\<lambda>ss'. pure (Ok (ss @ ss'))))"

definition start_tasks :: "kernel \<Rightarrow> (RawFd \<Rightarrow> bool) \<Rightarrow> Map list \<Rightarrow> PerfMessageStream list action" where
  "start_tasks k registers ms =
     bind (expect_ok (online_cpus k)) (\<lambda>cpus. bind_maps k registers cpus (filter (\<lambda>m. map_kind m = 4) ms))"

definition loader_load :: "kernel \<Rightarrow> env \<Rightarrow> (RawFd \<Rightarrow> bool) \<Rightarrow> bytes \<Rightarrow> history \<Rightarrow> Loaded loader_result \<times> history" where
  "loader_load k E registers data h =
     (case module_parse k E data h of
        (Ok M, h1) \<Rightarrow>
          (case load_programs k (mod_version M) (mod_license M) (mod_programs M) h1 of
             (Ok _, ps, h2) \<Rightarrow>
               (case start_tasks k registers (mod_maps M) h2 of
                  (Ok ss, h3) \<Rightarrow> (Ok \<lparr>ld_module = M\<lparr>mod_programs := ps\<rparr>, ld_tasks = ss\<rparr>, h3)
                | (Undefined, h3) \<Rightarrow> (Undefined, h3)
                | (_, h3) \<Rightarrow> (Panic, h3))
           | (Err e, ps, h2) \<Rightarrow>
               (case drop_module k (M\<lparr>mod_programs := ps\<rparr>) h2 of
                  (Undefined, h3) \<Rightarrow> (Undefined, h3)
                | (Panic, h3) \<Rightarrow> (Panic, h3)
                | (_, h3) \<Rightarrow> (Err e, h3))
           | (Panic, ps, h2) \<Rightarrow> (Panic, h2)
           | (Undefined, ps, h2) \<Rightarrow> (Undefined, h2))
      | (Err e, h1) \<Rightarrow> (Err (ParseError e), h1)
      | (Panic, h1) \<Rightarrow> (Panic, h1)
      | (Undefined, h1) \<Rightarrow> (Undefined, h1))"

definition loader_load_file ::
    "kernel \<Rightarrow> env \<Rightarrow> (RawFd \<Rightarrow> bool) \<Rightarrow> string \<Rightarrow> history \<Rightarrow> Loaded loader_result \<times> history" where
  "loader_load_file k E registers file h =
     (let a = k h (Read_file file); h1 = h @ [(Read_file file, a)]
      in if ret a < 0 then (Err (FileError (OsError (errno a))), h1) else loader_load k E registers (out a) h1)"

section \<open>The tasks\<close>

text \<open>
  \<open>stream.for_each\<close>, polled once: what the stream yields is sent to the channel under the
  name of the map. Sending panics when the receiver is gone.
\<close>

definition task_poll ::
    "bool \<Rightarrow> readiness \<Rightarrow> nat \<Rightarrow> PerfMessageStream \<Rightarrow> (string \<times> bytes list) list \<Rightarrow>
     (PerfMessageStream \<times> (string \<times> bytes list) list) result option" where
  "task_poll receiver_alive rdy fuel s chan =
     map_option (\<lambda>r. and_then r (\<lambda>(y, pm).
         case y of
           Poll_Ready (Some events) \<Rightarrow>
             if receiver_alive then Ok (s\<lparr>pms_map := pm\<rparr>, chan @ [(pms_name s, events)]) else Panic
         | _ \<Rightarrow> Ok (s\<lparr>pms_map := pm\<rparr>, chan)))
       (poll_next rdy fuel (pms_map s))"

section \<open>Loaded\<close>

definition loaded_map :: "Loaded \<Rightarrow> string \<Rightarrow> Map option" where
  "loaded_map L name = module_map (ld_module L) name"

definition loaded_program :: "Loaded \<Rightarrow> string \<Rightarrow> Program option" where
  "loaded_program L name = module_program (ld_module L) name"

definition loaded_kprobes :: "Loaded \<Rightarrow> KProbe list" where
  "loaded_kprobes L = kprobes (ld_module L)"

definition loaded_kprobe_mut :: "Loaded \<Rightarrow> string \<Rightarrow> KProbe option" where
  "loaded_kprobe_mut L name = kprobe_mut (ld_module L) name"

definition loaded_uprobes :: "Loaded \<Rightarrow> UProbe list" where
  "loaded_uprobes L = uprobes (ld_module L)"

definition loaded_uprobe_mut :: "Loaded \<Rightarrow> string \<Rightarrow> UProbe option" where
  "loaded_uprobe_mut L name = uprobe_mut (ld_module L) name"

definition loaded_xdps :: "Loaded \<Rightarrow> XDP list" where
  "loaded_xdps L = xdps (ld_module L)"

definition loaded_xdp_mut :: "Loaded \<Rightarrow> string \<Rightarrow> XDP option" where
  "loaded_xdp_mut L name = xdp_mut (ld_module L) name"

definition loaded_socket_filters :: "Loaded \<Rightarrow> SocketFilter list" where
  "loaded_socket_filters L = socket_filters (ld_module L)"

definition loaded_socket_filter_mut :: "Loaded \<Rightarrow> string \<Rightarrow> SocketFilter option" where
  "loaded_socket_filter_mut L name = socket_filter_mut (ld_module L) name"

definition loaded_stream_parsers :: "Loaded \<Rightarrow> StreamParser list" where
  "loaded_stream_parsers L = stream_parsers (ld_module L)"

definition loaded_stream_parser_mut :: "Loaded \<Rightarrow> string \<Rightarrow> StreamParser option" where
  "loaded_stream_parser_mut L name = stream_parser_mut (ld_module L) name"

definition loaded_stream_verdicts :: "Loaded \<Rightarrow> StreamVerdict list" where
  "loaded_stream_verdicts L = stream_verdicts (ld_module L)"

definition loaded_stream_verdict_mut :: "Loaded \<Rightarrow> string \<Rightarrow> StreamVerdict option" where
  "loaded_stream_verdict_mut L name = stream_verdict_mut (ld_module L) name"

definition loaded_sk_lookups :: "Loaded \<Rightarrow> SkLookup list" where
  "loaded_sk_lookups L = sk_lookups (ld_module L)"

definition loaded_sk_lookup_mut :: "Loaded \<Rightarrow> string \<Rightarrow> SkLookup option" where
  "loaded_sk_lookup_mut L name = sk_lookup_mut (ld_module L) name"

definition loaded_task_iters :: "Loaded \<Rightarrow> TaskIter list" where
  "loaded_task_iters L = task_iters (ld_module L)"

definition loaded_task_iter_mut :: "Loaded \<Rightarrow> string \<Rightarrow> TaskIter option" where
  "loaded_task_iter_mut L name = task_iter_mut (ld_module L) name"

section \<open>Descriptors\<close>

lemma fds_bind_pure_simps [simp]:
  "fds B (bind (pure (Ok x)) g) G E \<longleftrightarrow> fds B (g x) G E" "fds B (bind (pure Panic) g) G E"
  by (simp_all add: fds_def)

definition tasks_fds :: "PerfMessageStream list \<Rightarrow> RawFd multiset" where
  "tasks_fds ss = mset (map (\<lambda>s. pm_fd (pms_map s)) ss)"

lemma tasks_fds_simps [simp]:
  "tasks_fds [] = {#}" "tasks_fds (s # ss) = add_mset (pm_fd (pms_map s)) (tasks_fds ss)"
  "tasks_fds (ss @ ss') = tasks_fds ss + tasks_fds ss'"
  by (simp_all add: tasks_fds_def)

lemma expect_perf_bind_fds:
  "fds C (expect_ok (perf_bind k m pid cpu pcnt grp fl)) (\<lambda>pm. add_mset (pm_fd pm) C) E"
  unfolding fds_def
proof
  fix h
  show "\<exists>new. snd (expect_ok (perf_bind k m pid cpu pcnt grp fl) h) = h @ new \<and>
      (case fst (expect_ok (perf_bind k m pid cpu pcnt grp fl) h) of
         Ok pm \<Rightarrow> balanced new C (add_mset (pm_fd pm) C) | Err e \<Rightarrow> balanced new C E | _ \<Rightarrow> True)"
    by (cases rule: perf_bind_cases [of k m pid cpu pcnt grp fl h])
      (auto simp: expect_ok_def catch_def balanced_def)
qed

lemma perf_message_stream_new_Ok:
  "perf_message_stream_new registers name pm = Ok s \<longleftrightarrow> registers (pm_fd pm) \<and> s = \<lparr>pms_name = name, pms_map = pm\<rparr>"
  by (auto simp: perf_message_stream_new_def)

lemma bind_cpus_fds: "fds C (bind_cpus k registers m cpus) (\<lambda>ss. tasks_fds ss + C) E"
proof (induction cpus arbitrary: C)
  case (Cons cpu cpus)
  have "fds (add_mset (pm_fd pm) C) (bind (pure (perf_message_stream_new registers (map_name m) pm)) (\<lambda>s.
      bind (bind_cpus k registers m cpus) (\<lambda>ss. pure (Ok (s # ss))))) (\<lambda>ss. tasks_fds ss + C) E" for pm
  proof (cases "registers (pm_fd pm)")
    case True
    have "fds (add_mset (pm_fd pm) C) (bind (bind_cpus k registers m cpus) (\<lambda>ss. pure (Ok (s # ss))))
        (\<lambda>ss. tasks_fds ss + C) E" if "pms_map s = pm" for s
      by (rule fds_bind [OF Cons]) (simp add: fds_intros that)
    with True show ?thesis by (simp add: perf_message_stream_new_def)
  qed (simp add: perf_message_stream_new_def)
  then show ?case by (simp add: fds_bind [OF expect_perf_bind_fds])
qed (simp add: fds_intros)


lemma bind_maps_fds: "fds C (bind_maps k registers cpus ms) (\<lambda>ss. tasks_fds ss + C) E"
proof (induction ms arbitrary: C)
  case (Cons m ms)
  have "fds (tasks_fds ss + C) (bind (bind_maps k registers cpus ms) (\<lambda>ss'. pure (Ok (ss @ ss')))) (\<lambda>ss. tasks_fds ss + C) E" for ss
    by (rule fds_bind [OF Cons]) (simp add: fds_intros ac_simps)
  then show ?case by (simp add: fds_bind [OF bind_cpus_fds])
qed (simp add: fds_intros)

lemma expect_ok_quiet: "quiet m \<Longrightarrow> fds C (expect_ok m) (\<lambda>_. C) E"
  unfolding expect_ok_def by (rule fds_catch [OF quietD]) (simp_all add: fds_intros)

lemma start_tasks_fds: "fds C (start_tasks k registers ms) (\<lambda>ss. tasks_fds ss + C) E"
  unfolding start_tasks_def online_cpus_def
  by (rule fds_bind [OF expect_ok_quiet bind_maps_fds]) (auto intro!: quiet_bind quiet_call)

lemma load_programs_fds:
  assumes "load_programs k ver lic ps h = (r, ps', h')"
  shows "\<exists>new. h' = h @ new \<and> (r \<noteq> Panic \<and> r \<noteq> Undefined \<longrightarrow> balanced new (progs_fds ps) (progs_fds ps'))"
  using assms
proof (induction ps arbitrary: h ps')
  case (Cons p ps)
  show ?case
  proof (rule fds_apply [OF program_load_fds [of p k ver lic], of h])
    fix p1 new assume p1: "program_load k p ver lic h = (Ok p1, h @ new)" "balanced new (prog_fds p) (prog_fds p1)"
    obtain q ps1 h2 where q: "load_programs k ver lic ps (h @ new) = (q, ps1, h2)" by (cases "load_programs k ver lic ps (h @ new)")
    with Cons.prems(1) p1(1) have e: "q = r" "ps' = p1 # ps1" "h2 = h'" by auto
    from Cons.IH [OF q [unfolded e]] obtain new2 where n: "h' = (h @ new) @ new2"
      "r \<noteq> Panic \<and> r \<noteq> Undefined \<longrightarrow> balanced new2 (progs_fds ps) (progs_fds ps1)" by (auto simp: e)
    have "balanced (new @ new2) (prog_fds p + progs_fds ps) (prog_fds p1 + progs_fds ps1)" if "r \<noteq> Panic \<and> r \<noteq> Undefined"
      by (rule balanced_trans [OF balanced_frame [OF p1(2)]])
        (use balanced_frame [OF n(2) [rule_format, OF that], of "prog_fds p1"] in \<open>simp add: ac_simps\<close>)
    then show ?thesis using n by (auto simp: e)
  next
    fix x new assume "program_load k p ver lic h = (Err x, h @ new)" "balanced new (prog_fds p) (prog_fds p)"
    with Cons.prems show ?thesis by (auto intro: balanced_frame)
  qed (use Cons.prems in auto)
qed auto

text \<open>
  C4: what \<open>Loader::load\<close> opens is held by what it returns: after a success the open
  descriptors are those of the module's programs and maps and of the tasks, and after an
  error none is left open, whichever program the kernel refused.
\<close>

theorem loader_load_keeps_descriptors:
  "\<exists>new. snd (loader_load k E registers data h) = h @ new \<and>
     (case fst (loader_load k E registers data h) of
        Ok L \<Rightarrow> opened new = closed new + (module_fds (ld_module L) + tasks_fds (ld_tasks L))
      | Err e \<Rightarrow> opened new = closed new
      | _ \<Rightarrow> True)"
proof (rule fds_apply [OF module_parse_fds [of "{#}" k E data], of h])
  fix M new1 assume M: "module_parse k E data h = (Ok M, h @ new1)" "balanced new1 {#} (module_fds M + {#})"
  let ?h1 = "h @ new1"
  obtain r ps h2 where l: "load_programs k (mod_version M) (mod_license M) (mod_programs M) ?h1 = (r, ps, h2)"
    by (cases "load_programs k (mod_version M) (mod_license M) (mod_programs M) ?h1")
  let ?M = "M\<lparr>mod_programs := ps\<rparr>"
  have held: "\<exists>new. h2 = h @ new \<and> balanced new {#} (module_fds ?M)" if "r \<noteq> Panic \<and> r \<noteq> Undefined"
  proof -
    from load_programs_fds [OF l] that obtain new2 where "h2 = ?h1 @ new2"
      "balanced new2 (progs_fds (mod_programs M)) (progs_fds ps)" by blast
    then show ?thesis
      using balanced_trans [OF M(2), of new2 "module_fds ?M"] balanced_frame [of new2 "progs_fds (mod_programs M)" "progs_fds ps" "maps_fds (mod_maps M)"]
      by (auto simp: module_fds_def)
  qed
  show ?thesis
  proof (cases r)
    case (Ok u)
    then obtain new where h2: "h2 = h @ new" and b: "balanced new {#} (module_fds ?M)" using held by auto
    show ?thesis
      by (rule fds_apply [OF start_tasks_fds [of "module_fds ?M" k registers "mod_maps M"], of h2])
        (use M(1) l Ok h2 b in \<open>auto simp: loader_load_def balanced_def ac_simps\<close>)
  next
    case (Err e)
    then obtain new where h2: "h2 = h @ new" and b: "balanced new {#} (module_fds ?M)" using held by auto
    show ?thesis
      by (rule fds_apply [OF drop_module_fds [of ?M "{#}" k "{#}"], of h2])
        (use M(1) l Err h2 b in \<open>auto simp: loader_load_def balanced_def\<close>)
  qed (use M(1) l load_programs_fds [OF l] in \<open>auto simp: loader_load_def\<close>)
qed (auto simp: loader_load_def balanced_def)


section \<open>What is loaded\<close>

text \<open>
  The task \<open>s\<close> reads the events of one CPU that come through one map: its perf map was
  bound, in calls next to each other in the history, with an event of every process on
  that CPU, and has 16 pages.
\<close>

definition reads_cpu :: "history \<Rightarrow> Map \<times> CpuId \<Rightarrow> PerfMessageStream \<Rightarrow> bool" where
  "reads_cpu h mc s \<longleftrightarrow> pms_name s = map_name (fst mc) \<and> page_cnt (pms_map s) = 16 \<and>
     (\<exists>before new after. h = before @ new @ after \<and> bound_by (fst mc) (-1) (snd mc) (-1) (pms_map s) new)"

lemma reads_cpu_later: "reads_cpu h mc s \<Longrightarrow> reads_cpu (h @ new) mc s"
  unfolding reads_cpu_def by (metis append.assoc)

lemma expect_perf_bind_Ok:
  assumes "expect_ok (perf_bind k m pid cpu pcnt grp fl) h = (Ok pm, h')"
  shows "\<exists>new. h' = h @ new \<and> page_cnt pm = pcnt \<and> bound_by m pid cpu grp pm new"
  by (cases rule: perf_bind_cases [of k m pid cpu pcnt grp fl h])
    (use assms in \<open>auto simp: expect_ok_def catch_def\<close>)

lemma bind_cpus_reads:
  "bind_cpus k registers m cpus h = (Ok ss, h') \<Longrightarrow>
   \<exists>new. h' = h @ new \<and> list_all2 (reads_cpu h') (map (Pair m) cpus) ss"
proof (induction cpus arbitrary: h ss)
  case (Cons cpu cpus)
  from Cons.prems obtain pm h1 ss1
    where pm: "expect_ok (perf_bind k m (-1) cpu 16 (-1) 0) h = (Ok pm, h1)"
      and ss: "bind_cpus k registers m cpus h1 = (Ok ss1, h')" "ss = \<lparr>pms_name = map_name m, pms_map = pm\<rparr> # ss1"
    by (auto simp: bind_eq_Ok perf_message_stream_new_Ok)
  from expect_perf_bind_Ok [OF pm] Cons.IH [OF ss(1)] show ?case
    by (auto simp: ss(2) reads_cpu_def) (metis append.assoc)
qed simp

lemma bind_maps_reads:
  "bind_maps k registers cpus ms h = (Ok ss, h') \<Longrightarrow>
   \<exists>new. h' = h @ new \<and> list_all2 (reads_cpu h') (List.product ms cpus) ss"
proof (induction ms arbitrary: h ss)
  case (Cons m ms)
  from Cons.prems obtain ss1 h1 ss2
    where ss1: "bind_cpus k registers m cpus h = (Ok ss1, h1)"
      and ss2: "bind_maps k registers cpus ms h1 = (Ok ss2, h')" "ss = ss1 @ ss2"
    by (auto simp: bind_eq_Ok)
  from bind_cpus_reads [OF ss1] Cons.IH [OF ss2(1)] show ?case
    by (auto simp: ss2(2) intro!: list_all2_appendI elim: list_all2_mono reads_cpu_later)
qed simp

lemma load_programs_loaded:
  "load_programs k ver lic ps h = (Ok u, ps', h') \<Longrightarrow> list_all2 (\<lambda>p p'. \<exists>fd. p' = set_fd fd p) ps ps'"
proof (induction ps arbitrary: h ps')
  case (Cons p ps)
  then show ?case
    by (cases "program_load k p ver lic h"; cases "fst (program_load k p ver lic h)")
      (auto split: prod.splits dest: program_load_variant)
qed simp

text \<open>
  C5: when \<open>Loader::load\<close> succeeds, every program of the module is loaded, and there is
  exactly one task for every perf event array and every CPU that the kernel lists as
  online: its event was opened for that CPU, mapped and enabled, and the kernel was
  asked to store its descriptor under the CPU in the map. The answer to that last
  request is not looked at by the code, so a refusal goes unnoticed.
\<close>

theorem loader_load_complete:
  assumes "loader_load k E registers data h = (Ok L, h')"
  shows "(\<forall>p \<in> set (mod_programs (ld_module L)). prog_fd p \<noteq> None) \<and>
    (\<exists>cpus a. (Read_file ''/sys/devices/system/cpu/online'', a) \<in> set h' \<and> 0 \<le> ret a \<and>
       get_online (\<lambda>_. Ok (out a)) = Ok cpus \<and>
       list_all2 (reads_cpu h') (List.product (filter (\<lambda>m. map_kind m = 4) (mod_maps (ld_module L))) cpus) (ld_tasks L))"
proof -
  from assms obtain M h1 ps h2 ss
    where ps: "load_programs k (mod_version M) (mod_license M) (mod_programs M) h1 = (Ok (), ps, h2)"
      and ss: "start_tasks k registers (mod_maps M) h2 = (Ok ss, h')"
      and L: "L = \<lparr>ld_module = M\<lparr>mod_programs := ps\<rparr>, ld_tasks = ss\<rparr>"
    by (auto simp: loader_load_def split: prod.splits outcome.splits)
  have "prog_fd p' \<noteq> None" if "p' = set_fd fd p" for p p' fd
    using that by (cases p) (simp_all add: prog_fd_def)
  then have "\<forall>p \<in> set ps. prog_fd p \<noteq> None"
    using load_programs_loaded [OF ps] by (fastforce simp: list_all2_conv_all_nth in_set_conv_nth)
  moreover from ss obtain cpus h3
    where c: "expect_ok (online_cpus k) h2 = (Ok cpus, h3)"
      and b: "bind_maps k registers cpus (filter (\<lambda>m. map_kind m = 4) (mod_maps M)) h3 = (Ok ss, h')"
    by (auto simp: start_tasks_def bind_eq_Ok)
  let ?f = "Read_file ''/sys/devices/system/cpu/online''"
  from c have "h3 = h2 @ [(?f, k h2 ?f)] \<and> 0 \<le> ret (k h2 ?f) \<and> get_online (\<lambda>_. Ok (out (k h2 ?f))) = Ok cpus"
    by (auto simp: expect_ok_def catch_eq_Ok online_cpus_def get_online_def Let_def split: if_splits outcome.splits)
  moreover obtain new where "h' = h3 @ new" using bind_maps_reads [OF b] by blast
  moreover note bind_maps_reads [OF b]
  ultimately show ?thesis unfolding L by auto
qed

text \<open>
  When the memory of a task's perf map holds a queue of records and its descriptor is
  ready, one poll of the task sends the payloads of the samples under the name of the
  map, in order, and takes them off the ring.
\<close>

theorem task_poll_delivers:
  assumes "holds (pms_map s) recs" and "length recs < fuel"
  shows "\<exists>s'. task_poll True ReadyOk fuel s chan = Some (Ok (s', chan @ [(pms_name s, samples recs)])) \<and>
    pms_name s' = pms_name s \<and> holds (pms_map s') (unread recs)"
proof -
  obtain pm' where "read_messages fuel (pms_map s) = Some (Ok (samples recs, pm'))" "holds pm' (unread recs)"
    using read_messages_queue [OF assms] by blast
  then show ?thesis by (simp add: task_poll_def poll_next_def)
qed

text \<open>An object file with a kprobe and a perf event array, on a machine with two CPUs.\<close>

definition sample_loader_elf :: Elf where
  "sample_loader_elf = sample_module_elf\<lparr>
     section_headers := [\<lparr>sh_name = 1, sh_type = 1, sh_offset = 0, sh_size = 16, sh_info = 0\<rparr>,
         \<lparr>sh_name = 2, sh_type = 1, sh_offset = 16, sh_size = 20, sh_info = 0\<rparr>],
     shdr_strtab := (\<lambda>i. if i = 1 then Some ''kprobe/f'' else Some ''maps/events'')\<rparr>"

definition sample_loader_file :: bytes where
  "sample_loader_file = replicate 16 0 @ [4, 0, 0, 0, 4, 0, 0, 0, 4, 0, 0, 0, 2, 0, 0, 0, 0, 0, 0, 0]"

definition sample_loader_kernel :: kernel where
  "sample_loader_kernel h c =
     \<lparr>ret = (case c of Bpf_load_program _ _ \<Rightarrow> 9 | Bpf_create_map _ \<Rightarrow> 3 | Perf_event_open _ _ _ _ _ \<Rightarrow> 7
                     | Sysconf_pagesize \<Rightarrow> 4096 | _ \<Rightarrow> 0), errno = 0,
      out = (case c of Read_file _ \<Rightarrow> as_bytes (show_ranges [(0, 1)] @ [CHR 0x0A]) | _ \<Rightarrow> [])\<rparr>"



definition sample_loader_env :: env where
  "sample_loader_env = sample_env\<lparr>elf_parse := \<lambda>_. Ok sample_loader_elf\<rparr>"

definition sample_events :: bpf_map_def where
  "sample_events = \<lparr>md_type = 4, md_key_size = 4, md_value_size = 4, md_max_entries = 2, md_map_flags = 0\<rparr>"

definition sample_events_map :: Map where
  "sample_events_map = \<lparr>map_name = ''events'', map_kind = 4, map_fd = 3, config = sample_events, section_data = False, pin_file = None\<rparr>"

lemma sample_online:
  "expect_ok (online_cpus sample_loader_kernel) h =
    (Ok [0, 1], h @ [(Read_file ''/sys/devices/system/cpu/online'', sample_loader_kernel h (Read_file ''/sys/devices/system/cpu/online''))])"
  using read_back [of "[(0, 1)]"]
  by (simp add: expect_ok_def catch_def online_cpus_def get_online_def sample_loader_kernel_def range_cpus_def upto.simps)

lemma sample_bind_cpus: "\<exists>ss h'. bind_cpus sample_loader_kernel (\<lambda>_. True) sample_events_map [0, 1] h = (Ok ss, h')"
  by (simp add: perf_message_stream_new_def perf_bind_def open_perf_buffer_def sample_loader_kernel_def Let_def bind_def call_def pure_def
        expect_ok_def hash_map_new_def i32_repr_def sample_events_def sample_events_map_def
        hash_map_set_def ignore_def catch_def bpf_map_set_def)

lemma sample_builder_parse:
  "\<exists>b. module_builder_parse sample_loader_kernel sample_loader_env sample_loader_file [] = (Ok b, []) \<and>
     bd_programs b = [(0, sample_code)] \<and> bd_map_builders b = [(1, MB_Normal ''events'' sample_events None)] \<and>
     bd_symval_builders b = [] \<and> bd_rels b = [] \<and> bd_btf b = None \<and> bd_license b = [] \<and> bd_version b = 0"
proof -
  let ?sh = "section_headers sample_loader_elf"
  let ?st1 = "empty_parse_state\<lparr>ps_programs := [(0, sample_code)]\<rparr>"
  let ?st2 = "?st1\<lparr>ps_maps := [(1, MB_Normal ''events'' sample_events None)]\<rparr>"
  have split: "splitn 2 CHR ''/'' ''kprobe/f'' = [''kprobe'', ''f'']" "splitn 2 CHR ''/'' ''maps/events'' = [''maps'', ''events'']"
    by (simp_all add: numeral_2_eq_2)
  have dec: "read_raw dec_bpf_map_def 20 [4, 0, 0, 0, 4, 0, 0, 0, 4, 0, 0, 0, 2, 0, 0, 0, 0, 0, 0, 0] 0 = Ok sample_events"
    by (simp add: read_raw_def dec_bpf_map_def_def le32_at_def sample_events_def)
  note defs = split parse_section_def get_split_section_name_def get_section_name_def section_content_def section_arm_def
    is_program_kind_def program_new_def mb_with_section_data_def empty_parse_state_def uadd_def slice_def Let_def
    sample_module_elf_def sample_env_def sample_code_def bind_def sample_loader_elf_def sample_loader_file_def
    parse_map_section_def mb_parse_def dec sample_loader_env_def
  have "parse_section sample_loader_kernel sample_loader_env sample_loader_elf sample_loader_file None empty_parse_state (0, ?sh ! 0) [] = (Ok ?st1, [])"
    by (simp add: defs)
  moreover have "parse_section sample_loader_kernel sample_loader_env sample_loader_elf sample_loader_file None ?st1 (1, ?sh ! 1) [] = (Ok ?st2, [])"
    by (simp add: defs)
  moreover have "enumerate 0 ?sh = [(0, ?sh ! 0), (1, ?sh ! 1)]" by (simp add: sample_loader_elf_def)
  ultimately have f: "fold_action (parse_section sample_loader_kernel sample_loader_env sample_loader_elf sample_loader_file None) empty_parse_state
      (enumerate 0 ?sh) [] = (Ok ?st2, [])"
    by (simp add: bind_def)
  have o: "optional_btf sample_loader_kernel sample_loader_elf sample_loader_file [] = (Ok None, [])"
    by (simp add: optional_btf_def parse_elf_def get_section_header_by_name_def btf_get_section_name_def sample_loader_elf_def sample_module_elf_def
        bind_def catch_def)
  with f show ?thesis
    by (simp add: module_builder_parse_def bind_def catch_def empty_parse_state_def sample_loader_env_def)
qed

lemma sample_load_programs:
  "\<exists>h1. load_programs sample_loader_kernel 0 [] [sample_code] h = (Ok (), [set_fd 9 sample_code], h1)"
  by (simp add: program_load_def sample_code_def prog_fd_def prog_name_def cstring_try_def cstring_new_def
      as_bytes_def sample_loader_kernel_def Let_def)

lemma sample_to_map:
  "\<exists>h1. mb_to_map sample_loader_kernel (MB_Normal ''events'' sample_events None) [] = (Ok sample_events_map, h1)"
  by (simp add: with_map_def_def sample_events_def sample_events_map_def sample_loader_kernel_def cstring_try_def cstring_new_def
      as_bytes_def Let_def bind_def call_def)

lemma sample_module_parse:
  "\<exists>M h1. module_parse sample_loader_kernel sample_loader_env sample_loader_file [] = (Ok M, h1) \<and>
     mod_programs M = [sample_code] \<and> mod_maps M = [sample_events_map] \<and> mod_license M = [] \<and> mod_version M = 0"
proof -
  obtain b where b: "module_builder_parse sample_loader_kernel sample_loader_env sample_loader_file [] = (Ok b, [])"
    "bd_programs b = [(0, sample_code)]" "bd_map_builders b = [(1, MB_Normal ''events'' sample_events None)]"
    "bd_symval_builders b = []" "bd_rels b = []" "bd_btf b = None" "bd_license b = []" "bd_version b = 0"
    using sample_builder_parse by blast
  obtain h1 where "mb_to_map sample_loader_kernel (MB_Normal ''events'' sample_events None) [] = (Ok sample_events_map, h1)"
    using sample_to_map by blast
  then show ?thesis
    using b by (simp add: module_parse_def to_module_def bind_def catch_def drop_btf_opt_def)
qed

theorem loader_load_complete_witness:
  "\<exists>L h'. loader_load sample_loader_kernel sample_loader_env (\<lambda>_. True) sample_loader_file [] = (Ok L, h') \<and>
     (\<forall>p \<in> set (mod_programs (ld_module L)). prog_fd p \<noteq> None) \<and> mod_programs (ld_module L) \<noteq> [] \<and> length (ld_tasks L) = 2"
proof -
  obtain M h1 where M: "module_parse sample_loader_kernel sample_loader_env sample_loader_file [] = (Ok M, h1)"
    "mod_programs M = [sample_code]" "mod_maps M = [sample_events_map]" "mod_license M = []" "mod_version M = 0"
    using sample_module_parse by blast
  obtain h2 where h2: "load_programs sample_loader_kernel 0 [] [sample_code] h1 = (Ok (), [set_fd 9 sample_code], h2)"
    using sample_load_programs by blast
  let ?c = "Read_file ''/sys/devices/system/cpu/online''"
  obtain ss h3 where ss: "bind_cpus sample_loader_kernel (\<lambda>_. True) sample_events_map [0, 1] (h2 @ [(?c, sample_loader_kernel h2 ?c)]) = (Ok ss, h3)"
    using sample_bind_cpus by blast
  let ?L = "\<lparr>ld_module = M\<lparr>mod_programs := [set_fd 9 sample_code]\<rparr>, ld_tasks = ss\<rparr>"
  have L: "loader_load sample_loader_kernel sample_loader_env (\<lambda>_. True) sample_loader_file [] = (Ok ?L, h3)"
    using M h2 ss sample_online
    by (simp add: loader_load_def start_tasks_def bind_def sample_events_map_def)
  moreover have "length ss = 2"
    using bind_cpus_reads [OF ss] by (auto dest: list_all2_lengthD)
  ultimately show ?thesis using loader_load_complete [OF L] by (intro exI [of _ ?L] exI [of _ h3]) simp
qed

theorem task_poll_delivers_witness:
  "holds sample_ring [sample_record] \<and>
   (\<exists>s'. task_poll True ReadyOk 2 \<lparr>pms_name = ''m'', pms_map = sample_ring\<rparr> [] = Some (Ok (s', [(''m'', samples [sample_record])])))"
  using task_poll_delivers [of "\<lparr>pms_name = ''m'', pms_map = sample_ring\<rparr>" "[sample_record]" 2 "[]"] sample_ring_holds by auto

end
