(* ===== verification/Probe_Net.thy ===== *)
theory Probe_Net
  imports Errors
begin

text \<open>
  The packet parser of the BPF side, \<open>redbpf-probes/src/net.rs\<close>, with the context of XDP
  programs from \<open>xdp/mod.rs\<close>. A buffer is the memory between two addresses; reading
  anything else is \<open>Undefined\<close>. The structures \<open>ethhdr\<close>, \<open>iphdr\<close>, \<open>tcphdr\<close> and \<open>udphdr\<close> come
  from bindings that the build generates, so their sizes and the functions that read
  their fields are a parameter, \<open>headers\<close>. Programs for the kernel are built in release
  mode, so the additions on addresses wrap.
\<close>

section \<open>Buffers\<close>

datatype NetworkError = Other | OutOfBounds | NoIPHeader | UnsupportedTransport u32

type_synonym 'a NetworkResult = "(NetworkError, 'a) outcome"

record NetworkBuffer =
  data_start :: u64
  data_end :: u64
  memory :: bytes

text \<open>\<open>xdp_md\<close>, whose fields are 32 bits wide, with the packet it refers to.\<close>

record XdpContext =
  xdp_data :: u32
  xdp_data_end :: u32
  packet :: bytes

definition xdp_buffer :: "XdpContext \<Rightarrow> NetworkBuffer" where
  "xdp_buffer c = \<lparr>data_start = ucast (xdp_data c), data_end = ucast (xdp_data_end c), memory = packet c\<rparr>"

record headers =
  ethhdr_size :: nat
  iphdr_size :: nat
  tcphdr_size :: nat
  udphdr_size :: nat
  h_proto :: "bytes \<Rightarrow> u16"
  ihl :: "bytes \<Rightarrow> u8"
  protocol :: "bytes \<Rightarrow> u8"
  doff :: "bytes \<Rightarrow> u16"
  tcp_source :: "bytes \<Rightarrow> u16"
  tcp_dest :: "bytes \<Rightarrow> u16"
  udp_source :: "bytes \<Rightarrow> u16"
  udp_dest :: "bytes \<Rightarrow> u16"

text \<open>Reading \<open>n\<close> bytes through a pointer.\<close>

definition deref :: "NetworkBuffer \<Rightarrow> u64 \<Rightarrow> nat \<Rightarrow> bytes NetworkResult" where
  "deref b a n =
     (if data_start b \<le> a \<and> unat (a - data_start b) + n \<le> length (memory b)
      then Ok (take n (drop (unat (a - data_start b)) (memory b))) else Undefined)"

section \<open>The trait\<close>

definition net_len :: "NetworkBuffer \<Rightarrow> u64" where
  "net_len b = data_end b - data_start b"

definition check_bounds :: "NetworkBuffer \<Rightarrow> u64 \<Rightarrow> u64 \<Rightarrow> unit NetworkResult" where
  "check_bounds b start fin =
     (if fin \<le> start then Err OutOfBounds
      else if start < data_start b then Err OutOfBounds
      else if data_end b < fin then Err OutOfBounds
      else Ok ())"

text \<open>\<open>ptr_at::<U>\<close> and \<open>ptr_after::<T, U>\<close>; the sizes of the types are arguments.\<close>

definition ptr_at :: "NetworkBuffer \<Rightarrow> nat \<Rightarrow> u64 \<Rightarrow> u64 NetworkResult" where
  "ptr_at b size_u addr = and_then (check_bounds b addr (addr + of_nat size_u)) (\<lambda>_. Ok addr)"

definition ptr_after :: "NetworkBuffer \<Rightarrow> nat \<Rightarrow> nat \<Rightarrow> u64 \<Rightarrow> u64 NetworkResult" where
  "ptr_after b size_t size_u prev = ptr_at b size_u (prev + of_nat size_t)"

text \<open>\<open>u16::from_be\<close> on a little-endian target\<close>

definition from_be16 :: "u16 \<Rightarrow> u16" where
  "from_be16 x = push_bit 8 x OR drop_bit 8 x"

abbreviation (input) ETH_P_IP :: u16 where "ETH_P_IP \<equiv> 0x0800"
abbreviation (input) IPPROTO_TCP :: u32 where "IPPROTO_TCP \<equiv> 6"
abbreviation (input) IPPROTO_UDP :: u32 where "IPPROTO_UDP \<equiv> 17"

definition eth :: "headers \<Rightarrow> NetworkBuffer \<Rightarrow> u64 NetworkResult" where
  "eth H b = ptr_at b (ethhdr_size H) (data_start b)"

definition ip :: "headers \<Rightarrow> NetworkBuffer \<Rightarrow> u64 NetworkResult" where
  "ip H b =
     and_then (eth H b) (\<lambda>e.
     and_then (deref b e (ethhdr_size H)) (\<lambda>hdr.
     if h_proto H hdr \<noteq> from_be16 ETH_P_IP then Err NoIPHeader
     else ptr_after b (ethhdr_size H) (iphdr_size H) e))"

datatype Transport = TCP u64 | UDP u64

definition transport :: "headers \<Rightarrow> NetworkBuffer \<Rightarrow> Transport NetworkResult" where
  "transport H b =
     and_then (ip H b) (\<lambda>p.
     and_then (deref b p (iphdr_size H)) (\<lambda>hdr.
     let addr = p + ucast (ihl H hdr * 4); t = ucast (protocol H hdr) :: u32
     in if t = IPPROTO_TCP then and_then (ptr_at b (tcphdr_size H) addr) (\<lambda>q. Ok (TCP q))
        else if t = IPPROTO_UDP then and_then (ptr_at b (udphdr_size H) addr) (\<lambda>q. Ok (UDP q))
        else Err (UnsupportedTransport t)))"

text \<open>\<open>Transport::source\<close> and \<open>Transport::dest\<close> read through the pointer.\<close>

fun source :: "headers \<Rightarrow> NetworkBuffer \<Rightarrow> Transport \<Rightarrow> u16 NetworkResult" where
  "source H b (TCP p) = and_then (deref b p (tcphdr_size H)) (\<lambda>hdr. Ok (from_be16 (tcp_source H hdr)))"
| "source H b (UDP p) = and_then (deref b p (udphdr_size H)) (\<lambda>hdr. Ok (from_be16 (udp_source H hdr)))"

fun dest :: "headers \<Rightarrow> NetworkBuffer \<Rightarrow> Transport \<Rightarrow> u16 NetworkResult" where
  "dest H b (TCP p) = and_then (deref b p (tcphdr_size H)) (\<lambda>hdr. Ok (from_be16 (tcp_dest H hdr)))"
| "dest H b (UDP p) = and_then (deref b p (udphdr_size H)) (\<lambda>hdr. Ok (from_be16 (udp_dest H hdr)))"

section \<open>The data of a packet\<close>

record net_data =
  data_ctx :: NetworkBuffer
  data_base :: u64

text \<open>A pointer to \<open>c_void\<close>, whose size is one byte, ends the headers.\<close>

definition net_data_of :: "headers \<Rightarrow> NetworkBuffer \<Rightarrow> net_data NetworkResult" where
  "net_data_of H b =
     and_then (transport H b) (\<lambda>t.
     and_then (case t of
         TCP hdr \<Rightarrow>
           and_then (deref b hdr (tcphdr_size H)) (\<lambda>h. ptr_at b 1 (hdr + ucast (doff H h * 4)))
       | UDP hdr \<Rightarrow> ptr_after b (udphdr_size H) 1 hdr) (\<lambda>base.
     Ok \<lparr>data_ctx = b, data_base = base\<rparr>))"

definition data_offset :: "net_data \<Rightarrow> u64" where
  "data_offset d = data_base d - data_start (data_ctx d)"

definition data_len :: "net_data \<Rightarrow> u64" where
  "data_len d = data_end (data_ctx d) - data_base d"

definition data_slice :: "net_data \<Rightarrow> u64 \<Rightarrow> bytes NetworkResult" where
  "data_slice d n =
     and_then (check_bounds (data_ctx d) (data_base d) (data_base d + n)) (\<lambda>_.
     deref (data_ctx d) (data_base d) (unat n))"

text \<open>\<open>read::<U>\<close> for an array of \<open>size_u\<close> bytes\<close>

definition data_read :: "net_data \<Rightarrow> nat \<Rightarrow> bytes NetworkResult" where
  "data_read d size_u =
     and_then (check_bounds (data_ctx d) (data_base d) (data_base d + of_nat size_u)) (\<lambda>_.
     deref (data_ctx d) (data_base d) size_u)"


section \<open>Reads stay inside the packet\<close>

text \<open>The kernel's contract for the two addresses, and that sizes of types fit in a \<open>usize\<close>.\<close>

definition buffer_ok :: "NetworkBuffer \<Rightarrow> bool" where
  "buffer_ok b \<longleftrightarrow> unat (data_start b) + length (memory b) = unat (data_end b)"

definition headers_ok :: "headers \<Rightarrow> bool" where
  "headers_ok H \<longleftrightarrow> ethhdr_size H < 2 ^ 64 \<and> iphdr_size H < 2 ^ 64 \<and> tcphdr_size H < 2 ^ 64 \<and> udphdr_size H < 2 ^ 64"

definition inside :: "NetworkBuffer \<Rightarrow> u64 \<Rightarrow> nat \<Rightarrow> bool" where
  "inside b a n \<longleftrightarrow> unat (data_start b) \<le> unat a \<and> unat a + n \<le> unat (data_end b)"

definition content :: "NetworkBuffer \<Rightarrow> u64 \<Rightarrow> nat \<Rightarrow> bytes" where
  "content b a n = take n (drop (unat a - unat (data_start b)) (memory b))"

lemma deref_inside: "buffer_ok b \<Longrightarrow> deref b a n = (if inside b a n then Ok (content b a n) else Undefined)"
  by (auto simp: deref_def inside_def content_def buffer_ok_def unat_sub word_le_nat_alt)

lemma check_bounds_inside:
  assumes "n < 2 ^ 64"
  shows "check_bounds b a (a + of_nat n) = (if 0 < n \<and> inside b a n then Ok () else Err OutOfBounds)"
proof -
  have a: "unat a < 2 ^ 64" "unat (data_end b) < 2 ^ 64" using unsigned_less [of a, where 'a = nat] unsigned_less [of "data_end b", where 'a = nat] by simp_all
  have n: "unat (of_nat n :: u64) = n" using assms by (simp add: unat_of_nat)
  show ?thesis
  proof (cases "unat a + n < 2 ^ 64")
    case True
    then have "unat (a + of_nat n) = unat a + n" by (simp add: unat_word_ariths n)
    then show ?thesis by (auto simp: check_bounds_def inside_def word_le_nat_alt word_less_nat_alt)
  next
    case False
    then have "unat (a + of_nat n) = unat a + n - 2 ^ 64" using a assms by (simp add: unat_word_ariths n le_mod_geq)
    then have "a + of_nat n \<le> a" using a assms by (simp add: word_le_nat_alt)
    with False a show ?thesis by (auto simp: check_bounds_def inside_def)
  qed
qed

lemma ptr_at_inside:
  "n < 2 ^ 64 \<Longrightarrow> ptr_at b n a = (if 0 < n \<and> inside b a n then Ok a else Err OutOfBounds)"
  by (simp add: ptr_at_def check_bounds_inside)


text \<open>\<open>safe r P\<close>: \<open>r\<close> is an error or a value with \<open>P\<close>, and neither a panic nor undefined.\<close>

definition safe :: "'a NetworkResult \<Rightarrow> ('a \<Rightarrow> bool) \<Rightarrow> bool" where
  "safe r P \<longleftrightarrow> (case r of Ok x \<Rightarrow> P x | Err _ \<Rightarrow> True | _ \<Rightarrow> False)"

lemma safe_simps [simp]: "safe (Ok x) P \<longleftrightarrow> P x" "safe (Err e) P" "\<not> safe Panic P" "\<not> safe Undefined P"
  by (simp_all add: safe_def)

lemma safe_and_then: "safe r P \<Longrightarrow> (\<And>x. P x \<Longrightarrow> safe (g x) Q) \<Longrightarrow> safe (and_then r g) Q"
  by (cases r) simp_all

lemma safe_mono: "safe r P \<Longrightarrow> (\<And>x. P x \<Longrightarrow> Q x) \<Longrightarrow> safe r Q"
  by (cases r) simp_all

fun transport_inside :: "headers \<Rightarrow> NetworkBuffer \<Rightarrow> Transport \<Rightarrow> bool" where
  "transport_inside H b (TCP p) = inside b p (tcphdr_size H)"
| "transport_inside H b (UDP p) = inside b p (udphdr_size H)"

lemma ptr_at_safe: "n < 2 ^ 64 \<Longrightarrow> safe (ptr_at b n a) (\<lambda>p. p = a \<and> inside b a n)"
  by (simp add: ptr_at_inside)

lemma ptr_at_header:
  assumes "headers_ok H"
  shows "ptr_at b (ethhdr_size H) a = (if 0 < ethhdr_size H \<and> inside b a (ethhdr_size H) then Ok a else Err OutOfBounds)"
    "ptr_at b (iphdr_size H) a = (if 0 < iphdr_size H \<and> inside b a (iphdr_size H) then Ok a else Err OutOfBounds)"
    "ptr_at b (tcphdr_size H) a = (if 0 < tcphdr_size H \<and> inside b a (tcphdr_size H) then Ok a else Err OutOfBounds)"
    "ptr_at b (udphdr_size H) a = (if 0 < udphdr_size H \<and> inside b a (udphdr_size H) then Ok a else Err OutOfBounds)"
  using assms unfolding headers_ok_def by (simp_all only: ptr_at_inside)

lemma deref_safe: "buffer_ok b \<Longrightarrow> inside b a n \<Longrightarrow> safe (deref b a n) (\<lambda>hdr. hdr = content b a n)"
  by (simp add: deref_inside)

lemma length_content: "buffer_ok b \<Longrightarrow> inside b a n \<Longrightarrow> length (content b a n) = n"
  by (auto simp: content_def inside_def buffer_ok_def)

lemma eth_safe: "headers_ok H \<Longrightarrow> safe (eth H b) (\<lambda>p. inside b p (ethhdr_size H))"
  unfolding eth_def by (rule safe_mono [OF ptr_at_safe]) (simp_all add: headers_ok_def)

lemma ip_safe:
  assumes "buffer_ok b" "headers_ok H"
  shows "safe (ip H b) (\<lambda>p. inside b p (iphdr_size H))"
proof -
  have "safe (ptr_after b (ethhdr_size H) (iphdr_size H) e) (\<lambda>p. inside b p (iphdr_size H))" for e
    unfolding ptr_after_def by (rule safe_mono [OF ptr_at_safe]) (use assms(2) in \<open>simp_all add: headers_ok_def\<close>)
  then show ?thesis
    unfolding ip_def
    by (intro safe_and_then [OF eth_safe [OF assms(2)]] safe_and_then [OF deref_safe [OF assms(1)]]) auto
qed

lemma transport_safe:
  assumes "buffer_ok b" "headers_ok H"
  shows "safe (transport H b) (transport_inside H b)"
proof -
  have "safe (and_then (ptr_at b (tcphdr_size H) a) (\<lambda>q. Ok (TCP q))) (transport_inside H b)"
    "safe (and_then (ptr_at b (udphdr_size H) a) (\<lambda>q. Ok (UDP q))) (transport_inside H b)" for a
    using assms(2) by (auto simp: ptr_at_inside headers_ok_def)
  then show ?thesis
    unfolding transport_def Let_def
    by (intro safe_and_then [OF ip_safe [OF assms]] safe_and_then [OF deref_safe [OF assms(1)]]) auto
qed

lemma check_bounds_word:
  "check_bounds b a (a + n) = (if 0 < unat n \<and> inside b a (unat n) then Ok () else Err OutOfBounds)"
  using check_bounds_inside [of "unat n" b a] unat_u64_less [of n] by simp

text \<open>
  C13: whatever bytes a packet holds, no operation of the parser reads outside of it: the
  headers that \<open>eth\<close>, \<open>ip\<close> and \<open>transport\<close> return pointers to lie between the two
  addresses of the context, so do the ports read from them, the byte that \<open>data\<close> points
  to, and every slice and every array read from there, and nothing panics.
\<close>

theorem parsing_stays_inside:
  assumes "buffer_ok b" and "headers_ok H"
  shows "safe (eth H b) (\<lambda>p. inside b p (ethhdr_size H)) \<and> safe (ip H b) (\<lambda>p. inside b p (iphdr_size H)) \<and>
    safe (transport H b) (\<lambda>t. transport_inside H b t \<and> safe (source H b t) (\<lambda>_. True) \<and> safe (dest H b t) (\<lambda>_. True)) \<and>
    safe (net_data_of H b) (\<lambda>d. data_ctx d = b \<and> inside b (data_base d) 1 \<and>
      (\<forall>n. safe (data_slice d n) (\<lambda>s. length s = unat n \<and> inside b (data_base d) (unat n))) \<and>
      (\<forall>m < 2 ^ 64. safe (data_read d m) (\<lambda>s. length s = m \<and> inside b (data_base d) m)))"
proof (intro conjI)
  show "safe (eth H b) (\<lambda>p. inside b p (ethhdr_size H))" using assms(2) by (rule eth_safe)
  show "safe (ip H b) (\<lambda>p. inside b p (iphdr_size H))" using assms by (rule ip_safe)
  have "safe (source H b t) (\<lambda>_. True)" "safe (dest H b t) (\<lambda>_. True)" if "transport_inside H b t" for t
    using that assms(1) by (cases t; simp add: deref_inside)+
  with transport_safe [OF assms] show "safe (transport H b) (\<lambda>t. transport_inside H b t \<and>
      safe (source H b t) (\<lambda>_. True) \<and> safe (dest H b t) (\<lambda>_. True))"
    by (auto elim: safe_mono)
  have reads: "safe (data_slice d n) (\<lambda>s. length s = unat n \<and> inside b (data_base d) (unat n))"
    "m < 2 ^ 64 \<Longrightarrow> safe (data_read d m) (\<lambda>s. length s = m \<and> inside b (data_base d) m)"
    if "data_ctx d = b" for d n m
    using that assms(1)
    by (simp_all add: data_slice_def data_read_def check_bounds_word deref_inside length_content unat_of_nat)
  have "safe (case t of TCP hdr \<Rightarrow> and_then (deref b hdr (tcphdr_size H)) (\<lambda>h. ptr_at b 1 (hdr + ucast (doff H h * 4)))
      | UDP hdr \<Rightarrow> ptr_after b (udphdr_size H) 1 hdr) (\<lambda>p. inside b p 1)" if "transport_inside H b t" for t
    using that assms(1) by (cases t) (simp_all add: deref_inside ptr_after_def ptr_at_inside)
  then show "safe (net_data_of H b) (\<lambda>d. data_ctx d = b \<and> inside b (data_base d) 1 \<and>
      (\<forall>n. safe (data_slice d n) (\<lambda>s. length s = unat n \<and> inside b (data_base d) (unat n))) \<and>
      (\<forall>m < 2 ^ 64. safe (data_read d m) (\<lambda>s. length s = m \<and> inside b (data_base d) m)))"
    unfolding net_data_of_def
    by (rule safe_and_then [OF transport_safe [OF assms] safe_and_then]) (auto intro: reads [where d = "\<lparr>data_ctx = b, data_base = x\<rparr>" for x, simplified])
qed


section \<open>A well-formed packet is parsed\<close>

text \<open>
  The three headers of an IP packet over Ethernet, with their options: the lengths that
  the IP and the TCP header state are their lengths.
\<close>

definition packet_headers :: "headers \<Rightarrow> bytes \<Rightarrow> bytes \<Rightarrow> bytes \<Rightarrow> bool" where
  "packet_headers H e i t \<longleftrightarrow>
     0 < ethhdr_size H \<and> length e = ethhdr_size H \<and> h_proto H e = from_be16 ETH_P_IP \<and>
     (let h = take (iphdr_size H) i in 0 < iphdr_size H \<and> iphdr_size H \<le> length i \<and> length i = 4 * unat (ihl H h) \<and> unat (ihl H h) < 16 \<and>
        (if protocol H h = 6 then
           let u = take (tcphdr_size H) t in 0 < tcphdr_size H \<and> tcphdr_size H \<le> length t \<and> length t = 4 * unat (doff H u) \<and> unat (doff H u) < 16
         else protocol H h = 17 \<and> 0 < udphdr_size H \<and> length t = udphdr_size H))"

lemma unat_at:
  assumes "buffer_ok b" "k \<le> length (memory b)"
  shows "unat (data_start b + of_nat k) = unat (data_start b) + k"
proof -
  have "unat (data_start b) + k < 2 ^ 64" using assms unat_u64_less [of "data_end b"] by (simp add: buffer_ok_def)
  moreover from this have "unat (of_nat k :: u64) = k" by (simp add: unat_of_nat)
  ultimately show ?thesis by (simp add: unat_word_ariths)
qed

lemma inside_at:
  assumes "buffer_ok b" "k \<le> length (memory b)"
  shows "inside b (data_start b + of_nat k) n \<longleftrightarrow> k + n \<le> length (memory b)"
  using assms unat_at [OF assms] by (auto simp: inside_def buffer_ok_def)

lemma content_at:
  assumes "buffer_ok b" "k \<le> length (memory b)"
  shows "content b (data_start b + of_nat k) n = take n (drop k (memory b))"
  using unat_at [OF assms] by (simp add: content_def)

lemma ucast_times_4: "unat (x :: u8) < 16 \<Longrightarrow> (ucast (x * 4) :: u64) = of_nat (4 * unat x)"
  "unat (y :: u16) < 16 \<Longrightarrow> (ucast (y * 4) :: u64) = of_nat (4 * unat y)"
  by (simp_all add: word_unat_eq_iff unsigned_ucast_eq take_bit_eq_mod unat_word_ariths unat_of_nat)

lemma transport_found:
  assumes "buffer_ok b" "headers_ok H" "packet_headers H e i t" "memory b = e @ i @ t @ payload"
  defines "p \<equiv> data_start b + of_nat (length e + length i)"
  shows "transport H b = Ok (if protocol H (take (iphdr_size H) i) = 6 then TCP p else UDP p)"
proof -
  note at = inside_at [OF assms(1)] content_at [OF assms(1)]
  have len: "length (memory b) = length e + length i + length t + length payload" using assms(4) by simp
  have e: "eth H b = Ok (data_start b)"
    using assms(3) at(1) [of 0] len by (simp add: eth_def ptr_at_header [OF assms(2)] packet_headers_def)
  have "ip H b = Ok (data_start b + of_nat (length e))"
    using assms(1,3,4) at(1) [of 0] at(2) [of 0] at(1) [of "length e"] len
    by (simp add: ip_def e ptr_after_def deref_inside ptr_at_header [OF assms(2)] packet_headers_def Let_def)
  then show ?thesis
    using assms(1,3,4) at(1) [of "length e"] at(2) [of "length e"] at(1) [of "length e + length i"] len
    by (auto simp: transport_def p_def deref_inside ptr_at_header [OF assms(2)] packet_headers_def Let_def ucast_times_4 add.assoc split: if_splits)
qed


text \<open>
  For an IP packet over Ethernet with a TCP or a UDP header, options included,
  \<open>data\<close> finds the payload: its offset is the length of the headers, its length that of
  the payload, a slice of it is its first bytes and a slice that is empty or too long is
  refused. A packet without payload is refused as out of bounds.
\<close>

theorem payload_found:
  assumes "buffer_ok b" and "headers_ok H" and "packet_headers H e i t" and "memory b = e @ i @ t @ payload"
  shows "if payload = [] then net_data_of H b = Err OutOfBounds
    else \<exists>d. net_data_of H b = Ok d \<and> unat (data_offset d) = length e + length i + length t \<and>
      unat (data_len d) = length payload \<and>
      (\<forall>n. data_slice d n = (if 0 < unat n \<and> unat n \<le> length payload then Ok (take (unat n) payload) else Err OutOfBounds))"
proof -
  let ?hl = "length e + length i + length t"
  define base where "base = data_start b + of_nat ?hl"
  have len: "length (memory b) = ?hl + length payload" using assms(4) by simp
  note at = inside_at [OF assms(1)] content_at [OF assms(1)] unat_at [OF assms(1)]
  have data: "net_data_of H b = (if payload = [] then Err OutOfBounds else Ok \<lparr>data_ctx = b, data_base = base\<rparr>)"
  proof -
    let ?p = "data_start b + of_nat (length e + length i)"
    have one: "ptr_at b 1 base = (if payload = [] then Err OutOfBounds else Ok base)"
      using at(1) [of ?hl] len by (simp add: ptr_at_inside base_def Suc_le_eq)
    show ?thesis
    proof (cases "protocol H (take (iphdr_size H) i) = 6")
      case True
      then have t: "tcphdr_size H \<le> length t" "length t = 4 * unat (doff H (take (tcphdr_size H) t))"
        "unat (doff H (take (tcphdr_size H) t)) < 16"
        using assms(3) by (simp_all add: packet_headers_def Let_def)
      have "deref b ?p (tcphdr_size H) = Ok (take (tcphdr_size H) t)"
        using at(1,2) [of "length e + length i"] len t(1) assms(1,4) by (simp add: deref_inside del: of_nat_add)
      moreover have "?p + ucast (doff H (take (tcphdr_size H) t) * 4) = base"
        unfolding ucast_times_4(2) [OF t(3)] t(2) [symmetric] base_def by (simp add: add.assoc)
      ultimately show ?thesis
        using True transport_found [OF assms] one by (simp add: net_data_of_def del: of_nat_add)
    next
      case False
      then have "length t = udphdr_size H" using assms(3) by (simp add: packet_headers_def Let_def)
      then have "?p + of_nat (udphdr_size H) = base" by (simp add: base_def add.assoc)
      then show ?thesis
        using False transport_found [OF assms] one by (simp add: net_data_of_def ptr_after_def del: of_nat_add)
    qed
  qed
  have base: "unat base = unat (data_start b) + ?hl" using at(3) [of ?hl] len by (simp add: base_def)
  then have "unat (base - data_start b) = ?hl" by (simp add: unat_sub word_le_nat_alt)
  moreover have "unat (data_end b - base) = length payload"
    using base assms(1) len by (simp add: buffer_ok_def unat_sub word_le_nat_alt)
  moreover have "data_slice \<lparr>data_ctx = b, data_base = base\<rparr> n =
      (if 0 < unat n \<and> unat n \<le> length payload then Ok (take (unat n) payload) else Err OutOfBounds)" for n
    using assms(1,4) at(1,2) [of ?hl] len
    by (simp add: data_slice_def check_bounds_word deref_inside base_def)
  ultimately show ?thesis unfolding data by (simp add: data_offset_def data_len_def)
qed

text \<open>The layouts of the kernel's headers, and a UDP packet with a payload of four bytes.\<close>

definition be16_at :: "bytes \<Rightarrow> nat \<Rightarrow> u16" where
  "be16_at bs i = ucast (bs ! i) OR push_bit 8 (ucast (bs ! (i + 1)))"

definition sample_headers :: headers where
  "sample_headers =
     \<lparr>ethhdr_size = 14, iphdr_size = 20, tcphdr_size = 20, udphdr_size = 8, h_proto = \<lambda>h. be16_at h 12,
      ihl = \<lambda>h. h ! 0 AND 0x0F, protocol = \<lambda>h. h ! 9, doff = \<lambda>h. ucast (drop_bit 4 (h ! 12)),
      tcp_source = \<lambda>h. be16_at h 0, tcp_dest = \<lambda>h. be16_at h 2, udp_source = \<lambda>h. be16_at h 0, udp_dest = \<lambda>h. be16_at h 2\<rparr>"

definition sample_eth :: bytes where "sample_eth = replicate 12 0 @ [0x08, 0x00]"
definition sample_ip :: bytes where "sample_ip = [0x45, 0, 0, 32, 0, 0, 0, 0, 64, 17, 0, 0, 10, 0, 0, 1, 10, 0, 0, 2]"
definition sample_udp :: bytes where "sample_udp = [0, 53, 0x30, 0x39, 0, 12, 0, 0]"

definition sample_xdp :: XdpContext where
  "sample_xdp = \<lparr>xdp_data = 0x1000, xdp_data_end = 0x102E, packet = sample_eth @ sample_ip @ sample_udp @ [1, 2, 3, 4]\<rparr>"

lemma sample_packet:
  "buffer_ok (xdp_buffer sample_xdp)" "headers_ok sample_headers" "packet_headers sample_headers sample_eth sample_ip sample_udp"
  "memory (xdp_buffer sample_xdp) = sample_eth @ sample_ip @ sample_udp @ [1, 2, 3, 4]"
  by (simp_all add: xdp_buffer_def sample_xdp_def buffer_ok_def headers_ok_def packet_headers_def sample_headers_def sample_eth_def
      sample_ip_def sample_udp_def be16_at_def from_be16_def Let_def nth_append)

theorem parsing_stays_inside_witness:
  "\<exists>p d. eth sample_headers (xdp_buffer sample_xdp) = Ok p \<and> inside (xdp_buffer sample_xdp) p 14 \<and>
     net_data_of sample_headers (xdp_buffer sample_xdp) = Ok d \<and> inside (xdp_buffer sample_xdp) (data_base d) 1 \<and>
     data_read d 4 = Ok [1, 2, 3, 4] \<and> inside (xdp_buffer sample_xdp) (data_base d) 4 \<and> data_read d 5 = Err OutOfBounds"
proof -
  let ?b = "xdp_buffer sample_xdp" and ?H = sample_headers
  have e: "eth ?H ?b = Ok 0x1000"
    by (simp add: eth_def ptr_at_def check_bounds_def xdp_buffer_def sample_xdp_def sample_headers_def)
  have "transport ?H ?b = Ok (UDP 0x1022)"
    using transport_found [OF sample_packet] by (simp add: xdp_buffer_def sample_xdp_def sample_headers_def sample_eth_def sample_ip_def)
  then have d: "net_data_of ?H ?b = Ok \<lparr>data_ctx = ?b, data_base = 0x102A\<rparr>"
    by (simp add: net_data_of_def ptr_after_def ptr_at_def check_bounds_def xdp_buffer_def sample_xdp_def sample_headers_def)
  have "data_read \<lparr>data_ctx = ?b, data_base = 0x102A\<rparr> 4 = Ok [1, 2, 3, 4]" "data_read \<lparr>data_ctx = ?b, data_base = 0x102A\<rparr> 5 = Err OutOfBounds"
    by (simp_all add: data_read_def check_bounds_def deref_def xdp_buffer_def sample_xdp_def sample_eth_def sample_ip_def sample_udp_def)
  moreover have "ethhdr_size ?H = 14" by (simp add: sample_headers_def)
  moreover note parsing_stays_inside [OF sample_packet(1,2)]
  ultimately show ?thesis unfolding e d safe_simps
    by (intro exI [of _ "0x1000"] exI [of _ "\<lparr>data_ctx = ?b, data_base = 0x102A\<rparr>"])
      (auto simp: safe_def dest!: spec [of _ 4])
qed

theorem payload_found_witness:
  "\<exists>d. net_data_of sample_headers (xdp_buffer sample_xdp) = Ok d \<and> unat (data_offset d) = 42 \<and> unat (data_len d) = 4 \<and>
     data_slice d 2 = Ok [1, 2]"
proof -
  have "length sample_eth + length sample_ip + length sample_udp = 42"
    by (simp add: sample_eth_def sample_ip_def sample_udp_def)
  with payload_found [OF sample_packet] show ?thesis by force
qed

end
