(* ===== verification/Probe_Maps.thy ===== *)
theory Probe_Maps
  imports Loader Probe_Net
begin

text \<open>
  The maps as BPF programs declare and use them, \<open>redbpf-probes/src/maps.rs\<close>, \<open>tc/maps.rs\<close>,
  \<open>xdp/devmap.rs\<close>, \<open>xdp/xskmap.rs\<close> and the perf map of \<open>xdp/mod.rs\<close>, the socket buffer of
  \<open>socket.rs\<close>, the trace message of \<open>helpers.rs\<close>, and the reader of XDP samples in user space,
  \<open>redbpf/src/xdp.rs\<close>. The kernel's helper functions are reached through generated
  bindings and are parameters. The lemmas connect the two sides: a map that a program
  declares is accepted by the typed view of the same name in user space, and what an XDP
  program sends is what user space reads.
\<close>

section \<open>Declarations\<close>

text \<open>The macro \<open>define_hashmap\<close>; the sizes of the key and the value type are arguments.\<close>

definition define_hashmap :: "u32 \<Rightarrow> nat \<Rightarrow> nat \<Rightarrow> u32 \<Rightarrow> bpf_map_def" where
  "define_hashmap map_type size_k size_v max_entries =
     \<lparr>md_type = map_type, md_key_size = of_nat size_k, md_value_size = of_nat size_v,
      md_max_entries = max_entries, md_map_flags = 0\<rparr>"

definition probe_hash_map :: "nat \<Rightarrow> nat \<Rightarrow> u32 \<Rightarrow> bpf_map_def" where
  "probe_hash_map = define_hashmap 1"

definition probe_percpu_hash_map :: "nat \<Rightarrow> nat \<Rightarrow> u32 \<Rightarrow> bpf_map_def" where
  "probe_percpu_hash_map = define_hashmap 5"

definition probe_lru_hash_map :: "nat \<Rightarrow> nat \<Rightarrow> u32 \<Rightarrow> bpf_map_def" where
  "probe_lru_hash_map = define_hashmap 9"

definition probe_lru_percpu_hash_map :: "nat \<Rightarrow> nat \<Rightarrow> u32 \<Rightarrow> bpf_map_def" where
  "probe_lru_percpu_hash_map = define_hashmap 10"

definition define_array :: "u32 \<Rightarrow> nat \<Rightarrow> u32 \<Rightarrow> bpf_map_def" where
  "define_array map_type size_t max_entries =
     \<lparr>md_type = map_type, md_key_size = 4, md_value_size = of_nat size_t,
      md_max_entries = max_entries, md_map_flags = 0\<rparr>"

definition probe_array :: "nat \<Rightarrow> u32 \<Rightarrow> bpf_map_def" where
  "probe_array = define_array 2"

definition probe_percpu_array :: "nat \<Rightarrow> u32 \<Rightarrow> bpf_map_def" where
  "probe_percpu_array = define_array 6"

definition probe_perf_map :: "u32 \<Rightarrow> bpf_map_def" where
  "probe_perf_map max_entries =
     \<lparr>md_type = 4, md_key_size = 4, md_value_size = 4, md_max_entries = max_entries, md_map_flags = 0\<rparr>"

text \<open>\<open>BpfStackFrames\<close> is an array of 127 words.\<close>

definition probe_stack_trace :: "u32 \<Rightarrow> bpf_map_def" where
  "probe_stack_trace cap =
     \<lparr>md_type = 7, md_key_size = 4, md_value_size = 127 * 8, md_max_entries = cap, md_map_flags = 0\<rparr>"

definition probe_program_array :: "u32 \<Rightarrow> bpf_map_def" where
  "probe_program_array max_entries =
     \<lparr>md_type = 3, md_key_size = 4, md_value_size = 4, md_max_entries = max_entries, md_map_flags = 0\<rparr>"

definition probe_sock_map :: "u32 \<Rightarrow> bpf_map_def" where
  "probe_sock_map max_entries =
     \<lparr>md_type = 15, md_key_size = 4, md_value_size = 4, md_max_entries = max_entries, md_map_flags = 0\<rparr>"

definition probe_dev_map :: "u32 \<Rightarrow> bpf_map_def" where
  "probe_dev_map max_entries =
     \<lparr>md_type = 14, md_key_size = 4, md_value_size = 4, md_max_entries = max_entries, md_map_flags = 0\<rparr>"

definition probe_xsk_map :: "u32 \<Rightarrow> bpf_map_def" where
  "probe_xsk_map max_entries =
     \<lparr>md_type = 17, md_key_size = 4, md_value_size = 4, md_max_entries = max_entries, md_map_flags = 0\<rparr>"

text \<open>The maps of the \<open>tc\<close> utility have a definition of their own.\<close>

record bpf_elf_map =
  em_type :: u32
  em_size_key :: u32
  em_size_value :: u32
  em_max_elem :: u32
  em_flags :: u32
  em_id :: u32
  em_pinning :: u32

datatype TcMapPinning = NoNamespace | ObjectNamespace | GlobalNamespace

fun tc_pinning :: "TcMapPinning \<Rightarrow> u32" where
  "tc_pinning NoNamespace = 0"
| "tc_pinning ObjectNamespace = 1"
| "tc_pinning GlobalNamespace = 2"

definition tc_hash_map :: "nat \<Rightarrow> nat \<Rightarrow> u32 \<Rightarrow> TcMapPinning \<Rightarrow> bpf_elf_map" where
  "tc_hash_map size_k size_v max_entries pinning =
     \<lparr>em_type = 1, em_size_key = of_nat size_k, em_size_value = of_nat size_v, em_max_elem = max_entries,
      em_flags = 0, em_id = 0, em_pinning = tc_pinning pinning\<rparr>"

section \<open>Access\<close>

text \<open>
  The helpers of the kernel on a state of type \<open>'s\<close>. A map is the address of its
  definition, a value that is not there is a null pointer.
\<close>

record 's bpf_helpers =
  map_lookup_elem :: "'s \<Rightarrow> u64 \<Rightarrow> bytes \<Rightarrow> bytes option"
  map_update_elem :: "'s \<Rightarrow> u64 \<Rightarrow> bytes \<Rightarrow> bytes \<Rightarrow> u64 \<Rightarrow> int \<times> 's"
  map_delete_elem :: "'s \<Rightarrow> u64 \<Rightarrow> bytes \<Rightarrow> int \<times> 's"
  perf_event_output :: "'s \<Rightarrow> XdpContext \<Rightarrow> u64 \<Rightarrow> u64 \<Rightarrow> bytes \<Rightarrow> u64 \<Rightarrow> int \<times> 's"
  get_stackid :: "'s \<Rightarrow> u64 \<Rightarrow> u64 \<Rightarrow> int"
  tail_call_helper :: "'s \<Rightarrow> u64 \<Rightarrow> u32 \<Rightarrow> int"
  redirect_map :: "'s \<Rightarrow> u64 \<Rightarrow> u32 \<Rightarrow> u64 \<Rightarrow> int"
  sk_redirect_map :: "'s \<Rightarrow> u64 \<Rightarrow> u32 \<Rightarrow> u64 \<Rightarrow> int"
  skb_load_bytes :: "'s \<Rightarrow> u32 \<Rightarrow> u32 \<Rightarrow> int \<times> bytes"

text \<open>\<open>get\<close>, \<open>get_mut\<close> and \<open>get_val\<close> return the same value; they differ in how it is borrowed.\<close>

definition probe_map_get :: "'s bpf_helpers \<Rightarrow> 'k repr \<Rightarrow> 'v repr \<Rightarrow> u64 \<Rightarrow> 'k \<Rightarrow> 's \<Rightarrow> 'v option" where
  "probe_map_get B kr vr def key s = map_option (dec_of vr) (map_lookup_elem B s def (enc_of kr key))"

definition probe_map_set :: "'s bpf_helpers \<Rightarrow> 'k repr \<Rightarrow> 'v repr \<Rightarrow> u64 \<Rightarrow> 'k \<Rightarrow> 'v \<Rightarrow> 's \<Rightarrow> 's" where
  "probe_map_set B kr vr def key value s = snd (map_update_elem B s def (enc_of kr key) (enc_of vr value) 0)"

definition probe_map_delete :: "'s bpf_helpers \<Rightarrow> 'k repr \<Rightarrow> u64 \<Rightarrow> 'k \<Rightarrow> 's \<Rightarrow> 's" where
  "probe_map_delete B kr def key s = snd (map_delete_elem B s def (enc_of kr key))"

definition probe_array_get :: "'s bpf_helpers \<Rightarrow> 'v repr \<Rightarrow> u64 \<Rightarrow> u32 \<Rightarrow> 's \<Rightarrow> 'v option" where
  "probe_array_get B vr def idx s = map_option (dec_of vr) (map_lookup_elem B s def (u32_to_le idx))"

definition probe_array_set :: "'s bpf_helpers \<Rightarrow> 'v repr \<Rightarrow> u64 \<Rightarrow> u32 \<Rightarrow> 'v \<Rightarrow> 's \<Rightarrow> 's" where
  "probe_array_set B vr def idx value s = snd (map_update_elem B s def (u32_to_le idx) (enc_of vr value) 0)"

definition stack_id :: "'s bpf_helpers \<Rightarrow> u64 \<Rightarrow> u64 \<Rightarrow> 's \<Rightarrow> (int, int) outcome" where
  "stack_id B def flag s = (let r = get_stackid B s def flag in if 0 \<le> r then Ok r else Err r)"

definition tail_call :: "'s bpf_helpers \<Rightarrow> u64 \<Rightarrow> u32 \<Rightarrow> 's \<Rightarrow> (int, unit) outcome" where
  "tail_call B def idx s = (let r = tail_call_helper B s def idx in if r < 0 then Err r else Ok ())"

text \<open>\<open>SockMap::redirect\<close> and \<open>redirect_ingress\<close>; the result is cast to an unsigned word.\<close>

definition sk_action :: "int \<Rightarrow> (unit, unit) outcome" where
  "sk_action r = (let a = of_int r :: u32 in if a = 1 then Ok () else if a = 0 then Err () else Panic)"

definition sock_map_redirect :: "'s bpf_helpers \<Rightarrow> u64 \<Rightarrow> u32 \<Rightarrow> 's \<Rightarrow> (unit, unit) outcome" where
  "sock_map_redirect B def key s = sk_action (sk_redirect_map B s def key 0)"

definition sock_map_redirect_ingress :: "'s bpf_helpers \<Rightarrow> u64 \<Rightarrow> u32 \<Rightarrow> 's \<Rightarrow> (unit, unit) outcome" where
  "sock_map_redirect_ingress B def key s = sk_action (sk_redirect_map B s def key 1)"

datatype XdpAction = Aborted | Drop | Pass | Tx | Redirect

fun xdp_action :: "XdpAction \<Rightarrow> u32" where
  "xdp_action Aborted = 0"
| "xdp_action Drop = 1"
| "xdp_action Pass = 2"
| "xdp_action Tx = 3"
| "xdp_action Redirect = 4"

definition dev_map_redirect :: "'s bpf_helpers \<Rightarrow> u64 \<Rightarrow> u32 \<Rightarrow> 's \<Rightarrow> (unit, unit) outcome" where
  "dev_map_redirect B def key s =
     (if redirect_map B s def key (ucast (xdp_action Aborted)) = int (unat (xdp_action Redirect)) then Ok () else Err ())"

definition xsk_map_redirect :: "'s bpf_helpers \<Rightarrow> u64 \<Rightarrow> u32 \<Rightarrow> 's \<Rightarrow> (unit, unit) outcome" where
  "xsk_map_redirect B def key s =
     (if redirect_map B s def key (ucast (xdp_action Aborted)) = int (unat (xdp_action Redirect)) then Ok () else Err ())"

section \<open>Socket buffers\<close>

datatype SocketError = LoadFailed | ParserError

text \<open>
  \<open>SkBuff::load\<close> for a word of \<open>n\<close> bytes. \<open>from_be\<close> reads the bytes in the order of the
  network, the reverse of the order of the target; the offset is cut to 32 bits.
\<close>

definition skb_load :: "'s bpf_helpers \<Rightarrow> nat \<Rightarrow> u64 \<Rightarrow> 's \<Rightarrow> (SocketError, 'w::len word) outcome" where
  "skb_load B n offset s =
     (case skb_load_bytes B s (ucast offset) (of_nat n) of (r, bs) \<Rightarrow>
        if r < 0 then Err LoadFailed else Ok (word_of_le (rev (take n bs))))"

section \<open>Events of XDP programs\<close>

record PerfMapFlags =
  fl_index :: "u32 option"
  fl_xdp_size :: u32

definition perf_map_flags :: PerfMapFlags where
  "perf_map_flags = \<lparr>fl_index = None, fl_xdp_size = 0\<rparr>"

definition with_xdp_size :: "u32 \<Rightarrow> PerfMapFlags" where
  "with_xdp_size sz = perf_map_flags\<lparr>fl_xdp_size := sz\<rparr>"

definition set_index :: "u32 \<Rightarrow> PerfMapFlags \<Rightarrow> PerfMapFlags" where
  "set_index i f = f\<lparr>fl_index := Some i\<rparr>"

abbreviation (input) BPF_F_CURRENT_CPU :: u32 where "BPF_F_CURRENT_CPU \<equiv> 0xFFFFFFFF"

definition flags_u64 :: "PerfMapFlags \<Rightarrow> u64" where
  "flags_u64 f =
     push_bit 32 (ucast (fl_xdp_size f)) OR ucast (case fl_index f of Some i \<Rightarrow> i | None \<Rightarrow> BPF_F_CURRENT_CPU)"

text \<open>
  \<open>MapData<T>\<close>, a structure in the layout of C: each field at the next multiple of its
  alignment, the whole padded to a multiple of the largest one. The alignment of \<open>T\<close> is an
  argument.
\<close>

record 'a MapData =
  mdt_data :: 'a
  mdt_offset :: u32
  mdt_size :: u32

definition align_to :: "nat \<Rightarrow> nat \<Rightarrow> nat" where
  "align_to n al = (n + al - 1) div al * al"

definition offset_at :: "'a repr \<Rightarrow> nat" where
  "offset_at r = align_to (size_of r) 4"

definition payload_at :: "'a repr \<Rightarrow> nat" where
  "payload_at r = offset_at r + 8"

definition map_data_size :: "'a repr \<Rightarrow> nat \<Rightarrow> nat" where
  "map_data_size r al = align_to (payload_at r) (max al 4)"

definition enc_map_data :: "'a repr \<Rightarrow> nat \<Rightarrow> 'a MapData \<Rightarrow> bytes" where
  "enc_map_data r al d =
     enc_of r (mdt_data d) @ replicate (offset_at r - size_of r) 0 @
     u32_to_le (mdt_offset d) @ u32_to_le (mdt_size d) @ replicate (map_data_size r al - payload_at r) 0"

definition with_payload :: "'a \<Rightarrow> u32 \<Rightarrow> u32 \<Rightarrow> 'a MapData" where
  "with_payload dat off sz = \<lparr>mdt_data = dat, mdt_offset = off, mdt_size = sz\<rparr>"

definition map_data_new :: "'a \<Rightarrow> 'a MapData" where
  "map_data_new dat = with_payload dat 0 0"

text \<open>\<open>PerfMap::insert_with_flags\<close> of \<open>maps.rs\<close>, and \<open>insert\<close> and \<open>insert_with_flags\<close> of \<open>xdp\<close>.\<close>

definition perf_insert_with_flags :: "'s bpf_helpers \<Rightarrow> u64 \<Rightarrow> XdpContext \<Rightarrow> bytes \<Rightarrow> PerfMapFlags \<Rightarrow> 's \<Rightarrow> 's" where
  "perf_insert_with_flags B def ctx dat f s = snd (perf_event_output B s ctx def (flags_u64 f) dat (of_nat (length dat)))"

definition perf_insert :: "'s bpf_helpers \<Rightarrow> u64 \<Rightarrow> XdpContext \<Rightarrow> bytes \<Rightarrow> 's \<Rightarrow> 's" where
  "perf_insert B def ctx dat s = perf_insert_with_flags B def ctx dat perf_map_flags s"

definition xdp_insert :: "'s bpf_helpers \<Rightarrow> 'a repr \<Rightarrow> nat \<Rightarrow> u64 \<Rightarrow> XdpContext \<Rightarrow> 'a MapData \<Rightarrow> 's \<Rightarrow> 's" where
  "xdp_insert B r al def ctx d s =
     perf_insert_with_flags B def ctx (enc_map_data r al d) (with_xdp_size (mdt_size d)) s"

definition xdp_insert_with_flags ::
    "'s bpf_helpers \<Rightarrow> 'a repr \<Rightarrow> nat \<Rightarrow> u64 \<Rightarrow> XdpContext \<Rightarrow> 'a MapData \<Rightarrow> PerfMapFlags \<Rightarrow> 's \<Rightarrow> 's" where
  "xdp_insert_with_flags B r al def ctx d f s =
     perf_insert_with_flags B def ctx (enc_map_data r al d) (f\<lparr>fl_xdp_size := mdt_size d\<rparr>) s"

section \<open>User space\<close>

text \<open>
  \<open>MapData::from_sample\<close> takes the bytes of a sample as a structure, \<open>data\<close> and \<open>payload\<close>
  read from it; the slice of the payload is not checked against the sample.
\<close>

definition from_sample :: "'a repr \<Rightarrow> bytes \<Rightarrow> 'a MapData" where
  "from_sample r bs =
     \<lparr>mdt_data = dec_of r (take (size_of r) bs), mdt_offset = le32_at bs (offset_at r),
      mdt_size = le32_at bs (offset_at r + 4)\<rparr>"

definition map_data_payload :: "'a repr \<Rightarrow> bytes \<Rightarrow> bytes result" where
  "map_data_payload r bs =
     (let d = from_sample r bs in
      and_then (usub (mdt_size d) (mdt_offset d)) (\<lambda>n.
      raw_slice bs (payload_at r + unat (mdt_offset d)) (unat n)))"

section \<open>Trace messages\<close>

record TraceMessage =
  tm_msg :: bytes
  tm_write_i :: nat

definition trace_message_new :: "bytes \<Rightarrow> TraceMessage" where
  "trace_message_new uninit = \<lparr>tm_msg = uninit, tm_write_i = 0\<rparr>"

definition write_str :: "TraceMessage \<Rightarrow> string \<Rightarrow> (unit, TraceMessage) outcome" where
  "write_str m s =
     (let bs = as_bytes s; available = length (tm_msg m) - tm_write_i m
      in if available < length bs then Err ()
         else Ok (m\<lparr>tm_msg := overwrite (tm_msg m) (tm_write_i m) bs, tm_write_i := tm_write_i m + length bs\<rparr>))"

definition trace_printk :: "TraceMessage \<Rightarrow> bytes" where
  "trace_printk m = take (tm_write_i m) (tm_msg m)"


section \<open>Declared maps are accepted in user space\<close>

text \<open>The bytes of a declaration in a section of the object file.\<close>

definition enc_bpf_map_def :: "bpf_map_def \<Rightarrow> bytes" where
  "enc_bpf_map_def d =
     u32_to_le (md_type d) @ u32_to_le (md_key_size d) @ u32_to_le (md_value_size d) @
     u32_to_le (md_max_entries d) @ u32_to_le (md_map_flags d)"

lemma mb_parse_declaration: "mb_parse name (enc_bpf_map_def d @ rest) = Ok (MB_Normal name d None)"
  by (simp add: mb_parse_def read_raw_def dec_bpf_map_def_def enc_bpf_map_def_def le32_at_def u32c.dec_enc u32c.enc_length)

lemma declared_map_config:
  assumes "mb_parse name (enc_bpf_map_def d @ rest) = Ok b" and "mb_to_map k b h = (Ok m, h')"
  shows "config m = d \<and> map_kind m = md_type d"
proof -
  from assms have w: "with_map_def k name d None h = (Ok m, h')" by (auto simp: mb_parse_declaration)
  show ?thesis
  proof (cases rule: with_map_def_cases [of k name d None h])
    case (created m' new)
    have "config m' = d" "map_kind m' = md_type d"
      using arg_cong [OF created(4), of config] arg_cong [OF created(4), of map_kind] by simp_all
    moreover have "m = m'" using w created(1) by simp
    ultimately show ?thesis by simp
  qed (use w in auto)
qed

text \<open>The declarations and the views of user space, in the same order.\<close>

definition declarations :: "nat \<Rightarrow> nat \<Rightarrow> u32 \<Rightarrow> bpf_map_def list" where
  "declarations ks vs n =
     [probe_hash_map ks vs n, probe_percpu_hash_map ks vs n, probe_lru_hash_map ks vs n,
      probe_lru_percpu_hash_map ks vs n, probe_array vs n, probe_percpu_array vs n]"

definition view_news :: "'k repr \<Rightarrow> 'v repr \<Rightarrow> Map \<Rightarrow> Map result list" where
  "view_news kr vr m =
     [hash_map_new kr vr m, percpu_hash_map_new kr vr m, lru_hash_map_new kr vr m,
      lru_percpu_hash_map_new kr vr m, array_new vr m, percpu_array_new vr m]"

text \<open>
  C36: a map that a BPF program declares with \<open>with_max_entries\<close>, once its section has been
  parsed and the map created, is accepted by the typed view of user space of the same
  name and the same types, and by no other of them; and a declared perf map is accepted
  by \<open>PerfMap::bind\<close>.
\<close>

theorem declared_maps_accepted:
  assumes "mb_parse name (enc_bpf_map_def d) = Ok b" and "mb_to_map k b h = (Ok m, h')"
    and "size_of kr < 2 ^ 32" and "size_of vr < 2 ^ 32"
  shows "(\<forall>i j. i < 6 \<longrightarrow> j < 6 \<longrightarrow> d = declarations (size_of kr) (size_of vr) n ! i \<longrightarrow>
      view_news kr vr m ! j = (if i = j then Ok m else Err MapError)) \<and>
    (d = probe_perf_map n \<longrightarrow> hash_map_new i32_repr i32_repr m = Ok m)"
proof -
  have c: "config m = d" using declared_map_config [of name d "[]" b k h m h'] assms(1,2) by simp
  have sz: "unat (of_nat (size_of kr) :: u32) = size_of kr" "unat (of_nat (size_of vr) :: u32) = size_of vr"
    using assms(3,4) by (simp_all add: unat_of_nat)
  note defs = hash_map_new_def percpu_hash_map_new_def lru_hash_map_new_def lru_percpu_hash_map_new_def array_new_def
    percpu_array_new_def probe_hash_map_def probe_percpu_hash_map_def probe_lru_hash_map_def probe_lru_percpu_hash_map_def
    probe_array_def probe_percpu_array_def define_hashmap_def define_array_def
  have "view_news kr vr m ! j = (if i = j then Ok m else Err MapError)"
    if "i < 6" "j < 6" and d: "d = declarations (size_of kr) (size_of vr) n ! i" for i j
  proof -
    have "i \<in> {0, 1, 2, 3, 4, 5}" "j \<in> {0, 1, 2, 3, 4, 5}" using that(1,2) by auto
    then show ?thesis unfolding declarations_def view_news_def
      by (elim insertE emptyE; simp add: defs c [unfolded d declarations_def] sz)
  qed
  moreover have "d = probe_perf_map n \<longrightarrow> hash_map_new i32_repr i32_repr m = Ok m"
    by (simp add: probe_perf_map_def hash_map_new_def c i32_repr_def)
  ultimately show ?thesis by blast
qed

theorem declared_maps_accepted_witness:
  "\<exists>b m h'. mb_parse ''m'' (enc_bpf_map_def (probe_hash_map 4 4 8)) = Ok b \<and>
     mb_to_map sample_loader_kernel b [] = (Ok m, h') \<and> hash_map_new u32_repr u32_repr m = Ok m \<and>
     lru_hash_map_new u32_repr u32_repr m = Err MapError"
proof -
  let ?d = "probe_hash_map 4 4 8"
  have b: "mb_parse ''m'' (enc_bpf_map_def ?d) = Ok (MB_Normal ''m'' ?d None)"
    using mb_parse_declaration [of "''m''" ?d "[]"] by simp
  obtain m h' where m: "mb_to_map sample_loader_kernel (MB_Normal ''m'' ?d None) [] = (Ok m, h')"
    by (simp add: with_map_def_def sample_loader_kernel_def cstring_try_def cstring_new_def
      as_bytes_def Let_def bind_def call_def)
  have s: "size_of u32_repr = 4" by (simp add: u32_repr_def)
  have "?d = declarations (size_of u32_repr) (size_of u32_repr) 8 ! 0" by (simp add: declarations_def s)
  then have "view_news u32_repr u32_repr m ! 0 = Ok m" "view_news u32_repr u32_repr m ! 2 = Err MapError"
    using declared_maps_accepted [OF b m, of u32_repr u32_repr 8] s by fastforce+
  then show ?thesis using b m by (auto simp: view_news_def)
qed


section \<open>What an XDP program sends is what user space reads\<close>

lemma pack_words:
  fixes x i :: u32
  shows "drop_bit 32 (push_bit 32 (ucast x) OR ucast i :: u64) = ucast x"
    and "(ucast (push_bit 32 (ucast x) OR ucast i :: u64) :: u32) = i"
  by (rule bit_word_eqI; auto simp: bit_simps dest: bit_imp_le_length)+

lemma flags_u64_parts:
  "drop_bit 32 (flags_u64 f) = (ucast (fl_xdp_size f) :: u64)"
  "(ucast (flags_u64 f) :: u32) = (case fl_index f of Some i \<Rightarrow> i | None \<Rightarrow> BPF_F_CURRENT_CPU)"
  unfolding flags_u64_def by (rule pack_words)+

lemma map_data_layout:
  assumes "al \<in> {1, 2, 4, 8}" and "size_of r mod al = 0"
  shows "size_of r \<le> offset_at r" and "map_data_size r al = payload_at r"
proof -
  show "size_of r \<le> offset_at r" by (simp add: offset_at_def align_to_def)
  show "map_data_size r al = payload_at r"
  proof (cases "al = 8")
    case True
    then obtain q where "size_of r = 8 * q" using assms(2) by (auto simp: mod_eq_0_iff_dvd)
    then have "payload_at r = 8 * q + 8" by (simp add: payload_at_def offset_at_def align_to_def)
    then show ?thesis using True by (simp add: map_data_size_def align_to_def)
  next
    case False
    then have "max al 4 = 4" using assms(1) by auto
    then show ?thesis by (simp add: map_data_size_def payload_at_def offset_at_def align_to_def)
  qed
qed

lemma from_sample_enc:
  assumes "sized_repr r" and "al \<in> {1, 2, 4, 8}" and "size_of r mod al = 0"
  shows "from_sample r (enc_map_data r al d @ p) = d" and "length (enc_map_data r al d) = payload_at r"
proof -
  note l = map_data_layout [OF assms(2,3)]
  have e: "length (enc_of r x) = size_of r" "dec_of r (enc_of r x) = x" for x
    using assms(1) byte_codec.enc_length byte_codec.dec_enc unfolding sized_repr_def by metis+
  show "length (enc_map_data r al d) = payload_at r"
    using l by (simp add: enc_map_data_def e u32c.enc_length payload_at_def)
  have d: "drop (offset_at r) (enc_map_data r al d @ p) = u32_to_le (mdt_offset d) @ u32_to_le (mdt_size d) @ p"
    "drop (offset_at r + 4) (enc_map_data r al d @ p) = u32_to_le (mdt_size d) @ p"
    using l by (simp_all add: enc_map_data_def e u32c.enc_length)
  show "from_sample r (enc_map_data r al d @ p) = d"
    using l unfolding from_sample_def le32_at_def d
    by (simp add: enc_map_data_def e u32c.enc_length u32c.dec_enc)
qed

text \<open>
  C14: when an XDP program inserts a \<open>MapData\<close> whose data is aligned to at most eight
  bytes into a perf map and the kernel takes it, exactly one sample reaches user space; it
  decodes to the same structure, and its payload is the bytes of the packet from the
  offset to the size that the program asked for. When the kernel refuses it, nothing is
  sent, and the program does not get to know. The helper is taken to append to the data as
  many bytes of the packet as the upper half of the flags says, or to fail.
\<close>

theorem xdp_payload_delivered:
  fixes B :: "bytes list bpf_helpers" and sent :: "bytes list"
  assumes "sized_repr r" and "al \<in> {1, 2, 4, 8}" and "size_of r mod al = 0"
    and "\<And>sent f dat n. n = unat (drop_bit 32 f) \<Longrightarrow> n < 2 ^ 20 \<Longrightarrow> n \<le> length (packet ctx) \<Longrightarrow>
      snd (perf_event_output B sent ctx def f dat (of_nat (length dat))) =
        (if fst (perf_event_output B sent ctx def f dat (of_nat (length dat))) = 0 then sent @ [dat @ take n (packet ctx)] else sent)"
    and "unat (mdt_size d) < 2 ^ 20" and "unat (mdt_size d) \<le> length (packet ctx)" and "mdt_offset d \<le> mdt_size d"
  defines "sends \<equiv> perf_event_output B sent ctx def (push_bit 32 (ucast (mdt_size d)) OR 0xffffffff) (enc_map_data r al d)
      (of_nat (length (enc_map_data r al d)))"
  shows "if fst sends = 0
    then \<exists>sample. xdp_insert B r al def ctx d sent = sent @ [sample] \<and> from_sample r sample = d \<and>
      map_data_payload r sample = Ok (drop (unat (mdt_offset d)) (take (unat (mdt_size d)) (packet ctx)))
    else xdp_insert B r al def ctx d sent = sent"
proof -
  let ?p = "take (unat (mdt_size d)) (packet ctx)" and ?e = "enc_map_data r al d"
  have "unat (ucast (mdt_size d) :: u64) = unat (mdt_size d)"
    using unat_u32_less [of "mdt_size d"] by (simp add: unsigned_ucast_eq take_bit_eq_mod)
  then have n: "unat (drop_bit 32 (flags_u64 (with_xdp_size (mdt_size d)))) = unat (mdt_size d)"
    unfolding flags_u64_parts by (simp add: with_xdp_size_def)
  have sends: "perf_event_output B sent ctx def (flags_u64 (with_xdp_size (mdt_size d))) ?e (of_nat (length ?e)) = sends"
    by (simp add: sends_def flags_u64_def with_xdp_size_def perf_map_flags_def)
  have "xdp_insert B r al def ctx d sent = (if fst sends = 0 then sent @ [?e @ ?p] else sent)"
    unfolding xdp_insert_def perf_insert_with_flags_def using assms(4) [OF n [symmetric] assms(5,6), of sent ?e]
    unfolding sends by simp
  moreover have "from_sample r (?e @ ?p) = d" by (rule from_sample_enc [OF assms(1-3)])
  moreover have "map_data_payload r (?e @ ?p) = Ok (drop (unat (mdt_offset d)) ?p)"
    using assms(6,7) from_sample_enc [OF assms(1-3)]
    by (simp add: map_data_payload_def Let_def usub_def raw_slice_def unat_sub word_le_nat_alt)
  ultimately show ?thesis by auto
qed


text \<open>
  A helper that does so as long as less than two samples wait, with a port as data and a
  packet whose last four bytes are asked for.
\<close>

definition sample_helpers :: "bytes list bpf_helpers" where
  "sample_helpers =
     \<lparr>map_lookup_elem = \<lambda>_ _ _. None, map_update_elem = \<lambda>s _ _ _ _. (0, s), map_delete_elem = \<lambda>s _ _. (0, s),
      perf_event_output = \<lambda>s ctx _ f dat _.
        if length s < 2 then (0, s @ [dat @ take (unat (drop_bit 32 f)) (packet ctx)]) else (-28, s),
      get_stackid = \<lambda>_ _ _. 0, tail_call_helper = \<lambda>_ _ _. 0, redirect_map = \<lambda>_ _ _ _. 0,
      sk_redirect_map = \<lambda>_ _ _ _. 0, skb_load_bytes = \<lambda>_ _ _. (0, [])\<rparr>"

theorem xdp_payload_delivered_witness:
  "(\<exists>sample. xdp_insert sample_helpers u32_repr 4 0 sample_xdp (with_payload 53 42 46) [] = [sample] \<and>
     from_sample u32_repr sample = with_payload 53 42 46 \<and> map_data_payload u32_repr sample = Ok [1, 2, 3, 4]) \<and>
   xdp_insert sample_helpers u32_repr 4 0 sample_xdp (with_payload 53 42 46) [[], []] = [[], []]"
proof -
  let ?d = "with_payload 53 42 46 :: u32 MapData" and ?e = "enc_map_data u32_repr 4 (with_payload 53 42 46)"
  let ?out = "\<lambda>sent. perf_event_output sample_helpers sent sample_xdp 0 (push_bit 32 (ucast (mdt_size ?d)) OR 0xffffffff) ?e (of_nat (length ?e))"
  have p: "length (packet sample_xdp) = 46" "drop 42 (packet sample_xdp) = [1, 2, 3, 4]"
    by (simp_all add: sample_xdp_def sample_eth_def sample_ip_def sample_udp_def)
  have "if fst (?out sent) = 0
    then \<exists>sample. xdp_insert sample_helpers u32_repr 4 0 sample_xdp ?d sent = sent @ [sample] \<and>
     from_sample u32_repr sample = ?d \<and>
     map_data_payload u32_repr sample = Ok (drop (unat (mdt_offset ?d)) (take (unat (mdt_size ?d)) (packet sample_xdp)))
    else xdp_insert sample_helpers u32_repr 4 0 sample_xdp ?d sent = sent" for sent
    by (rule xdp_payload_delivered)
      (simp_all add: sample_helpers_def with_payload_def p, simp_all add: u32_repr_def)
  from this [of "[]"] this [of "[[], []]"] show ?thesis by (simp add: with_payload_def p sample_helpers_def)
qed

text \<open>
  With an alignment of 16 the structure is padded behind the payload's place, so the
  packet starts eight bytes after the address that \<open>payload\<close> reads from.
\<close>

lemma map_data_padding: "size_of r = 16 \<Longrightarrow> payload_at r = 24 \<and> map_data_size r 16 = 32"
  by (simp add: payload_at_def offset_at_def align_to_def map_data_size_def)

section \<open>Trace messages\<close>

fun write_all :: "TraceMessage \<Rightarrow> string list \<Rightarrow> (unit, TraceMessage) outcome" where
  "write_all m [] = Ok m"
| "write_all m (s # ss) = and_then (write_str m s) (\<lambda>m'. write_all m' ss)"

lemma write_str_appends:
  assumes "tm_write_i m \<le> length (tm_msg m)"
  shows "write_str m s = Ok m' \<Longrightarrow> length (tm_msg m') = length (tm_msg m) \<and> tm_write_i m' \<le> length (tm_msg m') \<and>
      trace_printk m' = trace_printk m @ as_bytes s"
    and "write_str m s = Err () \<longleftrightarrow> length (tm_msg m) < length (trace_printk m @ as_bytes s)"
  using assms by (auto simp: write_str_def trace_printk_def Let_def overwrite_def split: if_splits)

lemma write_all_prints:
  assumes "write_all (trace_message_new uninit) ss = Ok m"
  shows "trace_printk m = concat (map as_bytes ss) \<and> length (trace_printk m) \<le> length uninit"
proof -
  have "trace_printk m = trace_printk m0 @ concat (map as_bytes ss) \<and> length (tm_msg m) = length (tm_msg m0)"
    if "write_all m0 ss = Ok m" "tm_write_i m0 \<le> length (tm_msg m0)" for m0
    using that
    by (induction ss arbitrary: m0) (auto simp: outcome_simps dest: write_str_appends(1))
  from this [OF assms] have "trace_printk m = concat (map as_bytes ss)" "length (tm_msg m) = length uninit"
    by (simp_all add: trace_message_new_def trace_printk_def)
  moreover have "length (trace_printk m) \<le> length (tm_msg m)" by (simp add: trace_printk_def)
  ultimately show ?thesis by simp
qed

end
