(* ===== verification/Probe_Macros.thy ===== *)
theory Probe_Macros
  imports Probe_Maps
begin

text \<open>
  The macros of \<open>redbpf-macros/src/lib.rs\<close>: the sections and symbols they give programs
  and maps, what the functions they wrap around a program return to the kernel, the pair
  of probes that carries the parameters of a function to its return, and the format
  strings of \<open>printk!\<close>. The syntax trees and token streams of \<open>syn\<close> and \<open>quote\<close> appear as
  what they stand for: an identifier, the number of its parameters, an attribute.
\<close>

section \<open>Programs\<close>

datatype probe_macro =
    M_kprobe | M_kretprobe | M_uprobe | M_uretprobe | M_xdp | M_socket_filter | M_stream_parser
  | M_stream_verdict | M_tc_action | M_task_iter

fun macro_type :: "probe_macro \<Rightarrow> string" where
  "macro_type M_kprobe = ''kprobe''"
| "macro_type M_kretprobe = ''kretprobe''"
| "macro_type M_uprobe = ''uprobe''"
| "macro_type M_uretprobe = ''uretprobe''"
| "macro_type M_xdp = ''xdp''"
| "macro_type M_socket_filter = ''socketfilter''"
| "macro_type M_stream_parser = ''streamparser''"
| "macro_type M_stream_verdict = ''streamverdict''"
| "macro_type M_tc_action = ''tc_action''"
| "macro_type M_task_iter = ''task_iter''"

text \<open>An item of the expansion: the section and the symbol of a function or a static.\<close>

record probe_item =
  pi_section :: string
  pi_symbol :: string

definition probe_name :: "string option \<Rightarrow> string \<Rightarrow> string" where
  "probe_name attr ident = (case attr of Some name \<Rightarrow> name | None \<Rightarrow> ident)"

definition probe_impl :: "string \<Rightarrow> string option \<Rightarrow> string \<Rightarrow> string \<Rightarrow> probe_item" where
  "probe_impl ty attr item_ident name =
     \<lparr>pi_section = ty @ ''/'' @ probe_name attr name, pi_symbol = item_ident\<rparr>"

definition wrap_kprobe :: "string \<Rightarrow> string" where
  "wrap_kprobe ident = ''outer_'' @ ident"

text \<open>
  The attributes of \<open>#[map]\<close>: \<open>link_section = "..."\<close> once, everything else panics.
\<close>

datatype map_attr = Name_Value "string option" "string option" | Other_Meta | Lit_Str string | Other_Lit

fun map_attrs :: "map_attr list \<Rightarrow> string option \<Rightarrow> (unit, string option) outcome" where
  "map_attrs [] link_section = Ok link_section"
| "map_attrs (attr # rest) link_section =
     (case attr of
        Name_Value (Some k) (Some name) \<Rightarrow>
          if k = ''link_section'' \<and> link_section = None then map_attrs rest (Some name) else Panic
      | _ \<Rightarrow> Panic)"

text \<open>
  The type of the static and the number of its type arguments: whether the types of the
  keys and values are known; a type that is not one of the maps panics.
\<close>

definition map_types :: "string \<Rightarrow> nat option \<Rightarrow> (unit, bool) outcome" where
  "map_types type_name type_args =
     (case type_args of
        Some n \<Rightarrow>
          if type_name \<in> {''Array'', ''PerCpuArray''} then Ok (n = 1)
          else if type_name \<in> {''HashMap'', ''PerCpuHashMap'', ''LruHashMap'', ''LruPerCpuHashMap'', ''TcHashMap''} then Ok (n = 2)
          else if type_name = ''PerfMap'' then Ok False
          else Panic
      | None \<Rightarrow>
          if type_name \<in> {''StackTrace'', ''SockMap'', ''ProgramArray'', ''DevMap'', ''XskMap''} then Ok False
          else Panic)"

text \<open>
  The static of the map, and, when the types are known, the static that keeps the
  alignment of the values and the one whose structure tells BTF the types.
\<close>

record btf_static =
  bs_item :: probe_item
  bs_struct :: string
  bs_key :: string
  bs_value :: string

record map_expansion =
  me_item :: probe_item
  me_value_align :: "string option"
  me_btf :: "btf_static option"

definition map_btf_static :: "string \<Rightarrow> string \<Rightarrow> btf_static" where
  "map_btf_static ident type_name =
     (let item = \<lparr>pi_section = ''maps.ext'', pi_symbol = ''MAP_BTF_'' @ ident\<rparr>
      in if type_name = ''TcHashMap''
         then \<lparr>bs_item = item, bs_struct = ''____btf_map_'' @ ident, bs_key = ''key'', bs_value = ''value''\<rparr>
         else \<lparr>bs_item = item, bs_struct = ''MapBtf'', bs_key = ''key_type'', bs_value = ''value_type''\<rparr>)"

definition map_macro :: "map_attr list \<Rightarrow> string \<Rightarrow> string \<Rightarrow> nat option \<Rightarrow> (unit, map_expansion) outcome" where
  "map_macro attrs ident type_name type_args =
     and_then (map_attrs attrs None) (\<lambda>link_section.
     and_then (map_types type_name type_args) (\<lambda>typed.
     Ok \<lparr>me_item = \<lparr>pi_section = (case link_section of Some l \<Rightarrow> l | None \<Rightarrow> ''maps/'' @ ident), pi_symbol = ident\<rparr>,
         me_value_align = (if typed then Some (''MAP_VALUE_ALIGN_'' @ ident) else None),
         me_btf = (if typed then Some (map_btf_static ident type_name) else None)\<rparr>))"

text \<open>
  A return probe with two parameters becomes a map and two probes, which expand in turn.
\<close>

definition probe_pair_impl :: "string \<Rightarrow> string option \<Rightarrow> string \<Rightarrow> (unit, map_expansion option \<times> probe_item list) outcome" where
  "probe_pair_impl pre attr ident =
     and_then (map_macro [] (''PARMS_'' @ ident) ''HashMap'' (Some 2)) (\<lambda>m.
     Ok (Some m,
       [probe_impl (pre @ ''probe'') (Some (probe_name attr ident)) (wrap_kprobe (''enter_'' @ ident)) (''enter_'' @ ident),
        probe_impl (pre @ ''retprobe'') (Some (probe_name attr ident)) (wrap_kprobe (''exit_'' @ ident)) (''exit_'' @ ident)]))"

definition probe_macro_expand ::
    "probe_macro \<Rightarrow> string option \<Rightarrow> string \<Rightarrow> nat \<Rightarrow> (unit, map_expansion option \<times> probe_item list) outcome" where
  "probe_macro_expand mac attr ident inputs =
     (if mac = M_kretprobe \<and> inputs = 2 then probe_pair_impl ''k'' attr ident
      else if mac = M_uretprobe \<and> inputs = 2 then probe_pair_impl ''u'' attr ident
      else Ok (None, [probe_impl (macro_type mac) attr (''outer_'' @ ident) ident]))"

text \<open>\<open>program!\<close>: the license as bytes with a terminating zero\<close>

definition inline_bytes :: "bytes \<Rightarrow> bytes" where
  "inline_bytes bs = bs @ [0]"

section \<open>What the wrappers return\<close>

definition xdp_return :: "XdpAction NetworkResult \<Rightarrow> (unit, u32) outcome" where
  "xdp_return r =
     (case r of Ok action \<Rightarrow> Ok (xdp_action action) | Err _ \<Rightarrow> Ok (xdp_action Pass) | Panic \<Rightarrow> Panic | Undefined \<Rightarrow> Undefined)"

datatype SkBuffAction = Ignore | SendToUserspace

definition socket_filter_return :: "(SocketError, SkBuffAction) outcome \<Rightarrow> (unit, int) outcome" where
  "socket_filter_return r =
     (case r of Ok SendToUserspace \<Rightarrow> Ok (-1) | Panic \<Rightarrow> Panic | Undefined \<Rightarrow> Undefined | _ \<Rightarrow> Ok 0)"

datatype StreamParserAction = MessageLength u32 | MoreDataWanted | StreamToUserspace

definition stream_parser_return :: "(SocketError, StreamParserAction) outcome \<Rightarrow> (unit, int) outcome" where
  "stream_parser_return r =
     (case r of
        Ok (MessageLength len) \<Rightarrow> if 0 < len then Ok (sint len) else Ok (-1)
      | Ok MoreDataWanted \<Rightarrow> Ok 0
      | Ok StreamToUserspace \<Rightarrow> Ok (-86)
      | Err _ \<Rightarrow> Ok (-1)
      | Panic \<Rightarrow> Panic
      | Undefined \<Rightarrow> Undefined)"

datatype SkAction = SkPass | SkDrop

fun stream_verdict_return :: "SkAction \<Rightarrow> int" where
  "stream_verdict_return SkPass = 1"
| "stream_verdict_return SkDrop = 0"

datatype TcAction = TcUnspec | TcOk | TcShot | TcStolen | TcRedirect | TcTrap

fun tc_action_value :: "TcAction \<Rightarrow> int" where
  "tc_action_value TcUnspec = -1"
| "tc_action_value TcOk = 0"
| "tc_action_value TcShot = 2"
| "tc_action_value TcStolen = 4"
| "tc_action_value TcRedirect = 7"
| "tc_action_value TcTrap = 8"

definition tc_action_return :: "(SocketError, TcAction) outcome \<Rightarrow> (unit, int) outcome" where
  "tc_action_return r =
     (case r of Ok act \<Rightarrow> Ok (tc_action_value act) | Err _ \<Rightarrow> Ok (-1) | Panic \<Rightarrow> Panic | Undefined \<Rightarrow> Undefined)"

datatype BPFIterAction = IterOk | IterRetry

fun task_iter_return :: "BPFIterAction \<Rightarrow> int" where
  "task_iter_return IterOk = 0"
| "task_iter_return IterRetry = 1"

section \<open>The pair of probes\<close>

text \<open>
  The two generated functions over the map of parameters. The exit probe calls the
  function with the parameters that it found, and does nothing when there are none.
\<close>

definition parms_repr :: "(u64 list) repr" where
  "parms_repr = \<lparr>enc_of = \<lambda>ps. concat (map u64_to_le ps), dec_of = \<lambda>bs. map (\<lambda>i. le64_at bs (8 * i)) [0..<5], size_of = 40\<rparr>"

definition pair_enter :: "'s bpf_helpers \<Rightarrow> u64 \<Rightarrow> u64 \<Rightarrow> u64 list \<Rightarrow> 's \<Rightarrow> 's" where
  "pair_enter B def pid_tgid parms s = probe_map_set B u64_repr parms_repr def pid_tgid parms s"

definition pair_exit :: "'s bpf_helpers \<Rightarrow> u64 \<Rightarrow> u64 \<Rightarrow> 's \<Rightarrow> u64 list option \<times> 's" where
  "pair_exit B def pid_tgid s =
     (case probe_map_get B u64_repr parms_repr def pid_tgid s of
        Some parms \<Rightarrow> (Some parms, probe_map_delete B u64_repr def pid_tgid s)
      | None \<Rightarrow> (None, s))"

section \<open>Format strings\<close>

datatype fmt_type = F_i32 | F_u32 | F_isize | F_usize | F_c_long | F_c_ulong | F_i64 | F_u64 | F_c_void

datatype FmtPlaceholder = Number fmt_type | FmtString

definition push_fmt :: "FmtPlaceholder \<Rightarrow> (unit, FmtPlaceholder list) outcome \<Rightarrow> (unit, FmtPlaceholder list) outcome" where
  "push_fmt p r = and_then r (\<lambda>ps. Ok (p # ps))"

fun parse_format_string :: "string \<Rightarrow> (unit, FmtPlaceholder list) outcome" where
  "parse_format_string [] = Ok []"
| "parse_format_string (ch # it) =
     (if ch \<noteq> CHR ''%'' then parse_format_string it
      else case it of
        [] \<Rightarrow> Panic
      | c # it1 \<Rightarrow>
          if c = CHR ''%'' then parse_format_string it1
          else if c = CHR ''d'' then push_fmt (Number F_i32) (parse_format_string it1)
          else if c = CHR ''u'' \<or> c = CHR ''x'' then push_fmt (Number F_u32) (parse_format_string it1)
          else if c = CHR ''s'' then push_fmt FmtString (parse_format_string it1)
          else if c = CHR ''z'' then
            (case it1 of
               [] \<Rightarrow> Panic
             | c2 # it2 \<Rightarrow>
                 if c2 = CHR ''d'' then push_fmt (Number F_isize) (parse_format_string it2)
                 else if c2 = CHR ''u'' \<or> c2 = CHR ''x'' then push_fmt (Number F_usize) (parse_format_string it2)
                 else Panic)
          else if c = CHR ''l'' then
            (case it1 of
               [] \<Rightarrow> Panic
             | c2 # it2 \<Rightarrow>
                 if c2 = CHR ''d'' then push_fmt (Number F_c_long) (parse_format_string it2)
                 else if c2 = CHR ''u'' \<or> c2 = CHR ''x'' then push_fmt (Number F_c_ulong) (parse_format_string it2)
                 else if c2 = CHR ''l'' then
                   (case it2 of
                      [] \<Rightarrow> Panic
                    | c3 # it3 \<Rightarrow>
                        if c3 = CHR ''d'' then push_fmt (Number F_i64) (parse_format_string it3)
                        else if c3 = CHR ''u'' \<or> c3 = CHR ''x'' then push_fmt (Number F_u64) (parse_format_string it3)
                        else Panic)
                 else Panic)
          else if c = CHR ''p'' then push_fmt (Number F_c_void) (parse_format_string it1)
          else Panic)"

text \<open>
  \<open>printk!\<close>: the format with a terminating zero and the three arguments of
  \<open>bpf_trace_printk_raw\<close>; an argument keeps the conversion that is applied to it.
\<close>

datatype 'a printk_arg = Converted fmt_type 'a | CStr_ptr 'a | Zero

fun printk_token :: "'a \<times> FmtPlaceholder \<Rightarrow> 'a printk_arg" where
  "printk_token (arg, Number t) = Converted t arg"
| "printk_token (arg, FmtString) = CStr_ptr arg"

definition printk :: "string \<Rightarrow> 'a list \<Rightarrow> (unit, bytes \<times> 'a printk_arg list) outcome" where
  "printk fmt args =
     and_then (parse_format_string fmt) (\<lambda>ps.
       if 3 < length ps then Panic
       else if 1 < length (filter (\<lambda>p. p = FmtString) ps) then Panic
       else if length args \<noteq> length ps then Panic
       else Ok (inline_bytes (as_bytes fmt),
                let toks = map printk_token (zip args ps) in toks @ replicate (3 - length toks) Zero))"


section \<open>The user-space side recognises what the macros produce\<close>

text \<open>The variant that a macro stands for, and how it is attached.\<close>

fun macro_program :: "probe_macro \<Rightarrow> Program \<Rightarrow> bool" where
  "macro_program M_kprobe (P_KProbe p) = (kp_attach_type p = Entry)"
| "macro_program M_kretprobe (P_KProbe p) = (kp_attach_type p = Return)"
| "macro_program M_uprobe (P_UProbe p) = (up_attach_type p = Entry)"
| "macro_program M_uretprobe (P_UProbe p) = (up_attach_type p = Return)"
| "macro_program M_xdp (P_XDP p) = True"
| "macro_program M_socket_filter (P_SocketFilter p) = True"
| "macro_program M_stream_parser (P_StreamParser p) = True"
| "macro_program M_stream_verdict (P_StreamVerdict p) = True"
| "macro_program M_task_iter (P_TaskIter p) = True"
| "macro_program _ _ = False"

lemma macro_type_no_slash: "CHR ''/'' \<notin> set (macro_type mac)"
  by (cases mac) simp_all

lemma split_probe_section:
  assumes "get_section_name object shdr = Ok (ty @ ''/'' @ name)" and "CHR ''/'' \<notin> set ty"
  shows "get_split_section_name object shdr i = Ok (Some ty, Some name)"
  using splitn_append_sep [OF assms(2), of 0 name] assms(1)
  by (simp add: get_split_section_name_def numeral_2_eq_2)

lemma split_plain_section:
  assumes "get_section_name object shdr = Ok sec" and "CHR ''/'' \<notin> set sec"
  shows "get_split_section_name object shdr i = Ok (Some sec, None)"
  using splitn_no_sep [OF assms(2), of 1] assms(1) by (simp add: get_split_section_name_def numeral_2_eq_2)

lemma split_plain_map_section:
  assumes "get_section_name object shdr = Ok (''maps/'' @ name)"
  shows "get_split_section_name object shdr i = Ok (Some ''maps'', Some name)"
  using split_probe_section [of object shdr "''maps''" name i] assms by simp

text \<open>The macros whose programs an expansion holds: a return probe with two parameters becomes two probes.\<close>

definition expands_to :: "probe_macro \<Rightarrow> nat \<Rightarrow> probe_macro list" where
  "expands_to mac inputs =
     (if mac = M_kretprobe \<and> inputs = 2 then [M_kprobe, M_kretprobe]
      else if mac = M_uretprobe \<and> inputs = 2 then [M_uprobe, M_uretprobe] else [mac])"

lemma probe_item_recognised:
  assumes "get_section_name object shdr = Ok (pi_section (probe_impl (macro_type mac) attr item ident))"
    and "sh_type shdr = SHT_PROGBITS"
  shows "program_section object i shdr = (if mac = M_tc_action then None else Some (macro_type mac, probe_name attr ident))"
proof -
  have "get_split_section_name object shdr i = Ok (Some (macro_type mac), Some (probe_name attr ident))"
    using split_probe_section [OF _ macro_type_no_slash] assms(1) by (simp add: probe_impl_def)
  then show ?thesis using assms(2) by (cases mac) (simp_all add: program_section_def is_program_kind_def)
qed


text \<open>
  A return probe with two parameters, whose section the parser recognises, a map with a
  name of its own, and the map of the macro's documentation, which is lost.
\<close>

definition sample_named_elf :: "string \<Rightarrow> Elf" where
  "sample_named_elf nm = sample_elf\<lparr>shdr_strtab := \<lambda>_. Some nm\<rparr>"

definition sample_progbits :: SectionHeader where
  "sample_progbits = \<lparr>sh_name = 0, sh_type = 1, sh_offset = 0, sh_size = 0, sh_info = 0\<rparr>"


section \<open>Formats\<close>

text \<open>A format string as its pieces: text without percent signs, \<open>%%\<close> and conversions.\<close>

datatype fmt_piece = Fmt_Text string | Fmt_Percent | Fmt_Conv string FmtPlaceholder

definition conversions :: "(string \<times> FmtPlaceholder) list" where
  "conversions =
     [(''d'', Number F_i32), (''u'', Number F_u32), (''x'', Number F_u32), (''s'', FmtString),
      (''zd'', Number F_isize), (''zu'', Number F_usize), (''zx'', Number F_usize),
      (''ld'', Number F_c_long), (''lu'', Number F_c_ulong), (''lx'', Number F_c_ulong),
      (''lld'', Number F_i64), (''llu'', Number F_u64), (''llx'', Number F_u64), (''p'', Number F_c_void)]"

fun fmt_piece_ok :: "fmt_piece \<Rightarrow> bool" where
  "fmt_piece_ok (Fmt_Text t) \<longleftrightarrow> CHR ''%'' \<notin> set t"
| "fmt_piece_ok Fmt_Percent \<longleftrightarrow> True"
| "fmt_piece_ok (Fmt_Conv c p) \<longleftrightarrow> (c, p) \<in> set conversions"

fun show_piece :: "fmt_piece \<Rightarrow> string" where
  "show_piece (Fmt_Text t) = t"
| "show_piece Fmt_Percent = ''%%''"
| "show_piece (Fmt_Conv c p) = ''%'' @ c"

fun piece_args :: "fmt_piece list \<Rightarrow> FmtPlaceholder list" where
  "piece_args [] = []"
| "piece_args (Fmt_Conv c p # ps) = p # piece_args ps"
| "piece_args (_ # ps) = piece_args ps"

lemma parse_text: "CHR ''%'' \<notin> set t \<Longrightarrow> parse_format_string (t @ s) = parse_format_string s"
  by (induction t) auto

lemma parse_conv: "(c, p) \<in> set conversions \<Longrightarrow> parse_format_string (''%'' @ c @ s) = push_fmt p (parse_format_string s)"
  unfolding conversions_def
  by (simp only: list.set insert_iff empty_iff prod.inject simp_thms, elim disjE conjE; simp)

lemma parse_pieces:
  "list_all fmt_piece_ok ps \<Longrightarrow> parse_format_string (concat (map show_piece ps)) = Ok (piece_args ps)"
proof (induction ps rule: piece_args.induct)
  case (2 c p ps)
  then show ?case using parse_conv [of c p "concat (map show_piece ps)"] by (simp add: push_fmt_def)
qed (simp_all add: parse_text)


text \<open>The first piece of a format string that is accepted.\<close>

definition first_piece :: "string \<Rightarrow> FmtPlaceholder list \<Rightarrow> bool" where
  "first_piece s ps \<longleftrightarrow>
     (\<exists>p rest qs. s = show_piece p @ rest \<and> show_piece p \<noteq> [] \<and> fmt_piece_ok p \<and>
        parse_format_string rest = Ok qs \<and> ps = piece_args [p] @ qs)"

lemma first_conv:
  "(c, p) \<in> set conversions \<Longrightarrow> parse_format_string rest = Ok qs \<Longrightarrow> s = CHR ''%'' # c @ rest \<Longrightarrow> first_piece s (p # qs)"
  unfolding first_piece_def by (rule exI [of _ "Fmt_Conv c p"], rule exI [of _ rest], rule exI [of _ qs]) simp

lemma first_text: "ch \<noteq> CHR ''%'' \<Longrightarrow> parse_format_string rest = Ok qs \<Longrightarrow> first_piece (ch # rest) qs"
  unfolding first_piece_def by (rule exI [of _ "Fmt_Text [ch]"], rule exI [of _ rest], rule exI [of _ qs]) simp

lemma first_percent: "parse_format_string rest = Ok qs \<Longrightarrow> first_piece (CHR ''%'' # CHR ''%'' # rest) qs"
  unfolding first_piece_def by (rule exI [of _ Fmt_Percent], rule exI [of _ rest], rule exI [of _ qs]) simp

lemmas first_convs =
  first_conv [where c = "''d''" and p = "Number F_i32", simplified conversions_def, simplified]
  first_conv [where c = "''u''" and p = "Number F_u32", simplified conversions_def, simplified]
  first_conv [where c = "''x''" and p = "Number F_u32", simplified conversions_def, simplified]
  first_conv [where c = "''s''" and p = "FmtString", simplified conversions_def, simplified]
  first_conv [where c = "''zd''" and p = "Number F_isize", simplified conversions_def, simplified]
  first_conv [where c = "''zu''" and p = "Number F_usize", simplified conversions_def, simplified]
  first_conv [where c = "''zx''" and p = "Number F_usize", simplified conversions_def, simplified]
  first_conv [where c = "''ld''" and p = "Number F_c_long", simplified conversions_def, simplified]
  first_conv [where c = "''lu''" and p = "Number F_c_ulong", simplified conversions_def, simplified]
  first_conv [where c = "''lx''" and p = "Number F_c_ulong", simplified conversions_def, simplified]
  first_conv [where c = "''lld''" and p = "Number F_i64", simplified conversions_def, simplified]
  first_conv [where c = "''llu''" and p = "Number F_u64", simplified conversions_def, simplified]
  first_conv [where c = "''llx''" and p = "Number F_u64", simplified conversions_def, simplified]
  first_conv [where c = "''p''" and p = "Number F_c_void", simplified conversions_def, simplified]

lemma parse_first: "parse_format_string (ch # it) = Ok ps \<Longrightarrow> first_piece (ch # it) ps"
  by (auto simp: push_fmt_def outcome_simps intro: first_convs first_text first_percent split: if_splits list.splits)


lemma parse_format_pieces:
  "parse_format_string fmt = Ok ps \<Longrightarrow> \<exists>pieces. list_all fmt_piece_ok pieces \<and> fmt = concat (map show_piece pieces) \<and> ps = piece_args pieces"
proof (induction "length fmt" arbitrary: fmt ps rule: less_induct)
  case less
  show ?case
  proof (cases fmt)
    case Nil
    then show ?thesis using less.prems by (intro exI [of _ "[]"]) simp
  next
    case (Cons ch it)
    from parse_first less.prems Cons obtain p rest qs
      where p: "fmt = show_piece p @ rest" "show_piece p \<noteq> []" "fmt_piece_ok p" "parse_format_string rest = Ok qs" "ps = piece_args [p] @ qs"
      unfolding first_piece_def by blast
    then have "length rest < length fmt" by simp
    from less.hyps [OF this p(4)] obtain pieces
      where "list_all fmt_piece_ok pieces" "rest = concat (map show_piece pieces)" "qs = piece_args pieces" by blast
    moreover have "piece_args (p # pieces) = piece_args [p] @ piece_args pieces" by (cases p) simp_all
    ultimately show ?thesis using p by (intro exI [of _ "p # pieces"]) simp
  qed
qed

text \<open>
  C17: \<open>printk!\<close> accepts exactly the format strings made of text, \<open>%%\<close> and the documented
  conversions, with one argument per conversion, at most three and at most one of them a
  string; it then passes the format with a terminating zero, every argument converted to
  the type its conversion names, in order, and zeros for the arguments that are not there.
\<close>

theorem printk_correct:
  "printk fmt args = Ok (f, toks) \<longleftrightarrow>
     (\<exists>pieces. list_all fmt_piece_ok pieces \<and> fmt = concat (map show_piece pieces) \<and>
        length args = length (piece_args pieces) \<and> length args \<le> 3 \<and>
        length (filter (\<lambda>p. p = FmtString) (piece_args pieces)) \<le> 1 \<and> f = as_bytes fmt @ [0] \<and>
        toks = map printk_token (zip args (piece_args pieces)) @ replicate (3 - length args) Zero)"
  (is "?l \<longleftrightarrow> ?r")
proof
  assume ?l
  then obtain ps where ps: "parse_format_string fmt = Ok ps" by (auto simp: printk_def outcome_simps)
  then obtain pieces where "list_all fmt_piece_ok pieces" "fmt = concat (map show_piece pieces)" "ps = piece_args pieces"
    using parse_format_pieces by blast
  with \<open>?l\<close> ps show ?r
    by (intro exI [of _ pieces]) (auto simp: printk_def inline_bytes_def Let_def split: if_splits)
next
  assume ?r
  then obtain pieces where p: "list_all fmt_piece_ok pieces" "fmt = concat (map show_piece pieces)"
    "length args = length (piece_args pieces)" "length args \<le> 3"
    "length (filter (\<lambda>p. p = FmtString) (piece_args pieces)) \<le> 1" "f = as_bytes fmt @ [0]"
    "toks = map printk_token (zip args (piece_args pieces)) @ replicate (3 - length args) Zero" by blast
  then show ?l by (simp add: printk_def parse_pieces [OF p(1)] inline_bytes_def Let_def)
qed

text \<open>A message length of 31 bits or more is returned as a negative number, which is an error code.\<close>

lemma message_length_wraps: "stream_parser_return (Ok (MessageLength 0xFFFFFFAA)) = stream_parser_return (Ok StreamToUserspace)"
  by (simp add: stream_parser_return_def)

end
