(* ===== verification/Probe_Pairs.thy ===== *)
theory Probe_Pairs
  imports Probe_Macros
begin

text \<open>
  The pair of probes that \<open>redbpf-macros\<close> makes of a return probe with two parameters,
  over all interleavings of the threads. What the kernel promises about the hash map of
  parameters is the locale \<open>kernel_hash_map\<close>; the program relies on nothing else.
\<close>

section \<open>Parameters of the right call\<close>

text \<open>
  The calls and returns of a probed function, in the order in which the threads of the
  system make them. A return calls the program with the parameters it found.
\<close>

datatype pair_event = Enter u64 "u64 list" | Exit u64

fun pair_run :: "'s bpf_helpers \<Rightarrow> u64 \<Rightarrow> pair_event list \<Rightarrow> 's \<Rightarrow> (u64 \<times> u64 list) list" where
  "pair_run B def [] s = []"
| "pair_run B def (Enter t ps # es) s = pair_run B def es (pair_enter B def t ps s)"
| "pair_run B def (Exit t # es) s =
     (case pair_exit B def t s of
        (Some ps, s') \<Rightarrow> (t, ps) # pair_run B def es s'
      | (None, s') \<Rightarrow> pair_run B def es s')"

text \<open>The same over a function for the map: per thread, the parameters of the latest call.\<close>

fun latest_run :: "pair_event list \<Rightarrow> (u64 \<Rightarrow> u64 list option) \<Rightarrow> (u64 \<times> u64 list) list" where
  "latest_run [] pending = []"
| "latest_run (Enter t ps # es) pending = latest_run es (pending(t \<mapsto> ps))"
| "latest_run (Exit t # es) pending =
     (case pending t of
        Some ps \<Rightarrow> (t, ps) # latest_run es (pending(t := None))
      | None \<Rightarrow> latest_run es pending)"

text \<open>
  The specification: per thread a stack of the calls that have not returned, each with its
  parameters and whether it is still without a call inside it. A return ends the call on
  the top; with an empty stack, its call was not seen.
\<close>

type_synonym call_stack = "(u64 list \<times> bool) list"

fun calling :: "call_stack \<Rightarrow> call_stack" where
  "calling [] = []"
| "calling ((ps, innermost) # st) = (ps, False) # st"

fun returns_run :: "pair_event list \<Rightarrow> (u64 \<Rightarrow> call_stack) \<Rightarrow> (u64 \<times> u64 list \<times> bool) list" where
  "returns_run [] st = []"
| "returns_run (Enter t ps # es) st = returns_run es (st(t := (ps, True) # calling (st t)))"
| "returns_run (Exit t # es) st =
     (case st t of
        (ps, innermost) # rest \<Rightarrow> (t, ps, innermost) # returns_run es (st(t := rest))
      | [] \<Rightarrow> returns_run es st)"

definition innermost_calls :: "(u64 \<times> u64 list \<times> bool) list \<Rightarrow> (u64 \<times> u64 list) list" where
  "innermost_calls rs = map (\<lambda>(t, ps, _). (t, ps)) (filter (\<lambda>(_, _, innermost). innermost) rs)"

text \<open>The latest parameters are those of the call on the top, unless a call inside it has returned.\<close>

fun top_call :: "call_stack \<Rightarrow> u64 list option" where
  "top_call ((ps, True) # _) = Some ps"
| "top_call _ = None"

fun callers_marked :: "call_stack \<Rightarrow> bool" where
  "callers_marked [] = True"
| "callers_marked (_ # st) = (\<forall>(ps, innermost) \<in> set st. \<not> innermost)"

lemma callers_marked_tl: "callers_marked (x # st) \<Longrightarrow> callers_marked st \<and> top_call st = None"
  by (cases st rule: top_call.cases) (auto split: prod.splits)

lemma callers_marked_calling: "callers_marked st \<Longrightarrow> callers_marked ((ps, True) # calling st)"
  by (cases st rule: calling.cases) auto

lemma latest_is_innermost:
  "(\<And>t. callers_marked (st t)) \<Longrightarrow> latest_run es (\<lambda>t. top_call (st t)) = innermost_calls (returns_run es st)"
proof (induction es st rule: returns_run.induct)
  case (2 t ps es st)
  have "latest_run es (\<lambda>u. top_call ((st(t := (ps, True) # calling (st t))) u)) =
      innermost_calls (returns_run es (st(t := (ps, True) # calling (st t))))"
    by (rule "2.IH") (use "2.prems" callers_marked_calling [of "st t" ps] in \<open>auto simp del: callers_marked.simps\<close>)
  moreover have "(\<lambda>u. top_call ((st(t := (ps, True) # calling (st t))) u)) = (\<lambda>u. top_call (st u))(t \<mapsto> ps)"
    by auto
  ultimately show ?case by simp
next
  case (3 t es st)
  show ?case
  proof (cases "st t")
    case Nil
    then show ?thesis using "3.IH"(1) "3.prems" by simp
  next
    case (Cons c rest)
    obtain ps b where c: "c = (ps, b)" by (cases c)
    note m = callers_marked_tl [of c rest] "3.prems" [of t]
    have IH: "latest_run es (\<lambda>u. top_call ((st(t := rest)) u)) = innermost_calls (returns_run es (st(t := rest)))"
      by (rule "3.IH"(2) [OF Cons c [symmetric]]) (use m Cons "3.prems" in auto)
    have "(\<lambda>u. top_call ((st(t := rest)) u)) = (\<lambda>u. top_call (st u))(t := None)" using m Cons by auto
    moreover have "(\<lambda>u. top_call (st u))(t := None) = (\<lambda>u. top_call (st u))" if "\<not> b" using that Cons c by auto
    ultimately show ?thesis using IH Cons c by (cases b) (simp_all add: innermost_calls_def)
  qed
qed (simp add: innermost_calls_def)

lemma parms_roundtrip: "length ps = 5 \<Longrightarrow> dec_of parms_repr (enc_of parms_repr ps) = ps"
proof -
  assume "length ps = 5"
  then obtain a b c d e where "ps = [a, b, c, d, e]" by (auto simp: length_Suc_conv numeral_eq_Suc)
  then show ?thesis
    by (simp add: parms_repr_def le64_at_def u64c.enc_length u64c.dec_enc upt_conv_Cons)
qed

section \<open>The contract of the kernel\<close>

text \<open>
  \<open>bpf_map_lookup_elem\<close>, \<open>bpf_map_update_elem\<close> and \<open>bpf_map_delete_elem\<close> on a hash map of
  \<open>capacity\<close> entries. An update is promised for a key that is present or while there is room.
\<close>

locale kernel_hash_map =
  fixes B :: "'s bpf_helpers" and mdef :: u64 and contents :: "'s \<Rightarrow> bytes \<Rightarrow> bytes option" and capacity :: nat
  assumes finite_contents: "finite (dom (contents s))"
    and lookup_contents: "map_lookup_elem B s mdef key = contents s key"
    and update_contents: "key \<in> dom (contents s) \<or> card (dom (contents s)) < capacity \<Longrightarrow>
      contents (snd (map_update_elem B s mdef key v 0)) = (contents s)(key \<mapsto> v)"
    and delete_contents: "contents (snd (map_delete_elem B s mdef key)) = (contents s)(key := None)"
begin

text \<open>The map holds the pending calls of threads among \<open>T\<close>.\<close>

definition pending_in :: "u64 set \<Rightarrow> 's \<Rightarrow> (u64 \<Rightarrow> u64 list option) \<Rightarrow> bool" where
  "pending_in T s pending \<longleftrightarrow>
     (\<forall>t. contents s (u64_to_le t) = map_option (enc_of parms_repr) (pending t)) \<and>
     dom (contents s) \<subseteq> u64_to_le ` T \<and> (\<forall>ps \<in> ran pending. length ps = 5)"

lemma u64_to_le_eq: "u64_to_le t = u64_to_le u \<longleftrightarrow> t = u"
  by (metis u64c.dec_enc)

lemma enter_pending:
  assumes "pending_in T s pending" and "t \<in> T" and "card T \<le> capacity" and "length ps = 5"
  shows "pending_in T (pair_enter B mdef t ps s) (pending(t \<mapsto> ps))"
proof -
  have "u64_to_le t \<in> dom (contents s) \<or> card (dom (contents s)) < capacity"
  proof (rule disjCI)
    assume "\<not> card (dom (contents s)) < capacity"
    then have "card (u64_to_le ` T) \<le> card (dom (contents s))"
      using assms(3) card_image_le [of T u64_to_le] by simp
    then have "dom (contents s) = u64_to_le ` T"
      using assms(1) by (metis card_seteq finite finite_imageI pending_in_def)
    then show "u64_to_le t \<in> dom (contents s)" using assms(2) by blast
  qed
  then have "contents (pair_enter B mdef t ps s) = (contents s)(u64_to_le t \<mapsto> enc_of parms_repr ps)"
    using update_contents by (simp add: pair_enter_def probe_map_set_def u64_repr_def)
  then show ?thesis
    using assms(1,2,4) by (auto simp: pending_in_def u64_to_le_eq ran_def split: if_splits)
qed

lemma get_pending: "pending_in T s pending \<Longrightarrow> probe_map_get B u64_repr parms_repr mdef t s = pending t"
  by (cases "pending t")
    (auto simp: pending_in_def probe_map_get_def lookup_contents u64_repr_def ranI intro: parms_roundtrip)

lemma delete_pending:
  "pending_in T s pending \<Longrightarrow> pending_in T (probe_map_delete B u64_repr mdef t s) (pending(t := None))"
  by (auto simp: pending_in_def probe_map_delete_def delete_contents u64_repr_def u64_to_le_eq ran_def split: if_splits)

lemma pair_run_pending:
  assumes "pending_in T s pending" and "card T \<le> capacity"
    and "\<And>t ps. Enter t ps \<in> set es \<Longrightarrow> t \<in> T \<and> length ps = 5"
  shows "pair_run B mdef es s = latest_run es pending"
  using assms
proof (induction es pending arbitrary: s rule: latest_run.induct)
  case (2 t ps es pending)
  have "t \<in> T" "length ps = 5" using "2.prems"(3) [of t ps] by simp_all
  then have "pending_in T (pair_enter B mdef t ps s) (pending(t \<mapsto> ps))"
    using enter_pending "2.prems"(1,2) by blast
  then have "pair_run B mdef es (pair_enter B mdef t ps s) = latest_run es (pending(t \<mapsto> ps))"
    by (rule "2.IH") (use "2.prems"(2,3) in auto)
  then show ?case by simp
next
  case (3 t es pending)
  then show ?case
    using get_pending [of T s pending t] delete_pending [of T s pending t]
    by (cases "pending t") (simp_all add: pair_exit_def fun_upd_def)
qed simp

end

section \<open>A hash map of the kernel\<close>

text \<open>A list of entries; an update of a full map is refused with \<open>-E2BIG\<close>.\<close>

definition hash_helpers :: "nat \<Rightarrow> (bytes \<times> bytes) list bpf_helpers" where
  "hash_helpers capacity =
     \<lparr>map_lookup_elem = \<lambda>s _ key. map_of s key,
      map_update_elem = \<lambda>s _ key v _.
        (if key \<in> set (map fst s) \<or> length (remdups (map fst s)) < capacity then (0, AList.update key v s) else (-7, s)),
      map_delete_elem = \<lambda>s _ key. (if key \<in> set (map fst s) then (0, AList.delete key s) else (-2, s)),
      perf_event_output = \<lambda>s _ _ _ _ _. (0, s), get_stackid = \<lambda>_ _ _. 0, tail_call_helper = \<lambda>_ _ _. 0, redirect_map = \<lambda>_ _ _ _. 0,
      sk_redirect_map = \<lambda>_ _ _ _. 0, skb_load_bytes = \<lambda>_ _ _. (0, [])\<rparr>"

interpretation khm: kernel_hash_map "hash_helpers capacity" mdef map_of capacity
  for mdef capacity
  by unfold_locales
    (auto simp: hash_helpers_def dom_map_of_conv_image_fst length_remdups_card_conv AList.update_conv' AList.delete_conv'
      fun_eq_iff map_of_eq_None_iff)

section \<open>Parameters belong to their call\<close>

text \<open>The map that the pair declares has room for 10240 threads.\<close>

definition entering :: "pair_event list \<Rightarrow> u64 set" where
  "entering es = {t. \<exists>ps. Enter t ps \<in> set es}"

text \<open>
  C16: however the calls and returns of the threads interleave and nest, as long as the
  calls come from at most as many threads as the map has room for, the program behind a
  return probe with two parameters is called, in their order, for the returns whose
  call was seen and has not called the function again in its thread, with the parameters
  of that call. The return of a call with another one inside it is not reported.
\<close>

theorem pair_matches_calls:
  assumes "kernel_hash_map B mdef contents 10240" and "contents s0 = Map.empty"
    and "card (entering es) \<le> 10240" and "\<And>t ps. Enter t ps \<in> set es \<Longrightarrow> length ps = 5"
  shows "pair_run B mdef es s0 = innermost_calls (returns_run es (\<lambda>_. []))"
proof -
  have "pair_run B mdef es s0 = latest_run es (\<lambda>_. None)"
  proof (rule kernel_hash_map.pair_run_pending [OF assms(1)])
    show "kernel_hash_map.pending_in contents (entering es) s0 (\<lambda>_. None)"
      using assms(2) by (simp add: kernel_hash_map.pending_in_def [OF assms(1)] ran_def)
  qed (use assms(3,4) in \<open>auto simp: entering_def\<close>)
  also have "\<dots> = innermost_calls (returns_run es (\<lambda>_. []))"
    using latest_is_innermost [of "\<lambda>_. []" es] by simp
  finally show ?thesis .
qed

text \<open>Two threads, a return whose call was not seen, and a call that thread 2 makes inside its call.\<close>

theorem pair_matches_calls_witness:
  "pair_run (hash_helpers 10240) 0 [Enter 1 [1, 2, 3, 4, 5], Enter 2 [6, 7, 8, 9, 10], Enter 2 [0, 0, 0, 0, 7], Exit 1, Exit 3, Exit 2, Exit 2] [] =
     [(1, [1, 2, 3, 4, 5]), (2, [0, 0, 0, 0, 7])]"
proof -
  let ?es = "[Enter 1 [1, 2, 3, 4, 5], Enter 2 [6, 7, 8, 9, 10], Enter 2 [0, 0, 0, 0, 7], Exit 1, Exit 3, Exit 2, Exit 2]"
  have e: "entering ?es = {1, 2}"
    by (auto simp: entering_def)
  have "pair_run (hash_helpers 10240) 0 ?es [] = innermost_calls (returns_run ?es (\<lambda>_. []))"
    by (rule pair_matches_calls [OF khm.kernel_hash_map_axioms]) (auto simp: e)
  then show ?thesis by (simp add: innermost_calls_def)
qed

text \<open>A call inside a call of the same thread replaces its parameters: the outer return is not reported.\<close>

lemma nested_call_lost: "latest_run [Enter t ps, Enter t qs, Exit t, Exit t] Map.empty = [(t, qs)]"
  by simp

end
