(* ===== verification/Example_P0f.thy ===== *)
theory Example_P0f
  imports Probe_Pairs
begin

text \<open>
  The example that takes fingerprints of TCP clients, \<open>examples/example-probes/src/p0f\<close>: an XDP
  program that parses the options of TCP segments by itself, with reads through pointers
  that it has checked against the end of the packet. A read outside of the packet is
  \<open>Undefined\<close>, as in the parser of the library. Addresses are 64 bits wide and additions on
  them wrap.
\<close>

section \<open>Signatures\<close>

record TcpSignature =
  sg_quirks :: u32
  sg_opt_eol_pad :: u8
  sg_ip_opt_len :: u8
  sg_ip_ver :: u8
  sg_ttl :: u8
  sg_mss :: u32
  sg_win :: u16
  sg_win_type :: u8
  sg_pay_class :: u8
  sg_wscale :: u16
  sg_tot_hdr :: u16
  sg_ts1 :: u32
  sg_opt_cnt :: u8
  sg_options :: bytes

datatype Quirks = ECN | DF | NZ_ID | ZERO_ID | NZ_MBZ | FLOW | ZERO_SEQ | NZ_ACK | ZERO_ACK | NZ_URG | URG | PUSH
  | OPT_ZERO_TS1 | OPT_NZ_TS2 | OPT_EOL_NZ | OPT_EXWS | OPT_BAD

fun quirk :: "Quirks \<Rightarrow> u32" where
  "quirk ECN = 0x00000001"
| "quirk DF = 0x00000002"
| "quirk NZ_ID = 0x00000004"
| "quirk ZERO_ID = 0x00000008"
| "quirk NZ_MBZ = 0x00000010"
| "quirk FLOW = 0x00000020"
| "quirk ZERO_SEQ = 0x00001000"
| "quirk NZ_ACK = 0x00002000"
| "quirk ZERO_ACK = 0x00004000"
| "quirk NZ_URG = 0x00008000"
| "quirk URG = 0x00010000"
| "quirk PUSH = 0x00020000"
| "quirk OPT_ZERO_TS1 = 0x01000000"
| "quirk OPT_NZ_TS2 = 0x02000000"
| "quirk OPT_EOL_NZ = 0x04000000"
| "quirk OPT_EXWS = 0x08000000"
| "quirk OPT_BAD = 0x10000000"

abbreviation (input) MAX_TCP_OPT :: nat where "MAX_TCP_OPT \<equiv> 11"

text \<open>Signed fields are kept as words; \<open>-1\<close> is all ones.\<close>

definition default_signature :: TcpSignature where
  "default_signature =
     \<lparr>sg_quirks = 0, sg_opt_eol_pad = 0, sg_ip_opt_len = 0, sg_ip_ver = 0, sg_ttl = 0, sg_mss = 0, sg_win = 0, sg_win_type = 0,
      sg_pay_class = -1, sg_wscale = 0, sg_tot_hdr = 0, sg_ts1 = 0, sg_opt_cnt = 0, sg_options = replicate MAX_TCP_OPT 0\<rparr>"

definition set_quirk_true :: "Quirks \<Rightarrow> TcpSignature \<Rightarrow> TcpSignature" where
  "set_quirk_true q s = s\<lparr>sg_quirks := sg_quirks s OR quirk q\<rparr>"

definition set_quirk :: "Quirks \<Rightarrow> bool \<Rightarrow> TcpSignature \<Rightarrow> TcpSignature" where
  "set_quirk q c s = (if c then set_quirk_true q s else s)"

text \<open>The array is indexed with a check.\<close>

definition add_opt :: "u8 \<Rightarrow> TcpSignature \<Rightarrow> TcpSignature NetworkResult" where
  "add_opt opt s =
     and_then (index (sg_options s) (unat (sg_opt_cnt s))) (\<lambda>_.
     Ok (s\<lparr>sg_options := (sg_options s)[unat (sg_opt_cnt s) := opt], sg_opt_cnt := sg_opt_cnt s + 1\<rparr>))"

section \<open>Options\<close>

definition read_u8 :: "NetworkBuffer \<Rightarrow> u64 \<Rightarrow> u8 NetworkResult" where
  "read_u8 b a = and_then (deref b a 1) (\<lambda>bs. Ok (hd bs))"

text \<open>
  Every step forward has this form: finished when the packet ends before \<open>n\<close> more bytes, and
  one byte less forward otherwise.
\<close>

definition go_on :: "NetworkBuffer \<Rightarrow> u64 \<Rightarrow> u64 \<Rightarrow> TcpSignature \<Rightarrow> bool \<times> u64 \<times> TcpSignature" where
  "go_on b pos n s = (if data_end b < pos + n then (True, pos, s) else (False, pos + (n - 1), s))"

text \<open>The loop over the padding behind an end-of-options option.\<close>

fun eol_loop :: "NetworkBuffer \<Rightarrow> u64 \<Rightarrow> nat \<Rightarrow> u64 \<Rightarrow> TcpSignature \<Rightarrow> (u64 \<times> TcpSignature) NetworkResult" where
  "eol_loop b fin 0 pos s = Ok (pos, s)"
| "eol_loop b fin (Suc n) pos s =
     and_then (read_u8 b pos) (\<lambda>x.
     if x \<noteq> 0 then Ok (pos, set_quirk_true OPT_EOL_NZ s)
     else if data_end b < pos + 2 \<or> fin < pos + 2 then Ok (pos, s)
     else eol_loop b fin n (pos + 1) s)"

definition parse_eol :: "NetworkBuffer \<Rightarrow> u64 \<Rightarrow> u64 \<Rightarrow> TcpSignature \<Rightarrow> (bool \<times> u64 \<times> TcpSignature) NetworkResult" where
  "parse_eol b fin pos s =
     (if pos < fin then and_then (eol_loop b fin 4 pos (s\<lparr>sg_opt_eol_pad := ucast (fin - pos)\<rparr>)) (\<lambda>r. Ok (True, r))
      else Ok (True, pos, s))"

text \<open>A packed structure behind the kind of an option: the length and what follows it.\<close>

definition with_option :: "NetworkBuffer \<Rightarrow> u64 \<Rightarrow> TcpSignature \<Rightarrow> nat \<Rightarrow>
    (u8 \<Rightarrow> bytes \<Rightarrow> (bool \<times> u64 \<times> TcpSignature) NetworkResult) \<Rightarrow> (bool \<times> u64 \<times> TcpSignature) NetworkResult" where
  "with_option b pos s size_t body =
     (if data_end b < pos + of_nat size_t then Ok (True, pos, s)
      else and_then (deref b pos size_t) (\<lambda>bs. body (hd bs) (tl bs)))"

definition parse_sack :: "NetworkBuffer \<Rightarrow> u64 \<Rightarrow> TcpSignature \<Rightarrow> u8 \<Rightarrow> (bool \<times> u64 \<times> TcpSignature)" where
  "parse_sack b pos s len =
     (if len < 10 \<or> 34 < len then (True, pos, set_quirk_true OPT_BAD s)
      else if len = 10 then go_on b pos 10 s
      else if len = 18 then go_on b pos 18 s
      else if len = 26 then go_on b pos 26 s
      else if len = 34 then go_on b pos 34 s
      else (True, pos, set_quirk_true OPT_BAD s))"

definition parse_tcp_option :: "NetworkBuffer \<Rightarrow> u64 \<Rightarrow> u64 \<Rightarrow> TcpSignature \<Rightarrow> (bool \<times> u64 \<times> TcpSignature) NetworkResult" where
  "parse_tcp_option b pos fin s0 =
     and_then (read_u8 b pos) (\<lambda>tcp_opt.
     and_then (add_opt tcp_opt s0) (\<lambda>s.
     case go_on b pos 2 s of (stop, pos, s) \<Rightarrow>
       if stop then Ok (True, pos, s)
       else if tcp_opt = 0 then parse_eol b fin pos s
       else if tcp_opt = 2 then
         with_option b pos s 3 (\<lambda>len mss.
           let s = set_quirk OPT_BAD (len \<noteq> 4) s
           in Ok (go_on b pos 4 (s\<lparr>sg_mss := scast (from_be16 (word_of_le mss))\<rparr>)))
       else if tcp_opt = 3 then
         with_option b pos s 2 (\<lambda>len wscale.
           let s = (set_quirk OPT_BAD (len \<noteq> 3) s)\<lparr>sg_wscale := ucast (hd wscale)\<rparr>
           in Ok (go_on b pos 3 (set_quirk OPT_EXWS (14 < sint (sg_wscale s)) s)))
       else if tcp_opt = 4 then
         with_option b pos s 1 (\<lambda>len _. Ok (go_on b pos 2 (set_quirk OPT_BAD (len \<noteq> 2) s)))
       else if tcp_opt = 5 then
         with_option b pos s 9 (\<lambda>len _. Ok (parse_sack b pos s len))
       else if tcp_opt = 8 then
         with_option b pos s 9 (\<lambda>len ts.
           let s = (set_quirk OPT_BAD (len \<noteq> 10) s)\<lparr>sg_ts1 := word_of_le (rev (take 4 ts))\<rparr>;
               s = set_quirk OPT_ZERO_TS1 (sg_ts1 s = 0) s
           in Ok (go_on b pos 10 (set_quirk OPT_NZ_TS2 (word_of_le (drop 4 ts) \<noteq> (0 :: u32)) s)))
       else Ok (False, pos, s)))"

text \<open>The loop over the options; the first component says that the function returned from it.\<close>

fun option_loop :: "NetworkBuffer \<Rightarrow> u64 \<Rightarrow> nat \<Rightarrow> u64 \<Rightarrow> TcpSignature \<Rightarrow> (bool \<times> u64 \<times> TcpSignature) NetworkResult" where
  "option_loop b fin 0 pos s = Ok (False, pos, s)"
| "option_loop b fin (Suc n) pos s =
     (if fin \<le> pos then Ok (True, pos, s)
      else and_then (parse_tcp_option b pos fin s) (\<lambda>(stop, pos, s).
        if stop then Ok (False, pos, s) else option_loop b fin n pos s))"

section \<open>Segments and packets\<close>

record p0f_fields =
  pf_seq :: "bytes \<Rightarrow> u32"
  pf_ack_seq :: "bytes \<Rightarrow> u32"
  pf_urg_ptr :: "bytes \<Rightarrow> u16"
  pf_window :: "bytes \<Rightarrow> u16"
  pf_syn :: "bytes \<Rightarrow> u16"
  pf_ack :: "bytes \<Rightarrow> u16"
  pf_urg :: "bytes \<Rightarrow> u16"
  pf_psh :: "bytes \<Rightarrow> u16"
  pf_ttl :: "bytes \<Rightarrow> u8"
  pf_tos :: "bytes \<Rightarrow> u8"
  pf_frag_off :: "bytes \<Rightarrow> u16"
  pf_id :: "bytes \<Rightarrow> u16"

definition tcp_quirks :: "p0f_fields \<Rightarrow> bytes \<Rightarrow> TcpSignature \<Rightarrow> TcpSignature" where
  "tcp_quirks F h s =
     (let s = set_quirk ZERO_SEQ (pf_seq F h = 0) s;
          s = (if pf_ack F h \<noteq> 0 then set_quirk ZERO_ACK (pf_ack_seq F h = 0) s else set_quirk NZ_ACK (pf_ack_seq F h \<noteq> 0) s);
          s = (if pf_urg F h \<noteq> 0 then set_quirk_true URG s else set_quirk NZ_URG (pf_urg_ptr F h \<noteq> 0) s);
          s = set_quirk PUSH (pf_psh F h \<noteq> 0) s
      in s\<lparr>sg_win := pf_window F h\<rparr>)"

definition parse_tcp_signature :: "headers \<Rightarrow> p0f_fields \<Rightarrow> NetworkBuffer \<Rightarrow> u64 \<Rightarrow> bytes \<Rightarrow> TcpSignature \<Rightarrow>
    (bool \<times> TcpSignature) NetworkResult" where
  "parse_tcp_signature H F b tcp_header h s0 =
     (let s = tcp_quirks F h s0
      in case ptr_after b (tcphdr_size H) 1 tcp_header of
           Ok tcp_option_pos \<Rightarrow>
             let fin = tcp_header + ucast (doff H h * 4)
             in if data_end b < fin then Ok (False, s)
                else and_then (option_loop b fin (MAX_TCP_OPT - 6) tcp_option_pos
                       (s\<lparr>sg_pay_class := (if data_end b \<noteq> fin then 1 else 0)\<rparr>)) (\<lambda>(returned, pos, s).
                     if returned then Ok (True, s) else Ok (True, set_quirk OPT_BAD (pos \<noteq> fin) s))
         | Err _ \<Rightarrow> Ok (False, s)
         | Panic \<Rightarrow> Panic
         | Undefined \<Rightarrow> Undefined)"

abbreviation (input) HTTP_PORT :: u16 where "HTTP_PORT \<equiv> 80"
abbreviation (input) HTTPS_PORT :: u16 where "HTTPS_PORT \<equiv> 443"

definition ip_quirks :: "p0f_fields \<Rightarrow> bytes \<Rightarrow> TcpSignature \<Rightarrow> TcpSignature" where
  "ip_quirks F h s =
     (let s = set_quirk ECN (pf_tos F h AND 0x03 \<noteq> 0) s;
          ip_flags = from_be16 (pf_frag_off F h);
          s = set_quirk NZ_MBZ (ip_flags AND 0x8000 \<noteq> 0) s
      in if ip_flags AND 0x4000 \<noteq> 0 then set_quirk NZ_ID (pf_id F h \<noteq> 0) (set_quirk_true DF s)
         else set_quirk ZERO_ID (pf_id F h = 0) s)"

definition parse_ipv4_tcp_signatures :: "headers \<Rightarrow> p0f_fields \<Rightarrow> NetworkBuffer \<Rightarrow> u64 \<Rightarrow> bytes \<Rightarrow> TcpSignature \<Rightarrow>
    (bool \<times> TcpSignature) NetworkResult" where
  "parse_ipv4_tcp_signatures H F b ip_header h s =
     (let header_len = ucast (ihl H h) * 4 :: u64
      in if header_len < of_nat (iphdr_size H) then Ok (False, s)
         else let addr = ip_header + header_len
           in if ucast (protocol H h) \<noteq> IPPROTO_TCP \<or> data_end b < addr + of_nat (tcphdr_size H) then Ok (False, s)
              else and_then (deref b addr (tcphdr_size H)) (\<lambda>t.
                let dest_port = from_be16 (tcp_dest H t)
                in if dest_port \<noteq> HTTP_PORT \<and> dest_port \<noteq> HTTPS_PORT \<or> pf_syn F t = 0 \<or> pf_ack F t \<noteq> 0 then Ok (False, s)
                   else parse_tcp_signature H F b addr t (ip_quirks F h
                          (s\<lparr>sg_ip_ver := 4, sg_ttl := pf_ttl F h,
                             sg_ip_opt_len := ucast (if header_len < 20 then 0 else header_len - 20), sg_tot_hdr := ucast header_len\<rparr>))))"

text \<open>The program: its action and the signature that it sends, if any.\<close>

definition p0f_extractor :: "headers \<Rightarrow> p0f_fields \<Rightarrow> XdpContext \<Rightarrow> (XdpAction \<times> TcpSignature option) NetworkResult" where
  "p0f_extractor H F ctx =
     (let b = xdp_buffer ctx
      in and_then (eth H b) (\<lambda>e.
         and_then (deref b e (ethhdr_size H)) (\<lambda>eh.
         if h_proto H eh = from_be16 ETH_P_IP then
           and_then (ptr_after b (ethhdr_size H) (iphdr_size H) e) (\<lambda>p.
           and_then (deref b p (iphdr_size H)) (\<lambda>h.
           and_then (parse_ipv4_tcp_signatures H F b p h default_signature) (\<lambda>(found, s).
           Ok (Pass, if found then Some s else None))))
         else Ok (Pass, None))))"

section \<open>Reads stay inside the packet\<close>

definition small_buffer :: "NetworkBuffer \<Rightarrow> bool" where
  "small_buffer b \<longleftrightarrow> buffer_ok b \<and> unat (data_end b) < 2 ^ 32"

definition pos_in :: "NetworkBuffer \<Rightarrow> u64 \<Rightarrow> bool" where
  "pos_in b pos \<longleftrightarrow> unat (data_start b) \<le> unat pos \<and> unat pos < unat (data_end b)"

lemma unat_add_small: "unat p < 2 ^ 33 \<Longrightarrow> unat n < 2 ^ 33 \<Longrightarrow> unat (p + n) = unat p + unat (n :: u64)"
  by (simp add: unat_word_ariths)

lemma pos_in_add: "small_buffer b \<Longrightarrow> pos_in b pos \<Longrightarrow> unat n < 2 ^ 33 \<Longrightarrow> unat (pos + n) = unat pos + unat n"
  by (rule unat_add_small) (auto simp: small_buffer_def pos_in_def)

lemma go_on_pos:
  assumes "small_buffer b" "pos_in b pos" "0 < unat n" "unat n < 2 ^ 33"
  shows "case go_on b pos n s of (stop, pos', s') \<Rightarrow> pos_in b pos' \<and> s' = s"
proof (cases "data_end b < pos + n")
  case True
  then show ?thesis using assms(2) by (simp add: go_on_def)
next
  case False
  have "unat (n - 1) = unat n - 1" using assms(3) by (simp add: unat_sub word_le_nat_alt)
  then have "unat (pos + (n - 1)) = unat pos + (unat n - 1)" using assms by (simp add: pos_in_add)
  moreover have "unat pos + unat n \<le> unat (data_end b)" using False assms by (simp add: word_less_nat_alt pos_in_add)
  ultimately show ?thesis using assms False unfolding pos_in_def go_on_def by auto
qed

text \<open>What the options leave of a signature as it is.\<close>

definition frame :: "TcpSignature \<Rightarrow> nat \<times> u8 \<times> u8" where
  "frame s = (length (sg_options s), sg_opt_cnt s, sg_pay_class s)"

lemma frame_simps [simp]:
  "frame (set_quirk_true q s) = frame s" "frame (set_quirk q c s) = frame s" "frame (s\<lparr>sg_mss := x\<rparr>) = frame s"
  "frame (s\<lparr>sg_wscale := w\<rparr>) = frame s" "frame (s\<lparr>sg_ts1 := y\<rparr>) = frame s" "frame (s\<lparr>sg_opt_eol_pad := z\<rparr>) = frame s"
  "frame (s\<lparr>sg_win := v\<rparr>) = frame s"
  by (simp_all add: frame_def set_quirk_def set_quirk_true_def)

lemma read_u8_in: "small_buffer b \<Longrightarrow> pos_in b pos \<Longrightarrow> \<exists>x. read_u8 b pos = Ok x"
  by (simp add: read_u8_def deref_inside small_buffer_def pos_in_def inside_def)

definition option_ok :: "NetworkBuffer \<Rightarrow> nat \<times> u8 \<times> u8 \<Rightarrow> (bool \<times> u64 \<times> TcpSignature) NetworkResult \<Rightarrow> bool" where
  "option_ok b f r \<longleftrightarrow> (case r of Ok (stop, pos, s) \<Rightarrow> pos_in b pos \<and> frame s = f | _ \<Rightarrow> False)"

lemma option_ok_Ok [simp]: "option_ok b f (Ok (stop, pos, s)) \<longleftrightarrow> pos_in b pos \<and> frame s = f"
  by (simp add: option_ok_def)

lemma go_on_ok [intro!]:
  "small_buffer b \<Longrightarrow> pos_in b pos \<Longrightarrow> 0 < unat n \<Longrightarrow> unat n < 2 ^ 33 \<Longrightarrow> frame s = f \<Longrightarrow> option_ok b f (Ok (go_on b pos n s))"
  using go_on_pos [of b pos n s] by (cases "go_on b pos n s") auto

lemma next_pos:
  assumes "small_buffer b" "pos_in b pos" "\<not> data_end b < pos + 2"
  shows "pos_in b (pos + 1)"
  using go_on_pos [OF assms(1,2), of 2] assms by (auto simp: go_on_def)

lemma eol_loop_ok:
  assumes "small_buffer b" "pos_in b pos"
  shows "\<exists>pos' s'. eol_loop b fin n pos s = Ok (pos', s') \<and> pos_in b pos' \<and> frame s' = frame s"
  using assms(2)
proof (induction n arbitrary: pos s)
  case (Suc n)
  obtain x where "read_u8 b pos = Ok x" using read_u8_in [OF assms(1) Suc.prems] by blast
  then show ?case using Suc next_pos [OF assms(1) Suc.prems] by (cases "x = 0") auto
qed auto

lemma with_option_ok:
  assumes "small_buffer b" "pos_in b pos" "0 < n" "n < 2 ^ 33"
    and "\<And>len rest. length rest = n - 1 \<Longrightarrow> option_ok b f (body len rest)" "frame s = f"
  shows "option_ok b f (with_option b pos s n body)"
proof (cases "data_end b < pos + of_nat n")
  case True
  then show ?thesis using assms(2,6) by (simp add: with_option_def)
next
  case False
  have "unat (of_nat n :: u64) = n" using assms(4) by (simp add: unat_of_nat)
  then have "unat pos + n \<le> unat (data_end b)"
    using False pos_in_add [OF assms(1,2), of "of_nat n"] assms(4) by (simp add: word_less_nat_alt)
  then have i: "inside b pos n" "buffer_ok b" using assms(1,2) by (simp_all add: inside_def pos_in_def small_buffer_def)
  then show ?thesis using assms(5) [of "tl (content b pos n)" "hd (content b pos n)"] False
    by (simp add: with_option_def deref_inside length_content)
qed

lemma parse_sack_ok: "small_buffer b \<Longrightarrow> pos_in b pos \<Longrightarrow> option_ok b (frame s) (Ok (parse_sack b pos s len))"
  by (auto simp: parse_sack_def)

lemma parse_tcp_option_ok:
  assumes "small_buffer b" "pos_in b pos" "unat (sg_opt_cnt s) < length (sg_options s)"
  shows "option_ok b (length (sg_options s), sg_opt_cnt s + 1, sg_pay_class s) (parse_tcp_option b pos fin s)"
proof -
  obtain x where x: "read_u8 b pos = Ok x" using read_u8_in [OF assms(1,2)] by blast
  obtain s1 where s1: "add_opt x s = Ok s1" and f: "frame s1 = (length (sg_options s), sg_opt_cnt s + 1, sg_pay_class s)"
    using assms(3) by (simp add: add_opt_def index_def frame_def)
  obtain stop pos1 where g: "go_on b pos 2 s1 = (stop, pos1, s1)" "pos_in b pos1"
    using go_on_pos [OF assms(1,2), of 2 s1] by (cases "go_on b pos 2 s1") auto
  have e: "option_ok b (frame s1) (parse_eol b fin pos1 s1)"
    using eol_loop_ok [OF assms(1) g(2), of fin 4 "s1\<lparr>sg_opt_eol_pad := ucast (fin - pos1)\<rparr>"] g(2)
    by (auto simp: parse_eol_def)
  show ?thesis unfolding f [symmetric] parse_tcp_option_def x s1 and_then.simps g(1) Let_def prod.case
    by (simp only: if_split [where P = "option_ok b (frame s1)"],
        intro conjI impI e with_option_ok go_on_ok parse_sack_ok assms(1) g(2); simp add: g(2))
qed

lemma option_loop_ok:
  assumes "small_buffer b" "pos_in b pos" "unat (sg_opt_cnt s) + n \<le> length (sg_options s)" "length (sg_options s) \<le> 255"
  shows "case option_loop b fin n pos s of
      Ok (returned, pos', s') \<Rightarrow> pos_in b pos' \<and> (returned \<longrightarrow> fin \<le> pos') \<and> length (sg_options s') = length (sg_options s) \<and>
        unat (sg_opt_cnt s') \<le> unat (sg_opt_cnt s) + n \<and> sg_pay_class s' = sg_pay_class s
    | _ \<Rightarrow> False"
  using assms(2-4)
proof (induction n arbitrary: pos s)
  case (Suc n)
  show ?case
  proof (cases "fin \<le> pos")
    case False
    have "option_ok b (length (sg_options s), sg_opt_cnt s + 1, sg_pay_class s) (parse_tcp_option b pos fin s)"
      by (rule parse_tcp_option_ok) (use assms(1) Suc.prems in auto)
    then obtain stop pos1 s1 where p: "parse_tcp_option b pos fin s = Ok (stop, pos1, s1)" "pos_in b pos1"
      and s1: "length (sg_options s1) = length (sg_options s)" "sg_opt_cnt s1 = sg_opt_cnt s + 1" "sg_pay_class s1 = sg_pay_class s"
      by (auto simp: option_ok_def frame_def split: outcome.splits)
    have c: "unat (sg_opt_cnt s1) = unat (sg_opt_cnt s) + 1"
      using Suc.prems by (simp add: s1 unat_word_ariths)
    show ?thesis
    proof (cases stop)
      case True
      then show ?thesis using False p s1 c by simp
    next
      case False
      then show ?thesis using \<open>\<not> fin \<le> pos\<close> p Suc.IH [OF p(2), of s1] Suc.prems s1 c
        by (cases "option_loop b fin n pos1 s1") auto
    qed
  qed (use Suc.prems in auto)
qed (auto split: outcome.splits)

text \<open>What is known of a signature that is sent.\<close>

definition signature_ok :: "TcpSignature \<Rightarrow> bool" where
  "signature_ok s \<longleftrightarrow> length (sg_options s) = MAX_TCP_OPT \<and> unat (sg_opt_cnt s) \<le> MAX_TCP_OPT - 6 \<and>
     (sg_pay_class s = 0 \<longrightarrow> sg_quirks s AND quirk OPT_BAD \<noteq> 0)"

lemma tcp_quirks_frame [simp]: "frame (tcp_quirks F h s) = frame s"
  by (simp add: tcp_quirks_def Let_def)

lemma ip_quirks_frame [simp]: "frame (ip_quirks F h s) = frame s"
  by (simp add: ip_quirks_def Let_def)

lemma parse_tcp_signature_ok:
  assumes "small_buffer b" "inside b p (tcphdr_size H)" "frame s = frame default_signature" "tcphdr_size H < 2 ^ 33"
  shows "case parse_tcp_signature H F b p h s of Ok (found, s') \<Rightarrow> found \<longrightarrow> signature_ok s' | _ \<Rightarrow> False"
proof -
  let ?s = "tcp_quirks F h s" and ?fin = "p + ucast (doff H h * 4)" and ?q = "p + of_nat (tcphdr_size H)"
  define pc where "pc = (if data_end b \<noteq> ?fin then 1 else 0 :: u8)"
  let ?s1 = "?s\<lparr>sg_pay_class := pc\<rparr>"
  have f: "length (sg_options ?s) = 11" "sg_opt_cnt ?s = 0"
    using tcp_quirks_frame [of F h s] assms(3) by (simp_all add: frame_def default_signature_def)
  show ?thesis
  proof (cases "inside b ?q 1 \<and> \<not> data_end b < ?fin")
    case False
    then show ?thesis by (auto simp: parse_tcp_signature_def Let_def ptr_after_def ptr_at_inside)
  next
    case True
    then have q: "pos_in b ?q" by (auto simp: inside_def pos_in_def)
    obtain returned pos' s' where l: "option_loop b ?fin 5 ?q ?s1 = Ok (returned, pos', s')" "pos_in b pos'"
      "returned \<longrightarrow> ?fin \<le> pos'" "length (sg_options s') = 11" "unat (sg_opt_cnt s') \<le> 5" "sg_pay_class s' = sg_pay_class ?s1"
      using option_loop_ok [OF assms(1) q, of ?s1 5 ?fin] f by (cases "option_loop b ?fin 5 ?q ?s1") auto
    have "pos' \<noteq> ?fin \<and> \<not> returned" if "sg_pay_class s' = 0"
      using that l True by (auto simp: pc_def pos_in_def word_less_nat_alt word_le_nat_alt split: if_splits)
    moreover have "parse_tcp_signature H F b p h s = Ok (True, if returned then s' else set_quirk OPT_BAD (pos' \<noteq> ?fin) s')"
      using True l(1) unfolding pc_def by (simp add: parse_tcp_signature_def Let_def ptr_after_def ptr_at_inside)
    ultimately show ?thesis using l(4,5)
      by (auto simp: signature_ok_def set_quirk_def set_quirk_true_def)
  qed
qed

lemma parse_ipv4_ok:
  assumes "small_buffer b" "inside b p (iphdr_size H)" "tcphdr_size H < 2 ^ 32"
  shows "case parse_ipv4_tcp_signatures H F b p h default_signature of Ok (found, s') \<Rightarrow> found \<longrightarrow> signature_ok s' | _ \<Rightarrow> False"
proof -
  define len where "len = (ucast (ihl H h) * 4 :: u64)"
  define s where "s = ip_quirks F h (default_signature\<lparr>sg_ip_ver := 4, sg_ttl := pf_ttl F h,
    sg_ip_opt_len := ucast (if len < 20 then 0 else len - 20), sg_tot_hdr := ucast len\<rparr>)"
  have f: "frame s = frame default_signature" unfolding s_def ip_quirks_frame by (simp add: frame_def)
  have "unat len \<le> 4 * 255"
    using unsigned_less [of "ihl H h", where 'a = nat] by (simp add: len_def unat_word_ariths unsigned_ucast_eq take_bit_eq_mod)
  then have a: "unat (p + len) = unat p + unat len" using assms(1,2) by (intro unat_add_small) (auto simp: small_buffer_def inside_def)
  have n: "unat (of_nat (tcphdr_size H) :: u64) = tcphdr_size H" using assms(3) by (simp add: unat_of_nat)
  show ?thesis
  proof (cases "len < of_nat (iphdr_size H) \<or> ucast (protocol H h) \<noteq> IPPROTO_TCP \<or> data_end b < p + len + of_nat (tcphdr_size H)")
    case True
    then show ?thesis by (auto simp: parse_ipv4_tcp_signatures_def Let_def len_def)
  next
    case False
    have "unat (p + len + of_nat (tcphdr_size H)) = unat p + unat len + tcphdr_size H"
      using assms \<open>unat len \<le> _\<close> n by (subst unat_add_small) (auto simp: a small_buffer_def inside_def)
    then have i: "inside b (p + len) (tcphdr_size H)"
      using False assms(2) by (auto simp: inside_def a word_less_nat_alt)
    have "parse_ipv4_tcp_signatures H F b p h default_signature =
        (let t = content b (p + len) (tcphdr_size H); port = from_be16 (tcp_dest H t)
         in if port \<noteq> HTTP_PORT \<and> port \<noteq> HTTPS_PORT \<or> pf_syn F t = 0 \<or> pf_ack F t \<noteq> 0 then Ok (False, default_signature)
            else parse_tcp_signature H F b (p + len) t s)"
      using False i assms(1) by (simp add: parse_ipv4_tcp_signatures_def Let_def len_def s_def deref_inside small_buffer_def)
    then show ?thesis using parse_tcp_signature_ok [OF assms(1) i f] assms(3) by (simp add: Let_def)
  qed
qed

text \<open>
  C22: on every packet the program lets it pass or ends with an error of the parser, and neither
  reads outside of the packet nor panics; a signature that it sends lists at most five
  options. When the packet ends with the header of the segment, so that there is no payload,
  the signature says that the options are bad: the position never gets to the end of the
  packet, whatever the options are.
\<close>

theorem p0f_stays_inside:
  assumes "buffer_ok (xdp_buffer ctx)" and "headers_ok H" and "tcphdr_size H < 2 ^ 32"
  shows "safe (p0f_extractor H F ctx) (\<lambda>(action, sent). action = Pass \<and> (\<forall>s. sent = Some s \<longrightarrow>
    length (sg_options s) = 11 \<and> unat (sg_opt_cnt s) \<le> 5 \<and> (sg_pay_class s = 0 \<longrightarrow> sg_quirks s AND quirk OPT_BAD \<noteq> 0)))"
proof -
  let ?b = "xdp_buffer ctx"
  have b: "small_buffer ?b"
    using assms(1) unsigned_less [of "xdp_data_end ctx", where 'a = nat] by (simp add: small_buffer_def xdp_buffer_def unsigned_ucast_eq take_bit_eq_mod)
  have "safe (and_then (deref ?b p (iphdr_size H)) (\<lambda>h.
      and_then (parse_ipv4_tcp_signatures H F ?b p h default_signature) (\<lambda>(found, s). Ok (Pass, if found then Some s else None))))
      (\<lambda>(action, sent). action = Pass \<and> (\<forall>s. sent = Some s \<longrightarrow> signature_ok s))" if "inside ?b p (iphdr_size H)" for p
    using parse_ipv4_ok [OF b that assms(3), of F "content ?b p (iphdr_size H)"] that assms(1)
    by (cases "parse_ipv4_tcp_signatures H F ?b p (content ?b p (iphdr_size H)) default_signature") (auto simp: deref_inside)
  then have "safe (p0f_extractor H F ctx) (\<lambda>(action, sent). action = Pass \<and> (\<forall>s. sent = Some s \<longrightarrow> signature_ok s))"
    using assms(1,2) by (simp add: p0f_extractor_def Let_def eth_def ptr_after_def ptr_at_header deref_inside)
  then show ?thesis by (rule safe_mono) (auto simp: signature_ok_def)
qed

text \<open>A SYN to port 80 with the option for a segment size of 1460 bytes and no payload.\<close>

definition demo_fields :: p0f_fields where
  "demo_fields =
     \<lparr>pf_seq = \<lambda>h. word_of_le (take 4 (drop 4 h)), pf_ack_seq = \<lambda>h. word_of_le (take 4 (drop 8 h)),
      pf_urg_ptr = \<lambda>h. be16_at h 18, pf_window = \<lambda>h. be16_at h 14, pf_syn = \<lambda>h. ucast (h ! 13 AND 2),
      pf_ack = \<lambda>h. ucast (h ! 13 AND 16), pf_urg = \<lambda>h. ucast (h ! 13 AND 32), pf_psh = \<lambda>h. ucast (h ! 13 AND 8),
      pf_ttl = \<lambda>h. h ! 8, pf_tos = \<lambda>h. h ! 1, pf_frag_off = \<lambda>h. be16_at h 6, pf_id = \<lambda>h. be16_at h 4\<rparr>"

definition demo_ip :: bytes where "demo_ip = [0x45, 0, 0, 44, 0, 0, 0, 0, 64, 6, 0, 0, 10, 0, 0, 1, 10, 0, 0, 2]"
definition demo_tcp :: bytes where "demo_tcp = [0x30, 0x39, 0, 80, 0, 0, 0, 1, 0, 0, 0, 0, 0x60, 2, 1, 0, 0, 0, 0, 0]"

definition demo_syn :: XdpContext where
  "demo_syn = \<lparr>xdp_data = 0x1000, xdp_data_end = 0x103A, packet = sample_eth @ demo_ip @ demo_tcp @ [2, 4, 0x05, 0xB4]\<rparr>"

definition demo_buffer :: NetworkBuffer where
  "demo_buffer = xdp_buffer demo_syn"

lemma demo_buffer_simps:
  "data_start demo_buffer = 0x1000" "data_end demo_buffer = 0x103A" "buffer_ok demo_buffer"
  "content demo_buffer 0x1000 14 = sample_eth" "content demo_buffer 0x100E 20 = demo_ip" "content demo_buffer 0x1022 20 = demo_tcp"
  "content demo_buffer 0x1036 (Suc 0) = [2]" "content demo_buffer 0x1037 3 = [4, 0x05, 0xB4]"
  by (simp_all add: demo_buffer_def xdp_buffer_def demo_syn_def sample_eth_def demo_ip_def demo_tcp_def buffer_ok_def content_def)

lemma demo_deref:
  "deref demo_buffer 0x1000 14 = Ok sample_eth" "deref demo_buffer 0x100E 20 = Ok demo_ip" "deref demo_buffer 0x1022 20 = Ok demo_tcp"
  "read_u8 demo_buffer 0x1036 = Ok 2" "deref demo_buffer 0x1037 3 = Ok [4, 0x05, 0xB4]"
  by (simp_all add: read_u8_def deref_inside demo_buffer_simps inside_def)

lemma demo_option:
  assumes "sg_opt_cnt s = 0" "length (sg_options s) = 11"
  shows "\<exists>s'. parse_tcp_option demo_buffer 0x1036 0x103A s = Ok (True, 0x1037, s') \<and> sg_pay_class s' = sg_pay_class s"
  using assms by (simp add: parse_tcp_option_def demo_deref add_opt_def index_def go_on_def demo_buffer_simps with_option_def
      set_quirk_def Let_def)

lemma demo_signature:
  assumes "frame s = frame default_signature"
  shows "\<exists>s'. parse_tcp_signature sample_headers demo_fields demo_buffer 0x1022 demo_tcp s = Ok (True, s') \<and> sg_pay_class s' = 0"
proof -
  let ?s = "(tcp_quirks demo_fields demo_tcp s)\<lparr>sg_pay_class := 0\<rparr>"
  have "sg_opt_cnt ?s = 0" "length (sg_options ?s) = 11"
    using tcp_quirks_frame [of demo_fields demo_tcp s] assms by (simp_all add: frame_def default_signature_def)
  then obtain s' where s': "parse_tcp_option demo_buffer 0x1036 0x103A ?s = Ok (True, 0x1037, s')" "sg_pay_class s' = 0"
    using demo_option by fastforce
  have "option_loop demo_buffer 0x103A (Suc 4) 0x1036 ?s = Ok (False, 0x1037, s')" unfolding option_loop.simps using s'(1) by simp
  then have "option_loop demo_buffer 0x103A 5 0x1036 ?s = Ok (False, 0x1037, s')" by (simp del: option_loop.simps)
  moreover have "doff sample_headers demo_tcp * 4 = 24" "tcphdr_size sample_headers = 20" by (simp_all add: sample_headers_def demo_tcp_def)
  ultimately show ?thesis using s'(2)
    by (simp add: parse_tcp_signature_def Let_def ptr_after_def ptr_at_inside inside_def demo_buffer_simps set_quirk_def set_quirk_true_def)
qed

lemma demo_syn_sent: "\<exists>s. p0f_extractor sample_headers demo_fields demo_syn = Ok (Pass, Some s) \<and> sg_pay_class s = 0"
proof -
  have h: "ethhdr_size sample_headers = 14" "iphdr_size sample_headers = 20" "tcphdr_size sample_headers = 20"
    "h_proto sample_headers sample_eth = from_be16 ETH_P_IP" "ihl sample_headers demo_ip = 5" "protocol sample_headers demo_ip = 6"
    "from_be16 (tcp_dest sample_headers demo_tcp) = 80" "pf_syn demo_fields demo_tcp \<noteq> 0" "pf_ack demo_fields demo_tcp = 0"
    by (simp_all add: sample_headers_def sample_eth_def demo_ip_def demo_tcp_def be16_at_def from_be16_def demo_fields_def nth_append)
  define s where "s = ip_quirks demo_fields demo_ip (default_signature\<lparr>sg_ip_ver := 4, sg_ttl := pf_ttl demo_fields demo_ip,
    sg_ip_opt_len := 0, sg_tot_hdr := 20\<rparr>)"
  have "frame s = frame default_signature" unfolding s_def ip_quirks_frame by (simp add: frame_def)
  then obtain s' where "parse_tcp_signature sample_headers demo_fields demo_buffer 0x1022 demo_tcp s = Ok (True, s')" "sg_pay_class s' = 0"
    using demo_signature by blast
  moreover have "p0f_extractor sample_headers demo_fields demo_syn =
      and_then (parse_tcp_signature sample_headers demo_fields demo_buffer 0x1022 demo_tcp s) (\<lambda>(found, s).
      Ok (Pass, if found then Some s else None))"
    unfolding s_def by (simp add: p0f_extractor_def Let_def demo_buffer_def [symmetric] eth_def ptr_after_def ptr_at_inside inside_def
        demo_buffer_simps demo_deref h parse_ipv4_tcp_signatures_def)
  ultimately show ?thesis by simp
qed

theorem p0f_stays_inside_witness:
  "\<exists>s. p0f_extractor sample_headers demo_fields demo_syn = Ok (Pass, Some s) \<and> sg_quirks s AND 0x10000000 \<noteq> 0"
proof -
  obtain s where s: "p0f_extractor sample_headers demo_fields demo_syn = Ok (Pass, Some s)" "sg_pay_class s = 0"
    using demo_syn_sent by blast
  have "tcphdr_size sample_headers < 2 ^ 32" by (simp add: sample_headers_def)
  then show ?thesis
    using p0f_stays_inside [of demo_syn sample_headers demo_fields] s demo_buffer_simps(3) sample_packet(2)
    by (simp add: demo_buffer_def)
qed

end
