(* ===== verification/Steps.thy ===== *)
theory Steps
  imports Prelude
begin

text \<open>
  Programs over a state that may end early: a step takes the state and gives an outcome and
  the state it left, which an early return keeps.
\<close>

type_synonym ('s, 'e, 'a) step = "'s \<Rightarrow> ('e, 'a) outcome \<times> 's"

definition give :: "('e, 'a) outcome \<Rightarrow> ('s, 'e, 'a) step" where
  "give r s = (r, s)"

definition and_do :: "('s, 'e, 'a) step \<Rightarrow> ('a \<Rightarrow> ('s, 'e, 'b) step) \<Rightarrow> ('s, 'e, 'b) step" where
  "and_do m f s =
     (case m s of
        (Ok x, s') \<Rightarrow> f x s'
      | (Err e, s') \<Rightarrow> (Err e, s')
      | (Panic, s') \<Rightarrow> (Panic, s')
      | (Undefined, s') \<Rightarrow> (Undefined, s'))"

lemma and_do_simps [simp]:
  "and_do (give (Ok x)) f = f x" "and_do (give (Err e)) f = give (Err e)" "and_do (give Panic) f = give Panic"
  "and_do (give Undefined) f = give Undefined"
  by (simp_all add: and_do_def give_def fun_eq_iff)

lemma and_do_Ok: "m s = (Ok x, s') \<Longrightarrow> and_do m f s = f x s'"
  by (simp add: and_do_def)

lemma give_eq [simp]: "give r s = (r', s') \<longleftrightarrow> r = r' \<and> s = s'"
  by (simp add: give_def)

lemma and_do_eq_Ok: "and_do m f s = (Ok y, s2) \<longleftrightarrow> (\<exists>x s1. m s = (Ok x, s1) \<and> f x s1 = (Ok y, s2))"
  by (auto simp: and_do_def split: outcome.splits prod.splits)

section \<open>What a step keeps\<close>

definition keeps :: "('s \<Rightarrow> bool) \<Rightarrow> ('s, 'e, 'a) step \<Rightarrow> bool" where
  "keeps P m \<longleftrightarrow> (\<forall>s. P s \<longrightarrow> P (snd (m s)))"

definition keeps_unless_Ok :: "('s \<Rightarrow> bool) \<Rightarrow> ('s, 'e, 'a) step \<Rightarrow> bool" where
  "keeps_unless_Ok P m \<longleftrightarrow> (\<forall>s. P s \<and> \<not> is_Ok (fst (m s)) \<longrightarrow> P (snd (m s)))"

lemma keeps_give [intro, simp]: "keeps P (give r)" "keeps_unless_Ok P (give r)"
  by (simp_all add: keeps_def keeps_unless_Ok_def give_def)

lemma and_do_cases:
  obtains (go) x where "fst (m s) = Ok x" "and_do m f s = f x (snd (m s))"
  | (stop) "snd (and_do m f s) = snd (m s)" "\<not> is_Ok (fst (and_do m f s))"
  by (cases "m s"; cases "fst (m s)") (auto simp: and_do_def)

lemma keeps_and_do [intro]:
  assumes "keeps P m" "\<And>x. keeps P (f x)"
  shows "keeps P (and_do m f)"
  unfolding keeps_def
proof (intro allI impI)
  fix s assume "P s"
  then have "P (snd (m s))" using assms(1) by (simp add: keeps_def)
  then show "P (snd (and_do m f s))" using assms(2) by (cases rule: and_do_cases [of m s f]) (simp_all add: keeps_def)
qed

lemma keeps_unless_and_do [intro]:
  assumes "keeps P m" "\<And>x. keeps_unless_Ok P (f x)"
  shows "keeps_unless_Ok P (and_do m f)"
  unfolding keeps_unless_Ok_def
proof (intro allI impI)
  fix s assume s: "P s \<and> \<not> is_Ok (fst (and_do m f s))"
  then have "P (snd (m s))" using assms(1) by (simp add: keeps_def)
  then show "P (snd (and_do m f s))"
    using assms(2) s by (cases rule: and_do_cases [of m s f]) (simp_all add: keeps_unless_Ok_def)
qed

lemma keeps_Ok: "keeps P m \<Longrightarrow> P s \<Longrightarrow> m s = (r, s') \<Longrightarrow> P s'"
  by (metis keeps_def snd_conv)

section \<open>Errors\<close>

text \<open>\<open>Result::map_err\<close>\<close>

fun map_err :: "('e \<Rightarrow> 'f) \<Rightarrow> ('e, 'a) outcome \<Rightarrow> ('f, 'a) outcome" where
  "map_err g (Ok x) = Ok x"
| "map_err g (Err e) = Err (g e)"
| "map_err g Panic = Panic"
| "map_err g Undefined = Undefined"

lemma map_err_eq_Ok [simp]: "map_err g r = Ok x \<longleftrightarrow> r = Ok x"
  by (cases r) simp_all

text \<open>Steps with the errors of the system converted, and steps whose error is dropped.\<close>

definition err_step :: "('e \<Rightarrow> 'f) \<Rightarrow> ('s, 'e, 'a) step \<Rightarrow> ('s, 'f, 'a) step" where
  "err_step g m s = (case m s of (r, s') \<Rightarrow> (map_err g r, s'))"

definition ignore_err :: "('s, 'e, 'a) step \<Rightarrow> ('s, 'f, unit) step" where
  "ignore_err m s =
     (case m s of
        (Ok _, s') \<Rightarrow> (Ok (), s') | (Err _, s') \<Rightarrow> (Ok (), s') | (Panic, s') \<Rightarrow> (Panic, s') | (Undefined, s') \<Rightarrow> (Undefined, s'))"

lemma err_step_Ok [simp]: "err_step g m s = (Ok x, s') \<longleftrightarrow> m s = (Ok x, s')"
  by (auto simp: err_step_def split: prod.splits)

lemma is_Ok_map_err [simp]: "is_Ok (map_err g r) = is_Ok r"
  by (cases r) simp_all

lemma keeps_err_step [intro]: "keeps P m \<Longrightarrow> keeps P (err_step g m)" "keeps_unless_Ok P m \<Longrightarrow> keeps_unless_Ok P (err_step g m)"
  by (simp_all add: keeps_def keeps_unless_Ok_def err_step_def case_prod_beta)

end
