(* ===== verification/Tool_Knock.thy ===== *)
theory Tool_Knock
  imports Probe_Pairs Steps
begin

text \<open>
  The port knocking tool: the XDP program of \<open>redbpf-tools/probes/src/knock\<close> and the options
  and the configuration of \<open>redbpf-tools/src/bin/redbpf-tcp-knock.rs\<close>. The two hash maps of
  the program are maps; whether the kernel takes a new entry is a parameter. A value that
  \<open>get_mut\<close> points to is written back where the code writes through the pointer. The
  specification says of every packet of a run, from what its peer sent before, whether it
  is let through.
\<close>

section \<open>The data shared with user space\<close>

abbreviation (input) MAX_SEQ_LEN :: nat where "MAX_SEQ_LEN \<equiv> 4"

record PortSequence =
  ps_ports :: "u16 list"
  ps_len :: u64
  ps_target :: u64

record Knock =
  kn_sequence :: PortSequence
  kn_complete :: u64

datatype knock_event = KnockAttempt u32 PortSequence | Connection u32 u32

text \<open>The loop of \<open>is_complete\<close> from index \<open>i\<close> on, with \<open>n\<close> iterations to go.\<close>

fun same_ports :: "u16 list \<Rightarrow> u16 list \<Rightarrow> nat \<Rightarrow> nat \<Rightarrow> bool NetworkResult" where
  "same_ports xs ys i 0 = Ok True"
| "same_ports xs ys i (Suc n) =
     and_then (index xs i) (\<lambda>x. and_then (index ys i) (\<lambda>y.
       if x \<noteq> y then Ok False else same_ports xs ys (i + 1) n))"

definition is_complete :: "PortSequence \<Rightarrow> PortSequence \<Rightarrow> bool NetworkResult" where
  "is_complete self other =
     (if ps_len self \<noteq> ps_len other then Ok False
      else same_ports (ps_ports self) (ps_ports other) 0 (unat (ps_len self)))"

definition knock_new :: "u64 \<Rightarrow> Knock" where
  "knock_new target =
     \<lparr>kn_sequence = \<lparr>ps_ports = replicate MAX_SEQ_LEN 0, ps_len = 0, ps_target = target\<rparr>, kn_complete = 0\<rparr>"

section \<open>The program\<close>

record knock_state =
  sequence_map :: "u8 \<Rightarrow> PortSequence option"
  knocks :: "u32 \<Rightarrow> Knock option"
  knock_events :: "knock_event list"

text \<open>Fields of the kernel's headers that only this program reads.\<close>

record packet_fields =
  saddr :: "bytes \<Rightarrow> u32"
  tcp_bits :: "bytes \<Rightarrow> u16"

type_synonym 'a knock_step = "(knock_state, NetworkError, 'a) step"

definition from_be32 :: "u32 \<Rightarrow> u32" where
  "from_be32 x = word_of_le (rev (u32_to_le x))"

abbreviation (input) TCP_FLAG_SYN :: u16 where "TCP_FLAG_SYN \<equiv> 0x0200"

fun has_flag :: "headers \<Rightarrow> packet_fields \<Rightarrow> NetworkBuffer \<Rightarrow> Transport \<Rightarrow> u16 \<Rightarrow> bool NetworkResult" where
  "has_flag H F b (TCP hdr) fl = and_then (deref b hdr (tcphdr_size H)) (\<lambda>h. Ok (tcp_bits F h AND fl \<noteq> 0))"
| "has_flag H F b (UDP hdr) fl = Ok False"

definition get_sequence :: "PortSequence knock_step" where
  "get_sequence st = (ok_or (sequence_map st 0) Other, st)"

definition find_knock :: "(knock_state \<Rightarrow> u32 \<Rightarrow> bool) \<Rightarrow> u32 \<Rightarrow> u64 \<Rightarrow> Knock knock_step" where
  "find_knock accepts key target st =
     (case knocks st key of
        Some k \<Rightarrow> (Ok k, st)
      | None \<Rightarrow>
          let st' = (if accepts st key then st\<lparr>knocks := (knocks st)(key \<mapsto> knock_new target)\<rparr> else st)
          in (ok_or (knocks st' key) Other, st'))"

definition put_knock :: "u32 \<Rightarrow> Knock \<Rightarrow> unit knock_step" where
  "put_knock key k st = (Ok (), st\<lparr>knocks := (knocks st)(key \<mapsto> k)\<rparr>)"

definition notify :: "knock_event \<Rightarrow> unit knock_step" where
  "notify ev st = (Ok (), st\<lparr>knock_events := knock_events st @ [ev]\<rparr>)"

text \<open>The end of the program for a knock on another port than the target.\<close>

definition record_knock :: "u32 \<Rightarrow> PortSequence \<Rightarrow> Knock \<Rightarrow> u16 \<Rightarrow> XdpAction knock_step" where
  "record_knock key target_seq knock port =
     (let s = kn_sequence knock;
          len = (if ps_len target_seq \<le> ps_len s \<or> of_nat MAX_SEQ_LEN \<le> ps_len s then 0 else ps_len s)
      in and_do (give (and_then (index (ps_ports s) (unat len)) (\<lambda>_. Ok ((ps_ports s)[unat len := port])))) (\<lambda>ps.
         let s' = s\<lparr>ps_ports := ps, ps_len := len + 1\<rparr>
         in and_do (put_knock key (knock\<lparr>kn_sequence := s'\<rparr>)) (\<lambda>_.
            and_do (notify (KnockAttempt (from_be32 key) s')) (\<lambda>_.
            give (Ok Pass)))))"

definition knock_probe ::
    "headers \<Rightarrow> packet_fields \<Rightarrow> (knock_state \<Rightarrow> u32 \<Rightarrow> bool) \<Rightarrow> XdpContext \<Rightarrow> XdpAction knock_step" where
  "knock_probe H F accepts ctx =
     (let b = xdp_buffer ctx
      in and_do (give (transport H b)) (\<lambda>tcp.
         case tcp of
           UDP _ \<Rightarrow> give (Ok Pass)
         | TCP _ \<Rightarrow>
             and_do (give (and_then (ip H b) (\<lambda>p. deref b p (iphdr_size H)))) (\<lambda>iph.
             and_do get_sequence (\<lambda>target_seq.
             and_do (give (has_flag H F b tcp TCP_FLAG_SYN)) (\<lambda>syn.
             if \<not> syn then give (Ok Pass)
             else
               let key = saddr F iph
               in and_do (find_knock accepts key (ps_target target_seq)) (\<lambda>knock.
                  if kn_complete knock = 1 then give (Ok Pass)
                  else and_do (give (dest H b tcp)) (\<lambda>port.
                    if port = ucast (ps_target target_seq) then
                      and_do (give (is_complete target_seq (kn_sequence knock))) (\<lambda>full.
                      if \<not> full then
                        and_do (notify (Connection (from_be32 key) 0)) (\<lambda>_. give (Ok Drop))
                      else
                        and_do (put_knock key (knock\<lparr>kn_complete := 1\<rparr>)) (\<lambda>_.
                        and_do (notify (Connection (from_be32 key) 1)) (\<lambda>_. give (Ok Pass))))
                    else record_knock key target_seq knock port)))))))"

text \<open>The program under the wrapper of \<open>#[xdp]\<close>, on one packet after the other.\<close>

fun knock_run ::
    "headers \<Rightarrow> packet_fields \<Rightarrow> (knock_state \<Rightarrow> u32 \<Rightarrow> bool) \<Rightarrow> XdpContext list \<Rightarrow> knock_state \<Rightarrow> (unit, u32) outcome list" where
  "knock_run H F accepts [] st = []"
| "knock_run H F accepts (ctx # ctxs) st =
     (case knock_probe H F accepts ctx st of (r, st') \<Rightarrow> xdp_return r # knock_run H F accepts ctxs st')"

section \<open>User space\<close>

record Opts =
  opt_interface :: string
  opt_knock :: "u16 list"
  opt_port :: u16

text \<open>
  \<open>parse_opts\<close> behind \<open>getopts\<close>: what it matched for \<open>-i\<close>, \<open>-k\<close>, \<open>-p\<close> and \<open>-h\<close>, or nothing for an
  error. A number that does not parse is unwrapped.
\<close>

record opt_matches =
  om_help :: bool
  om_interface :: "string option"
  om_knock :: "string list"
  om_port :: "string option"

definition parse_port :: "string \<Rightarrow> (unit, u16) outcome" where
  "parse_port s = and_then (unwrap (parse_unsigned (2 ^ 16) s)) (\<lambda>n. Ok (of_nat n))"

definition parse_opts :: "opt_matches option \<Rightarrow> (unit, Opts option) outcome" where
  "parse_opts ms =
     (case ms of
        None \<Rightarrow> Ok None
      | Some m \<Rightarrow>
          if om_help m then Ok None
          else (case (om_interface m, om_port m) of
              (Some i, Some p) \<Rightarrow>
                if om_knock m = [] then Ok None
                else if MAX_SEQ_LEN < length (om_knock m) then Ok None
                else and_then (try_map parse_port (om_knock m)) (\<lambda>ks.
                     and_then (parse_port p) (\<lambda>port.
                     Ok (Some \<lparr>opt_interface = i, opt_knock = ks, opt_port = port\<rparr>)))
            | _ \<Rightarrow> Ok None))"

text \<open>The sequence that \<open>main\<close> stores in the map; the slice panics when it is too long.\<close>

definition knock_config :: "Opts \<Rightarrow> (unit, PortSequence) outcome" where
  "knock_config opts =
     and_then (copy_from_slice (replicate MAX_SEQ_LEN 0) 0 (opt_knock opts)) (\<lambda>ports.
     Ok \<lparr>ps_ports = ports, ps_len = of_nat (length (opt_knock opts)), ps_target = ucast (opt_port opts)\<rparr>)"

text \<open>The line that \<open>main\<close> prints for a knock, behind the address.\<close>

definition show_sequence :: "PortSequence \<Rightarrow> (unit, string list) outcome" where
  "show_sequence s =
     and_then (slice (ps_ports s) 0 (unat (ps_len s))) (\<lambda>ports.
     Ok (map (\<lambda>(i, port). (if i = unat (ps_len s) - 1 then ''*'' else []) @ show_nat (unat port))
          (zip [0..<length ports] ports)))"

section \<open>The specification\<close>

text \<open>
  The knocks of a peer count in blocks as long as the sequence; the guard opens when the
  block that has just been completed is the sequence.
\<close>

definition opened_by :: "u16 list \<Rightarrow> u16 list \<Rightarrow> bool" where
  "opened_by want ks \<longleftrightarrow> ks \<noteq> [] \<and> length want dvd length ks \<and> drop (length ks - length want) ks = want"

text \<open>Some attempt to connect was made while the guard was open.\<close>

definition admitted :: "u16 list \<Rightarrow> u16 \<Rightarrow> u16 list \<Rightarrow> bool" where
  "admitted want target ds \<longleftrightarrow>
     list_ex (\<lambda>i. ds ! i = target \<and> opened_by want (filter (\<lambda>d. d \<noteq> target) (take i ds))) [0..<length ds]"

definition verdict :: "u16 list \<Rightarrow> u16 \<Rightarrow> u16 list \<Rightarrow> u16 \<Rightarrow> XdpAction" where
  "verdict want target ds d = (if d = target \<and> \<not> admitted want target (ds @ [d]) then Drop else Pass)"

text \<open>The peer and the port of a packet that is a TCP SYN.\<close>

definition syn_of :: "headers \<Rightarrow> packet_fields \<Rightarrow> XdpContext \<Rightarrow> (u32 \<times> u16) option NetworkResult" where
  "syn_of H F ctx =
     (let b = xdp_buffer ctx
      in and_then (transport H b) (\<lambda>t.
         case t of
           UDP _ \<Rightarrow> Ok None
         | TCP _ \<Rightarrow>
             and_then (and_then (ip H b) (\<lambda>p. deref b p (iphdr_size H))) (\<lambda>iph.
             and_then (has_flag H F b t TCP_FLAG_SYN) (\<lambda>syn.
             and_then (dest H b t) (\<lambda>d. Ok (if syn then Some (saddr F iph, d) else None))))))"

definition syn :: "headers \<Rightarrow> packet_fields \<Rightarrow> XdpContext \<Rightarrow> (u32 \<times> u16) option" where
  "syn H F ctx = (case syn_of H F ctx of Ok s \<Rightarrow> s | _ \<Rightarrow> None)"

definition ports_from :: "u32 \<Rightarrow> (u32 \<times> u16) list \<Rightarrow> u16 list" where
  "ports_from a hist = map snd (filter (\<lambda>(a', _). a' = a) hist)"

fun verdicts :: "u16 list \<Rightarrow> u16 \<Rightarrow> (u32 \<times> u16) option list \<Rightarrow> (u32 \<times> u16) list \<Rightarrow> XdpAction list" where
  "verdicts want target [] hist = []"
| "verdicts want target (None # ss) hist = Pass # verdicts want target ss hist"
| "verdicts want target (Some (a, d) # ss) hist =
     verdict want target (ports_from a hist) d # verdicts want target ss (hist @ [(a, d)])"

section \<open>Blocks of knocks\<close>

definition current :: "u16 list \<Rightarrow> u16 list \<Rightarrow> u16 list" where
  "current want ks = (if ks = [] then [] else drop (length want * ((length ks - 1) div length want)) ks)"

lemma block_bounds:
  fixes n l :: nat
  assumes "0 < l" "0 < n"
  shows "l * ((n - 1) div l) < n" "n \<le> l * ((n - 1) div l) + l"
proof -
  have "l * ((n - 1) div l) \<le> n - 1" "n - 1 < l * ((n - 1) div l) + l"
    using assms(1) mod_less_divisor [of l "n - 1"] mult_div_mod_eq [of l "n - 1"] by linarith+
  then show "l * ((n - 1) div l) < n" "n \<le> l * ((n - 1) div l) + l" using assms(2) by linarith+
qed

lemma block_start:
  fixes n l :: nat
  assumes "0 < l" "0 < n"
  shows "l * (n div l) = (if n = l * ((n - 1) div l) + l then n else l * ((n - 1) div l))"
proof (cases "n = l * ((n - 1) div l) + l")
  case True
  then have "l dvd n" by (metis dvd_add_triv_right_iff dvd_triv_left)
  then show ?thesis using True by simp
next
  case False
  then have "n div l = (n - 1) div l"
    using block_bounds [OF assms] by (intro div_nat_eqI) (simp_all add: mult.commute)
  then show ?thesis using False by simp
qed

lemma current_length:
  assumes "want \<noteq> []" "ks \<noteq> []"
  shows "length (current want ks) = length ks - length want * ((length ks - 1) div length want)"
    "length (current want ks) = length want \<longleftrightarrow> length want dvd length ks"
    "length (current want ks) \<le> length want"
proof -
  have l: "0 < length want" "0 < length ks" using assms by auto
  note bb = block_bounds [OF l]
  show len: "length (current want ks) = length ks - length want * ((length ks - 1) div length want)"
    using assms by (simp add: current_def)
  show "length (current want ks) \<le> length want" unfolding len using bb by linarith
  have "length want dvd length ks \<longleftrightarrow> length want * (length ks div length want) = length ks"
    by (metis dvd_mult_div_cancel dvd_triv_left)
  also have "\<dots> \<longleftrightarrow> length ks = length want * ((length ks - 1) div length want) + length want"
    unfolding block_start [OF l] using bb by auto
  finally show "length (current want ks) = length want \<longleftrightarrow> length want dvd length ks"
    unfolding len using bb by auto
qed

lemma length_current: "want \<noteq> [] \<Longrightarrow> length (current want ks) \<le> length want"
  by (cases "ks = []") (simp_all add: current_length(3), simp add: current_def)

lemma current_snoc:
  assumes "want \<noteq> []"
  shows "current want (ks @ [d]) = (if length want \<le> length (current want ks) then [] else current want ks) @ [d]"
proof (cases "ks = []")
  case False
  have l: "0 < length want" "0 < length ks" using assms False by auto
  note bb = block_bounds [OF l]
  have "current want (ks @ [d]) = drop (length want * (length ks div length want)) ks @ [d]"
    using times_div_less_eq_dividend [of "length want" "length ks"] by (simp add: current_def)
  also have "drop (length want * (length ks div length want)) ks =
      (if length want \<le> length (current want ks) then [] else current want ks)"
    unfolding block_start [OF l] current_length(1) [OF assms False] using bb False by (auto simp: current_def)
  finally show ?thesis .
qed (use assms in \<open>simp add: current_def\<close>)

lemma opened_by_current:
  assumes "want \<noteq> []"
  shows "opened_by want ks \<longleftrightarrow> current want ks = want"
proof (cases "ks = []")
  case False
  note len = current_length [OF assms False]
  show ?thesis
  proof (cases "length want dvd length ks")
    case True
    then have "length ks - length want * ((length ks - 1) div length want) = length want" using len(1,2) by simp
    moreover have "length want * ((length ks - 1) div length want) < length ks"
      using assms False by (intro block_bounds(1)) auto
    ultimately have "length ks - length want = length want * ((length ks - 1) div length want)" by linarith
    then show ?thesis using False True by (simp add: opened_by_def current_def)
  next
    case not_dvd: False
    then show ?thesis using len(2) by (auto simp: opened_by_def)
  qed
qed (use assms in \<open>simp add: opened_by_def current_def\<close>)

lemma admitted_snoc:
  "admitted want target (ds @ [d]) \<longleftrightarrow>
     admitted want target ds \<or> d = target \<and> opened_by want (filter (\<lambda>d. d \<noteq> target) ds)"
  by (auto simp: admitted_def list_ex_iff nth_append less_Suc_eq)

lemma admitted_Nil [simp]: "\<not> admitted want target []"
  by (simp add: admitted_def)

lemma same_ports_take:
  assumes "i + n \<le> length xs" "i + n \<le> length ys"
  shows "same_ports xs ys i n = Ok (take n (drop i xs) = take n (drop i ys))"
  using assms
proof (induction n arbitrary: i)
  case (Suc n)
  then have "i < length xs" "i < length ys" by simp_all
  then have "drop i xs = xs ! i # drop (i + 1) xs" "drop i ys = ys ! i # drop (i + 1) ys"
    by (simp_all add: Cons_nth_drop_Suc)
  then show ?case using Suc \<open>i < length xs\<close> \<open>i < length ys\<close> by (simp add: index_def)
qed simp

section \<open>The state of a peer\<close>

text \<open>The configured sequence, and what the entry of a peer stands for after the ports \<open>ds\<close>.\<close>

definition configured :: "u16 list \<Rightarrow> u16 \<Rightarrow> PortSequence \<Rightarrow> bool" where
  "configured want target s \<longleftrightarrow>
     want \<noteq> [] \<and> length want \<le> MAX_SEQ_LEN \<and> length (ps_ports s) = MAX_SEQ_LEN \<and>
     unat (ps_len s) = length want \<and> take (length want) (ps_ports s) = want \<and> ucast (ps_target s) = target"

definition peer_state :: "u16 list \<Rightarrow> u16 \<Rightarrow> u16 list \<Rightarrow> Knock \<Rightarrow> bool" where
  "peer_state want target ds k \<longleftrightarrow>
     length (ps_ports (kn_sequence k)) = MAX_SEQ_LEN \<and>
     (kn_complete k = 1 \<longleftrightarrow> admitted want target ds) \<and>
     (\<not> admitted want target ds \<longrightarrow>
        (let cur = current want (filter (\<lambda>d. d \<noteq> target) ds)
         in unat (ps_len (kn_sequence k)) = length cur \<and> take (length cur) (ps_ports (kn_sequence k)) = cur))"

lemma peer_state_new: "peer_state want target [] (knock_new t)"
  by (simp add: peer_state_def knock_new_def current_def)

lemma is_complete_iff:
  assumes "configured want target s" "peer_state want target ds k" "\<not> admitted want target ds"
  shows "is_complete s (kn_sequence k) = Ok (opened_by want (filter (\<lambda>d. d \<noteq> target) ds))"
proof -
  let ?cur = "current want (filter (\<lambda>d. d \<noteq> target) ds)"
  have w: "want \<noteq> []" "length want \<le> 4" "length (ps_ports s) = 4" "unat (ps_len s) = length want"
    "take (length want) (ps_ports s) = want"
    using assms(1) by (simp_all add: configured_def)
  have k: "length (ps_ports (kn_sequence k)) = 4" "unat (ps_len (kn_sequence k)) = length ?cur"
    "take (length ?cur) (ps_ports (kn_sequence k)) = ?cur"
    using assms(2,3) by (simp_all add: peer_state_def Let_def)
  show ?thesis
  proof (cases "ps_len s = ps_len (kn_sequence k)")
    case True
    then have "length ?cur = length want" using w(4) k(2) by simp
    then show ?thesis
      using True w k same_ports_take [of 0 "length want" "ps_ports s" "ps_ports (kn_sequence k)"]
      by (auto simp: is_complete_def opened_by_current)
  next
    case False
    then have "?cur \<noteq> want" using w(4) k(2) by (metis word_unat_eq_iff)
    then show ?thesis using False w(1) by (simp add: is_complete_def opened_by_current)
  qed
qed

lemma peer_state_complete:
  assumes "peer_state want target ds k" "\<not> admitted want target ds" "opened_by want (filter (\<lambda>d. d \<noteq> target) ds)"
  shows "peer_state want target (ds @ [target]) (k\<lparr>kn_complete := 1\<rparr>)"
  using assms by (simp add: peer_state_def admitted_snoc)

lemma peer_state_same:
  assumes "peer_state want target ds k" "admitted want target ds \<or> d = target \<and> \<not> opened_by want (filter (\<lambda>d. d \<noteq> target) ds)"
  shows "peer_state want target (ds @ [d]) k"
  using assms by (auto simp: peer_state_def admitted_snoc)

lemma record_knock_step:
  assumes c: "configured want target s" and k: "peer_state want target ds k" and n: "\<not> admitted want target ds"
    and d: "d \<noteq> target"
  shows "\<exists>k' ev. record_knock key s k d st =
      (Ok Pass, st\<lparr>knocks := (knocks st)(key \<mapsto> k'), knock_events := knock_events st @ [ev]\<rparr>) \<and>
    peer_state want target (ds @ [d]) k'"
proof -
  let ?ks = "filter (\<lambda>d. d \<noteq> target) ds"
  let ?cur = "current want ?ks" and ?seq = "kn_sequence k"
  define len where "len = (if ps_len s \<le> ps_len ?seq \<or> of_nat MAX_SEQ_LEN \<le> ps_len ?seq then 0 else ps_len ?seq)"
  define cur where "cur = (if length want \<le> length ?cur then [] else ?cur)"
  have w: "want \<noteq> []" "length want \<le> 4" "unat (ps_len s) = length want" using c by (simp_all add: configured_def)
  have p: "length (ps_ports ?seq) = 4" "unat (ps_len ?seq) = length ?cur" "take (length ?cur) (ps_ports ?seq) = ?cur"
    using k n by (simp_all add: peer_state_def Let_def)
  have "ps_len s \<le> ps_len ?seq \<or> of_nat 4 \<le> ps_len ?seq \<longleftrightarrow> length want \<le> length ?cur"
    using w(2,3) p(2) by (auto simp: word_le_nat_alt)
  then have len: "unat len = length cur" "take (length cur) (ps_ports ?seq) = cur" "length cur < 4" "length cur < length want"
    using p w length_current [OF w(1), of ?ks] by (auto simp: len_def cur_def)
  then have len1: "unat (len + 1) = Suc (length cur)" by (simp add: unat_word_ariths)
  let ?seq' = "?seq\<lparr>ps_ports := (ps_ports ?seq)[length cur := d], ps_len := len + 1\<rparr>"
  have "peer_state want target (ds @ [d]) (k\<lparr>kn_sequence := ?seq'\<rparr>)"
    using k n d p(1) len len1 w(1)
    by (auto simp: peer_state_def admitted_snoc current_snoc Let_def cur_def [symmetric] take_Suc_conv_app_nth)
  moreover have "record_knock key s k d st =
      (Ok Pass, st\<lparr>knocks := (knocks st)(key \<mapsto> k\<lparr>kn_sequence := ?seq'\<rparr>),
        knock_events := knock_events st @ [KnockAttempt (from_be32 key) ?seq']\<rparr>)"
    using len(1,3) p(1) unfolding record_knock_def Let_def len_def [symmetric]
    by (simp add: and_do_def give_def index_def put_knock_def notify_def)
  ultimately show ?thesis by blast
qed

section \<open>One packet\<close>

fun entry_state :: "u16 list \<Rightarrow> u16 \<Rightarrow> u16 list \<Rightarrow> Knock option \<Rightarrow> bool" where
  "entry_state want target ds None \<longleftrightarrow> ds = []"
| "entry_state want target ds (Some k) \<longleftrightarrow> peer_state want target ds k"

definition tracks :: "u16 list \<Rightarrow> u16 \<Rightarrow> u32 set \<Rightarrow> (u32 \<times> u16) list \<Rightarrow> knock_state \<Rightarrow> bool" where
  "tracks want target T hist st \<longleftrightarrow>
     (\<exists>s. sequence_map st 0 = Some s \<and> configured want target s) \<and> dom (knocks st) \<subseteq> T \<and>
     (\<forall>a. entry_state want target (ports_from a hist) (knocks st a))"

lemma ports_from_snoc: "ports_from a (hist @ [(b, d)]) = ports_from a hist @ (if a = b then [d] else [])"
  by (simp add: ports_from_def)

lemma tracks_update:
  assumes "tracks want target T hist st" "a \<in> T" "peer_state want target (ports_from a hist @ [d]) k"
  shows "tracks want target T (hist @ [(a, d)]) (st\<lparr>knocks := (knocks st)(a \<mapsto> k), knock_events := evs\<rparr>)"
  using assms by (auto simp: tracks_def ports_from_snoc)

text \<open>A packet that reaches the parser is parsed without undefined reads.\<close>

lemma parsed_cases:
  assumes "buffer_ok b" "headers_ok H"
  obtains (fails) e where "transport H b = Err e"
  | (udp) p where "transport H b = Ok (UDP p)"
  | (no_ip) p e where "transport H b = Ok (TCP p)" "and_then (ip H b) (\<lambda>p. deref b p (iphdr_size H)) = Err e"
  | (tcp) p iph fl d where "transport H b = Ok (TCP p)" "and_then (ip H b) (\<lambda>p. deref b p (iphdr_size H)) = Ok iph"
      "has_flag H F b (TCP p) TCP_FLAG_SYN = Ok fl" "dest H b (TCP p) = Ok d"
proof -
  have t: "safe (transport H b) (transport_inside H b)" by (rule transport_safe [OF assms])
  have i: "safe (and_then (ip H b) (\<lambda>p. deref b p (iphdr_size H))) (\<lambda>_. True)"
    by (rule safe_and_then [OF ip_safe [OF assms]]) (simp add: deref_inside assms(1))
  show thesis
  proof (cases "transport H b")
    case (Ok x)
    with t have inside: "transport_inside H b x" by simp
    show thesis
    proof (cases x)
      case (TCP p)
      then have "has_flag H F b (TCP p) TCP_FLAG_SYN \<in> range Ok" "dest H b (TCP p) \<in> range Ok"
        using inside assms(1) by (auto simp: deref_inside)
      then show thesis
        using Ok TCP i no_ip tcp by (cases "and_then (ip H b) (\<lambda>p. deref b p (iphdr_size H))") auto
    qed (use Ok udp in auto)
  qed (use t fails in auto)
qed

text \<open>What the kernel promises about the map of knocks, which has 1024 entries.\<close>

definition takes_entries :: "(knock_state \<Rightarrow> u32 \<Rightarrow> bool) \<Rightarrow> bool" where
  "takes_entries accepts \<longleftrightarrow> (\<forall>st key. knocks st key = None \<longrightarrow> card (dom (knocks st)) < 1024 \<longrightarrow> accepts st key)"

lemma find_knock_step:
  assumes t: "tracks want target T hist st" and a: "a \<in> T" "finite T" "card T \<le> 1024"
    and acc: "takes_entries accepts"
  shows "\<exists>k. find_knock accepts a tg st = (Ok k, st\<lparr>knocks := (knocks st)(a \<mapsto> k)\<rparr>) \<and>
    peer_state want target (ports_from a hist) k \<and> tracks want target T hist (st\<lparr>knocks := (knocks st)(a \<mapsto> k)\<rparr>)"
proof (cases "knocks st a")
  case (Some k)
  then have u: "st\<lparr>knocks := (knocks st)(a \<mapsto> k)\<rparr> = st" by (simp add: fun_upd_idem)
  have "entry_state want target (ports_from a hist) (Some k)" using t Some by (metis tracks_def)
  then show ?thesis using Some t by (intro exI [of _ k]) (simp add: u find_knock_def)
next
  case None
  have "dom (knocks st) \<subset> T" using t a(1) None by (auto simp: tracks_def)
  then have "card (dom (knocks st)) < 1024" using psubset_card_mono [OF a(2)] a(3) by (metis order_less_le_trans)
  then have "accepts st a" using acc None by (simp add: takes_entries_def)
  then have f: "find_knock accepts a tg st = (Ok (knock_new tg), st\<lparr>knocks := (knocks st)(a \<mapsto> knock_new tg)\<rparr>)"
    using None by (simp add: find_knock_def)
  have "entry_state want target (ports_from a hist) None" using t None by (metis tracks_def)
  then have h: "ports_from a hist = []" by simp
  then have "tracks want target T hist (st\<lparr>knocks := (knocks st)(a \<mapsto> knock_new tg)\<rparr>)"
    using t a(1) by (simp add: tracks_def peer_state_new)
  with f h show ?thesis by (simp add: peer_state_new)
qed

lemma probe_no_syn:
  assumes "buffer_ok (xdp_buffer ctx)" "headers_ok H" "syn H F ctx = None" "sequence_map st 0 = Some s"
  shows "\<exists>r. knock_probe H F accepts ctx st = (r, st) \<and> xdp_return r = Ok (xdp_action Pass)"
proof (cases rule: parsed_cases [where F = F, OF assms(1,2), case_names fails udp no_ip tcp])
  case (tcp p iph fl d)
  then have "\<not> fl" using assms(3) by (auto simp: syn_def syn_of_def Let_def split: if_splits)
  then show ?thesis
    using tcp assms(4) by (simp add: knock_probe_def Let_def and_do_def get_sequence_def give_def xdp_return_def)
qed (simp_all add: knock_probe_def Let_def give_def xdp_return_def)

lemma probe_syn:
  assumes b: "buffer_ok (xdp_buffer ctx)" "headers_ok H" and y: "syn H F ctx = Some (a, d)"
    and t: "tracks want target T hist st" and a: "a \<in> T" "finite T" "card T \<le> 1024"
    and acc: "takes_entries accepts"
  shows "\<exists>st'. knock_probe H F accepts ctx st = (Ok (verdict want target (ports_from a hist) d), st') \<and>
    tracks want target T (hist @ [(a, d)]) st'"
proof (cases rule: parsed_cases [where F = F, OF b, case_names fails udp no_ip tcp])
  case (tcp p iph fl d')
  then have fl: "fl" "saddr F iph = a" "d' = d" using y by (auto simp: syn_def syn_of_def Let_def split: if_splits)
  obtain s where s: "sequence_map st 0 = Some s" "configured want target s" using t by (auto simp: tracks_def)
  obtain k where f: "find_knock accepts a (ps_target s) st = (Ok k, st\<lparr>knocks := (knocks st)(a \<mapsto> k)\<rparr>)"
    and k: "peer_state want target (ports_from a hist) k"
    and t1: "tracks want target T hist (st\<lparr>knocks := (knocks st)(a \<mapsto> k)\<rparr>)"
    using find_knock_step [OF t a acc] by blast
  define st1 where "st1 = st\<lparr>knocks := (knocks st)(a \<mapsto> k)\<rparr>"
  let ?ds = "ports_from a hist"
  have probe: "knock_probe H F accepts ctx st =
      (if kn_complete k = 1 then give (Ok Pass)
       else if d = target then
         and_do (give (is_complete s (kn_sequence k))) (\<lambda>full.
         if \<not> full then and_do (notify (Connection (from_be32 a) 0)) (\<lambda>_. give (Ok Drop))
         else and_do (put_knock a (k\<lparr>kn_complete := 1\<rparr>)) (\<lambda>_.
              and_do (notify (Connection (from_be32 a) 1)) (\<lambda>_. give (Ok Pass))))
       else record_knock a s k d) st1"
  proof -
    have "get_sequence st = (Ok s, st)" using s(1) by (simp add: get_sequence_def)
    note steps = and_do_Ok [of get_sequence, OF this] and_do_Ok [of "find_knock accepts a (ps_target s)", OF f]
    show ?thesis using tcp fl s(2) by (simp add: knock_probe_def Let_def st1_def configured_def steps cong: if_cong)
  qed
  have same: "tracks want target T (hist @ [(a, d)]) (st1\<lparr>knock_events := evs\<rparr>)"
    if "peer_state want target (?ds @ [d]) k" for evs
    using tracks_update [OF t a(1) that] by (simp add: st1_def)
  consider (admitted) "admitted want target ?ds" | (connects) "\<not> admitted want target ?ds" "d = target"
    | (knocks) "\<not> admitted want target ?ds" "d \<noteq> target" by blast
  then show ?thesis
  proof cases
    case admitted
    then have "kn_complete k = 1" using k by (simp add: peer_state_def)
    moreover have "verdict want target ?ds d = Pass" using admitted by (simp add: verdict_def admitted_snoc)
    ultimately show ?thesis
      using same [of "knock_events st1"] peer_state_same [OF k] admitted by (simp add: probe give_def)
  next
    case connects
    then have c: "kn_complete k \<noteq> 1" using k by (simp add: peer_state_def)
    show ?thesis
    proof (cases "opened_by want (filter (\<lambda>d. d \<noteq> target) ?ds)")
      case True
      have "peer_state want target (?ds @ [d]) (k\<lparr>kn_complete := 1\<rparr>)"
        using peer_state_complete [OF k connects(1) True] connects(2) by simp
      then show ?thesis
        using tracks_update [OF t1 a(1)] True connects c is_complete_iff [OF s(2) k connects(1)]
        by (auto simp: probe and_do_def give_def put_knock_def notify_def st1_def verdict_def admitted_snoc)
    next
      case False
      then show ?thesis
        using same [OF peer_state_same [OF k]] connects c is_complete_iff [OF s(2) k connects(1)]
        by (simp add: probe and_do_def give_def notify_def verdict_def admitted_snoc)
    qed
  next
    case knocks
    then have c: "kn_complete k \<noteq> 1" using k by (simp add: peer_state_def)
    obtain k' ev where "record_knock a s k d st1 =
        (Ok Pass, st1\<lparr>knocks := (knocks st1)(a \<mapsto> k'), knock_events := knock_events st1 @ [ev]\<rparr>)"
      "peer_state want target (?ds @ [d]) k'"
      using record_knock_step [OF s(2) k knocks] by blast
    then show ?thesis
      using tracks_update [OF t1 a(1)] knocks c by (auto simp: probe st1_def verdict_def)
  qed
qed (use y in \<open>auto simp: syn_def syn_of_def Let_def\<close>)

section \<open>Runs\<close>

lemma knock_run_verdicts:
  assumes "headers_ok H" "\<forall>ctx \<in> set ctxs. buffer_ok (xdp_buffer ctx)" "tracks want target T hist st" "finite T" "card T \<le> 1024"
    "takes_entries accepts" "\<forall>ctx \<in> set ctxs. \<forall>a d. syn H F ctx = Some (a, d) \<longrightarrow> a \<in> T"
  shows "knock_run H F accepts ctxs st = map (\<lambda>act. Ok (xdp_action act)) (verdicts want target (map (syn H F) ctxs) hist)"
  using assms(2,3,7)
proof (induction ctxs arbitrary: hist st)
  case (Cons ctx ctxs)
  then have b: "buffer_ok (xdp_buffer ctx)" by simp
  show ?case
  proof (cases "syn H F ctx")
    case None
    obtain s where "sequence_map st 0 = Some s" using Cons.prems(2) by (auto simp: tracks_def)
    then obtain r where "knock_probe H F accepts ctx st = (r, st)" "xdp_return r = Ok (xdp_action Pass)"
      using probe_no_syn [OF b assms(1) None] by blast
    then show ?thesis using Cons None by simp
  next
    case (Some ad)
    obtain a d where ad: "ad = (a, d)" by (cases ad)
    then have "a \<in> T" using Cons.prems(3) Some by simp
    then obtain st' where "knock_probe H F accepts ctx st = (Ok (verdict want target (ports_from a hist) d), st')"
      "tracks want target T (hist @ [(a, d)]) st'"
      using probe_syn [OF b assms(1) _ Cons.prems(2) _ assms(4,5,6)] Some ad by blast
    then show ?thesis using Cons Some ad by (simp add: xdp_return_def)
  qed
qed simp

definition peers :: "headers \<Rightarrow> packet_fields \<Rightarrow> XdpContext list \<Rightarrow> u32 set" where
  "peers H F ctxs = {a. \<exists>ctx \<in> set ctxs. \<exists>d. syn H F ctx = Some (a, d)}"

lemma configured_config:
  assumes "parse_opts ms = Ok (Some opts)" "knock_config opts = Ok s"
  shows "configured (opt_knock opts) (opt_port opts) s"
proof -
  have k: "opt_knock opts \<noteq> []" "length (opt_knock opts) \<le> 4"
    using assms(1) by (auto simp: parse_opts_def outcome_simps dest!: try_map_Ok_length split: option.splits if_splits)
  then show ?thesis
    using assms(2) by (auto simp: configured_def knock_config_def outcome_simps overwrite_def unat_of_nat ucast_up_ucast_id is_up)
qed

text \<open>
  C19: the port behind the guard. When the tool was started with a sequence of ports and a
  target, then in every run of packets, however the packets of the peers interleave, a TCP SYN
  to the target is dropped exactly if its peer has not been admitted: it never tried to
  connect right after completing a block of knocks that is the sequence. Every other packet
  passes, and no packet makes the program panic or read outside of it. At most as many peers
  as the map of knocks has entries are seen.
\<close>

theorem knock_guards_port:
  assumes "parse_opts ms = Ok (Some opts)" and "knock_config opts = Ok s"
    and "sequence_map st 0 = Some s" and "knocks st = Map.empty" and "takes_entries accepts"
    and "headers_ok H" and "\<forall>ctx \<in> set ctxs. buffer_ok (xdp_buffer ctx)" and "card (peers H F ctxs) \<le> 1024"
  shows "knock_run H F accepts ctxs st =
    map (\<lambda>act. Ok (xdp_action act)) (verdicts (opt_knock opts) (opt_port opts) (map (syn H F) ctxs) [])"
proof (rule knock_run_verdicts [OF assms(6,7) _ _ assms(8,5)])
  show "tracks (opt_knock opts) (opt_port opts) (peers H F ctxs) [] st"
    using configured_config [OF assms(1,2)] assms(3,4) by (simp add: tracks_def ports_from_def)
qed (auto simp: peers_def)

text \<open>
  The guard fails open: when the map of knocks takes no more entries, a new peer's SYN to the
  target ends in an error, for which the wrapper lets the packet pass.
\<close>

lemma full_map_passes:
  assumes "buffer_ok (xdp_buffer ctx)" "headers_ok H" "syn H F ctx = Some (a, d)" "sequence_map st 0 = Some s"
    "knocks st a = None" "\<not> accepts st a"
  shows "xdp_return (fst (knock_probe H F accepts ctx st)) = Ok (xdp_action Pass)"
proof (cases rule: parsed_cases [where F = F, OF assms(1,2), case_names fails udp no_ip tcp])
  case (tcp p iph fl d')
  then have "fl" "saddr F iph = a" using assms(3) by (auto simp: syn_def syn_of_def Let_def split: if_splits)
  then show ?thesis
    using tcp assms(4-6) by (simp add: knock_probe_def Let_def and_do_def get_sequence_def find_knock_def give_def xdp_return_def)
qed (simp_all add: knock_probe_def Let_def give_def xdp_return_def)

section \<open>A run\<close>

text \<open>The layout of the IPv4 and TCP headers, and SYN packets of a peer.\<close>

definition sample_fields :: packet_fields where
  "sample_fields = \<lparr>saddr = \<lambda>h. le32_at h 12, tcp_bits = \<lambda>h. be16_at h 12\<rparr>"

definition sample_syn :: "u8 \<Rightarrow> u8 \<Rightarrow> XdpContext" where
  "sample_syn peer port =
     \<lparr>xdp_data = 0x1000, xdp_data_end = 0x1036,
      packet = sample_eth @ [0x45, 0, 0, 40, 0, 0, 0, 0, 64, 6, 0, 0, 10, 0, 0, peer, 10, 0, 0, 2] @
        [0x30, 0x39, 0, port, 0, 0, 0, 0, 0, 0, 0, 0, 0x50, 0x02, 0, 0, 0, 0, 0, 0]\<rparr>"

definition sample_opts :: "opt_matches option" where
  "sample_opts = Some \<lparr>om_help = False, om_interface = Some ''eth0'', om_knock = [''7'', ''8''], om_port = Some ''22''\<rparr>"

lemma sample_syn_ok: "buffer_ok (xdp_buffer (sample_syn x p))"
  by (simp add: buffer_ok_def xdp_buffer_def sample_syn_def sample_eth_def)

lemma sample_syn_syn: "syn sample_headers sample_fields (sample_syn x p) = Some (le32_at [10, 0, 0, x] 0, ucast p)"
proof -
  let ?b = "xdp_buffer (sample_syn x p)"
  have "transport sample_headers ?b = Ok (TCP 0x1022)"
    by (simp add: transport_def ip_def eth_def ptr_after_def ptr_at_def check_bounds_def deref_def xdp_buffer_def sample_syn_def
      sample_eth_def sample_headers_def be16_at_def from_be16_def nth_append)
  moreover have "and_then (ip sample_headers ?b) (\<lambda>q. deref ?b q (iphdr_size sample_headers)) =
      Ok [0x45, 0, 0, 40, 0, 0, 0, 0, 64, 6, 0, 0, 10, 0, 0, x, 10, 0, 0, 2]"
    by (simp add: ip_def eth_def ptr_after_def ptr_at_def check_bounds_def deref_def xdp_buffer_def sample_syn_def
      sample_eth_def sample_headers_def be16_at_def from_be16_def nth_append)
  moreover have "deref ?b 0x1022 (tcphdr_size sample_headers) =
      Ok [0x30, 0x39, 0, p, 0, 0, 0, 0, 0, 0, 0, 0, 0x50, 0x02, 0, 0, 0, 0, 0, 0]"
    by (simp add: deref_def xdp_buffer_def sample_syn_def sample_eth_def sample_headers_def)
  moreover have "from_be16 (push_bit 8 (ucast p)) = ucast p"
    unfolding from_be16_def by (rule bit_word_eqI) (auto simp: bit_simps dest: bit_imp_le_length)
  ultimately show ?thesis
    by (simp add: syn_def syn_of_def Let_def sample_fields_def sample_headers_def be16_at_def le32_at_def)
qed

text \<open>One peer is refused, knocks on both ports and is let in; another one is refused throughout.\<close>

theorem knock_guards_port_witness:
  "\<exists>opts s. parse_opts sample_opts = Ok (Some opts) \<and> knock_config opts = Ok s \<and>
     knock_run sample_headers sample_fields (\<lambda>_ _. True)
       [sample_syn 1 22, sample_syn 1 7, sample_syn 2 22, sample_syn 1 8, sample_syn 1 22, sample_syn 2 22]
       \<lparr>sequence_map = [0 \<mapsto> s], knocks = Map.empty, knock_events = []\<rparr> =
     map (\<lambda>act. Ok (xdp_action act)) [Drop, Pass, Drop, Pass, Pass, Drop]"
proof -
  let ?opts = "\<lparr>opt_interface = ''eth0'', opt_knock = [7, 8], opt_port = 22\<rparr>"
  let ?s = "\<lparr>ps_ports = [7, 8, 0, 0], ps_len = 2, ps_target = 22\<rparr>"
  let ?ctxs = "[sample_syn 1 22, sample_syn 1 7, sample_syn 2 22, sample_syn 1 8, sample_syn 1 22, sample_syn 2 22]"
  let ?st = "\<lparr>sequence_map = [0 \<mapsto> ?s], knocks = Map.empty, knock_events = []\<rparr>"
  have opts: "parse_opts sample_opts = Ok (Some ?opts)"
    by (simp add: parse_opts_def sample_opts_def parse_port_def parse_unsigned_def parse_digits_def char_digit_def)
  have "replicate 2 (0 :: u16) = [0, 0]" by (simp add: numeral_2_eq_2)
  then have cfg: "knock_config ?opts = Ok ?s" by (simp add: knock_config_def copy_from_slice_def overwrite_def)
  have ne: "le32_at [10, 0, 0, 1] 0 \<noteq> le32_at [10, 0, 0, 2] 0" by (simp add: le32_at_def)
  have "peers sample_headers sample_fields ?ctxs \<subseteq> {le32_at [10, 0, 0, 1] 0, le32_at [10, 0, 0, 2] 0}"
    by (auto simp: peers_def sample_syn_syn)
  from card_mono [OF _ this] ne have "card (peers sample_headers sample_fields ?ctxs) \<le> 1024" by simp
  then have "knock_run sample_headers sample_fields (\<lambda>_ _. True) ?ctxs ?st =
      map (\<lambda>act. Ok (xdp_action act)) (verdicts [7, 8] 22 (map (syn sample_headers sample_fields) ?ctxs) [])"
    using knock_guards_port [OF opts cfg, of ?st "\<lambda>_ _. True" sample_headers ?ctxs sample_fields] sample_packet(2)
    by (simp add: sample_syn_ok takes_entries_def)
  with opts cfg ne show ?thesis
    by (auto simp: sample_syn_syn verdict_def ports_from_def admitted_def opened_by_def upt_rec)
qed

end
