(* ===== verification/Kernel_Headers.thy ===== *)
theory Kernel_Headers
  imports Probe_Pairs
begin

text \<open>
  The search for the headers of the kernel, \<open>bpf-sys/src/headers.rs\<close>. The file system is
  the predicate \<open>is_file\<close>, the environment a partial function, \<open>make\<close> and \<open>glob\<close> are what they
  print and list. Paths are strings without \<open>.\<close> components. The lemmas show which
  directory is chosen among all candidates and when the version is read correctly.
\<close>

section \<open>Paths\<close>

text \<open>\<open>Path::join\<close> and \<open>Path::parent\<close>\<close>

definition path_join :: "string \<Rightarrow> string \<Rightarrow> string" where
  "path_join p q =
     (if starts_with q ''/'' then q
      else if p = [] then q
      else if last p = CHR ''/'' then p @ q
      else p @ ''/'' @ q)"

definition str_parent :: "string \<Rightarrow> string option" where
  "str_parent p =
     (let q = dropWhile (\<lambda>c. c = CHR ''/'') (rev p);
          r = dropWhile (\<lambda>c. c \<noteq> CHR ''/'') q;
          r' = dropWhile (\<lambda>c. c = CHR ''/'') r
      in if q = [] then None else if r = [] then Some [] else if r' = [] then Some ''/'' else Some (rev r'))"

abbreviation (input) KCONFIG :: string where "KCONFIG \<equiv> ''include/linux/kconfig.h''"
abbreviation (input) VERSION_H :: string where "VERSION_H \<equiv> ''include/generated/uapi/linux/version.h''"
abbreviation (input) LIB_MODULES :: string where "LIB_MODULES \<equiv> ''/lib/modules''"

section \<open>The search\<close>

record KernelHeaders =
  kh_source :: string
  kh_build :: string

datatype headers_error = HeadersNotFound | HeadersIo io_error | HeadersUtf8 | HeadersParseInt

text \<open>The world that the functions look at.\<close>

record headers_env =
  is_file :: "string \<Rightarrow> bool"
  env_var :: "string \<Rightarrow> string option"
  he_uname :: "int \<times> utsname"

definition get_custom_header_path :: "headers_env \<Rightarrow> string option" where
  "get_custom_header_path E = env_var E ''KERNEL_SOURCE''"

definition get_custom_header_version :: "headers_env \<Rightarrow> string option" where
  "get_custom_header_version E = env_var E ''KERNEL_VERSION''"

definition set_custom_header_path :: "string \<Rightarrow> headers_env \<Rightarrow> headers_env" where
  "set_custom_header_path p E = E\<lparr>env_var := (env_var E)(''KERNEL_SOURCE'' \<mapsto> p)\<rparr>"

definition running_kernel_version :: "headers_env \<Rightarrow> string option result" where
  "running_kernel_version E =
     (case get_custom_header_version E of
        Some v \<Rightarrow> Ok (Some v)
      | None \<Rightarrow>
          (case uname (he_uname E) of
             Ok u \<Rightarrow> and_then (c_chars_to_str (release u)) (\<lambda>s. Ok (Some s))
           | _ \<Rightarrow> Ok None))"

definition split_kernel_headers :: "headers_env \<Rightarrow> string \<Rightarrow> KernelHeaders option" where
  "split_kernel_headers E path =
     (let build = path_join path ''build''; source = path_join path ''source'';
          chosen = (if is_file E (path_join source KCONFIG) then Some source
                    else if is_file E (path_join build KCONFIG) then Some build else None)
      in case chosen of
           None \<Rightarrow> None
         | Some s \<Rightarrow>
             Some \<lparr>kh_source = s, kh_build = (if is_file E (path_join build VERSION_H) then build else s)\<rparr>)"

definition lib_modules_kernel_headers :: "headers_env \<Rightarrow> KernelHeaders option result" where
  "lib_modules_kernel_headers E =
     and_then (running_kernel_version E) (\<lambda>v.
       case v of
         Some ver \<Rightarrow> Ok (split_kernel_headers E (path_join LIB_MODULES ver))
       | None \<Rightarrow> Ok None)"

definition custom_kernel_headers :: "headers_env \<Rightarrow> string \<Rightarrow> KernelHeaders option" where
  "custom_kernel_headers E s =
     (if is_file E (path_join s KCONFIG) then Some \<lparr>kh_source = s, kh_build = s\<rparr> else None)"

text \<open>An undefined string from \<open>uname\<close> is the only way not to return a \<open>Result\<close>.\<close>

definition kernel_headers_path :: "headers_env \<Rightarrow> (headers_error, KernelHeaders) outcome" where
  "kernel_headers_path E =
     (let source_path = get_custom_header_path E
      in case Option.bind source_path (split_kernel_headers E) of
           Some h \<Rightarrow> Ok h
         | None \<Rightarrow>
             (case Option.bind source_path (custom_kernel_headers E) of
                Some h \<Rightarrow> Ok h
              | None \<Rightarrow>
                  (case lib_modules_kernel_headers E of
                     Ok (Some h) \<Rightarrow> Ok h
                   | Ok None \<Rightarrow> Err HeadersNotFound
                   | Err _ \<Rightarrow> Err HeadersNotFound
                   | Panic \<Rightarrow> Panic
                   | Undefined \<Rightarrow> Undefined)))"

definition ends_with :: "string \<Rightarrow> string \<Rightarrow> bool" where
  "ends_with s p = starts_with (rev s) (rev p)"

definition prefix_header :: "KernelHeaders \<Rightarrow> string \<Rightarrow> (headers_error, string list) outcome" where
  "prefix_header h header =
     (if contains header ''generated'' then
        let path = path_join (kh_build h) header
        in if ends_with header ''generated''
           then and_then (unwrap (str_parent path)) (\<lambda>par. Ok [path, par]) else Ok [path]
      else Ok [path_join (kh_source h) header])"

definition prefix_kernel_headers :: "headers_env \<Rightarrow> string list \<Rightarrow> (headers_error, string list option) outcome" where
  "prefix_kernel_headers E headers =
     (case kernel_headers_path E of
        Ok h \<Rightarrow> and_then (try_map (prefix_header h) headers) (\<lambda>ps. Ok (Some (concat ps)))
      | Err _ \<Rightarrow> Ok None
      | Panic \<Rightarrow> Panic
      | Undefined \<Rightarrow> Undefined)"

definition available_kernel_header_paths :: "headers_env \<Rightarrow> (headers_error, string) outcome list \<Rightarrow> string list" where
  "available_kernel_header_paths E globbed =
     List.map_filter (\<lambda>r. case r of
        Ok path \<Rightarrow> map_option (\<lambda>_. path) (split_kernel_headers E path)
      | _ \<Rightarrow> None) globbed"

section \<open>The version of the headers\<close>

text \<open>The first two parts of a line between \<open>=\<close> signs, the first one trimmed.\<close>

definition line_var :: "string \<Rightarrow> string \<times> string option" where
  "line_var line =
     (case split_str '' = '' line of
        [] \<Rightarrow> ([], None)
      | [k] \<Rightarrow> (trim k, None)
      | k # v # _ \<Rightarrow> (trim k, Some v))"

text \<open>\<open>var.next().map(u8::from_str).transpose()?\<close>\<close>

definition parse_u8_opt :: "string option \<Rightarrow> (headers_error, nat option) outcome" where
  "parse_u8_opt v =
     (case v of
        None \<Rightarrow> Ok None
      | Some s \<Rightarrow> (case parse_unsigned 256 s of Some n \<Rightarrow> Ok (Some n) | None \<Rightarrow> Err HeadersParseInt))"

fun version_loop :: "string list \<Rightarrow> nat option \<times> nat option \<times> nat option \<Rightarrow>
    (headers_error, nat option \<times> nat option \<times> nat option) outcome" where
  "version_loop [] vps = Ok vps"
| "version_loop (line # lines) (v, p, s) =
     (case line_var line of (key, val) \<Rightarrow>
        if key = ''VERSION'' then and_then (parse_u8_opt val) (\<lambda>v'.
          if v' \<noteq> None \<and> p \<noteq> None \<and> s \<noteq> None then Ok (v', p, s) else version_loop lines (v', p, s))
        else if key = ''PATCHLEVEL'' then and_then (parse_u8_opt val) (\<lambda>p'.
          if v \<noteq> None \<and> p' \<noteq> None \<and> s \<noteq> None then Ok (v, p', s) else version_loop lines (v, p', s))
        else if key = ''SUBLEVEL'' then and_then (parse_u8_opt val) (\<lambda>s'.
          if v \<noteq> None \<and> p \<noteq> None \<and> s' \<noteq> None then Ok (v, p, s') else version_loop lines (v, p, s'))
        else version_loop lines (v, p, s))"

text \<open>\<open>make\<close> is run on the \<open>Makefile\<close> of the build directory; its output is a parameter.\<close>

definition build_kernel_version ::
    "headers_env \<Rightarrow> (string \<Rightarrow> (io_error, bytes) outcome) \<Rightarrow> (headers_error, nat \<times> nat \<times> nat) outcome" where
  "build_kernel_version E make_db =
     and_then (kernel_headers_path E) (\<lambda>h.
     case make_db (path_join (kh_build h) ''Makefile'') of
       Ok outp \<Rightarrow>
         and_then (ok_or (to_str outp) HeadersUtf8) (\<lambda>reader.
         and_then (version_loop (str_lines reader) (None, None, None)) (\<lambda>(v, p, s).
         and_then (unwrap v) (\<lambda>v. and_then (unwrap p) (\<lambda>p. and_then (unwrap s) (\<lambda>s. Ok (v, p, s))))))
     | Err e \<Rightarrow> Err (HeadersIo e)
     | Panic \<Rightarrow> Panic
     | Undefined \<Rightarrow> Undefined)"

section \<open>Which headers are found\<close>

text \<open>
  The reference: the directories in the order in which they are preferred, each with the
  directory that may hold the generated headers.
\<close>

definition split_candidates :: "string \<Rightarrow> (string \<times> string) list" where
  "split_candidates path =
     [(path_join path ''source'', path_join path ''build''), (path_join path ''build'', path_join path ''build'')]"

definition candidates :: "string option \<Rightarrow> string option \<Rightarrow> (string \<times> string) list" where
  "candidates custom ver =
     (case custom of Some p \<Rightarrow> split_candidates p @ [(p, p)] | None \<Rightarrow> []) @
     (case ver of Some v \<Rightarrow> split_candidates (path_join LIB_MODULES v) | None \<Rightarrow> [])"

definition best_candidate :: "headers_env \<Rightarrow> (string \<times> string) list \<Rightarrow> KernelHeaders option" where
  "best_candidate E cs =
     map_option (\<lambda>(s, b). \<lparr>kh_source = s, kh_build = (if is_file E (path_join b VERSION_H) then b else s)\<rparr>)
       (find (\<lambda>(s, b). is_file E (path_join s KCONFIG)) cs)"

lemma best_candidate_simps [simp]:
  "best_candidate E [] = None"
  "best_candidate E ((s, b) # cs) =
     (if is_file E (path_join s KCONFIG)
      then Some \<lparr>kh_source = s, kh_build = (if is_file E (path_join b VERSION_H) then b else s)\<rparr>
      else best_candidate E cs)"
  by (simp_all add: best_candidate_def)

lemma split_kernel_headers_best: "split_kernel_headers E path = best_candidate E (split_candidates path)"
  by (simp add: split_kernel_headers_def split_candidates_def Let_def)

lemma best_candidate_split:
  "best_candidate E (split_candidates path @ cs) =
     (case split_kernel_headers E path of Some h \<Rightarrow> Some h | None \<Rightarrow> best_candidate E cs)"
  by (simp add: split_kernel_headers_def split_candidates_def Let_def)

text \<open>
  The search is equivalent to taking the first of the candidate directories that holds
  \<open>kconfig.h\<close>: below the path set by the user, that path itself, then below
  \<open>/lib/modules\<close> for the version set by the user or running; the build directory beside it
  is used exactly when it holds the generated version header.
\<close>

theorem kernel_headers_path_first:
  assumes "running_kernel_version E = Ok ver"
  shows "kernel_headers_path E = ok_or (best_candidate E (candidates (get_custom_header_path E) ver)) HeadersNotFound"
  using assms
  by (cases "get_custom_header_path E"; cases ver)
    (auto simp: kernel_headers_path_def candidates_def lib_modules_kernel_headers_def custom_kernel_headers_def
      best_candidate_split simp flip: split_kernel_headers_best split: option.splits)

definition demo_env :: headers_env where
  "demo_env = \<lparr>is_file = (\<lambda>p. p = ''/usr/src/build/include/linux/kconfig.h'' \<or> p = ''/lib/modules/5.4.0/source/include/linux/kconfig.h''),
     env_var = [''KERNEL_VERSION'' \<mapsto> ''5.4.0''],
     he_uname = (0, \<lparr>nodename = [0], release = [0], domainname = [0]\<rparr>)\<rparr>"

theorem kernel_headers_path_first_witness:
  "kernel_headers_path demo_env = Ok \<lparr>kh_source = ''/lib/modules/5.4.0/source'', kh_build = ''/lib/modules/5.4.0/source''\<rparr>"
proof -
  have "running_kernel_version demo_env = Ok (Some ''5.4.0'')"
    by (simp add: running_kernel_version_def get_custom_header_version_def demo_env_def)
  from kernel_headers_path_first [OF this] show ?thesis
    by (simp add: demo_env_def get_custom_header_path_def candidates_def split_candidates_def path_join_def)
qed

text \<open>The \<open>unwrap\<close> of \<open>prefix_kernel_headers\<close> is safe: no path it is applied to is a root.\<close>

lemma ends_with_generated: "ends_with s ''generated'' \<Longrightarrow> s \<noteq> [] \<and> last s = CHR ''d''"
  by (cases s rule: rev_cases) (auto simp: ends_with_def)

lemma str_parent_some: "p \<noteq> [] \<Longrightarrow> last p \<noteq> CHR ''/'' \<Longrightarrow> \<exists>q. str_parent p = Some q"
  by (cases p rule: rev_cases) (auto simp: str_parent_def Let_def)

lemma prefix_header_ok: "\<exists>ps. prefix_header h header = Ok ps"
proof (cases "ends_with header ''generated''")
  case True
  then have "path_join (kh_build h) header \<noteq> []" "last (path_join (kh_build h) header) = CHR ''d''"
    using ends_with_generated [of header] by (auto simp: path_join_def)
  then obtain q where "str_parent (path_join (kh_build h) header) = Some q"
    using str_parent_some by fastforce
  then show ?thesis by (auto simp: prefix_header_def Let_def)
qed (auto simp: prefix_header_def Let_def)

lemma prefix_kernel_headers_ok:
  assumes "kernel_headers_path E = Ok h"
  shows "\<exists>ps. prefix_kernel_headers E headers = Ok (Some ps)"
proof -
  have "\<exists>pss. try_map (prefix_header h) headers = Ok pss"
  proof (induction headers)
    case (Cons x xs)
    then show ?case using prefix_header_ok [of h x] by (auto)
  qed simp
  then show ?thesis using assms by (auto simp: prefix_kernel_headers_def)
qed

section \<open>Reading the version\<close>

lemma split_str_from_none:
  "p \<noteq> [] \<Longrightarrow> hd p \<notin> set s \<Longrightarrow> split_str_from p acc s = [rev acc @ s]"
proof (induction s arbitrary: acc)
  case (Cons x s)
  then have "\<not> starts_with (x # s) p" by (cases p) auto
  with Cons show ?case by simp
qed simp

lemma split_str_show_nat: "split_str_from '' = '' [] (show_nat n) = [show_nat n]"
  by (subst split_str_from_none) (auto simp: show_nat_no digit_char_neq)

definition version_keys :: "string list" where
  "version_keys = [''VERSION'', ''PATCHLEVEL'', ''SUBLEVEL'']"

definition assignment :: "string \<Rightarrow> nat \<Rightarrow> string" where
  "assignment k n = k @ '' = '' @ show_nat n"

lemma line_var_assignment:
  assumes "k \<in> set version_keys"
  shows "line_var (assignment k n) = (k, Some (show_nat n))"
proof -
  have t: "trim k = k"
    using assms trim_line [of k "[]"]
    by (auto simp: version_keys_def ascii_def is_whitespace_def no_edge_space_def)
  have "split_str '' = '' (assignment k n) = [k, show_nat n]"
    using assms by (auto simp: assignment_def version_keys_def split_str_def split_str_show_nat)
  then show ?thesis by (simp add: line_var_def t)
qed

lemma parse_u8_show_nat: "parse_u8_opt (Some (show_nat n)) = (if n < 256 then Ok (Some n) else Err HeadersParseInt)"
  by (simp add: parse_u8_opt_def)

definition other_lines :: "string list \<Rightarrow> bool" where
  "other_lines ls \<longleftrightarrow> list_all (\<lambda>l. fst (line_var l) \<notin> set version_keys) ls"

lemma version_loop_other: "other_lines ls \<Longrightarrow> version_loop (ls @ rest) vps = version_loop rest vps"
proof (induction ls)
  case (Cons l ls)
  obtain v p s where "vps = (v, p, s)" by (cases vps)
  with Cons show ?case by (cases "line_var l") (auto simp: other_lines_def version_keys_def)
qed simp

lemma version_loop_assignment:
  "version_loop ((assignment ''VERSION'' n) # ls) (None, p, s) =
     (if n < 256 then if p \<noteq> None \<and> s \<noteq> None then Ok (Some n, p, s) else version_loop ls (Some n, p, s)
      else Err HeadersParseInt)"
  "version_loop ((assignment ''PATCHLEVEL'' n) # ls) (v, None, s) =
     (if n < 256 then if v \<noteq> None \<and> s \<noteq> None then Ok (v, Some n, s) else version_loop ls (v, Some n, s)
      else Err HeadersParseInt)"
  "version_loop ((assignment ''SUBLEVEL'' n) # ls) (v, p, None) =
     (if n < 256 then if v \<noteq> None \<and> p \<noteq> None then Ok (v, p, Some n) else version_loop ls (v, p, Some n)
      else Err HeadersParseInt)"
  using line_var_assignment [of "''VERSION''" n] line_var_assignment [of "''PATCHLEVEL''" n]
    line_var_assignment [of "''SUBLEVEL''" n]
  by (auto simp: version_keys_def parse_u8_show_nat)

text \<open>The orders of three different keys.\<close>

lemma mset_three:
  assumes "mset [a, b, c] = mset [x, y, z]" and "distinct [x, y, z]"
  obtains "(a, b, c) = (x, y, z)" | "(a, b, c) = (x, z, y)" | "(a, b, c) = (y, x, z)"
  | "(a, b, c) = (y, z, x)" | "(a, b, c) = (z, x, y)" | "(a, b, c) = (z, y, x)"
proof -
  have "a \<in> {x, y, z}" "b \<in> {x, y, z}" "c \<in> {x, y, z}" "a \<noteq> b" "a \<noteq> c" "b \<noteq> c"
    using mset_eq_setD [OF assms(1)] mset_eq_imp_distinct_iff [OF assms(1)] assms(2) by auto
  then show thesis using that by (elim insertE emptyE) simp_all
qed

text \<open>
  C37: when the output of \<open>make\<close> assigns the three variables, in whatever order and with
  whatever other lines before, between and behind them, in lines of the form \<open>K = n\<close>,
  the version is read exactly if all three numbers are below 256; a stable kernel with a
  larger sublevel is refused with a parse error.
\<close>

theorem build_kernel_version_read:
  assumes "kernel_headers_path E = Ok h" and "make_db (path_join (kh_build h) ''Makefile'') = Ok outp"
    and "to_str outp = Some reader"
    and "str_lines reader = n0 @ assignment k1 (val k1) # n1 @ assignment k2 (val k2) # n2 @ assignment k3 (val k3) # rest"
    and "mset [k1, k2, k3] = mset [''VERSION'', ''PATCHLEVEL'', ''SUBLEVEL'']"
    and "other_lines n0" and "other_lines n1" and "other_lines n2"
  shows "build_kernel_version E make_db =
    (if val ''VERSION'' < 256 \<and> val ''PATCHLEVEL'' < 256 \<and> val ''SUBLEVEL'' < 256
     then Ok (val ''VERSION'', val ''PATCHLEVEL'', val ''SUBLEVEL'') else Err HeadersParseInt)"
proof -
  have run: "build_kernel_version E make_db =
    and_then (version_loop (str_lines reader) (None, None, None)) (\<lambda>(v, p, s).
      and_then (unwrap v) (\<lambda>v. and_then (unwrap p) (\<lambda>p. and_then (unwrap s) (\<lambda>s. Ok (v, p, s)))))"
    using assms(1-3) by (simp add: build_kernel_version_def del: version_loop.simps(2))
  note run = run [unfolded assms(4)]
  show ?thesis
    by (rule mset_three [OF assms(5)]; insert run assms(6-8))
      (simp_all add: version_loop_other version_loop_assignment del: version_loop.simps(2))
qed

text \<open>A \<open>make\<close> that prints the variables of kernel 5.15.\<open>s\<close>, the sublevel first.\<close>

definition demo_make :: "nat \<Rightarrow> string \<Rightarrow> (io_error, bytes) outcome" where
  "demo_make s p = Ok (as_bytes (''SUBLEVEL = '' @ show_nat s @ [CHR 0x0A] @ ''X = 1'' @ [CHR 0x0A] @ ''VERSION = 5'' @ [CHR 0x0A] @
     ''PATCHLEVEL = 15'' @ [CHR 0x0A]))"

theorem build_kernel_version_read_witness:
  "build_kernel_version demo_env (demo_make 77) = Ok (5, 15, 77) \<and> build_kernel_version demo_env (demo_make 300) = Err HeadersParseInt"
proof -
  have sl: "show_nat 77 = ''77''" "show_nat 300 = ''300''"
    by (simp_all add: show_nat.simps digit_char_def char_of_def bit_0 upt_rec)
  have h: "kernel_headers_path demo_env = Ok \<lparr>kh_source = ''/lib/modules/5.4.0/source'', kh_build = ''/lib/modules/5.4.0/source''\<rparr>"
    by (simp add: kernel_headers_path_def get_custom_header_path_def lib_modules_kernel_headers_def running_kernel_version_def
      get_custom_header_version_def demo_env_def split_kernel_headers_def path_join_def Let_def)
  have x: "trim ''X'' = ''X''"
    using trim_line [of "''X''" "[]"] by (simp add: ascii_def no_edge_space_def is_whitespace_def)
  have o: "other_lines []" "other_lines [''X = 1'']"
    by (simp_all add: other_lines_def version_keys_def line_var_def split_str_def x)
  have "build_kernel_version demo_env (demo_make s) = (if s < 256 then Ok (5, 15, s) else Err HeadersParseInt)" if "s = 77 \<or> s = 300" for s
  proof -
    let ?s = "''SUBLEVEL = '' @ show_nat s @ [CHR 0x0A] @ ''X = 1'' @ [CHR 0x0A] @ ''VERSION = 5'' @ [CHR 0x0A] @ ''PATCHLEVEL = 15'' @ [CHR 0x0A]"
    have u: "to_str (as_bytes ?s) = Some ?s"
      using to_string_lossy_as_bytes [of ?s] that sl by (elim disjE; simp only: to_str_def) (simp_all add: ascii_def)
    define val where "val = (\<lambda>k. if k = ''SUBLEVEL'' then s else if k = ''VERSION'' then 5 else 15)"
    have v: "val ''SUBLEVEL'' = s" "val ''VERSION'' = 5" "val ''PATCHLEVEL'' = 15" by (simp_all add: val_def)
    have l: "str_lines ?s = [] @ assignment ''SUBLEVEL'' (val ''SUBLEVEL'') # [''X = 1''] @ assignment ''VERSION'' (val ''VERSION'') # [] @
        assignment ''PATCHLEVEL'' (val ''PATCHLEVEL'') # []"
      unfolding v using that
      by (elim disjE) (simp_all add: str_lines_def assignment_def show_nat.simps digit_char_def char_of_def bit_0 upt_rec Let_def)
    show ?thesis
      using build_kernel_version_read [OF h _ u l _ o(1,2,1), of "demo_make s"] by (simp add: demo_make_def v)
  qed
  then show ?thesis by simp
qed

end
