(* ===== verification/Tool_Iotop.thy ===== *)
theory Tool_Iotop
  imports Kernel_Headers
begin

text \<open>
  The tool that shows the I/O of processes: the kprobes of \<open>redbpf-tools/probes/src/iotop\<close> and
  the table of disks of \<open>redbpf-tools/src/bin/redbpf-iotop.rs\<close>. The three hash maps are maps;
  whether the kernel takes a new entry is a parameter. What the probes read of a request is
  part of the event. The specification says from the events alone what the maps hold.
\<close>

section \<open>The programs\<close>

record Process =
  pr_pid :: u64
  pr_comm :: bytes

record CounterKey =
  ck_process :: Process
  ck_major :: "32 word"
  ck_minor :: "32 word"
  ck_write :: u64

record Counter =
  ct_bytes :: u64
  ct_us :: u64
  ct_io :: u64

text \<open>What the accessors of a request and of its disk give; \<open>None\<close> is a read that failed or a null pointer.\<close>

record request =
  rq_disk :: "(32 word option \<times> 32 word option) option"
  rq_cmd_flags :: "u32 option"
  rq_data_len :: "u32 option"

record iotop_state =
  start_map :: "u64 \<Rightarrow> u64 option"
  processes_map :: "u64 \<Rightarrow> Process option"
  counts_map :: "CounterKey \<Rightarrow> Counter option"

record iotop_limits =
  start_takes :: "iotop_state \<Rightarrow> u64 \<Rightarrow> bool"
  processes_takes :: "iotop_state \<Rightarrow> u64 \<Rightarrow> bool"
  counts_takes :: "iotop_state \<Rightarrow> CounterKey \<Rightarrow> bool"

text \<open>\<open>HashMap::set\<close> ignores the answer of the kernel; a key that is there is always taken.\<close>

definition map_set :: "bool \<Rightarrow> 'k \<Rightarrow> 'v \<Rightarrow> ('k \<Rightarrow> 'v option) \<Rightarrow> 'k \<Rightarrow> 'v option" where
  "map_set takes k v m = (if m k \<noteq> None \<or> takes then m(k \<mapsto> v) else m)"

definition blk_account_io_start :: "iotop_limits \<Rightarrow> u64 \<Rightarrow> u64 \<Rightarrow> bytes \<Rightarrow> iotop_state \<Rightarrow> iotop_state" where
  "blk_account_io_start L req pid_tgid comm st =
     st\<lparr>processes_map := map_set (processes_takes L st req) req \<lparr>pr_pid = drop_bit 32 pid_tgid, pr_comm = comm\<rparr> (processes_map st)\<rparr>"

definition start_request :: "iotop_limits \<Rightarrow> u64 \<Rightarrow> u64 \<Rightarrow> iotop_state \<Rightarrow> iotop_state" where
  "start_request L req ts st = st\<lparr>start_map := map_set (start_takes L st req) req ts (start_map st)\<rparr>"

abbreviation (input) REQ_OP_WRITE :: u32 where "REQ_OP_WRITE \<equiv> 1"

definition unknown_process :: Process where
  "unknown_process = \<lparr>pr_pid = 0, pr_comm = replicate 16 0\<rparr>"

text \<open>\<open>major\<close>, \<open>minor\<close> and \<open>write\<close> of \<open>do_complete\<close>, in the order of the reads.\<close>

definition request_key :: "Process \<Rightarrow> request \<Rightarrow> CounterKey option" where
  "request_key p r =
     Option.bind (rq_disk r) (\<lambda>disk.
     Option.bind (fst disk) (\<lambda>major.
     Option.bind (snd disk) (\<lambda>minor.
     Option.bind (rq_cmd_flags r) (\<lambda>cmd_flags.
     Some \<lparr>ck_process = p, ck_major = major, ck_minor = minor, ck_write = (if cmd_flags AND REQ_OP_WRITE \<noteq> 0 then 1 else 0)\<rparr>))))"

text \<open>The counter of a key, made if it is not there.\<close>

definition find_counter :: "iotop_limits \<Rightarrow> CounterKey \<Rightarrow> iotop_state \<Rightarrow> iotop_state" where
  "find_counter L key st =
     (case counts_map st key of
        Some _ \<Rightarrow> st
      | None \<Rightarrow> st\<lparr>counts_map := map_set (counts_takes L st key) key \<lparr>ct_bytes = 0, ct_us = 0, ct_io = 0\<rparr> (counts_map st)\<rparr>)"

definition do_complete :: "iotop_limits \<Rightarrow> u64 \<Rightarrow> u64 \<Rightarrow> request \<Rightarrow> iotop_state \<Rightarrow> iotop_state" where
  "do_complete L req now r st =
     (case start_map st req of
        None \<Rightarrow> st
      | Some start_ts \<Rightarrow>
          let delta_us = (now - start_ts) div 1000;
              process = (case processes_map st req of Some p \<Rightarrow> p | None \<Rightarrow> unknown_process)
          in case request_key process r of
               None \<Rightarrow> st
             | Some key \<Rightarrow>
                 let st1 = find_counter L key st
                 in case (counts_map st1 key, rq_data_len r) of
                      (Some c, Some n) \<Rightarrow>
                        st1\<lparr>counts_map := (counts_map st1)(key \<mapsto>
                              \<lparr>ct_bytes = ct_bytes c + ucast n, ct_us = ct_us c + delta_us, ct_io = ct_io c + 1\<rparr>),
                            start_map := (start_map st1)(req := None), processes_map := (processes_map st1)(req := None)\<rparr>
                    | _ \<Rightarrow> st1)"

datatype io_event = IoStart u64 u64 bytes | RequestStart u64 u64 | IoDone u64 u64 request

fun iotop_step :: "iotop_limits \<Rightarrow> io_event \<Rightarrow> iotop_state \<Rightarrow> iotop_state" where
  "iotop_step L (IoStart req pid_tgid comm) st = blk_account_io_start L req pid_tgid comm st"
| "iotop_step L (RequestStart req ts) st = start_request L req ts st"
| "iotop_step L (IoDone req now r) st = do_complete L req now r st"

definition iotop_run :: "iotop_limits \<Rightarrow> io_event list \<Rightarrow> iotop_state" where
  "iotop_run L es = fold (iotop_step L) es \<lparr>start_map = \<lambda>_. None, processes_map = \<lambda>_. None, counts_map = \<lambda>_. None\<rparr>"

section \<open>The table of disks\<close>

fun split_ascii_whitespace :: "string \<Rightarrow> string list" where
  "split_ascii_whitespace [] = []"
| "split_ascii_whitespace (c # cs) =
     (if c \<in> set [CHR '' '', CHR 0x09, CHR 0x0A, CHR 0x0C, CHR 0x0D] then split_ascii_whitespace cs
      else (case split_ascii_whitespace cs of
              ws \<Rightarrow> if cs = [] \<or> hd cs \<in> set [CHR '' '', CHR 0x09, CHR 0x0A, CHR 0x0C, CHR 0x0D] then [c] # ws
                    else (c # hd ws) # tl ws))"

definition parse_disk_line :: "string \<Rightarrow> (unit, (int \<times> int) \<times> string) outcome" where
  "parse_disk_line line =
     (let parts = split_ascii_whitespace line
      in and_then (index parts 0) (\<lambda>a. and_then (unwrap (parse_i32 a)) (\<lambda>major.
         and_then (index parts 1) (\<lambda>b. and_then (unwrap (parse_i32 b)) (\<lambda>minor.
         and_then (index parts 2) (\<lambda>n. Ok ((major, minor), n)))))))"

definition parse_diskstats :: "string list \<Rightarrow> (unit, int \<times> int \<Rightarrow> string option) outcome" where
  "parse_diskstats lines = and_then (try_map parse_disk_line lines) (\<lambda>ds. Ok (map_of (rev ds)))"

section \<open>What the events say\<close>

text \<open>
  The events newest first. A request is under way from its last start until it is completed,
  that is until it is done and everything could be read of it.
\<close>

fun started :: "io_event list \<Rightarrow> u64 \<Rightarrow> u64 option" where
  "started [] req = None"
| "started (RequestStart q ts # es) req = (if q = req then Some ts else started es req)"
| "started (IoDone q now r # es) req =
     (if q = req \<and> request_key unknown_process r \<noteq> None \<and> rq_data_len r \<noteq> None then None else started es req)"
| "started (IoStart q p c # es) req = started es req"

fun issuer :: "io_event list \<Rightarrow> u64 \<Rightarrow> Process option" where
  "issuer [] req = None"
| "issuer (IoStart q p c # es) req = (if q = req then Some \<lparr>pr_pid = drop_bit 32 p, pr_comm = c\<rparr> else issuer es req)"
| "issuer (IoDone q now r # es) req =
     (if q = req \<and> started es q \<noteq> None \<and> request_key unknown_process r \<noteq> None \<and> rq_data_len r \<noteq> None then None else issuer es req)"
| "issuer (RequestStart q ts # es) req = issuer es req"

text \<open>The completed requests: the key under which they count, their bytes and their time.\<close>

fun completions :: "io_event list \<Rightarrow> (CounterKey \<times> u64 \<times> u64) list" where
  "completions [] = []"
| "completions (IoDone q now r # es) =
     (case (started es q, request_key (case issuer es q of Some p \<Rightarrow> p | None \<Rightarrow> unknown_process) r, rq_data_len r) of
        (Some ts, Some key, Some n) \<Rightarrow> (key, ucast n, (now - ts) div 1000) # completions es
      | _ \<Rightarrow> completions es)"
| "completions (_ # es) = completions es"

definition counter_total :: "CounterKey \<Rightarrow> (CounterKey \<times> u64 \<times> u64) list \<Rightarrow> Counter" where
  "counter_total key cs =
     (let mine = filter (\<lambda>(k, _). k = key) cs
      in \<lparr>ct_bytes = sum_list (map (\<lambda>(_, n, _). n) mine), ct_us = sum_list (map (\<lambda>(_, _, u). u) mine), ct_io = of_nat (length mine)\<rparr>)"

definition takes_all :: "iotop_limits \<Rightarrow> bool" where
  "takes_all L \<longleftrightarrow> (\<forall>st req key. start_takes L st req \<and> processes_takes L st req \<and> counts_takes L st key)"

fun counted :: "CounterKey \<Rightarrow> (CounterKey \<times> u64 \<times> u64) list \<Rightarrow> Counter option \<Rightarrow> bool" where
  "counted key cs None \<longleftrightarrow> filter (\<lambda>(k, _). k = key) cs = []"
| "counted key cs (Some c) \<longleftrightarrow> c = counter_total key cs"

definition follows :: "io_event list \<Rightarrow> iotop_state \<Rightarrow> bool" where
  "follows es st \<longleftrightarrow> start_map st = started es \<and> processes_map st = issuer es \<and>
     (\<forall>key. counted key (completions es) (counts_map st key))"

lemma request_key_None: "request_key p r = None \<longleftrightarrow> request_key q r = None"
  by (simp add: request_key_def bind_eq_None_conv)

lemma counter_total_Cons:
  "counter_total key ((k, n, u) # cs) =
     (let c = counter_total key cs
      in if k = key then \<lparr>ct_bytes = ct_bytes c + n, ct_us = ct_us c + u, ct_io = ct_io c + 1\<rparr> else c)"
  by (simp add: counter_total_def Let_def add.commute)

lemma counter_total_none: "filter (\<lambda>(k, _). k = key) cs = [] \<Longrightarrow> counter_total key cs = \<lparr>ct_bytes = 0, ct_us = 0, ct_io = 0\<rparr>"
  by (simp add: counter_total_def)

lemma follows_find_counter:
  assumes "takes_all L" "follows es st"
  shows "follows es (find_counter L key st)" "counts_map (find_counter L key st) key = Some (counter_total key (completions es))"
proof -
  have k: "counted key (completions es) (counts_map st key)" using assms(2) by (simp add: follows_def)
  show "counts_map (find_counter L key st) key = Some (counter_total key (completions es))"
    using k assms by (cases "counts_map st key") (simp_all add: find_counter_def map_set_def takes_all_def counter_total_none)
  then show "follows es (find_counter L key st)"
    using assms by (cases "counts_map st key") (auto simp: find_counter_def map_set_def takes_all_def follows_def)
qed

lemma follows_step:
  assumes "takes_all L" "follows es st"
  shows "follows (e # es) (iotop_step L e st)"
proof (cases e)
  case (IoStart req p c)
  then show ?thesis using assms
    by (auto simp: blk_account_io_start_def map_set_def takes_all_def follows_def fun_eq_iff)
next
  case (RequestStart req ts)
  then show ?thesis using assms by (auto simp: start_request_def map_set_def takes_all_def follows_def fun_eq_iff)
next
  case (IoDone req now r)
  define p where "p = (case issuer es req of Some p \<Rightarrow> p | None \<Rightarrow> unknown_process)"
  have m: "start_map st = started es" "processes_map st = issuer es" using assms(2) by (simp_all add: follows_def)
  have rk: "request_key unknown_process r = None \<longleftrightarrow> request_key p r = None" by (rule request_key_None)
  have done_step: "do_complete L req now r st = (case started es req of None \<Rightarrow> st | Some ts \<Rightarrow>
      case request_key p r of None \<Rightarrow> st | Some key \<Rightarrow> let st1 = find_counter L key st
        in case (counts_map st1 key, rq_data_len r) of
             (Some c, Some n) \<Rightarrow>
               st1\<lparr>counts_map := (counts_map st1)(key \<mapsto>
                     \<lparr>ct_bytes = ct_bytes c + ucast n, ct_us = ct_us c + (now - ts) div 1000, ct_io = ct_io c + 1\<rparr>),
                   start_map := (start_map st1)(req := None), processes_map := (processes_map st1)(req := None)\<rparr>
           | _ \<Rightarrow> st1)"
    unfolding do_complete_def m p_def Let_def by (rule refl)
  have comp: "completions (e # es) = (case (started es req, request_key p r, rq_data_len r) of
      (Some ts, Some key, Some n) \<Rightarrow> (key, ucast n, (now - ts) div 1000) # completions es | _ \<Rightarrow> completions es)"
    by (simp add: IoDone p_def)
  show ?thesis
  proof (cases "started es req = None \<or> request_key p r = None \<or> rq_data_len r = None")
    case True
    have "started (e # es) = started es" "issuer (e # es) = issuer es" using True rk by (auto simp: IoDone fun_eq_iff)
    moreover have "completions (e # es) = completions es" using True by (auto simp: comp split: option.splits)
    moreover have "do_complete L req now r st = st \<or> (\<exists>key. do_complete L req now r st = find_counter L key st)"
      using True by (auto simp: done_step Let_def split: option.splits)
    ultimately show ?thesis using assms(2) follows_find_counter(1) [OF assms] by (auto simp: IoDone follows_def)
  next
    case False
    then obtain ts key n where ts: "started es req = Some ts" "request_key p r = Some key" "rq_data_len r = Some n" by auto
    let ?st = "find_counter L key st"
    note st = follows_find_counter [OF assms, of key]
    have c: "completions (e # es) = (key, ucast n, (now - ts) div 1000) # completions es" using ts by (simp add: comp)
    have d: "do_complete L req now r st =
        ?st\<lparr>counts_map := (counts_map ?st)(key \<mapsto> counter_total key (completions (e # es))),
            start_map := (start_map ?st)(req := None), processes_map := (processes_map ?st)(req := None)\<rparr>"
      using ts st(2) by (simp add: done_step c Let_def counter_total_Cons)
    have "start_map ?st = started es" "processes_map ?st = issuer es" using st(1) by (simp_all add: follows_def)
    moreover have "started (e # es) = (started es)(req := None)" "issuer (e # es) = (issuer es)(req := None)"
      using ts rk by (auto simp: IoDone fun_eq_iff)
    moreover have "counted k (completions (e # es)) (((counts_map ?st)(key \<mapsto> counter_total key (completions (e # es)))) k)" for k
    proof (cases "k = key")
      case False
      have "counted k (completions es) (counts_map ?st k)" using st(1) by (simp add: follows_def)
      then show ?thesis using False by (cases "counts_map ?st k") (simp_all add: c counter_total_Cons)
    qed simp
    ultimately show ?thesis by (simp add: IoDone d [unfolded IoDone] follows_def)
  qed
qed

text \<open>
  C23: as long as the maps of the tool take new entries, every counter that it shows is the
  total over the requests that were completed: the number of them, their bytes and the
  microseconds from the last start of a request to its completion, under the process that
  issued it, or an unknown one, its disk and its direction. A request that is done twice, or
  that was not started, is not counted, and a counter that is not there has nothing to count.
\<close>

theorem iotop_counts_completed:
  assumes "takes_all L"
  shows "case counts_map (iotop_run L es) key of
    None \<Rightarrow> filter (\<lambda>(k, _). k = key) (completions (rev es)) = []
  | Some c \<Rightarrow> c = counter_total key (completions (rev es))"
proof -
  have "follows (rev es) (iotop_run L es)"
  proof (induction es rule: rev_induct)
    case Nil
    show ?case by (simp add: iotop_run_def follows_def fun_eq_iff)
  next
    case (snoc e es)
    then show ?case using follows_step [OF assms] by (simp add: iotop_run_def)
  qed
  then have "counted key (completions (rev es)) (counts_map (iotop_run L es) key)" by (simp add: follows_def)
  then show ?thesis by (cases "counts_map (iotop_run L es) key") simp_all
qed

text \<open>A write of 4096 bytes that takes four microseconds and is reported as done twice.\<close>

definition free_limits :: iotop_limits where
  "free_limits = \<lparr>start_takes = \<lambda>_ _. True, processes_takes = \<lambda>_ _. True, counts_takes = \<lambda>_ _. True\<rparr>"

definition demo_request :: request where
  "demo_request = \<lparr>rq_disk = Some (Some 8, Some 0), rq_cmd_flags = Some 1, rq_data_len = Some 4096\<rparr>"

definition demo_events :: "io_event list" where
  "demo_events = [IoStart 7 0x2A00000000 [100], RequestStart 7 1000, IoDone 7 5000 demo_request, IoDone 7 9000 demo_request]"

definition demo_key :: CounterKey where
  "demo_key = \<lparr>ck_process = \<lparr>pr_pid = 42, pr_comm = [100]\<rparr>, ck_major = 8, ck_minor = 0, ck_write = 1\<rparr>"

theorem iotop_counts_completed_witness:
  "counts_map (iotop_run free_limits demo_events) demo_key = Some \<lparr>ct_bytes = 4096, ct_us = 4, ct_io = 1\<rparr>"
proof -
  have c: "completions (rev demo_events) = [(demo_key, 4096, 4)]"
    by (simp add: demo_events_def demo_request_def demo_key_def request_key_def)
  have "takes_all free_limits" by (simp add: takes_all_def free_limits_def)
  from iotop_counts_completed [OF this, of demo_key demo_events] show ?thesis
    by (simp add: c counter_total_def split: option.splits)
qed

end
