(* ===== verification/Example_Tc.thy ===== *)
theory Example_Tc
  imports Tool_Knock Tool_Iotop
begin

text \<open>
  The example \<open>tc_map_share\<close> (\<open>examples/example-probes/src/tc_map_share/main.rs\<close>): a classifier for
  \<open>tc\<close> that drops the TCP packets to the ports of a shared map and counts them, with the
  formatting of its messages. The main lemma says what is dropped and counted over a sequence
  of packets in terms of their bytes.
\<close>

section \<open>Messages\<close>

text \<open>Writing a byte of a buffer; an index behind its end panics.\<close>

definition store_at :: "bytes \<Rightarrow> nat \<Rightarrow> u8 \<Rightarrow> (SocketError, bytes) outcome" where
  "store_at buf i b = (if i < length buf then Ok (buf[i := b]) else Panic)"

definition hex_digit :: "u8 \<Rightarrow> u8" where
  "hex_digit w = (if w < 0xa then w + 48 else w - 0xa + 97)"

text \<open>\<open>hex_u8\<close> on the slice of two bytes at a position\<close>

definition hex_u8 :: "u8 \<Rightarrow> bytes \<Rightarrow> nat \<Rightarrow> (SocketError, bytes) outcome" where
  "hex_u8 v buf pos =
     and_then (slice buf pos (pos + 2)) (\<lambda>_.
     and_then (store_at buf pos (hex_digit (v div 0x10))) (\<lambda>buf.
     store_at buf (pos + 1) (hex_digit (v mod 0x10))))"

fun hex_bytes :: "bool \<Rightarrow> bytes \<Rightarrow> bytes \<Rightarrow> nat \<Rightarrow> (SocketError, bytes \<times> nat) outcome" where
  "hex_bytes first [] buf pos = Ok (buf, pos)"
| "hex_bytes first (b # arr) buf pos =
     and_then (if first then Ok (buf, pos) else and_then (store_at buf pos 32) (\<lambda>buf. Ok (buf, pos + 1))) (\<lambda>(buf, pos).
     and_then (hex_u8 b buf pos) (\<lambda>buf.
     hex_bytes False arr buf (pos + 2)))"

fun copy_msg :: "bytes \<Rightarrow> bytes \<Rightarrow> nat \<Rightarrow> (SocketError, bytes \<times> nat) outcome" where
  "copy_msg [] buf pos = Ok (buf, pos)"
| "copy_msg (c # cs) buf pos = and_then (store_at buf pos c) (\<lambda>buf. copy_msg cs buf (pos + 1))"

text \<open>
  \<open>trace_print\<close> of a value that lies in memory as \<open>x\<close>: it is copied into an array of 64 bytes
  and printed into a buffer of 128. The result is what is passed to the kernel.
\<close>

definition trace_print :: "bytes \<Rightarrow> bytes \<Rightarrow> (SocketError, bytes) outcome" where
  "trace_print msg x =
     and_then (copy_msg msg (replicate 128 0) 0) (\<lambda>(buf, pos).
     if 64 < length x then Panic
     else and_then (hex_bytes True x buf pos) (\<lambda>(buf, pos).
       and_then (store_at buf pos 10) (\<lambda>buf. slice buf 0 (pos + 2))))"

section \<open>The classifier\<close>

text \<open>Offsets and sizes of the headers of the kernel that the program uses, besides \<open>headers\<close>.\<close>

record skb_layout =
  ip_version :: "bytes \<Rightarrow> u8"
  at_nexthdr :: nat
  ipv6hdr_size :: nat
  at_tcp_dest :: nat

record tc_state =
  blocked_packets :: "u16 \<Rightarrow> u64 option"
  spinlock :: bool
  tc_trace :: "bytes list"

type_synonym 'a tc_step = "(tc_state, SocketError, 'a) step"

abbreviation (input) ETH_IP :: u32 where "ETH_IP \<equiv> 0x0800"
abbreviation (input) ETH_IPV6 :: u32 where "ETH_IPV6 \<equiv> 0x86DD"

text \<open>The lock is made if it is not there, which the kernel may refuse; taking and giving it back changes nothing else.\<close>

definition find_lock :: "bool \<Rightarrow> unit tc_step" where
  "find_lock takes st = (if spinlock st \<or> takes then (Ok (), st\<lparr>spinlock := True\<rparr>) else (Panic, st))"

text \<open>The offset of the TCP header, or \<open>None\<close> where the program returns \<open>TcAction::Ok\<close>\<close>

definition tcp_hdr_offset :: "'p bpf_helpers \<Rightarrow> headers \<Rightarrow> skb_layout \<Rightarrow> ('p \<Rightarrow> u32) \<Rightarrow> 'p \<Rightarrow> (SocketError, u64 option) outcome" where
  "tcp_hdr_offset B H L proto p =
     (let ty = from_be32 (push_bit 16 (proto p))
      in if ty = ETH_IP then
           (case skb_load_bytes B p (of_nat (ethhdr_size H)) (of_nat (iphdr_size H)) of (rc, h) \<Rightarrow>
              if rc < 0 then Ok None
              else if \<not> (ip_version L h = 4 \<and> IPPROTO_TCP = ucast (protocol H h)) then Ok None
              else Ok (Some (of_nat (ethhdr_size H) + ucast (ihl H h) * 4)))
         else if ty = ETH_IPV6 then
           and_then (skb_load B 1 (of_nat (ethhdr_size H + at_nexthdr L)) p) (\<lambda>nexthdr :: u8.
           if IPPROTO_TCP \<noteq> ucast nexthdr then Ok None
           else Ok (Some (of_nat (ethhdr_size H + ipv6hdr_size L))))
         else Ok None)"

definition trace :: "bytes \<Rightarrow> u16 \<Rightarrow> unit tc_step" where
  "trace msg port =
     and_do (give (trace_print msg (u16_to_le port))) (\<lambda>b st. (Ok (), st\<lparr>tc_trace := tc_trace st @ [b]\<rparr>))"

definition block_ports :: "'p bpf_helpers \<Rightarrow> headers \<Rightarrow> skb_layout \<Rightarrow> ('p \<Rightarrow> u32) \<Rightarrow> bool \<Rightarrow> 'p \<Rightarrow> TcAction tc_step" where
  "block_ports B H L proto takes p =
     and_do (find_lock takes) (\<lambda>_.
     and_do (give (tcp_hdr_offset B H L proto p)) (\<lambda>off.
     case off of
       None \<Rightarrow> give (Ok TcOk)
     | Some off4 \<Rightarrow>
         and_do (give (skb_load B 2 (off4 + of_nat (at_tcp_dest L)) p)) (\<lambda>port st.
         case blocked_packets st port of
           Some cnt \<Rightarrow>
             and_do (trace (as_bytes ''blocked port: '') port) (\<lambda>_ st.
             (Ok TcShot, st\<lparr>blocked_packets := (blocked_packets st)(port \<mapsto> cnt + 1)\<rparr>)) st
         | None \<Rightarrow> and_do (trace (as_bytes ''passed port: '') port) (\<lambda>_. give (Ok TcOk)) st)))"

fun tc_run :: "'p bpf_helpers \<Rightarrow> headers \<Rightarrow> skb_layout \<Rightarrow> ('p \<Rightarrow> u32) \<Rightarrow> bool \<Rightarrow> 'p list \<Rightarrow> tc_state \<Rightarrow> (unit, int) outcome list \<times> tc_state" where
  "tc_run B H L proto takes [] st = ([], st)"
| "tc_run B H L proto takes (p # ps) st =
     (case block_ports B H L proto takes p st of (r, st') \<Rightarrow>
        case tc_run B H L proto takes ps st' of (rs, st'') \<Rightarrow> (tc_action_return r # rs, st''))"

section \<open>The text of messages\<close>

fun spaced :: "'a \<Rightarrow> 'a list list \<Rightarrow> 'a list" where
  "spaced s [] = []"
| "spaced s [x] = x"
| "spaced s (x # y # xs) = x @ s # spaced s (y # xs)"

definition hex_pairs :: "bytes \<Rightarrow> bytes list" where
  "hex_pairs x = map (\<lambda>b. [hex_digit (b div 0x10), hex_digit (b mod 0x10)]) x"

lemma store_at_end: "length pre = n \<Longrightarrow> 0 < k \<Longrightarrow> store_at (pre @ replicate k z) n b = Ok ((pre @ [b]) @ replicate (k - 1) z)"
  by (cases k) (simp_all add: store_at_def list_update_append)

lemma copy_msg_text:
  "length pre = n \<Longrightarrow> length msg \<le> k \<Longrightarrow> copy_msg msg (pre @ replicate k 0) n = Ok ((pre @ msg) @ replicate (k - length msg) 0, n + length msg)"
proof (induction msg arbitrary: pre n k)
  case (Cons c msg)
  then show ?case using Cons.IH [of "pre @ [c]" "n + 1" "k - 1"] by (simp add: store_at_end)
qed simp

lemma hex_u8_text:
  "length pre = n \<Longrightarrow> 2 \<le> k \<Longrightarrow> hex_u8 b (pre @ replicate k z) n = Ok ((pre @ [hex_digit (b div 0x10), hex_digit (b mod 0x10)]) @ replicate (k - 2) z)"
  using store_at_end [of pre n k z] store_at_end [of "pre @ [hex_digit (b div 0x10)]" "n + 1" "k - 1" z]
  by (simp add: hex_u8_def slice_def numeral_2_eq_2)

definition hex_tail :: "bool \<Rightarrow> bytes \<Rightarrow> bytes" where
  "hex_tail first x = (if first \<or> x = [] then [] else [32]) @ spaced 32 (hex_pairs x)"

lemma hex_bytes_text:
  "length pre = n \<Longrightarrow> length (hex_tail first x) \<le> k \<Longrightarrow>
   hex_bytes first x (pre @ replicate k 0) n = Ok ((pre @ hex_tail first x) @ replicate (k - length (hex_tail first x)) 0, n + length (hex_tail first x))"
proof (induction x arbitrary: pre n k first)
  case (Cons b x)
  let ?h = "[hex_digit (b div 0x10), hex_digit (b mod 0x10)]"
  have t: "hex_tail f (b # x) = (if f then [] else [32]) @ ?h @ hex_tail False x" for f
    by (cases x) (simp_all add: hex_tail_def hex_pairs_def)
  show ?case
  proof (cases first)
    case True
    then show ?thesis using Cons.prems Cons.IH [where first = False, of "pre @ ?h" "n + 2" "k - 2"] hex_u8_text [of pre n k b 0]
      by (simp add: t)
  next
    case False
    then show ?thesis
      using Cons.prems Cons.IH [where first = False, of "pre @ [32] @ ?h" "n + 3" "k - 3"] hex_u8_text [of "pre @ [32]" "n + 1" "k - 1" b 0]
        store_at_end [of pre n k 0 32]
      by (simp add: t numeral_3_eq_3)
  qed
qed (simp add: hex_tail_def hex_pairs_def)

lemma trace_print_text:
  assumes "length x \<le> 64" "length msg + length (spaced 32 (hex_pairs x)) + 2 \<le> 128"
  shows "trace_print msg x = Ok (msg @ spaced 32 (hex_pairs x) @ [10, 0])"
proof -
  let ?h = "spaced 32 (hex_pairs x)"
  have c: "copy_msg msg (replicate 128 0) 0 = Ok (msg @ replicate (128 - length msg) 0, length msg)"
    using copy_msg_text [of "[]" 0 msg 128] assms(2) by simp
  have h: "hex_bytes True x (msg @ replicate (128 - length msg) 0) (length msg) =
      Ok ((msg @ ?h) @ replicate (128 - length msg - length ?h) 0, length msg + length ?h)"
    using hex_bytes_text [of msg "length msg" True x "128 - length msg"] assms(2) by (simp add: hex_tail_def)
  have "128 - length msg - length ?h = Suc (Suc (126 - length msg - length ?h))" using assms(2) by simp
  then show ?thesis using assms store_at_end [of "msg @ ?h" "length msg + length ?h" "128 - length msg - length ?h" 0 10]
    by (simp add: trace_print_def c h slice_def)
qed

section \<open>What is dropped\<close>

text \<open>
  \<open>bpf_skb_load_bytes\<close> copies bytes of the packet or fails. The port a packet is addressed to,
  read from its bytes: the ethertype, the headers of IPv4 with its options or of IPv6 without
  extensions, and the destination in the order of the network.
\<close>

definition reads_skb :: "'p bpf_helpers \<Rightarrow> ('p \<Rightarrow> bytes) \<Rightarrow> bool" where
  "reads_skb B data \<longleftrightarrow> (\<forall>p off len. skb_load_bytes B p off len =
     (if unat off + unat len \<le> length (data p) then (0, take (unat len) (drop (unat off) (data p))) else (- 14, [])))"

definition tcp_at :: "headers \<Rightarrow> skb_layout \<Rightarrow> u16 \<Rightarrow> bytes \<Rightarrow> nat option" where
  "tcp_at H L ethertype d =
     (if ethertype = 0x0800 then
        (let h = take (iphdr_size H) (drop (ethhdr_size H) d)
         in if ethhdr_size H + iphdr_size H \<le> length d \<and> ip_version L h = 4 \<and> protocol H h = 6
            then Some (ethhdr_size H + 4 * unat (ihl H h)) else None)
      else if ethertype = 0x86DD then
        (if ethhdr_size H + at_nexthdr L < length d \<and> d ! (ethhdr_size H + at_nexthdr L) = 6
         then Some (ethhdr_size H + ipv6hdr_size L) else None)
      else None)"

definition dest_port :: "headers \<Rightarrow> skb_layout \<Rightarrow> u16 \<Rightarrow> bytes \<Rightarrow> u16 option" where
  "dest_port H L ethertype d =
     Option.bind (tcp_at H L ethertype d) (\<lambda>o'. let k = o' + at_tcp_dest L in
       if k + 2 \<le> length d then Some (push_bit 8 (ucast (d ! k)) OR ucast (d ! (k + 1))) else None)"

definition packet_port :: "headers \<Rightarrow> skb_layout \<Rightarrow> ('p \<Rightarrow> u32) \<Rightarrow> ('p \<Rightarrow> bytes) \<Rightarrow> 'p \<Rightarrow> u16 option" where
  "packet_port H L proto data p = dest_port H L (from_be16 (ucast (proto p))) (data p)"

text \<open>A packet that ends before the field that is read next: the next header of IPv6 or the port.\<close>

definition cut_off :: "headers \<Rightarrow> skb_layout \<Rightarrow> u16 \<Rightarrow> bytes \<Rightarrow> bool" where
  "cut_off H L ethertype d \<longleftrightarrow>
     ethertype = 0x86DD \<and> length d \<le> ethhdr_size H + at_nexthdr L \<or>
     (\<exists>o'. tcp_at H L ethertype d = Some o' \<and> length d < o' + at_tcp_dest L + 2)"

text \<open>
  The value for the kernel: \<open>TC_ACT_SHOT\<close> for a packet to a port of the map, \<open>TC_ACT_UNSPEC\<close>,
  which leaves the packet to the default action, for one that is cut off, and \<open>TC_ACT_OK\<close>
  for all others.
\<close>

definition verdict :: "headers \<Rightarrow> skb_layout \<Rightarrow> ('p \<Rightarrow> u32) \<Rightarrow> ('p \<Rightarrow> bytes) \<Rightarrow> (u16 \<Rightarrow> bool) \<Rightarrow> 'p \<Rightarrow> int" where
  "verdict H L proto data blocked p =
     (if \<exists>n. packet_port H L proto data p = Some n \<and> blocked n then 2
      else if cut_off H L (from_be16 (ucast (proto p))) (data p) then -1 else 0)"

definition small_layout :: "headers \<Rightarrow> skb_layout \<Rightarrow> bool" where
  "small_layout H L \<longleftrightarrow> ethhdr_size H + iphdr_size H + at_nexthdr L + ipv6hdr_size L + at_tcp_dest L + 1024 < 2 ^ 32"

lemma from_be32_shifted: "from_be32 (push_bit 16 x) = ucast (from_be16 (ucast x))"
proof -
  have "from_be32 (push_bit 16 x) =
      ucast (ucast (drop_bit 24 (push_bit 16 x)) :: u8) OR push_bit 8 (ucast (ucast (drop_bit 16 (push_bit 16 x)) :: u8) OR
      push_bit 8 (ucast (ucast (drop_bit 8 (push_bit 16 x)) :: u8) OR push_bit 8 (ucast (ucast (push_bit 16 x) :: u8))))"
    by (simp add: from_be32_def word_to_le_def upt_rec)
  also have "\<dots> = ucast (from_be16 (ucast x))"
    by (rule bit_word_eqI) (auto simp: from_be16_def bit_simps)
  finally show ?thesis .
qed

lemma unat_up [simp]:
  "unat (ucast (x :: u8) :: u32) = unat x" "unat (ucast (x :: u8) :: u64) = unat x" "unat (ucast (y :: u16) :: u32) = unat y"
  using unsigned_less [of x, where 'a = nat] unsigned_less [of y, where 'a = nat]
  by (simp_all add: unsigned_ucast_eq take_bit_eq_mod)

lemma skb_load_reads:
  assumes "reads_skb B data" "off < 2 ^ 32" "n < 2 ^ 32"
  shows "(skb_load B n (of_nat off) p :: (SocketError, 'w::len word) outcome) = (if off + n \<le> length (data p) then Ok (word_of_le (rev (take n (drop off (data p))))) else Err LoadFailed)"
proof -
  have "unat (ucast (of_nat off :: u64) :: u32) = off" "unat (of_nat n :: u32) = n"
    using assms(2,3) by (simp_all add: unsigned_ucast_eq take_bit_eq_mod unat_of_nat)
  then show ?thesis using assms(1) by (simp add: skb_load_def reads_skb_def)
qed

lemma tcp_hdr_offset_reads:
  assumes "reads_skb B data" "small_layout H L"
  shows "tcp_hdr_offset B H L proto p =
    (if from_be16 (ucast (proto p)) = 0x86DD \<and> length (data p) \<le> ethhdr_size H + at_nexthdr L then Err LoadFailed
     else Ok (map_option of_nat (tcp_at H L (from_be16 (ucast (proto p))) (data p))))"
proof -
  let ?t = "from_be16 (ucast (proto p))" and ?d = "data p"
  have u: "(ucast ?t :: u32) = ETH_IP \<longleftrightarrow> ?t = 0x0800" "(ucast ?t :: u32) = ETH_IPV6 \<longleftrightarrow> ?t = 0x86DD"
    by (simp_all add: word_unat_eq_iff)
  have w: "unat (of_nat (ethhdr_size H) :: u32) = ethhdr_size H" "unat (of_nat (iphdr_size H) :: u32) = iphdr_size H"
    using assms(2) by (simp_all add: small_layout_def unat_of_nat)
  have "(6 = (ucast x :: u32)) \<longleftrightarrow> x = 6" for x :: u8 by (auto simp: word_unat_eq_iff)
  note six = this
  have ld: "skb_load B 1 (of_nat (ethhdr_size H + at_nexthdr L)) p =
      (if length ?d \<le> ethhdr_size H + at_nexthdr L then Err LoadFailed else Ok (?d ! (ethhdr_size H + at_nexthdr L)))"
    using skb_load_reads [OF assms(1), of "ethhdr_size H + at_nexthdr L" 1 p, where 'w = 8] assms(2)
    by (simp add: small_layout_def take_Suc hd_drop_conv_nth del: of_nat_add)
  have four: "(ucast x :: u64) * 4 = of_nat (4 * unat x)" for x :: u8 by (simp add: mult.commute)
  have sl: "skb_load_bytes B p (of_nat (ethhdr_size H)) (of_nat (iphdr_size H)) =
      (if ethhdr_size H + iphdr_size H \<le> length ?d then (0, take (iphdr_size H) (drop (ethhdr_size H) ?d)) else (- 14, []))"
    using assms(1) by (simp add: reads_skb_def w)
  show ?thesis by (simp add: tcp_hdr_offset_def from_be32_shifted u sl ld [unfolded One_nat_def] tcp_at_def six four Let_def
        of_nat_add [symmetric] del: of_nat_add of_nat_mult)
qed

lemma trace_short: "length msg \<le> 64 \<Longrightarrow> trace msg port st = (Ok (), st\<lparr>tc_trace := tc_trace st @ [msg @ spaced 32 (hex_pairs (u16_to_le port)) @ [10, 0]]\<rparr>)"
proof -
  assume "length msg \<le> 64"
  moreover have "length (spaced 32 (hex_pairs (u16_to_le port))) = 5" by (simp add: hex_pairs_def word_to_le_def upt_rec)
  ultimately have "trace_print msg (u16_to_le port) = Ok (msg @ spaced 32 (hex_pairs (u16_to_le port)) @ [10, 0])"
    by (intro trace_print_text) simp_all
  then show ?thesis by (simp add: trace_def)
qed

lemma block_ports_step:
  assumes "reads_skb B data" "small_layout H L" "spinlock st \<or> takes"
  shows "case block_ports B H L proto takes p st of (r, st') \<Rightarrow> spinlock st' \<and>
    (case Option.bind (dest_port H L (from_be16 (ucast (proto p))) (data p)) (\<lambda>port. map_option (Pair port) (blocked_packets st port)) of
       Some (port, c) \<Rightarrow> r = Ok TcShot \<and> blocked_packets st' = (blocked_packets st)(port \<mapsto> c + 1)
     | None \<Rightarrow> r = (if cut_off H L (from_be16 (ucast (proto p))) (data p) then Err LoadFailed else Ok TcOk) \<and>
         blocked_packets st' = blocked_packets st)"
proof -
  let ?e = "from_be16 (ucast (proto p))" and ?d = "data p"
  have lock: "find_lock takes st = (Ok (), st\<lparr>spinlock := True\<rparr>)" using assms(3) by (simp add: find_lock_def)
  show ?thesis
  proof (cases "tcp_hdr_offset B H L proto p")
    case (Ok off)
    show ?thesis
    proof (cases "tcp_at H L ?e ?d")
      case None
      then show ?thesis using Ok tcp_hdr_offset_reads [OF assms(1,2), of proto p]
        by (auto simp: block_ports_def and_do_def lock give_def dest_port_def cut_off_def tcp_at_def split: if_splits)
    next
      case (Some o')
      let ?k = "o' + at_tcp_dest L"
      have k: "?k < 2 ^ 32"
        using Some assms(2) unsigned_less [of "ihl H (take (iphdr_size H) (drop (ethhdr_size H) ?d))", where 'a = nat]
        by (auto simp: tcp_at_def small_layout_def Let_def split: if_splits)
      have o: "off = Some (of_nat o')" using Ok Some tcp_hdr_offset_reads [OF assms(1,2), of proto p] by (simp split: if_splits)
      have "word_of_le (rev (take 2 (drop ?k ?d))) = (push_bit 8 (ucast (?d ! ?k)) OR ucast (?d ! (?k + 1)) :: u16)" if "?k + 2 \<le> length ?d"
        using that by (simp add: take_Suc_conv_app_nth numeral_2_eq_2 Cons_nth_drop_Suc [symmetric] or.commute)
      then have ld: "skb_load B 2 (of_nat o' + of_nat (at_tcp_dest L)) p = (case dest_port H L ?e ?d of Some port \<Rightarrow> Ok port | None \<Rightarrow> Err LoadFailed)"
        using skb_load_reads [OF assms(1) k, of 2 p, where 'w = 16] Some by (simp add: dest_port_def Let_def)
      have "\<not> (?e = 0x86DD \<and> length ?d \<le> ethhdr_size H + at_nexthdr L)"
        using Ok tcp_hdr_offset_reads [OF assms(1,2), of proto p] by (simp split: if_splits)
      then have c: "cut_off H L ?e ?d \<longleftrightarrow> dest_port H L ?e ?d = None"
        using Some by (auto simp: cut_off_def dest_port_def Let_def)
      show ?thesis
        by (cases "dest_port H L ?e ?d"; cases "blocked_packets st (the (dest_port H L ?e ?d))")
          (simp_all add: block_ports_def and_do_def lock give_def Ok o ld trace_short c)
    qed
  next
    case (Err e)
    then show ?thesis using tcp_hdr_offset_reads [OF assms(1,2), of proto p]
      by (auto simp: block_ports_def and_do_def lock give_def dest_port_def tcp_at_def cut_off_def split: if_splits)
  qed (use tcp_hdr_offset_reads [OF assms(1,2), of proto p] in \<open>auto split: if_splits\<close>)
qed

text \<open>
  C29: over every sequence of packets, the classifier drops exactly the packets whose bytes are a
  TCP segment, over IPv4 with any options or over IPv6 without extension headers, to a port of
  the map. Every other packet gets \<open>TC_ACT_OK\<close>, except one that is cut off before the next
  header of IPv6 or the port, which gets \<open>TC_ACT_UNSPEC\<close>. The count of each port of the map
  grows by the number of packets to it, modulo \<open>2 ^ 64\<close>; no port enters or leaves the map,
  and no packet makes the program panic. The lock is there or can be made.
\<close>

theorem tc_drops_blocked:
  assumes "reads_skb B data" and "small_layout H L" and "spinlock st \<or> takes"
  shows "case tc_run B H L proto takes ps st of (rs, st') \<Rightarrow>
    rs = map (\<lambda>p. Ok (verdict H L proto data (\<lambda>n. blocked_packets st n \<noteq> None) p)) ps \<and>
    (\<forall>n. blocked_packets st' n = map_option (\<lambda>c. c + of_nat (length (filter (\<lambda>p. packet_port H L proto data p = Some n) ps))) (blocked_packets st n))"
  using assms(3)
proof (induction ps arbitrary: st)
  case Nil
  then show ?case by (simp add: option.map_ident)
next
  case (Cons p ps)
  obtain r st1 where s: "block_ports B H L proto takes p st = (r, st1)" by fastforce
  obtain rs st2 where t: "tc_run B H L proto takes ps st1 = (rs, st2)" by fastforce
  note step = block_ports_step [OF assms(1,2) Cons.prems, of proto p, folded packet_port_def, unfolded s]
  have IH: "rs = map (\<lambda>p. Ok (verdict H L proto data (\<lambda>n. blocked_packets st1 n \<noteq> None) p)) ps"
    "blocked_packets st2 n = map_option (\<lambda>c. c + of_nat (length (filter (\<lambda>p. packet_port H L proto data p = Some n) ps))) (blocked_packets st1 n)" for n
    using Cons.IH [of st1] step t by (auto split: option.splits)
  have "blocked_packets st1 n \<noteq> None \<longleftrightarrow> blocked_packets st n \<noteq> None" for n
    using step by (auto simp: bind_eq_Some_conv split: option.splits if_splits)
  then have "rs = map (\<lambda>p. Ok (verdict H L proto data (\<lambda>n. blocked_packets st n \<noteq> None) p)) ps" using IH(1) by simp
  moreover have "tc_action_return r = Ok (verdict H L proto data (\<lambda>n. blocked_packets st n \<noteq> None) p)"
    using step by (auto simp: verdict_def tc_action_return_def bind_eq_Some_conv bind_eq_None_conv split: option.splits if_splits)
  moreover have "blocked_packets st2 n =
      map_option (\<lambda>c. c + of_nat (length (filter (\<lambda>p. packet_port H L proto data p = Some n) (p # ps)))) (blocked_packets st n)" for n
    using step by (auto simp: IH(2) bind_eq_Some_conv bind_eq_None_conv split: option.splits)
  ultimately show ?case by (simp add: s t)
qed

text \<open>Two segments to port 80, of which the map has an entry, and one to port 81.\<close>

definition tc_helpers :: "bytes bpf_helpers" where
  "tc_helpers = \<lparr>map_lookup_elem = \<lambda>_ _ _. None, map_update_elem = \<lambda>s _ _ _ _. (0, s), map_delete_elem = \<lambda>s _ _. (0, s),
     perf_event_output = \<lambda>s _ _ _ _ _. (0, s), get_stackid = \<lambda>_ _ _. 0, tail_call_helper = \<lambda>_ _ _. 0, redirect_map = \<lambda>_ _ _ _. 0,
     sk_redirect_map = \<lambda>_ _ _ _. 0,
     skb_load_bytes = \<lambda>p off len. if unat off + unat len \<le> length p then (0, take (unat len) (drop (unat off) p)) else (- 14, [])\<rparr>"

definition tc_headers :: headers where
  "tc_headers = \<lparr>ethhdr_size = 14, iphdr_size = 20, tcphdr_size = 20, udphdr_size = 8, h_proto = \<lambda>_. 0, ihl = \<lambda>h. h ! 0 AND 15,
     protocol = \<lambda>h. h ! 9, doff = \<lambda>_. 5, tcp_source = \<lambda>_. 0, tcp_dest = \<lambda>_. 0, udp_source = \<lambda>_. 0, udp_dest = \<lambda>_. 0\<rparr>"

definition tc_layout :: skb_layout where
  "tc_layout = \<lparr>ip_version = \<lambda>h. drop_bit 4 (h ! 0), at_nexthdr = 6, ipv6hdr_size = 40, at_tcp_dest = 2\<rparr>"

definition tc_packet :: "u8 \<Rightarrow> bytes" where
  "tc_packet n = replicate 14 0 @ [0x45, 0, 0, 40, 0, 0, 0, 0, 64, 6, 0, 0, 10, 0, 0, 1, 10, 0, 0, 2] @ [0x30, 0x39, 0, n] @ replicate 16 0"

lemma tc_packet_port: "dest_port tc_headers tc_layout 0x0800 (tc_packet n) = Some (ucast n)"
  by (simp add: dest_port_def tcp_at_def tc_headers_def tc_layout_def tc_packet_def nth_append)

theorem tc_drops_blocked_witness:
  "fst (tc_run tc_helpers tc_headers tc_layout (\<lambda>_. 8) True [tc_packet 80, tc_packet 81, tc_packet 80, take 36 (tc_packet 80)]
     \<lparr>blocked_packets = [80 \<mapsto> 5], spinlock = False, tc_trace = []\<rparr>) = [Ok 2, Ok 0, Ok 2, Ok (-1)] \<and>
   blocked_packets (snd (tc_run tc_helpers tc_headers tc_layout (\<lambda>_. 8) True [tc_packet 80, tc_packet 81, tc_packet 80, take 36 (tc_packet 80)]
     \<lparr>blocked_packets = [80 \<mapsto> 5], spinlock = False, tc_trace = []\<rparr>)) 80 = Some 7"
proof -
  let ?c = "take 36 (tc_packet 80)"
  have be: "from_be16 (ucast (8 :: u32)) = 0x0800" by (simp add: from_be16_def)
  have e: "packet_port tc_headers tc_layout (\<lambda>_. 8) (\<lambda>p. p) (tc_packet n) = Some (ucast n)" for n
    using tc_packet_port [of n] be by (simp add: packet_port_def)
  have at: "tcp_at tc_headers tc_layout 0x0800 (tc_packet n) = Some 34" "tcp_at tc_headers tc_layout 0x0800 ?c = Some 34" for n
    by (simp_all add: tcp_at_def tc_headers_def tc_layout_def tc_packet_def nth_append)
  have len: "length (tc_packet n) = 54" "length ?c = 36" "at_tcp_dest tc_layout = 2" for n by (simp_all add: tc_packet_def tc_layout_def)
  have no: "packet_port tc_headers tc_layout (\<lambda>_. 8) (\<lambda>p. p) ?c = None"
    using at(2) len be by (simp add: packet_port_def dest_port_def)
  have cut: "\<not> cut_off tc_headers tc_layout 0x0800 (tc_packet n)" "cut_off tc_headers tc_layout 0x0800 ?c" for n
    using at len by (simp_all add: cut_off_def)
  have v: "verdict tc_headers tc_layout (\<lambda>_. 8) (\<lambda>p. p) b (tc_packet n) = (if b (ucast n) then 2 else 0)"
    "verdict tc_headers tc_layout (\<lambda>_. 8) (\<lambda>p. p) b ?c = -1" for b n
    using be by (simp_all add: verdict_def e no cut)
  have "reads_skb tc_helpers (\<lambda>p. p)" by (simp add: reads_skb_def tc_helpers_def)
  moreover have "small_layout tc_headers tc_layout" by (simp add: small_layout_def tc_headers_def tc_layout_def)
  ultimately show ?thesis
    using tc_drops_blocked [of tc_helpers "\<lambda>p. p" tc_headers tc_layout "\<lparr>blocked_packets = [80 \<mapsto> 5], spinlock = False, tc_trace = []\<rparr>" True
        "\<lambda>_. 8" "[tc_packet 80, tc_packet 81, tc_packet 80, ?c]"]
    by (simp add: e v no case_prod_beta)
qed

end
