(* ===== verification/Example_Lifetime.thy ===== *)
theory Example_Lifetime
  imports Example_Tc
begin

text \<open>
  The example \<open>tcp_lifetime\<close> (\<open>examples/example-probes/src/tcp_lifetime\<close>): a socket filter that
  reports how long a TCP connection lasted. The main lemma says which reports a sequence of
  packets gives, in terms of the segments in their bytes.
\<close>

record SocketAddr =
  sa_addr :: u32
  sa_port :: u16

record TCPLifetime =
  tl_src :: SocketAddr
  tl_dst :: SocketAddr
  tl_duration :: u64

text \<open>Offsets in the headers of the kernel and the fields of their bit fields.\<close>

record lifetime_layout =
  eth_len :: nat
  at_h_proto :: nat
  at_protocol :: nat
  at_saddr :: nat
  at_daddr :: nat
  at_source :: nat
  at_dest :: nat
  at_bits :: nat
  bf_version :: "u8 \<Rightarrow> u8"
  bf_ihl :: "u8 \<Rightarrow> u8"
  bf_syn :: "u8 \<Rightarrow> u8 \<Rightarrow> u16"
  bf_fin :: "u8 \<Rightarrow> u8 \<Rightarrow> u16"
  bf_rst :: "u8 \<Rightarrow> u8 \<Rightarrow> u16"

record lifetime_state =
  established :: "SocketAddr \<times> SocketAddr \<Rightarrow> u64 option"
  lifetimes :: "TCPLifetime list"

type_synonym 'a lifetime_step = "(lifetime_state, SocketError, 'a) step"

section \<open>The filter\<close>

definition load_addr :: "'p bpf_helpers \<Rightarrow> u64 \<Rightarrow> u64 \<Rightarrow> 'p \<Rightarrow> (SocketError, SocketAddr) outcome" where
  "load_addr B at_addr at_port p =
     and_then (skb_load B 4 at_addr p) (\<lambda>addr. and_then (skb_load B 2 at_port p) (\<lambda>port. Ok \<lparr>sa_addr = addr, sa_port = port\<rparr>))"

text \<open>
  The map of connections: which updates it takes, and what is read through a pointer to a
  value whose entry has been deleted meanwhile, given the state after the deletion, the key
  and the value that was there.
\<close>

record lifetime_map =
  takes :: "lifetime_state \<Rightarrow> SocketAddr \<times> SocketAddr \<Rightarrow> bool"
  after_delete :: "lifetime_state \<Rightarrow> SocketAddr \<times> SocketAddr \<Rightarrow> u64 \<Rightarrow> u64"

text \<open>
  What follows the parsing: the time of a SYN is noted, and a FIN or RST reports the time
  since. The entry is deleted before the time in it is read.
\<close>

definition note_segment ::
    "lifetime_map \<Rightarrow> u64 \<Rightarrow> u64 \<Rightarrow> SocketAddr \<times> SocketAddr \<Rightarrow> bool \<Rightarrow> bool \<Rightarrow> lifetime_state \<Rightarrow> lifetime_state" where
  "note_segment M t1 t2 pair is_syn ends st =
     (let st = (if is_syn then st\<lparr>established := map_set (takes M st pair) pair t1 (established st)\<rparr> else st)
      in if ends then
           (case established st pair of
              Some estab_ts \<Rightarrow>
                (let st = st\<lparr>established := (established st)(pair := None)\<rparr>
                 in st\<lparr>lifetimes := lifetimes st @
                      [\<lparr>tl_src = fst pair, tl_dst = snd pair, tl_duration = t2 - after_delete M st pair estab_ts\<rparr>]\<rparr>)
            | None \<Rightarrow> st)
         else st)"

definition measure_tcp_lifetime ::
    "'p bpf_helpers \<Rightarrow> lifetime_layout \<Rightarrow> lifetime_map \<Rightarrow> u64 \<Rightarrow> u64 \<Rightarrow> 'p \<Rightarrow> SkBuffAction lifetime_step" where
  "measure_tcp_lifetime B L M t1 t2 p =
     and_do (give (skb_load B 2 (of_nat (at_h_proto L)) p)) (\<lambda>eth_proto :: u16.
     if (ucast eth_proto :: u32) \<noteq> ETH_IP then give (Ok Ignore)
     else
     and_do (give (skb_load B 1 (of_nat (eth_len L + at_protocol L)) p)) (\<lambda>ip_proto :: u8.
     if (ucast ip_proto :: u32) \<noteq> IPPROTO_TCP then give (Ok Ignore)
     else
     and_do (give (skb_load B 1 (of_nat (eth_len L)) p)) (\<lambda>bits :: u8.
     if bf_version L bits \<noteq> 4 then give (Ok Ignore)
     else
       let tcp = eth_len L + unat (bf_ihl L bits) * 4
       in and_do (give (load_addr B (of_nat (eth_len L + at_saddr L)) (of_nat (tcp + at_source L)) p)) (\<lambda>src.
          and_do (give (load_addr B (of_nat (eth_len L + at_daddr L)) (of_nat (tcp + at_dest L)) p)) (\<lambda>dst.
          and_do (give (skb_load B 1 (of_nat (tcp + at_bits L)) p)) (\<lambda>b0.
          and_do (give (skb_load B 1 (of_nat (tcp + at_bits L + 1)) p)) (\<lambda>b1 st.
          (Ok Ignore, note_segment M t1 t2 (src, dst) (bf_syn L b0 b1 = 1) (bf_fin L b0 b1 = 1 \<or> bf_rst L b0 b1 = 1) st))))))))"

text \<open>Packets with the times that the clock shows while each is handled.\<close>

fun lifetime_run :: "'p bpf_helpers \<Rightarrow> lifetime_layout \<Rightarrow> lifetime_map \<Rightarrow> (u64 \<times> u64 \<times> 'p) list \<Rightarrow> lifetime_state \<Rightarrow>
    (unit, int) outcome list \<times> lifetime_state" where
  "lifetime_run B L M [] st = ([], st)"
| "lifetime_run B L M ((t1, t2, p) # ps) st =
     (case measure_tcp_lifetime B L M t1 t2 p st of (r, st') \<Rightarrow>
        case lifetime_run B L M ps st' of (rs, st'') \<Rightarrow> (socket_filter_return r # rs, st''))"

section \<open>Segments\<close>

text \<open>A number of \<open>n\<close> bytes in the order of the network, if the packet has them.\<close>

definition be_at :: "nat \<Rightarrow> bytes \<Rightarrow> nat \<Rightarrow> 'w::len word option" where
  "be_at n d k = (if k + n \<le> length d then Some (word_of_le (rev (take n (drop k d)))) else None)"

record segment =
  sg_pair :: "SocketAddr \<times> SocketAddr"
  sg_syn :: bool
  sg_ends :: bool

definition addr_at :: "bytes \<Rightarrow> nat \<Rightarrow> nat \<Rightarrow> SocketAddr option" where
  "addr_at d k l = Option.bind (be_at 4 d k) (\<lambda>a. map_option (\<lambda>p. \<lparr>sa_addr = a, sa_port = p\<rparr>) (be_at 2 d l))"

definition tcp_segment :: "lifetime_layout \<Rightarrow> bytes \<Rightarrow> segment option" where
  "tcp_segment L d =
     (case (be_at 2 d (at_h_proto L) :: u16 option, be_at 1 d (eth_len L + at_protocol L) :: u8 option, be_at 1 d (eth_len L)) of
        (Some et, Some pr, Some bits) \<Rightarrow>
          if et = 0x0800 \<and> pr = 6 \<and> bf_version L bits = 4 then
            (let tcp = eth_len L + 4 * unat (bf_ihl L bits)
             in case (addr_at d (eth_len L + at_saddr L) (tcp + at_source L), addr_at d (eth_len L + at_daddr L) (tcp + at_dest L),
                      be_at 1 d (tcp + at_bits L), be_at 1 d (tcp + at_bits L + 1)) of
                  (Some src, Some dst, Some b0, Some b1) \<Rightarrow>
                    Some \<lparr>sg_pair = (src, dst), sg_syn = (bf_syn L b0 b1 = 1), sg_ends = (bf_fin L b0 b1 = 1 \<or> bf_rst L b0 b1 = 1)\<rparr>
                | _ \<Rightarrow> None)
          else None
      | _ \<Rightarrow> None)"

text \<open>When the connection of a pair began, the last packet first, and what a packet reports.\<close>

fun began :: "(u64 \<times> u64 \<times> segment option) list \<Rightarrow> SocketAddr \<times> SocketAddr \<Rightarrow> u64 option" where
  "began [] pair = None"
| "began ((t1, t2, seg) # past) pair =
     (case seg of
        Some s \<Rightarrow> if sg_pair s \<noteq> pair then began past pair else if sg_ends s then None else if sg_syn s then Some t1 else began past pair
      | None \<Rightarrow> began past pair)"

definition reported :: "(u64 \<times> u64 \<times> segment option) list \<Rightarrow> u64 \<times> u64 \<times> segment option \<Rightarrow> TCPLifetime list" where
  "reported past x = (case x of
     (t1, t2, Some s) \<Rightarrow>
       if sg_ends s then
         (case if sg_syn s then Some t1 else began past (sg_pair s) of
            Some t \<Rightarrow> [\<lparr>tl_src = fst (sg_pair s), tl_dst = snd (sg_pair s), tl_duration = t2 - t\<rparr>]
          | None \<Rightarrow> [])
       else []
   | _ \<Rightarrow> [])"

fun reports :: "(u64 \<times> u64 \<times> segment option) list \<Rightarrow> (u64 \<times> u64 \<times> segment option) list \<Rightarrow> TCPLifetime list" where
  "reports past [] = []"
| "reports past (x # xs) = reported past x @ reports (x # past) xs"

definition small_offsets :: "lifetime_layout \<Rightarrow> bool" where
  "small_offsets L \<longleftrightarrow>
     eth_len L + at_h_proto L + at_protocol L + at_saddr L + at_daddr L + at_source L + at_dest L + at_bits L + 1024 < 2 ^ 32"

lemma skb_load_be_at:
  assumes "reads_skb B data" "off < 2 ^ 32" "n < 2 ^ 32"
  shows "skb_load B n (of_nat off) p = (case be_at n (data p) off of Some w \<Rightarrow> Ok w | None \<Rightarrow> Err LoadFailed)"
  by (simp add: skb_load_reads [OF assms] be_at_def)

lemma load_addr_at:
  assumes "reads_skb B data" "k < 2 ^ 32" "l < 2 ^ 32"
  shows "load_addr B (of_nat k) (of_nat l) p = (case addr_at (data p) k l of Some a \<Rightarrow> Ok a | None \<Rightarrow> Err LoadFailed)"
  using assms by (simp add: load_addr_def skb_load_be_at [OF assms(1)] addr_at_def split: option.splits)

lemma and_do_load:
  "and_do (give (case x of Some w \<Rightarrow> Ok w | None \<Rightarrow> Err e)) f = (case x of Some w \<Rightarrow> f w | None \<Rightarrow> give (Err e))"
  by (cases x) simp_all

lemma measure_step:
  assumes "reads_skb B data" "small_offsets L"
  shows "case tcp_segment L (data p) of
      Some s \<Rightarrow> measure_tcp_lifetime B L M t1 t2 p st = (Ok Ignore, note_segment M t1 t2 (sg_pair s) (sg_syn s) (sg_ends s) st)
    | None \<Rightarrow> \<exists>r \<in> {Ok Ignore, Err LoadFailed}. measure_tcp_lifetime B L M t1 t2 p st = (r, st)"
proof -
  have b: "eth_len L + unat (bf_ihl L x) * 4 + at_source L < 2 ^ 32" "eth_len L + unat (bf_ihl L x) * 4 + at_dest L < 2 ^ 32"
    "eth_len L + unat (bf_ihl L x) * 4 + at_bits L + 1 < 2 ^ 32" for x
    using assms(2) unsigned_less [of "bf_ihl L x", where 'a = nat] by (simp_all add: small_offsets_def)
  have c: "at_h_proto L < 2 ^ 32" "eth_len L + at_protocol L < 2 ^ 32" "eth_len L < 2 ^ 32" "eth_len L + at_saddr L < 2 ^ 32"
    "eth_len L + at_daddr L < 2 ^ 32" "eth_len L + unat (bf_ihl L x) * 4 + at_bits L < 2 ^ 32" for x
    using assms(2) b(3) [of x] by (simp_all add: small_offsets_def)
  have u: "(ucast x :: u32) = 0x800 \<longleftrightarrow> x = 0x0800" "(ucast y :: u32) = 6 \<longleftrightarrow> y = 6" for x :: u16 and y :: u8
    by (simp_all add: word_unat_eq_iff)
  have n: "(1 :: nat) < 2 ^ 32" "(2 :: nat) < 2 ^ 32" by simp_all
  note ld = skb_load_be_at [OF assms(1) c(1) n(2)] skb_load_be_at [OF assms(1) c(2) n(1)] skb_load_be_at [OF assms(1) c(3) n(1)]
    skb_load_be_at [OF assms(1) b(3) n(1)] skb_load_be_at [OF assms(1) c(6) n(1)]
    load_addr_at [OF assms(1) c(4) b(1)] load_addr_at [OF assms(1) c(5) b(2)]
  show ?thesis
    unfolding measure_tcp_lifetime_def Let_def tcp_segment_def ld and_do_load u
    by (auto simp: mult.commute give_def split: option.splits)
qed

section \<open>Which reports there are\<close>

definition timed :: "lifetime_layout \<Rightarrow> ('p \<Rightarrow> bytes) \<Rightarrow> u64 \<times> u64 \<times> 'p \<Rightarrow> u64 \<times> u64 \<times> segment option" where
  "timed L data x = (case x of (t1, t2, p) \<Rightarrow> (t1, t2, tcp_segment L (data p)))"

text \<open>
  A report and the one it should be: the same ends, and the same duration if the memory of
  a deleted entry keeps its value.
\<close>

definition same_report :: "lifetime_map \<Rightarrow> TCPLifetime \<Rightarrow> TCPLifetime \<Rightarrow> bool" where
  "same_report M a b \<longleftrightarrow> tl_src a = tl_src b \<and> tl_dst a = tl_dst b \<and> ((\<forall>st k v. after_delete M st k v = v) \<longrightarrow> a = b)"

lemma note_segment_reported:
  assumes "\<And>st k. takes M st k" "established st = began past"
  shows "established (note_segment M t1 t2 (sg_pair s) (sg_syn s) (sg_ends s) st) = began ((t1, t2, Some s) # past)"
    and "\<exists>new. lifetimes (note_segment M t1 t2 (sg_pair s) (sg_syn s) (sg_ends s) st) = lifetimes st @ new \<and>
      list_all2 (same_report M) new (reported past (t1, t2, Some s))"
proof -
  have free: "(\<forall>st k v. after_delete M st k v = v) \<longrightarrow> after_delete M st' k' v' = v'" for st' k' v' by blast
  show "established (note_segment M t1 t2 (sg_pair s) (sg_syn s) (sg_ends s) st) = began ((t1, t2, Some s) # past)"
    using assms by (auto simp: note_segment_def map_set_def Let_def intro!: ext split: option.splits)
  show "\<exists>new. lifetimes (note_segment M t1 t2 (sg_pair s) (sg_syn s) (sg_ends s) st) = lifetimes st @ new \<and>
      list_all2 (same_report M) new (reported past (t1, t2, Some s))"
    using assms free
    by (auto simp: note_segment_def map_set_def reported_def same_report_def Let_def simp del: split_paired_All split: option.splits)
qed

lemma lifetime_run_reports:
  assumes "reads_skb B data" "small_offsets L" "\<And>st k. takes M st k" "established st = began past"
  shows "case lifetime_run B L M ps st of (rs, st') \<Rightarrow>
    rs = replicate (length ps) (Ok 0) \<and>
    (\<exists>new. lifetimes st' = lifetimes st @ new \<and> list_all2 (same_report M) new (reports past (map (timed L data) ps)))"
  using assms(4)
proof (induction ps arbitrary: st past)
  case (Cons x ps)
  obtain t1 t2 p where x: "x = (t1, t2, p)" by (cases x) auto
  obtain r st1 where r: "measure_tcp_lifetime B L M t1 t2 p st = (r, st1)" by fastforce
  have "established st1 = began (timed L data x # past) \<and> socket_filter_return r = Ok 0 \<and>
      (\<exists>new. lifetimes st1 = lifetimes st @ new \<and> list_all2 (same_report M) new (reported past (timed L data x)))"
  proof (cases "tcp_segment L (data p)")
    case None
    then have "st1 = st" "socket_filter_return r = Ok 0"
      using measure_step [OF assms(1,2), where p = p and M = M and st = st and ?t1.0 = t1 and ?t2.0 = t2] r
      by (auto simp: socket_filter_return_def)
    then show ?thesis using None Cons.prems by (auto simp: timed_def x reported_def)
  next
    case (Some s)
    then have "st1 = note_segment M t1 t2 (sg_pair s) (sg_syn s) (sg_ends s) st" "socket_filter_return r = Ok 0"
      using measure_step [OF assms(1,2), where p = p and M = M and st = st and ?t1.0 = t1 and ?t2.0 = t2] r
      by (auto simp: socket_filter_return_def)
    then show ?thesis
      using Some note_segment_reported [where M = M, OF assms(3) Cons.prems, of t1 t2 s] by (simp add: timed_def x del: began.simps)
  qed
  then show ?case using Cons.IH [of st1 "timed L data x # past"]
    by (fastforce simp: x r intro: list_all2_appendI split: prod.splits)
qed simp

text \<open>
  C28: over every sequence of packets, as long as the map takes new entries, the filter reports
  exactly the ends of the connections that it saw begin: one report for every FIN or RST of
  a pair of addresses whose last SYN came after the last FIN or RST of that pair, and nothing
  for other packets. The time in the report is the time from that SYN on provided that the
  memory of an entry keeps its value after the entry was deleted, since the filter reads it
  only then. Every packet is kept from the socket.
\<close>

theorem lifetimes_measured:
  assumes "reads_skb B data" and "small_offsets L" and "\<And>st k. takes M st k"
  shows "case lifetime_run B L M ps \<lparr>established = Map.empty, lifetimes = []\<rparr> of (rs, st') \<Rightarrow>
    rs = replicate (length ps) (Ok 0) \<and>
    map (\<lambda>r. (tl_src r, tl_dst r)) (lifetimes st') = map (\<lambda>r. (tl_src r, tl_dst r)) (reports [] (map (timed L data) ps)) \<and>
    ((\<forall>st k v. after_delete M st k v = v) \<longrightarrow> lifetimes st' = reports [] (map (timed L data) ps))"
proof -
  have same: "map (\<lambda>r. (tl_src r, tl_dst r)) as = map (\<lambda>r. (tl_src r, tl_dst r)) bs \<and> ((\<forall>st k v. after_delete M st k v = v) \<longrightarrow> as = bs)"
    if "list_all2 (same_report M) as bs" for as bs
    using that by (induction rule: list_all2_induct) (auto simp: same_report_def)
  have "established \<lparr>established = Map.empty, lifetimes = []\<rparr> = began []" by (rule ext) simp
  from lifetime_run_reports [where M = M and ps = ps, OF assms this] show ?thesis
    by (auto dest: same split: prod.splits)
qed

text \<open>A SYN at time 100 and a FIN at time 350.\<close>

definition lf_layout :: lifetime_layout where
  "lf_layout = \<lparr>eth_len = 14, at_h_proto = 12, at_protocol = 9, at_saddr = 12, at_daddr = 16, at_source = 0, at_dest = 2, at_bits = 12,
     bf_version = drop_bit 4, bf_ihl = \<lambda>b. b AND 15, bf_syn = \<lambda>_ b. ucast (drop_bit 1 b AND 1), bf_fin = \<lambda>_ b. ucast (b AND 1),
     bf_rst = \<lambda>_ b. ucast (drop_bit 2 b AND 1)\<rparr>"

definition lf_packet :: "u8 \<Rightarrow> bytes" where
  "lf_packet fl = replicate 12 0 @ [8, 0] @ [0x45, 0, 0, 40, 0, 0, 0, 0, 64, 6, 0, 0, 10, 0, 0, 1, 10, 0, 0, 2] @
     [0x30, 0x39, 0, 80, 0, 0, 0, 0, 0, 0, 0, 0, 0x50, fl] @ replicate 6 0"

definition lf_pair :: "SocketAddr \<times> SocketAddr" where
  "lf_pair = (\<lparr>sa_addr = 0x0a000001, sa_port = 12345\<rparr>, \<lparr>sa_addr = 0x0a000002, sa_port = 80\<rparr>)"

lemma lf_segments:
  "tcp_segment lf_layout (lf_packet 2) = Some \<lparr>sg_pair = lf_pair, sg_syn = True, sg_ends = False\<rparr>"
  "tcp_segment lf_layout (lf_packet 1) = Some \<lparr>sg_pair = lf_pair, sg_syn = False, sg_ends = True\<rparr>"
  by (simp_all add: tcp_segment_def be_at_def addr_at_def lf_layout_def lf_packet_def lf_pair_def Let_def)

theorem lifetimes_measured_witness:
  "map tl_duration (lifetimes (snd (lifetime_run tc_helpers lf_layout \<lparr>takes = \<lambda>_ _. True, after_delete = \<lambda>_ _ v. v\<rparr>
     [(100, 101, lf_packet 2), (340, 350, lf_packet 1)] \<lparr>established = Map.empty, lifetimes = []\<rparr>))) = [250]"
proof -
  let ?M = "\<lparr>takes = \<lambda>_ _. True, after_delete = \<lambda>_ _ v. v\<rparr>"
  have "reads_skb tc_helpers (\<lambda>p. p)" by (simp add: reads_skb_def tc_helpers_def)
  moreover have "small_offsets lf_layout" by (simp add: small_offsets_def lf_layout_def)
  ultimately show ?thesis
    using lifetimes_measured [of tc_helpers "\<lambda>p. p" lf_layout ?M "[(100, 101, lf_packet 2), (340, 350, lf_packet 1)]"]
    by (simp add: case_prod_beta timed_def lf_segments reported_def)
qed

text \<open>A map that reuses the memory at once: the report of the same connection has the time of another one.\<close>

lemma reused_entry_misread:
  "map tl_duration (lifetimes (note_segment \<lparr>takes = \<lambda>_ _. True, after_delete = \<lambda>_ _ _. 345\<rparr> 340 350 pair False True
     \<lparr>established = [pair \<mapsto> 100], lifetimes = []\<rparr>)) = [5]"
  by (simp add: note_segment_def)

end
