(* ===== verification/Example_Trace.thy ===== *)
theory Example_Trace
  imports Tool_Iotop Probe_Macros Steps
begin

text \<open>
  The examples that trace the kernel (\<open>examples/example-probes/src\<close>): the histograms of
  \<open>biolatpcts\<close>, the counts of allocations of \<open>hashmaps\<close>, the latencies of \<open>vfsreadlat\<close> with the
  ranges that \<open>examples/example-userspace/examples/vfsreadlat.rs\<close> sorts them into, the totals of
  \<open>mallocstacks.rs\<close>, the sum of \<open>bounded_loop\<close> and the verdict of \<open>echo\<close>.
\<close>

section \<open>Latencies of requests\<close>

text \<open>The per-CPU arrays of 100 slots, by CPU.\<close>

record lat_state =
  lat_100ms :: "nat \<Rightarrow> u64 list"
  lat_1ms :: "nat \<Rightarrow> u64 list"
  lat_10us :: "nat \<Rightarrow> u64 list"

abbreviation (input) NSEC_PER_MSEC :: u32 where "NSEC_PER_MSEC \<equiv> 1000000"
abbreviation (input) NSEC_PER_USEC :: u32 where "NSEC_PER_USEC \<equiv> 1000"

text \<open>\<open>PerCpuArray::get_mut\<close> of a slot and the increment; a slot that is not there is left out.\<close>

definition count_slot :: "nat \<Rightarrow> u64 \<Rightarrow> (nat \<Rightarrow> u64 list) \<Rightarrow> nat \<Rightarrow> u64 list" where
  "count_slot cpu i lat =
     (let k = unat (ucast i :: u32); a = lat cpu in if k < length a then lat(cpu := a[k := a ! k + 1]) else lat)"

definition lat_slot :: "u64 \<Rightarrow> u64 \<Rightarrow> u64" where
  "lat_slot dur width = min (dur div width) 99"

definition account_io_done :: "nat \<Rightarrow> u64 option \<Rightarrow> u64 \<Rightarrow> (lat_state, unit, unit) step" where
  "account_io_done cpu start_time now =
     and_do (give (unwrap start_time)) (\<lambda>stime.
     if stime = 0 then give (Ok ())
     else
       let dur = now - stime; s100 = lat_slot dur (ucast (100 * NSEC_PER_MSEC));
           s1 = lat_slot dur (ucast NSEC_PER_MSEC); s10 = lat_slot dur (ucast (10 * NSEC_PER_USEC))
       in (\<lambda>st. let st = st\<lparr>lat_100ms := count_slot cpu s100 (lat_100ms st)\<rparr>
          in if 0 < s100 then (Ok (), st)
             else let st = st\<lparr>lat_1ms := count_slot cpu s1 (lat_1ms st)\<rparr>
               in if 0 < s1 then (Ok (), st)
                  else (Ok (), st\<lparr>lat_10us := count_slot cpu s10 (lat_10us st)\<rparr>)))"

fun lat_run :: "(nat \<times> u64 \<times> u64) list \<Rightarrow> lat_state \<Rightarrow> (unit, unit) outcome \<times> lat_state" where
  "lat_run [] st = (Ok (), st)"
| "lat_run ((cpu, stime, now) # es) st = and_do (account_io_done cpu (Some stime) now) (\<lambda>_. lat_run es) st"

section \<open>Allocations\<close>

text \<open>The loop that looks for the class of a size.\<close>

fun kmalloc_loop :: "nat \<Rightarrow> nat \<Rightarrow> u64 \<Rightarrow> u64" where
  "kmalloc_loop x 0 sz = 9999"
| "kmalloc_loop x (Suc n) sz =
     (let sz = drop_bit 1 sz in if sz = 0 then 2 ^ x - 1 else kmalloc_loop (x + 1) n sz)"

definition kmalloc_class :: "u64 \<Rightarrow> u64" where
  "kmalloc_class sz = kmalloc_loop 1 12 sz"

record alloc_state =
  pcpu_mem_alloc :: "u64 \<Rightarrow> (nat \<Rightarrow> u64) option"
  mem_alloc :: "u64 \<Rightarrow> u64 option"

text \<open>
  \<open>takes\<close> says whether a map takes a new key. A new entry of the per-CPU map is zero on the
  other CPUs.
\<close>

definition kmalloc :: "((u64 \<Rightarrow> bool) \<Rightarrow> bool) \<Rightarrow> nat \<Rightarrow> u64 \<Rightarrow> (alloc_state, unit, unit) step" where
  "kmalloc takes cpu sz st =
     (let k = kmalloc_class sz
      in case pcpu_mem_alloc st k of
           Some counts \<Rightarrow>
             let st = st\<lparr>pcpu_mem_alloc := (pcpu_mem_alloc st)(k \<mapsto> counts(cpu := counts cpu + 1))\<rparr>
             in (case mem_alloc st k of
                   Some cnt \<Rightarrow> (Ok (), st\<lparr>mem_alloc := (mem_alloc st)(k \<mapsto> cnt + 1)\<rparr>)
                 | None \<Rightarrow> (Panic, st))
         | None \<Rightarrow>
             (Ok (), st\<lparr>pcpu_mem_alloc := map_set (takes (\<lambda>k. pcpu_mem_alloc st k \<noteq> None)) k ((\<lambda>_. 0)(cpu := 1)) (pcpu_mem_alloc st),
                        mem_alloc := map_set (takes (\<lambda>k. mem_alloc st k \<noteq> None)) k 1 (mem_alloc st)\<rparr>))"

text \<open>
  The large structures: one of scratch space per CPU, and those that were set under a random
  key. What an LRU map drops when it is full is up to the kernel.
\<close>

record BigStructure =
  bs_f1 :: u64
  bs_f2 :: "u64 list"

record big_state =
  alt_stack :: "nat \<Rightarrow> BigStructure option"
  big_struct :: "8 word \<Rightarrow> BigStructure option"

type_synonym lru = "(8 word \<Rightarrow> BigStructure option) \<Rightarrow> 8 word \<Rightarrow> BigStructure \<Rightarrow> 8 word \<Rightarrow> BigStructure option"

definition fill_f2 :: "BigStructure \<Rightarrow> BigStructure" where
  "fill_f2 b = b\<lparr>bs_f2 := fold (\<lambda>x a. a[x := of_nat x]) [0..<100] (bs_f2 b)\<rparr>"

definition sched_fork :: "lru \<Rightarrow> nat \<Rightarrow> u32 \<Rightarrow> (big_state, unit, unit) step" where
  "sched_fork lru_set cpu rnd st =
     (let rnd_key = ucast (rnd AND 0xff)
      in case big_struct st rnd_key of
           Some b \<Rightarrow>
             let b = b\<lparr>bs_f2 := (bs_f2 b)[99 := 99]\<rparr>; held = (big_struct st)(rnd_key \<mapsto> b)
             in (Ok (), st\<lparr>big_struct := lru_set held rnd_key b\<rparr>)
         | None \<Rightarrow>
             (case alt_stack st cpu of
                None \<Rightarrow> (Panic, st)
              | Some b \<Rightarrow>
                  let b = fill_f2 b
                  in (Ok (), st\<lparr>alt_stack := (alt_stack st)(cpu \<mapsto> b), big_struct := lru_set (big_struct st) rnd_key b\<rparr>)))"

fun kmalloc_run :: "((u64 \<Rightarrow> bool) \<Rightarrow> bool) \<Rightarrow> (nat \<times> u64) list \<Rightarrow> (alloc_state, unit, unit) step" where
  "kmalloc_run takes [] st = (Ok (), st)"
| "kmalloc_run takes ((cpu, sz) # es) st = and_do (kmalloc takes cpu sz) (\<lambda>_. kmalloc_run takes es) st"

section \<open>Latencies of reads\<close>

record VFSEvent =
  ve_pid :: u64
  ve_tgid :: u64
  ve_timestamp :: u64
  ve_latency :: u64

record vfs_state =
  vfs_timestamp :: "u64 \<Rightarrow> VFSEvent option"
  vfs_reports :: "VFSEvent list"

definition vfs_read_enter :: "(vfs_state \<Rightarrow> u64 \<Rightarrow> bool) \<Rightarrow> u64 \<Rightarrow> u64 \<Rightarrow> vfs_state \<Rightarrow> vfs_state" where
  "vfs_read_enter takes pid_tgid now st =
     (let pid = pid_tgid AND 0xFFFFFFFF; tgid = drop_bit 32 pid_tgid
      in st\<lparr>vfs_timestamp := map_set (takes st tgid) tgid
            \<lparr>ve_pid = pid, ve_tgid = tgid, ve_timestamp = now, ve_latency = 0\<rparr> (vfs_timestamp st)\<rparr>)"

text \<open>The entry is deleted before it is read; \<open>freed\<close> is what the pointer finds then, given the state, the key and the old value.\<close>

definition vfs_read_exit :: "(vfs_state \<Rightarrow> u64 \<Rightarrow> VFSEvent \<Rightarrow> VFSEvent) \<Rightarrow> u64 \<Rightarrow> u64 \<Rightarrow> vfs_state \<Rightarrow> vfs_state" where
  "vfs_read_exit freed pid_tgid now st =
     (let tgid = drop_bit 32 pid_tgid
      in case vfs_timestamp st tgid of
           Some event \<Rightarrow>
             (let st = st\<lparr>vfs_timestamp := (vfs_timestamp st)(tgid := None)\<rparr>; event = freed st tgid event
              in st\<lparr>vfs_reports := vfs_reports st @ [event\<lparr>ve_latency := now - ve_timestamp event\<rparr>]\<rparr>)
         | None \<Rightarrow> st)"

text \<open>The range of a report in milliseconds.\<close>

definition latency_range :: "VFSEvent \<Rightarrow> string" where
  "latency_range vev =
     (let latency = ve_latency vev div 1000000
      in if latency < 1 then ''~ 0''
         else if 1 \<le> latency \<and> latency < 10 then ''1 ~ 10''
         else if 10 \<le> latency \<and> latency < 100 then ''10 ~ 100''
         else ''100 ~'')"

section \<open>Stacks of allocations, a sum and a verdict\<close>

record MallocEvent =
  mv_stackid :: "64 word"
  mv_size :: u64

text \<open>The probe: an event is sent when the kernel gives the number of the stack.\<close>

definition malloc_probe :: "'s bpf_helpers \<Rightarrow> u64 \<Rightarrow> u64 \<Rightarrow> 's \<Rightarrow> MallocEvent list \<Rightarrow> (unit, MallocEvent list) outcome" where
  "malloc_probe B def parm1 s sent =
     (let mev = \<lparr>mv_stackid = 0, mv_size = parm1\<rparr>
      in case stack_id B def 256 s of
           Ok stackid \<Rightarrow> Ok (sent @ [mev\<lparr>mv_stackid := word_of_int stackid\<rparr>])
         | Err _ \<Rightarrow> Ok sent | Panic \<Rightarrow> Panic | Undefined \<Rightarrow> Undefined)"

record 'f AllocSize =
  al_size :: u64
  al_count :: u64
  al_frames :: 'f

definition handle_malloc_event :: "(64 word \<Rightarrow> 'f option) \<Rightarrow> MallocEvent \<Rightarrow> (64 word \<Rightarrow> 'f AllocSize option) \<Rightarrow> 64 word \<Rightarrow> 'f AllocSize option" where
  "handle_malloc_event frames_of mev acc =
     (case acc (mv_stackid mev) of
        Some a \<Rightarrow> acc(mv_stackid mev \<mapsto> a\<lparr>al_size := al_size a + mv_size mev, al_count := al_count a + 1\<rparr>)
      | None \<Rightarrow>
          (case frames_of (mv_stackid mev) of
             Some frames \<Rightarrow> acc(mv_stackid mev \<mapsto> \<lparr>al_size = mv_size mev, al_count = 1, al_frames = frames\<rparr>)
           | None \<Rightarrow> acc))"

text \<open>The array has a fixed number of elements; the first one is the sum.\<close>

fun sum_loop :: "nat \<Rightarrow> nat \<Rightarrow> u64 list \<Rightarrow> (unit, u64 list) outcome" where
  "sum_loop 0 idx a = Ok a"
| "sum_loop (Suc n) idx a = and_then (index a idx) (\<lambda>v. sum_loop n (idx + 1) (a[0 := a ! 0 + v]))"

definition bounded_loop :: "u64 list \<Rightarrow> (unit, u64 list) outcome" where
  "bounded_loop a = and_then (index a 0) (\<lambda>_. sum_loop 999 1 a)"

definition echo_verdict :: "'s bpf_helpers \<Rightarrow> (u32 \<times> u32 \<Rightarrow> u32 option) \<Rightarrow> u64 \<Rightarrow> u32 \<Rightarrow> u32 \<Rightarrow> 's \<Rightarrow> (unit, SkAction) outcome" where
  "echo_verdict B idx_map def addr port s =
     (case idx_map (addr, port) of
        None \<Rightarrow> Ok SkDrop
      | Some idx \<Rightarrow>
          (case sock_map_redirect B def idx s of
             Ok _ \<Rightarrow> Ok SkPass | Err _ \<Rightarrow> Ok SkDrop | Panic \<Rightarrow> Panic | Undefined \<Rightarrow> Undefined))"

section \<open>Histograms\<close>

text \<open>The durations of the requests that are counted on a CPU, and the numbers of them by slot.\<close>

fun durations :: "nat \<Rightarrow> (nat \<times> u64 \<times> u64) list \<Rightarrow> u64 list" where
  "durations cpu [] = []"
| "durations cpu ((c, stime, now) # es) = (if c = cpu \<and> stime \<noteq> 0 then [now - stime] else []) @ durations cpu es"

definition histogram :: "nat \<Rightarrow> nat \<Rightarrow> u64 list \<Rightarrow> u64 list" where
  "histogram bound width ds =
     map (\<lambda>k. of_nat (length (filter (\<lambda>d. unat d < bound \<and> min (unat d div width) 99 = k) ds))) [0..<100]"

definition lat_zero :: lat_state where
  "lat_zero = \<lparr>lat_100ms = \<lambda>_. replicate 100 0, lat_1ms = \<lambda>_. replicate 100 0, lat_10us = \<lambda>_. replicate 100 0\<rparr>"

lemma unat_lat_slot: "unat w = n \<Longrightarrow> unat (lat_slot d w) = min (unat d div n) 99"
  by (auto simp: lat_slot_def min_def word_le_nat_alt unat_div)

lemma slot_index: "unat w = n \<Longrightarrow> unat (ucast (lat_slot d w) :: u32) = min (unat d div n) 99"
  using unat_lat_slot [of w n d] by (simp add: unsigned_ucast_eq take_bit_eq_mod min_def)

lemma histogram_Nil: "length a = 100 \<Longrightarrow> map2 (+) a (histogram bound width []) = a"
  by (auto simp: histogram_def intro!: nth_equalityI)

lemma histogram_append:
  "length a = 100 \<Longrightarrow> map2 (+) (map2 (+) a (histogram bound width xs)) (histogram bound width ys) = map2 (+) a (histogram bound width (xs @ ys))"
  by (auto simp: histogram_def intro!: nth_equalityI)

lemma count_slot_histogram:
  assumes "length (lat cpu) = 100" "unat w = width"
  shows "count_slot cpu (lat_slot d w) lat = lat(cpu := map2 (+) (lat cpu) (histogram (Suc (unat d)) width [d]))"
  using slot_index [OF assms(2), of d] assms(1)
  by (auto simp: count_slot_def Let_def histogram_def fun_eq_iff nth_list_update intro!: nth_equalityI)

lemma histogram_bound: "histogram bound width [d] = (if unat d < bound then histogram (Suc (unat d)) width [d] else replicate 100 0)"
  by (auto simp: histogram_def intro!: nth_equalityI)

definition lat_add :: "lat_state \<Rightarrow> (nat \<Rightarrow> u64 list) \<Rightarrow> lat_state" where
  "lat_add st ds =
     \<lparr>lat_100ms = \<lambda>c. map2 (+) (lat_100ms st c) (histogram (18446744073709551616) (100000000) (ds c)),
      lat_1ms = \<lambda>c. map2 (+) (lat_1ms st c) (histogram (100000000) (1000000) (ds c)),
      lat_10us = \<lambda>c. map2 (+) (lat_10us st c) (histogram (1000000) (10000) (ds c))\<rparr>"

definition lat_ok :: "lat_state \<Rightarrow> bool" where
  "lat_ok st \<longleftrightarrow> (\<forall>c. length (lat_100ms st c) = 100 \<and> length (lat_1ms st c) = 100 \<and> length (lat_10us st c) = 100)"

lemma lat_ok_add: "lat_ok st \<Longrightarrow> lat_ok (lat_add st ds)"
  by (simp add: lat_ok_def lat_add_def histogram_def)

lemma lat_add_append: "lat_ok st \<Longrightarrow> lat_add (lat_add st ds) es = lat_add st (\<lambda>c. ds c @ es c)"
  by (simp add: lat_ok_def lat_add_def histogram_append)

lemma add_nothing: "length a = 100 \<Longrightarrow> map2 (+) a (replicate 100 (0 :: u64)) = a"
  by (auto intro!: nth_equalityI)

lemma account_step:
  assumes "lat_ok st"
  shows "account_io_done cpu (Some stime) now st = (Ok (), lat_add st (\<lambda>c. durations c [(cpu, stime, now)]))"
proof (cases "stime = 0")
  case True
  then show ?thesis using assms by (simp add: account_io_done_def lat_add_def lat_ok_def histogram_Nil)
next
  case False
  let ?d = "now - stime"
  have w: "unat (100000000 :: u64) = 100000000" "unat (1000000 :: u64) = 1000000"
    "unat (10000 :: u64) = 10000" by simp_all
  have z: "0 < lat_slot ?d 100000000 \<longleftrightarrow> \<not> unat ?d < 100000000" "0 < lat_slot ?d 1000000 \<longleftrightarrow> \<not> unat ?d < 1000000"
    using unat_lat_slot [OF w(1), of ?d] unat_lat_slot [OF w(2), of ?d] by (auto simp: word_less_nat_alt div_eq_0_iff)
  have c: "count_slot cpu (lat_slot ?d 100000000) (lat_100ms st) =
      (lat_100ms st)(cpu := map2 (+) (lat_100ms st cpu) (histogram (Suc (unat ?d)) (100000000) [?d]))"
    "count_slot cpu (lat_slot ?d 1000000) (lat_1ms st) =
      (lat_1ms st)(cpu := map2 (+) (lat_1ms st cpu) (histogram (Suc (unat ?d)) (1000000) [?d]))"
    "count_slot cpu (lat_slot ?d 10000) (lat_10us st) =
      (lat_10us st)(cpu := map2 (+) (lat_10us st cpu) (histogram (Suc (unat ?d)) (10000) [?d]))"
    using assms by (intro count_slot_histogram w; simp add: lat_ok_def)+
  have n: "map2 (+) (lat_100ms st c) (histogram m n []) = lat_100ms st c" "map2 (+) (lat_1ms st c) (histogram m n []) = lat_1ms st c"
    "map2 (+) (lat_10us st c) (histogram m n []) = lat_10us st c" "map2 (+) (lat_1ms st c) (replicate 100 0) = lat_1ms st c"
    "map2 (+) (lat_10us st c) (replicate 100 0) = lat_10us st c" for c m n
    using assms by (simp_all add: lat_ok_def histogram_Nil add_nothing)
  have h: "histogram (18446744073709551616) (100000000) [?d] = histogram (Suc (unat ?d)) (100000000) [?d]"
    using unsigned_less [of ?d, where 'a = nat] histogram_bound [of "18446744073709551616" "100000000" ?d] by simp
  show ?thesis using False
    by (auto simp: account_io_done_def Let_def z c lat_add_def fun_eq_iff n h histogram_bound [of "100000000"] histogram_bound [of "1000000"] intro!: lat_state.equality)
qed

text \<open>
  C30: the histograms of latencies. After every sequence of completed requests on any CPUs, each
  slot of a CPU's arrays counts, modulo \<open>2 ^ 64\<close>, exactly the requests with a start time that ended
  there: the first array all of them by tenths of a second, the second those below a tenth of
  a second by milliseconds, the third those below a millisecond by ten microseconds, with
  the last slot for everything longer. No index is out of range.
\<close>

theorem latency_histograms:
  "case lat_run es lat_zero of (r, st) \<Rightarrow> r = Ok () \<and>
    (\<forall>cpu. lat_100ms st cpu = histogram (2 ^ 64) (10 ^ 8) (durations cpu es) \<and>
           lat_1ms st cpu = histogram (10 ^ 8) (10 ^ 6) (durations cpu es) \<and>
           lat_10us st cpu = histogram (10 ^ 6) (10 ^ 4) (durations cpu es))"
proof -
  have run: "lat_ok st \<Longrightarrow> lat_run es st = (Ok (), lat_add st (\<lambda>c. durations c es))" for es st
  proof (induction es arbitrary: st)
    case Nil
    then show ?case by (auto simp: lat_add_def lat_ok_def histogram_Nil)
  next
    case (Cons e es)
    obtain cpu stime now where e: "e = (cpu, stime, now)" by (cases e) auto
    show ?case using Cons account_step [OF Cons.prems, of cpu stime now]
      by (simp add: e and_do_Ok lat_ok_add lat_add_append del: durations.simps) (simp add: lat_add_def)
  qed
  have "map2 (+) (replicate 100 0) (histogram m n ds) = histogram m n ds" for m n ds
    by (auto simp: histogram_def intro!: nth_equalityI)
  then show ?thesis using run [of lat_zero es] by (simp add: lat_zero_def lat_ok_def lat_add_def)
qed

section \<open>Counts of allocations\<close>

lemma unat_half: "unat (drop_bit 1 (w :: u64)) = unat w div 2"
  by (simp add: drop_bit_eq_div unat_div)

lemma kmalloc_loop_spec:
  "0 < unat sz \<Longrightarrow> (if unat sz < 2 ^ n then \<exists>j < n. kmalloc_loop x n sz = 2 ^ (x + j) - 1 \<and> 2 ^ j \<le> unat sz \<and> unat sz < 2 ^ Suc j
     else kmalloc_loop x n sz = 9999)"
proof (induction n arbitrary: x sz)
  case (Suc n)
  let ?h = "drop_bit 1 sz"
  show ?case
  proof (cases "?h = 0")
    case True
    then have "unat sz = 1" using unat_half [of sz] Suc.prems by (simp add: div_eq_0_iff)
    moreover have "(1 :: nat) < 2 ^ Suc n" by (rule one_less_power) simp_all
    ultimately show ?thesis using True by (auto intro!: exI [of _ 0])
  next
    case False
    then have h: "0 < unat ?h" by (simp add: unat_gt_0)
    show ?thesis
    proof (cases "unat ?h < 2 ^ n")
      case True
      with Suc.IH [OF h, of "x + 1"] obtain j where "j < n" "kmalloc_loop (x + 1) n ?h = 2 ^ (x + 1 + j) - 1" "2 ^ j \<le> unat ?h" "unat ?h < 2 ^ Suc j"
        by auto
      then show ?thesis using True False by (auto simp: unat_half [unfolded One_nat_def] Let_def intro!: exI [of _ "Suc j"])
    next
      case ge: False
      then show ?thesis using Suc.IH [OF h, of "x + 1"] False by (auto simp: unat_half [unfolded One_nat_def] Let_def)
    qed
  qed
qed simp

lemma kmalloc_class_spec:
  "if unat sz < 4096 then \<exists>m \<in> {1..12}. kmalloc_class sz = 2 ^ m - 1 \<and> unat sz < 2 ^ m \<and> (m = 1 \<or> 2 ^ (m - 1) \<le> unat sz)
   else kmalloc_class sz = 9999"
proof (cases "unat sz = 0")
  case True
  then have "kmalloc_class sz = 2 ^ 1 - 1" by (simp add: kmalloc_class_def numeral_eq_Suc Let_def unat_eq_0)
  then show ?thesis using True by (auto intro!: bexI [of _ 1])
next
  case False
  show ?thesis
  proof (cases "unat sz < 4096")
    case True
    with False obtain j where "j < 12" "kmalloc_class sz = 2 ^ (1 + j) - 1" "2 ^ j \<le> unat sz" "unat sz < 2 ^ Suc j"
      using kmalloc_loop_spec [of sz 12 1] unfolding kmalloc_class_def by auto
    then show ?thesis using True by (intro if_P [THEN iffD2]) (auto intro!: bexI [of _ "Suc j"])
  next
    case ge: False
    then show ?thesis using False kmalloc_loop_spec [of sz 12 1] by (simp add: kmalloc_class_def)
  qed
qed

definition classes :: "u64 set" where
  "classes = (\<lambda>m. 2 ^ m - 1) ` {1..12} \<union> {9999}"

lemma kmalloc_class_in: "kmalloc_class sz \<in> classes"
  using kmalloc_class_spec [of sz] by (auto simp: classes_def split: if_splits)

lemma card_classes: "finite classes" "card classes < 16"
proof -
  show "finite classes" by (simp add: classes_def)
  have "card classes \<le> card {1..12 :: nat} + 1"
    unfolding classes_def by (intro order_trans [OF card_Un_le] add_mono card_image_le) simp_all
  then show "card classes < 16" by simp
qed

text \<open>What the maps hold after some allocations: their number by class, and by class and CPU.\<close>

definition hits :: "u64 \<Rightarrow> (nat \<times> u64) list \<Rightarrow> u64" where
  "hits k es = of_nat (length (filter (\<lambda>(cpu, sz). kmalloc_class sz = k) es))"

definition cpu_hits :: "u64 \<Rightarrow> (nat \<times> u64) list \<Rightarrow> nat \<Rightarrow> u64" where
  "cpu_hits k es cpu = of_nat (length (filter (\<lambda>(c, sz). c = cpu \<and> kmalloc_class sz = k) es))"

definition allocated :: "(nat \<times> u64) list \<Rightarrow> alloc_state" where
  "allocated es =
     \<lparr>pcpu_mem_alloc = \<lambda>k. if \<exists>(c, sz) \<in> set es. kmalloc_class sz = k then Some (cpu_hits k es) else None,
      mem_alloc = \<lambda>k. if \<exists>(c, sz) \<in> set es. kmalloc_class sz = k then Some (hits k es) else None\<rparr>"

definition takes_16 :: "((u64 \<Rightarrow> bool) \<Rightarrow> bool) \<Rightarrow> bool" where
  "takes_16 takes \<longleftrightarrow> (\<forall>D. finite {k. D k} \<and> card {k. D k} < 16 \<longrightarrow> takes D)"

lemma takes_class:
  assumes "takes_16 takes"
  shows "takes (\<lambda>k. \<exists>(c, sz) \<in> set es. kmalloc_class sz = k)"
proof -
  have "{k. \<exists>(c, sz) \<in> set es. kmalloc_class sz = k} \<subseteq> classes" using kmalloc_class_in by auto
  then show ?thesis
    using assms card_classes card_mono [OF card_classes(1)] finite_subset [OF _ card_classes(1)]
    unfolding takes_16_def by (meson le_less_trans)
qed

lemma held_pcpu: "(pcpu_mem_alloc (allocated es) k \<noteq> None) = (\<exists>(c, sz) \<in> set es. kmalloc_class sz = k)"
  by (simp add: allocated_def)

lemma held_mem: "(mem_alloc (allocated es) k \<noteq> None) = (\<exists>(c, sz) \<in> set es. kmalloc_class sz = k)"
  by (simp add: allocated_def)

lemma no_hits:
  assumes "\<not> (\<exists>(c, sz) \<in> set es. kmalloc_class sz = k)"
  shows "hits k es = 0" "cpu_hits k es = (\<lambda>_. 0)"
proof -
  have "filter (\<lambda>(c, sz). kmalloc_class sz = k) es = []" "\<And>cpu. filter (\<lambda>(c, sz). c = cpu \<and> kmalloc_class sz = k) es = []"
    using assms by (auto simp: filter_empty_conv)
  then show "hits k es = 0" "cpu_hits k es = (\<lambda>_. 0)" by (simp_all add: hits_def cpu_hits_def fun_eq_iff)
qed

lemma hits_snoc: "hits k (es @ [(cpu, sz)]) = (if kmalloc_class sz = k then hits k es + 1 else hits k es)"
  by (simp add: hits_def)

lemma cpu_hits_snoc:
  "cpu_hits k (es @ [(cpu, sz)]) = (if kmalloc_class sz = k then (cpu_hits k es)(cpu := cpu_hits k es cpu + 1) else cpu_hits k es)"
  by (auto simp: cpu_hits_def)

lemma allocated_snoc:
  "allocated (es @ [(cpu, sz)]) =
     (let k = kmalloc_class sz in
      (allocated es)\<lparr>pcpu_mem_alloc := (pcpu_mem_alloc (allocated es))(k \<mapsto> (cpu_hits k es)(cpu := cpu_hits k es cpu + 1)),
        mem_alloc := (mem_alloc (allocated es))(k \<mapsto> hits k es + 1)\<rparr>)"
  by (auto simp: allocated_def Let_def hits_snoc cpu_hits_snoc intro!: ext)

lemma kmalloc_step:
  assumes "takes_16 takes"
  shows "kmalloc takes cpu sz (allocated es) = (Ok (), allocated (es @ [(cpu, sz)]))"
proof (cases "\<exists>(c, s) \<in> set es. kmalloc_class s = kmalloc_class sz")
  case True
  then have "pcpu_mem_alloc (allocated es) (kmalloc_class sz) = Some (cpu_hits (kmalloc_class sz) es)"
    "mem_alloc (allocated es) (kmalloc_class sz) = Some (hits (kmalloc_class sz) es)"
    by (simp_all add: allocated_def)
  then show ?thesis unfolding allocated_snoc by (simp add: kmalloc_def Let_def)
next
  case False
  then have "pcpu_mem_alloc (allocated es) (kmalloc_class sz) = None" by (simp add: allocated_def)
  then show ?thesis using takes_class [OF assms, of es] no_hits [OF False]
    unfolding allocated_snoc kmalloc_def held_pcpu held_mem by (simp add: Let_def map_set_def)
qed

lemma kmalloc_run_from:
  "takes_16 takes \<Longrightarrow> kmalloc_run takes es (allocated es0) = (Ok (), allocated (es0 @ es))"
  by (induction es arbitrary: es0) (auto simp: and_do_def kmalloc_step)

text \<open>
  From empty maps that take sixteen keys, as \<open>hashmaps\<close> declares them, every allocation is
  counted and none panics: the two maps hold, for every class that was asked for, the number of its
  allocations, in all and by CPU, and the class of a size below 4096 is the least
  \<open>2 ^ m - 1\<close> (\<open>1 \<le> m \<le> 12\<close>) that is not below it, that of a larger one 9999.
\<close>

theorem allocations_counted:
  assumes "takes_16 takes"
  shows "kmalloc_run takes es \<lparr>pcpu_mem_alloc = \<lambda>_. None, mem_alloc = \<lambda>_. None\<rparr> = (Ok (), allocated es)
    \<and> (if unat sz < 4096 then \<exists>m \<in> {1..12}. kmalloc_class sz = 2 ^ m - 1 \<and> unat sz < 2 ^ m \<and> (m = 1 \<or> 2 ^ (m - 1) \<le> unat sz)
       else kmalloc_class sz = 9999)"
proof -
  have "\<lparr>pcpu_mem_alloc = \<lambda>_. None, mem_alloc = \<lambda>_. None\<rparr> = allocated []" by (simp add: allocated_def)
  then show ?thesis using kmalloc_run_from [OF assms, of es "[]"] kmalloc_class_spec [of sz] by simp
qed

theorem allocations_counted_witness:
  "takes_16 (\<lambda>_. True)
   \<and> kmalloc_run (\<lambda>_. True) [(0, 100), (1, 120), (0, 5000)] \<lparr>pcpu_mem_alloc = \<lambda>_. None, mem_alloc = \<lambda>_. None\<rparr>
     = (Ok (), allocated [(0, 100), (1, 120), (0, 5000)])
   \<and> mem_alloc (allocated [(0, 100), (1, 120), (0, 5000)]) 127 = Some 2
   \<and> kmalloc_class 5000 = 9999"
proof -
  have t: "takes_16 (\<lambda>_. True)" by (simp add: takes_16_def)
  have c: "kmalloc_class 100 = 127" "kmalloc_class 120 = 127" "kmalloc_class 5000 = 9999"
    by code_simp+
  show ?thesis using t allocations_counted [OF t, of "[(0, 100), (1, 120), (0, 5000)]" 5000]
    by (simp add: c allocated_def hits_def)
qed


section \<open>The other examples\<close>

text \<open>The large structures in the map hold the numbers that were put into them, if the kernel stores what it is given.\<close>

definition filled :: "BigStructure \<Rightarrow> bool" where
  "filled b \<longleftrightarrow> bs_f2 b = map of_nat [0..<100]"

lemma fold_fill: "n \<le> length a \<Longrightarrow> fold (\<lambda>x a. a[x := of_nat x]) [0..<n] a = map of_nat [0..<n] @ drop n (a :: u64 list)"
proof (induction n)
  case (Suc n)
  then have "n \<le> length a" "n < length a" by simp_all
  then show ?case using Suc.IH by (simp add: list_update_append Cons_nth_drop_Suc [symmetric, of n a])
qed simp

lemma sched_fork_filled:
  assumes "\<And>m k b. ran (lru_set m k b) \<subseteq> insert b (ran m)"
    and "\<And>c. \<exists>b. alt_stack st c = Some b \<and> length (bs_f2 b) = 100" "\<forall>b \<in> ran (big_struct st). filled b"
  shows "case sched_fork lru_set cpu rnd st of (r, st') \<Rightarrow> r = Ok () \<and>
    (\<forall>c. \<exists>b. alt_stack st' c = Some b \<and> length (bs_f2 b) = 100) \<and> (\<forall>b \<in> ran (big_struct st'). filled b)"
proof -
  obtain a where a: "alt_stack st cpu = Some a" "length (bs_f2 a) = 100" using assms(2) by blast
  have fill: "filled (fill_f2 a)" "length (bs_f2 (fill_f2 a)) = 100"
    using a(2) fold_fill [of 100 "bs_f2 a"] by (simp_all add: filled_def fill_f2_def)
  show ?thesis
  proof (cases "big_struct st (ucast (rnd AND 0xff))")
    case None
    then show ?thesis using a(1) fill assms(2,3) assms(1) [of "big_struct st" "ucast (rnd AND 0xff)" "fill_f2 a"]
      by (auto simp: sched_fork_def Let_def)
  next
    case (Some b)
    then have "filled b" using assms(3) by (auto intro: ranI)
    then have "b\<lparr>bs_f2 := (bs_f2 b)[99 := 99]\<rparr> = b"
      by (auto simp: filled_def list_update_same_conv intro!: BigStructure.equality)
    then show ?thesis using Some assms(2,3) \<open>filled b\<close> assms(1) [of "big_struct st" "ucast (rnd AND 0xff)" b]
      by (auto simp: sched_fork_def Let_def map_upd_triv)
  qed
qed

text \<open>The sum of the array ends up in its first element.\<close>

lemma sum_loop_sum:
  "0 < idx \<Longrightarrow> idx + n \<le> length a \<Longrightarrow> sum_loop n idx a = Ok (a[0 := a ! 0 + sum_list (take n (drop idx a))])"
proof (induction n arbitrary: idx a)
  case (Suc n)
  have "take (Suc n) (drop idx a) = a ! idx # take n (drop (idx + 1) a)"
    using Suc.prems by (simp add: Cons_nth_drop_Suc [symmetric])
  moreover have "drop (idx + 1) (a[0 := a ! 0 + a ! idx]) = drop (idx + 1) a" by simp
  moreover have "0 < length a" using Suc.prems by linarith
  ultimately show ?case using Suc.IH [of "idx + 1" "a[0 := a ! 0 + a ! idx]"] Suc.prems by (simp add: index_def add.assoc)
qed simp

lemma bounded_loop_sum: "length a = 1000 \<Longrightarrow> bounded_loop a = Ok (a[0 := sum_list a])"
  using sum_loop_sum [of 1 999 a] by (cases a) (auto simp: bounded_loop_def index_def)

text \<open>
  A read that no other read of the process overlaps is reported with its duration, if the
  memory of the deleted entry keeps its value.
\<close>

lemma vfs_read_reported:
  assumes "takes st (drop_bit 32 pt)" and "\<And>st k v. freed st k v = v"
  shows "vfs_reports (vfs_read_exit freed pt t2 (vfs_read_enter takes pt t1 st)) =
    vfs_reports st @ [\<lparr>ve_pid = pt AND 0xFFFFFFFF, ve_tgid = drop_bit 32 pt, ve_timestamp = t1, ve_latency = t2 - t1\<rparr>]"
  using assms by (simp add: vfs_read_enter_def vfs_read_exit_def Let_def map_set_def)

text \<open>With two threads of a process, the first one to end is reported with the start of the second, and the other one not at all.\<close>

lemma vfs_reads_mixed_up:
  "vfs_reports (vfs_read_exit (\<lambda>_ _ v. v) 0x100000002 30 (vfs_read_exit (\<lambda>_ _ v. v) 0x100000003 25 (vfs_read_enter (\<lambda>_ _. True) 0x100000003 20
     (vfs_read_enter (\<lambda>_ _. True) 0x100000002 10 \<lparr>vfs_timestamp = \<lambda>_. None, vfs_reports = []\<rparr>)))) =
   [\<lparr>ve_pid = 3, ve_tgid = 1, ve_timestamp = 20, ve_latency = 5\<rparr>]"
  by (simp add: vfs_read_enter_def vfs_read_exit_def Let_def map_set_def)

text \<open>The totals of a stack: the sizes and the number of its events from the one on whose frames were found.\<close>

lemma malloc_totals:
  assumes "\<And>i. frames_of i = Some (fr i)"
  shows "fold (handle_malloc_event frames_of) evs (\<lambda>_. None) i =
    (let es = filter (\<lambda>e. mv_stackid e = i) evs
     in if es = [] then None else Some \<lparr>al_size = sum_list (map mv_size es), al_count = of_nat (length es), al_frames = fr i\<rparr>)"
proof (induction evs rule: rev_induct)
  case (snoc e evs)
  then show ?case by (cases "filter (\<lambda>e. mv_stackid e = i) evs") (auto simp: handle_malloc_event_def assms Let_def split: option.splits)
qed simp

lemma echo_verdict_cases:
  "echo_verdict B idx_map def a p s = Ok SkPass \<longleftrightarrow> (\<exists>idx. idx_map (a, p) = Some idx \<and> is_Ok (sock_map_redirect B def idx s))"
  by (auto simp: echo_verdict_def split: option.splits outcome.splits)

end
