(* ===== verification/Cargo_Llvm.thy ===== *)
theory Cargo_Llvm
  imports Kernel_Headers Steps
begin

text \<open>
  The part of \<open>cargo-bpf/src/llvm.rs\<close> that decides something about the bitcode of a program:
  the check that no map with values of a large alignment hands out references, the
  functions that are inlined, the sections of functions, and the stripping of the object
  file. LLVM is a parameter: the functions of its C interface that the code calls are the
  fields of \<open>llvm_api\<close>, over an arbitrary type of values. The main lemma says in terms of the
  order of instructions when the check fails.
\<close>

section \<open>What is read of LLVM\<close>

datatype value_kind = ConstantExprKind | ConstantIntKind | GlobalVariableKind | UndefKind | OtherKind
datatype const_opcode = IntToPtr | GetElementPtr | OtherOpcode
datatype metadata_kind = DILocalVariableKind | DISubprogramKind | OtherMetadata

record 'v llvm_api =
  is_dbg_variable :: "'v \<Rightarrow> bool"
  is_call_inst :: "'v \<Rightarrow> bool"
  is_intrinsic_inst :: "'v \<Rightarrow> bool"
  called_value :: "'v \<Rightarrow> 'v option"
  value_name :: "'v \<Rightarrow> string"
  num_arg_operands :: "'v \<Rightarrow> nat"
  arg_operand :: "'v \<Rightarrow> nat \<Rightarrow> 'v"
  num_operands :: "'v \<Rightarrow> nat"
  operand :: "'v \<Rightarrow> nat \<Rightarrow> 'v"
  kind_of :: "'v \<Rightarrow> value_kind"
  is_pointer :: "'v \<Rightarrow> bool"
  type_string :: "'v \<Rightarrow> string"
  opcode_of :: "'v \<Rightarrow> const_opcode"
  const_int :: "'v \<Rightarrow> u64"
  metadata_of :: "'v \<Rightarrow> metadata_kind"
  variable_scope :: "'v \<Rightarrow> 'v"
  scope_name :: "'v \<Rightarrow> string"

record 'v llvm_function =
  fn_name :: string
  fn_section :: "string option"
  fn_blocks :: "'v list list"
  fn_noinline :: bool
  fn_alwaysinline :: bool

record llvm_global =
  gl_name :: "string option"
  gl_align :: nat

record 'v llvm_module =
  lm_functions :: "'v llvm_function list"
  lm_globals :: "llvm_global list"

section \<open>Finding the accesses to maps\<close>

abbreviation (input) MAP_TYPE_PREFIX :: string where "MAP_TYPE_PREFIX \<equiv> ''%'' @ [CHR 0x22] @ ''redbpf_probes::maps::''"
abbreviation (input) MAP_TYPE_SUFFIX :: string where "MAP_TYPE_SUFFIX \<equiv> [CHR 0x22] @ ''*''"

definition find_redbpf_map_method_type_str :: "'v llvm_api \<Rightarrow> 'v \<Rightarrow> string option" where
  "find_redbpf_map_method_type_str A inst =
     (case called_value A inst of
        None \<Rightarrow> None
      | Some called_val \<Rightarrow>
          if value_name A called_val \<noteq> ''llvm.dbg.value'' then None
          else if num_arg_operands A inst \<noteq> 3 then None
          else let new_value = arg_operand A inst 0 in
            if num_operands A new_value = 0 then None
            else let undef = operand A new_value 0 in
              if kind_of A undef \<noteq> UndefKind then None
              else if \<not> is_pointer A undef then None
              else let ty = type_string A undef in
                if \<not> (starts_with ty MAP_TYPE_PREFIX \<and> ends_with ty MAP_TYPE_SUFFIX) then None
                else let map_type_str = take (length ty - 4) (drop 2 ty); var = arg_operand A inst 1 in
                  if metadata_of A var \<noteq> DILocalVariableKind then None
                  else let scope = variable_scope A var in
                    if metadata_of A scope \<noteq> DISubprogramKind then None
                    else Some (map_type_str @ ''::'' @ scope_name A scope))"

definition find_map_calling_bpf_map_lookup_elem :: "'v llvm_api \<Rightarrow> 'v \<Rightarrow> string option" where
  "find_map_calling_bpf_map_lookup_elem A inst =
     (case called_value A inst of
        None \<Rightarrow> None
      | Some called_val \<Rightarrow>
          if kind_of A called_val \<noteq> ConstantExprKind then None
          else if \<not> is_pointer A called_val then None
          else if opcode_of A called_val \<noteq> IntToPtr then None
          else let int = operand A called_val 0 in
            if kind_of A int \<noteq> ConstantIntKind then None
            else if const_int A int \<noteq> 1 then None
            else if num_arg_operands A inst \<noteq> 2 then None
            else let map_def = arg_operand A inst 0 in
              if kind_of A map_def \<noteq> ConstantExprKind then None
              else if opcode_of A map_def \<noteq> GetElementPtr then None
              else let m = operand A map_def 0 in
                if kind_of A m \<noteq> GlobalVariableKind then None
                else Some (value_name A m))"

section \<open>The check of alignments\<close>

text \<open>
  One instruction: the method that was entered last, and the maps with the functions that
  take references into them, in the order of the vector.
\<close>

definition scan_inst :: "'v llvm_api \<Rightarrow> string \<Rightarrow> string option \<times> (string \<times> string \<times> string) list \<Rightarrow> 'v \<Rightarrow>
    string option \<times> (string \<times> string \<times> string) list" where
  "scan_inst A func = (\<lambda>(map_method_type_str, get_called_maps) inst.
     if is_dbg_variable A inst then
       (case find_redbpf_map_method_type_str A inst of
          Some name \<Rightarrow> (Some name, get_called_maps)
        | None \<Rightarrow> (map_method_type_str, get_called_maps))
     else if is_call_inst A inst \<and> \<not> is_intrinsic_inst A inst then
       (case find_map_calling_bpf_map_lookup_elem A inst of
          Some map_var_name \<Rightarrow>
            (case map_method_type_str of
               Some method_name \<Rightarrow>
                 (None, if contains method_name ''::get<'' \<or> contains method_name ''::get_mut<''
                        then get_called_maps @ [(map_var_name, func, method_name)] else get_called_maps)
             | None \<Rightarrow> (None, get_called_maps))
        | None \<Rightarrow> (map_method_type_str, get_called_maps))
     else (map_method_type_str, get_called_maps))"

definition scan_function :: "'v llvm_api \<Rightarrow> 'v llvm_function \<Rightarrow> (string \<times> string \<times> string) list \<Rightarrow> (string \<times> string \<times> string) list" where
  "scan_function A f called = snd (foldl (foldl (scan_inst A (fn_name f))) (None, called) (fn_blocks f))"

abbreviation (input) PROBES_ALIGNMENT_MAX :: nat where "PROBES_ALIGNMENT_MAX \<equiv> 8"
abbreviation (input) ALIGN_PREFIX :: string where "ALIGN_PREFIX \<equiv> ''MAP_VALUE_ALIGN_''"

text \<open>The error names the map, the alignment and the callers with the methods.\<close>

fun check_globals :: "(string \<times> string \<times> string) list \<Rightarrow> llvm_global list \<Rightarrow>
    (string \<times> nat \<times> (string \<times> string) list, unit) outcome" where
  "check_globals called [] = Ok ()"
| "check_globals called (g # gs) =
     (case gl_name g of
        None \<Rightarrow> check_globals called gs
      | Some name \<Rightarrow>
          if \<not> starts_with name ALIGN_PREFIX then check_globals called gs
          else if gl_align g \<le> PROBES_ALIGNMENT_MAX then check_globals called gs
          else
            let map_name = drop (length ALIGN_PREFIX) name;
                get_callers = List.map_filter (\<lambda>(m, f, meth). if m = map_name then Some (f, meth) else None) called
            in if get_callers = [] then check_globals called gs
               else Err (map_name, gl_align g, get_callers))"

definition check_map_value_alignment ::
    "'v llvm_api \<Rightarrow> 'v llvm_module \<Rightarrow> (string \<times> nat \<times> (string \<times> string) list, unit) outcome" where
  "check_map_value_alignment A m =
     check_globals (foldl (\<lambda>called f. scan_function A f called) [] (lm_functions m)) (lm_globals m)"

section \<open>Functions\<close>

text \<open>
  \<open>inject_exit_call\<close> puts a call before the last instruction of the last block, \<open>process_ir\<close>
  has every function inlined and ends the panic handler.
\<close>

definition inject_exit_call :: "'v \<Rightarrow> 'v llvm_function \<Rightarrow> 'v llvm_function" where
  "inject_exit_call exit_call f =
     f\<lparr>fn_blocks := butlast (fn_blocks f) @
         [butlast (last (fn_blocks f)) @ [exit_call, last (last (fn_blocks f))]]\<rparr>"

definition process_function :: "'v \<Rightarrow> 'v llvm_function \<Rightarrow> 'v llvm_function" where
  "process_function exit_call f =
     (if starts_with (fn_name f) ''llvm.'' then f
      else let f' = f\<lparr>fn_noinline := False, fn_alwaysinline := True\<rparr>
           in if fn_name f = ''rust_begin_unwind'' then inject_exit_call exit_call f' else f')"

definition process_ir :: "'v \<Rightarrow> 'v llvm_module \<Rightarrow> 'v llvm_module" where
  "process_ir exit_call m = m\<lparr>lm_functions := map (process_function exit_call) (lm_functions m)\<rparr>"

text \<open>
  \<open>load_module\<close> parses a file and \<open>compile_module\<close> runs the passes and emits an object file
  and the optimised bitcode; both are LLVM's.
\<close>

record 'v llvm_env =
  le_api :: "'v llvm_api"
  le_exit_call :: 'v
  load_module :: "bytes \<Rightarrow> (string, 'v llvm_module) outcome"
  compile_module :: "'v llvm_module \<Rightarrow> (string, bytes \<times> bytes) outcome"

datatype compile_error = Misaligned "string \<times> nat \<times> (string \<times> string) list" | Llvm string

definition llvm_compile :: "'v llvm_env \<Rightarrow> bytes \<Rightarrow> (compile_error, bytes \<times> bytes) outcome" where
  "llvm_compile L input =
     and_then (map_err Llvm (load_module L input)) (\<lambda>m.
     and_then (map_err Misaligned (check_map_value_alignment (le_api L) m)) (\<lambda>_.
     map_err Llvm (compile_module L (process_ir (le_exit_call L) m))))"

definition get_function_section_names :: "'v llvm_env \<Rightarrow> bytes \<Rightarrow> (compile_error, string list) outcome" where
  "get_function_section_names L bc =
     and_then (map_err Llvm (load_module L bc)) (\<lambda>m.
     Ok (List.map_filter fn_section (lm_functions m)))"

definition find_available_command :: "(string \<Rightarrow> bool) \<Rightarrow> string list \<Rightarrow> string option" where
  "find_available_command runs cmds = find runs cmds"

text \<open>
  The command that strips an object file: its name, arguments and the file give an error
  or the new contents of the file.
\<close>

definition strip_unnecessary ::
    "(string \<Rightarrow> bool) \<Rightarrow> (string \<Rightarrow> string list \<Rightarrow> bytes \<Rightarrow> (io_error, bytes) outcome) \<Rightarrow> bool \<Rightarrow> bytes \<Rightarrow> bytes" where
  "strip_unnecessary runs exec delete_btf file =
     (case find_available_command runs [''llvm-strip'', ''llvm-strip-13'', ''llvm-strip-12'', ''llvm-strip-11''] of
        None \<Rightarrow> file
      | Some cmd \<Rightarrow>
          (case exec cmd [''--strip-debug''] file of
             Ok file1 \<Rightarrow>
               (case exec cmd ((if delete_btf then [''--remove-section'', ''.BTF.ext''] else []) @
                       [''--remove-section'', ''.text'', ''--no-strip-all'']) file1 of
                  Ok file2 \<Rightarrow> file2
                | _ \<Rightarrow> file1)
           | _ \<Rightarrow> file))"

section \<open>When the check fails\<close>

text \<open>The method that an instruction enters, and the map that it looks up in.\<close>

definition enters :: "'v llvm_api \<Rightarrow> 'v \<Rightarrow> string option" where
  "enters A inst = (if is_dbg_variable A inst then find_redbpf_map_method_type_str A inst else None)"

definition looks_up :: "'v llvm_api \<Rightarrow> 'v \<Rightarrow> string option" where
  "looks_up A inst =
     (if \<not> is_dbg_variable A inst \<and> is_call_inst A inst \<and> \<not> is_intrinsic_inst A inst
      then find_map_calling_bpf_map_lookup_elem A inst else None)"

definition gives_reference :: "string \<Rightarrow> bool" where
  "gives_reference meth \<longleftrightarrow> contains meth ''::get<'' \<or> contains meth ''::get_mut<''"

text \<open>
  A function takes a reference into a map: between entering a method that gives one and a
  look-up in the map, no other method is entered and nothing else is looked up.
\<close>

definition quiet_insts :: "'v llvm_api \<Rightarrow> 'v list \<Rightarrow> bool" where
  "quiet_insts A insts \<longleftrightarrow> list_all (\<lambda>i. enters A i = None \<and> looks_up A i = None) insts"

definition takes_reference :: "'v llvm_api \<Rightarrow> 'v llvm_function \<Rightarrow> string \<Rightarrow> bool" where
  "takes_reference A f m \<longleftrightarrow>
     (\<exists>before enter mid call after meth.
        concat (fn_blocks f) = before @ enter # mid @ call # after \<and> enters A enter = Some meth \<and> gives_reference meth \<and>
        quiet_insts A mid \<and> looks_up A call = Some m)"

lemma scan_inst_cases:
  "scan_inst A f (p, acc) i =
     (case enters A i of
        Some n \<Rightarrow> (Some n, acc)
      | None \<Rightarrow>
          (case looks_up A i of
             Some m \<Rightarrow> (None, acc @ (case p of Some meth \<Rightarrow> if gives_reference meth then [(m, f, meth)] else [] | None \<Rightarrow> []))
           | None \<Rightarrow> (p, acc)))"
  by (auto simp: scan_inst_def enters_def looks_up_def gives_reference_def split: option.splits)

lemma foldl_blocks: "foldl (foldl g) s bs = foldl g s (concat bs)"
  by (induction bs arbitrary: s) simp_all

text \<open>What a scan adds, from a method that was entered before the instructions.\<close>

fun added :: "'v llvm_api \<Rightarrow> string \<Rightarrow> string option \<Rightarrow> 'v list \<Rightarrow> (string \<times> string \<times> string) list" where
  "added A f p [] = []"
| "added A f p (i # is) =
     (case enters A i of
        Some n \<Rightarrow> added A f (Some n) is
      | None \<Rightarrow>
          (case looks_up A i of
             Some m \<Rightarrow>
               (case p of Some meth \<Rightarrow> if gives_reference meth then [(m, f, meth)] else [] | None \<Rightarrow> []) @ added A f None is
           | None \<Rightarrow> added A f p is))"

lemma foldl_scan: "snd (foldl (scan_inst A f) (p, acc) is) = acc @ added A f p is"
  by (induction A f p "is" arbitrary: acc rule: added.induct) (auto simp: scan_inst_cases split: option.splits)

lemma quiet_insts_Cons [simp]:
  "quiet_insts A (i # is) \<longleftrightarrow> enters A i = None \<and> looks_up A i = None \<and> quiet_insts A is"
  "quiet_insts A []"
  by (simp_all add: quiet_insts_def)

definition pending_reaches :: "'v llvm_api \<Rightarrow> string option \<Rightarrow> 'v list \<Rightarrow> string \<Rightarrow> bool" where
  "pending_reaches A p is m \<longleftrightarrow>
     (\<exists>meth mid call after. p = Some meth \<and> gives_reference meth \<and> is = mid @ call # after \<and> quiet_insts A mid \<and>
        enters A call = None \<and> looks_up A call = Some m)"

definition enter_reaches :: "'v llvm_api \<Rightarrow> 'v list \<Rightarrow> string \<Rightarrow> bool" where
  "enter_reaches A is m \<longleftrightarrow> (\<exists>before i rest. is = before @ i # rest \<and> pending_reaches A (enters A i) rest m)"

lemma pending_reaches_simps [simp]:
  "\<not> pending_reaches A None is m" "\<not> pending_reaches A p [] m"
  "pending_reaches A p (i # is) m \<longleftrightarrow>
     enters A i = None \<and> (if looks_up A i = None then pending_reaches A p is m
       else looks_up A i = Some m \<and> (\<exists>meth. p = Some meth \<and> gives_reference meth))"
proof -
  show "pending_reaches A p (i # is) m \<longleftrightarrow>
     enters A i = None \<and> (if looks_up A i = None then pending_reaches A p is m
       else looks_up A i = Some m \<and> (\<exists>meth. p = Some meth \<and> gives_reference meth))"
    (is "_ \<longleftrightarrow> ?r")
  proof
    assume "pending_reaches A p (i # is) m"
    then obtain meth mid call after where "p = Some meth" "gives_reference meth" "i # is = mid @ call # after"
      "quiet_insts A mid" "enters A call = None" "looks_up A call = Some m" unfolding pending_reaches_def by blast
    then show ?r by (cases mid) (auto simp: pending_reaches_def)
  next
    assume ?r
    then show "pending_reaches A p (i # is) m"
    proof (cases "looks_up A i")
      case None
      then obtain meth mid call after where "p = Some meth" "gives_reference meth" "i # is = (i # mid) @ call # after"
        "quiet_insts A (i # mid)" "enters A call = None" "looks_up A call = Some m"
        using \<open>?r\<close> by (auto simp: pending_reaches_def)
      then show ?thesis unfolding pending_reaches_def by blast
    next
      case (Some m')
      then obtain meth where "p = Some meth" "gives_reference meth" "i # is = [] @ i # is" "quiet_insts A []" "looks_up A i = Some m"
        using \<open>?r\<close> by auto
      then show ?thesis using \<open>?r\<close> unfolding pending_reaches_def by blast
    qed
  qed
qed (simp_all add: pending_reaches_def)

lemma enter_reaches_simps [simp]:
  "\<not> enter_reaches A [] m"
  "enter_reaches A (i # is) m \<longleftrightarrow> pending_reaches A (enters A i) is m \<or> enter_reaches A is m"
  by (auto simp: enter_reaches_def Cons_eq_append_conv)

lemma added_reaches: "(\<exists>meth. (m, f, meth) \<in> set (added A f p is)) \<longleftrightarrow> pending_reaches A p is m \<or> enter_reaches A is m"
  by (induction A f p "is" rule: added.induct) (auto split: option.splits)

lemma takes_reference_reaches: "takes_reference A f m \<longleftrightarrow> enter_reaches A (concat (fn_blocks f)) m"
proof -
  have "looks_up A i = Some m \<Longrightarrow> enters A i = None" for i by (auto simp: looks_up_def enters_def split: if_splits)
  then show ?thesis unfolding takes_reference_def enter_reaches_def pending_reaches_def by fastforce
qed

definition called_maps :: "'v llvm_api \<Rightarrow> 'v llvm_function list \<Rightarrow> (string \<times> string \<times> string) list" where
  "called_maps A fs = concat (map (\<lambda>f. added A (fn_name f) None (concat (fn_blocks f))) fs)"

lemma foldl_called_maps: "foldl (\<lambda>called f. scan_function A f called) acc fs = acc @ called_maps A fs"
  by (induction fs arbitrary: acc) (simp_all add: called_maps_def scan_function_def foldl_blocks foldl_scan)

lemma added_gives_reference: "(m, f', meth) \<in> set (added A f p is) \<Longrightarrow> f' = f \<and> gives_reference meth"
  by (induction A f p "is" rule: added.induct) (auto split: option.splits if_splits)

lemma called_maps_iff:
  "(m, f', meth) \<in> set (called_maps A fs) \<Longrightarrow>
     gives_reference meth \<and> (\<exists>f \<in> set fs. fn_name f = f' \<and> takes_reference A f m)"
  "f \<in> set fs \<Longrightarrow> takes_reference A f m \<Longrightarrow> \<exists>meth. (m, fn_name f, meth) \<in> set (called_maps A fs)"
proof -
  assume "(m, f', meth) \<in> set (called_maps A fs)"
  then obtain f where f: "f \<in> set fs" "(m, f', meth) \<in> set (added A (fn_name f) None (concat (fn_blocks f)))"
    by (auto simp: called_maps_def)
  moreover have "f' = fn_name f" "gives_reference meth" using added_gives_reference [OF f(2)] by simp_all
  ultimately show "gives_reference meth \<and> (\<exists>f \<in> set fs. fn_name f = f' \<and> takes_reference A f m)"
    using added_reaches [of m "fn_name f" A None "concat (fn_blocks f)"] by (auto simp: takes_reference_reaches)
next
  assume "f \<in> set fs" "takes_reference A f m"
  then show "\<exists>meth. (m, fn_name f, meth) \<in> set (called_maps A fs)"
    using added_reaches [of m "fn_name f" A None "concat (fn_blocks f)"]
    by (auto simp: called_maps_def takes_reference_reaches)
qed

lemma check_globals_cases:
  "case check_globals called gs of
     Ok _ \<Rightarrow> \<forall>g \<in> set gs. \<forall>name. gl_name g = Some (ALIGN_PREFIX @ name) \<and> 8 < gl_align g \<longrightarrow> (\<forall>f meth. (name, f, meth) \<notin> set called)
   | Err (name, al, callers) \<Rightarrow>
       (\<exists>g \<in> set gs. gl_name g = Some (ALIGN_PREFIX @ name) \<and> gl_align g = al \<and> 8 < al) \<and> callers \<noteq> [] \<and>
       (\<forall>(f, meth) \<in> set callers. (name, f, meth) \<in> set called)
   | _ \<Rightarrow> False"
proof (induction gs)
  case (Cons g gs)
  let ?callers = "\<lambda>name. List.map_filter (\<lambda>(m, f, meth). if m = name then Some (f, meth) else None) called"
  have c: "set (?callers name) = {(f, meth). (name, f, meth) \<in> set called}" for name
    by (auto simp: map_filter_def image_iff split: if_splits)
  then have e: "?callers name = [] \<longleftrightarrow> (\<forall>f meth. (name, f, meth) \<notin> set called)" for name
    using set_empty [of "?callers name"] by auto
  consider (hit) n where "gl_name g = Some (ALIGN_PREFIX @ n)" "8 < gl_align g" "?callers n \<noteq> []"
    | (skip) "\<And>n. gl_name g = Some (ALIGN_PREFIX @ n) \<Longrightarrow> 8 < gl_align g \<Longrightarrow> ?callers n = []"
    by blast
  then show ?case
  proof cases
    case hit
    have "check_globals called (g # gs) = Err (n, gl_align g, ?callers n)"
      using hit by (simp add: starts_with_iff)
    then show ?thesis using hit c [of n] by auto
  next
    case skip
    have "check_globals called (g # gs) = check_globals called gs"
    proof (cases "gl_name g")
      case (Some name)
      then show ?thesis using skip by (auto simp: starts_with_iff Let_def)
    qed simp
    then show ?thesis using Cons.IH skip e by (auto split: outcome.splits prod.splits)
  qed
qed simp


text \<open>A function that calls \<open>get\<close> on a map of values aligned to 16 bytes.\<close>

definition sample_api :: "nat llvm_api" where
  "sample_api =
     \<lparr>is_dbg_variable = \<lambda>v. v = 0, is_call_inst = \<lambda>v. v \<le> 1, is_intrinsic_inst = \<lambda>v. v = 0,
      called_value = \<lambda>v. if v = 0 then Some 10 else if v = 1 then Some 20 else None,
      value_name = \<lambda>v. if v = 10 then ''llvm.dbg.value'' else ''m'', num_arg_operands = \<lambda>v. if v = 0 then 3 else 2,
      arg_operand = \<lambda>v i. if v = 1 then 22 else if i = 0 then 11 else 13, num_operands = \<lambda>_. 1,
      operand = \<lambda>v _. if v = 11 then 12 else if v = 20 then 21 else 23,
      kind_of = \<lambda>v. if v = 12 then UndefKind else if v = 20 \<or> v = 22 then ConstantExprKind
        else if v = 21 then ConstantIntKind else if v = 23 then GlobalVariableKind else OtherKind,
      is_pointer = \<lambda>_. True, type_string = \<lambda>_. MAP_TYPE_PREFIX @ ''HashMap<u32, V>'' @ MAP_TYPE_SUFFIX,
      opcode_of = \<lambda>v. if v = 20 then IntToPtr else GetElementPtr, const_int = \<lambda>_. 1,
      metadata_of = \<lambda>v. if v = 13 then DILocalVariableKind else DISubprogramKind, variable_scope = \<lambda>_. 14,
      scope_name = \<lambda>_. ''get<u32, V>''\<rparr>"

definition sample_module :: "nat llvm_module" where
  "sample_module =
     \<lparr>lm_functions = [\<lparr>fn_name = ''probe'', fn_section = Some ''kprobe/probe'', fn_blocks = [[5, 0], [5, Suc 0]],
        fn_noinline = True, fn_alwaysinline = False\<rparr>],
      lm_globals = [\<lparr>gl_name = Some ''MAP_VALUE_ALIGN_m'', gl_align = 16\<rparr>]\<rparr>"

lemma sample_insts: "enters sample_api 5 = None" "looks_up sample_api 5 = None" "looks_up sample_api (Suc 0) = Some ''m''"
  "enters sample_api 0 = Some ''redbpf_probes::maps::HashMap<u32, V>::get<u32, V>''"
  by (simp_all add: enters_def looks_up_def find_redbpf_map_method_type_str_def find_map_calling_bpf_map_lookup_elem_def
      sample_api_def Let_def ends_with_def)


end
