(* ===== verification/File_System.thy ===== *)
theory File_System
  imports Kernel_Headers Steps
begin

text \<open>
  The calls of \<open>std::fs\<close> that \<open>cargo bpf\<close> makes, on a store of paths: a path is absent, a
  directory or a file with its contents. What makes the operating system refuse a call other
  than that the path is absent or a directory (permissions, a full disk, a missing parent) is
  a parameter, which sees the call and the store.
\<close>

datatype node = Dir | File bytes
type_synonym store = "(string \<times> node) list"

datatype fs_call = CreateDirAll string | RemoveDirAll string | ReadDir string | ReadFile string | WriteFile string
  | OpenFile string | RenameFile string string
type_synonym refusals = "fs_call \<Rightarrow> store \<Rightarrow> io_error option"

definition exists_path :: "string \<Rightarrow> store \<Rightarrow> bool" where
  "exists_path p s \<longleftrightarrow> map_of s p \<noteq> None"

definition below :: "string \<Rightarrow> string \<Rightarrow> bool" where
  "below d p \<longleftrightarrow> p = d \<or> starts_with p (d @ ''/'')"

definition dir_ancestors :: "string \<Rightarrow> string list" where
  "dir_ancestors p = map (\<lambda>i. take i p) (filter (\<lambda>i. 0 < i \<and> p ! i = CHR ''/'') [0..<length p]) @ [p]"

text \<open>\<open>Path::file_name\<close>: the last component, unless it is \<open>..\<close>; empty components and \<open>.\<close> do not count.\<close>

definition path_file_name :: "string \<Rightarrow> string option" where
  "path_file_name p =
     (case rev (filter (\<lambda>c. c \<noteq> [] \<and> c \<noteq> ''.'') (split_on (CHR ''/'') p)) of
        [] \<Rightarrow> None
      | c # _ \<Rightarrow> if c = ''..'' then None else Some c)"

definition checked :: "refusals \<Rightarrow> fs_call \<Rightarrow> (store, io_error, 'a) step \<Rightarrow> (store, io_error, 'a) step" where
  "checked D c f s = (case D c s of Some e \<Rightarrow> (Err e, s) | None \<Rightarrow> f s)"

definition put :: "string \<Rightarrow> node \<Rightarrow> store \<Rightarrow> store" where
  "put p n s = AList.update p n s"

definition create_dir_all :: "refusals \<Rightarrow> string \<Rightarrow> (store, io_error, unit) step" where
  "create_dir_all D p = checked D (CreateDirAll p) (\<lambda>s.
     if list_ex (\<lambda>a. case map_of s a of Some (File _) \<Rightarrow> True | _ \<Rightarrow> False) (dir_ancestors p) then (Err AlreadyExists, s)
     else (Ok (), fold (\<lambda>a. put a Dir) (dir_ancestors p) s))"

text \<open>A directory is there also when something in it is.\<close>

definition remove_dir_all :: "refusals \<Rightarrow> string \<Rightarrow> (store, io_error, unit) step" where
  "remove_dir_all D p = checked D (RemoveDirAll p) (\<lambda>s.
     if list_ex (\<lambda>(q, _). below p q) s then (Ok (), filter (\<lambda>(q, _). \<not> below p q) s) else (Err NotFound, s))"

text \<open>The paths directly in a directory.\<close>

definition read_dir :: "refusals \<Rightarrow> string \<Rightarrow> (store, io_error, string list) step" where
  "read_dir D p = checked D (ReadDir p) (\<lambda>s.
     if map_of s p = Some Dir
     then (Ok (filter (\<lambda>q. starts_with q (p @ ''/'') \<and> CHR ''/'' \<notin> set (drop (length p + 1) q)) (remdups (map fst s))), s)
     else (Err NotFound, s))"

definition read_file :: "refusals \<Rightarrow> string \<Rightarrow> (store, io_error, bytes) step" where
  "read_file D p = checked D (ReadFile p) (\<lambda>s.
     case map_of s p of Some (File b) \<Rightarrow> (Ok b, s) | Some Dir \<Rightarrow> (Err (OsError 21), s) | None \<Rightarrow> (Err NotFound, s))"

definition write_file :: "refusals \<Rightarrow> string \<Rightarrow> bytes \<Rightarrow> (store, io_error, unit) step" where
  "write_file D p b = checked D (WriteFile p) (\<lambda>s.
     if map_of s p = Some Dir then (Err (OsError 21), s) else (Ok (), put p (File b) s))"

text \<open>Opening for writing without creating, then writing at the end.\<close>

definition append_file :: "refusals \<Rightarrow> string \<Rightarrow> bytes \<Rightarrow> (store, io_error, unit) step" where
  "append_file D p b = checked D (OpenFile p) (\<lambda>s.
     case map_of s p of
       Some (File old) \<Rightarrow> (Ok (), put p (File (old @ b)) s) | Some Dir \<Rightarrow> (Err (OsError 21), s) | None \<Rightarrow> (Err NotFound, s))"

text \<open>Only files are renamed.\<close>

definition rename_file :: "refusals \<Rightarrow> string \<Rightarrow> string \<Rightarrow> (store, io_error, unit) step" where
  "rename_file D p q = checked D (RenameFile p q) (\<lambda>s.
     case map_of s p of
       Some (File b) \<Rightarrow>
         if map_of s q = Some Dir then (Err (OsError 21), s) else (Ok (), put q (File b) (AList.delete p s))
     | Some Dir \<Rightarrow> (Err (OsError 20), s)
     | None \<Rightarrow> (Err NotFound, s))"

section \<open>What the calls do\<close>

lemma map_of_put [simp]: "map_of (put p n s) = (map_of s)(p \<mapsto> n)"
  by (simp add: put_def update_conv')

lemma checked_Ok: "checked D c f s = (Ok x, s') \<longleftrightarrow> D c s = None \<and> f s = (Ok x, s')"
  by (auto simp: checked_def split: option.splits)

lemma remove_dir_all_gone:
  "D (RemoveDirAll p) s = None \<Longrightarrow> below p q \<Longrightarrow> map_of (snd (remove_dir_all D p s)) q = None"
  by (auto simp: remove_dir_all_def checked_def map_of_eq_None_iff list_ex_iff split: prod.splits)

lemma map_of_fold_put: "map_of (fold (\<lambda>a. put a n) as s) q = (if q \<in> set as then Some n else map_of s q)"
  by (induction as arbitrary: s) auto

lemma dir_ancestors_length: "a \<in> set (dir_ancestors p) \<Longrightarrow> length a \<le> length p"
  by (auto simp: dir_ancestors_def)

section \<open>Steps that keep the absence or the contents of a file\<close>

abbreviation absent :: "string \<Rightarrow> store \<Rightarrow> bool" where "absent p s \<equiv> map_of s p = None"
abbreviation has_file :: "string \<Rightarrow> bytes \<Rightarrow> store \<Rightarrow> bool" where "has_file p b s \<equiv> map_of s p = Some (File b)"

lemmas fs_defs = read_dir_def read_file_def write_file_def append_file_def rename_file_def create_dir_all_def remove_dir_all_def
  checked_def

lemma keeps_read [intro, simp]: "keeps P (read_dir D q)" "keeps P (read_file D q)"
  by (auto simp: keeps_def fs_defs split: option.splits node.splits)

lemma keeps_write [intro]:
  "p \<noteq> q \<Longrightarrow> keeps (absent p) (write_file D q b)" "p \<noteq> q \<Longrightarrow> keeps (has_file p c) (write_file D q b)"
  "p \<noteq> q \<Longrightarrow> keeps (has_file p c) (append_file D q b)"
  by (auto simp: keeps_def fs_defs split: option.splits node.splits)

lemma keeps_rename [intro]:
  "keeps_unless_Ok P (rename_file D q r)" "p \<noteq> q \<Longrightarrow> p \<noteq> r \<Longrightarrow> keeps (has_file p c) (rename_file D q r)"
  by (auto simp: keeps_def keeps_unless_Ok_def fs_defs delete_conv' split: option.splits node.splits)

lemma keeps_create_dir_all:
  "p \<notin> set (dir_ancestors q) \<Longrightarrow> keeps (absent p) (create_dir_all D q)" "keeps (has_file p b) (create_dir_all D q)"
  by (auto simp: keeps_def fs_defs map_of_fold_put list_ex_iff split: option.splits node.splits)

lemma keeps_remove_dir_all: "\<not> below q p \<Longrightarrow> keeps (has_file p b) (remove_dir_all D q)"
  by (auto simp: keeps_def fs_defs map_of_filter_in split: option.splits)

end
