(* ===== verification/Cargo_Build.thy ===== *)
theory Cargo_Build
  imports Cargo_Llvm File_System
begin

text \<open>
  Building the programs of a package, \<open>cargo-bpf/src/build.rs\<close>: the flags for the compiler, the
  check of the versions of LLVM, the run of \<open>cargo\<close>, the passes of LLVM, the checks and the fix
  of a tc program and the artifact that is left. The tools that are run and the files that
  the operating system keeps are parameters or the store; the lemmas say what the artifact is
  when the build succeeds and that none is left when it fails.
\<close>

section \<open>Errors\<close>

datatype build_error =
    MissingManifest string
  | NoPrograms
  | NoLLC
  | NoOPT
  | Compile string "compile_error option"
  | MissingBitcode string
  | Link string
  | IOError io_error
  | PatternError string
  | BuildBTF
  | InvalidLLVMVersion string
  | IllegalProgram string

text \<open>\<open>Display\<close>; how paths, errors of the system and errors of LLVM are shown are parameters.\<close>

fun fmt_build_error :: "(string \<Rightarrow> string) \<Rightarrow> (io_error \<Rightarrow> string) \<Rightarrow> (compile_error \<Rightarrow> string) \<Rightarrow> build_error \<Rightarrow> string" where
  "fmt_build_error dbg io llvm (MissingManifest p) = ''Could not find `Cargo.toml'' @ [CHR 0x27] @ '' in '' @ dbg p"
| "fmt_build_error dbg io llvm NoPrograms = ''the package doesn'' @ [CHR 0x27] @ ''t contain any eBPF programs''"
| "fmt_build_error dbg io llvm (Compile p (Some msg)) =
     ''failed to compile the `'' @ p @ [CHR 0x27] @ '' program: couldn'' @ [CHR 0x27] @ ''t process IR file: '' @ llvm msg"
| "fmt_build_error dbg io llvm (Compile p None) = ''failed to compile the `'' @ p @ [CHR 0x27] @ '' program''"
| "fmt_build_error dbg io llvm (MissingBitcode p) =
     ''failed to generate bitcode for the `'' @ p @ [CHR 0x27] @ '' program''"
| "fmt_build_error dbg io llvm (Link p) = ''failed to generate bitcode for the `'' @ p @ [CHR 0x27] @ '' program''"
| "fmt_build_error dbg io llvm NoOPT = ''no usable opt executable found, expecting version 9''"
| "fmt_build_error dbg io llvm NoLLC = ''no usable llc executable found, expecting version 9''"
| "fmt_build_error dbg io llvm (IOError e) = io e"
| "fmt_build_error dbg io llvm (PatternError e) = ''couldn'' @ [CHR 0x27] @ ''t list probe files: '' @ e"
| "fmt_build_error dbg io llvm BuildBTF = ''failed to fix BTF section''"
| "fmt_build_error dbg io llvm (InvalidLLVMVersion p) = ''Invalid LLVMVersion: '' @ p"
| "fmt_build_error dbg io llvm (IllegalProgram p) = ''Illegal Program: '' @ p"

section \<open>The environment\<close>

record 'v build_env =
  refuse :: refusals
  headers :: headers_env
  make_db :: "string \<Rightarrow> (io_error, bytes) outcome"
  since_1_55 :: bool
  canonicalize :: "string \<Rightarrow> store \<Rightarrow> string option"
  linked_llvm :: "(nat \<times> nat) option"
  rustc_llvm :: "(string, (nat \<times> nat) option) outcome"
  run_cargo :: "string \<Rightarrow> string \<Rightarrow> string \<times> string \<Rightarrow> string list \<Rightarrow> (store, io_error, bool) step"
  llvm :: "'v llvm_env"
  no_file :: string
  be_elf :: "bytes \<Rightarrow> Elf result"
  strip_runs :: "string \<Rightarrow> bool"
  strip_exec :: "string \<Rightarrow> string list \<Rightarrow> bytes \<Rightarrow> (io_error, bytes) outcome"

section \<open>Flags\<close>

definition create_rustflags :: "'v build_env \<Rightarrow> string \<times> string" where
  "create_rustflags E =
     (let name = (if since_1_55 E then ''CARGO_ENCODED_RUSTFLAGS'' else ''RUSTFLAGS'');
          sep = (if since_1_55 E then [CHR 0x1F] else '' '');
          given = (case env_var (headers E) name of Some fl \<Rightarrow> if fl = [] then [] else fl @ sep | None \<Rightarrow> [])
      in (name, given @ ''-C'' @ sep @ ''embed-bitcode=yes''))"

text \<open>The cfg \<open>kernel_version\<close> with the minor version capped.\<close>

definition cap_patchlevel :: "nat \<times> nat \<times> nat \<Rightarrow> nat \<times> nat \<times> nat" where
  "cap_patchlevel = (\<lambda>(v, p, s). if 5 \<le> v \<and> 7 \<le> p then (v, 7, s) else (v, p, s))"

definition kernel_version_cfg :: "'v build_env \<Rightarrow> (build_error, string) outcome" where
  "kernel_version_cfg E =
     (let q = [CHR 0x22] in
      case build_kernel_version (headers E) (make_db E) of
        Ok v \<Rightarrow> (case cap_patchlevel v of (v, p, s) \<Rightarrow>
          Ok (''kernel_version='' @ q @ show_nat v @ ''.'' @ show_nat p @ q))
      | Err _ \<Rightarrow> Ok (''kernel_version='' @ q @ ''unknown'' @ q)
      | Panic \<Rightarrow> Panic
      | Undefined \<Rightarrow> Undefined)"

definition llvm_older :: "nat \<times> nat \<Rightarrow> nat \<times> nat \<Rightarrow> bool" where
  "llvm_older l r \<longleftrightarrow> fst l < fst r \<or> fst l = fst r \<and> snd l < snd r"

definition show_llvm :: "nat \<times> nat \<Rightarrow> string" where
  "show_llvm v = ''('' @ show_nat (fst v) @ ''.'' @ show_nat (snd v) @ '')''"

definition check_llvm_version :: "'v build_env \<Rightarrow> (build_error, unit) outcome" where
  "check_llvm_version E =
     and_then (ok_or (linked_llvm E) (InvalidLLVMVersion ''Unknown LLVM version that cargo-bpf linked to'')) (\<lambda>linked.
     and_then (map_err (\<lambda>e. InvalidLLVMVersion (''Failed to get LLVM version of rustc: '' @ e)) (rustc_llvm E)) (\<lambda>v.
     and_then (ok_or v (InvalidLLVMVersion ''Failed to get LLVM version of rustc'')) (\<lambda>rustc.
     if llvm_older linked rustc
     then Err (InvalidLLVMVersion (''LLVM version that cargo-bpf linked to '' @ show_llvm linked @
            '' < LLVM version that rustc depends on '' @ show_llvm rustc @
            ''. You should re-build cargo-bpf with LLVM version '' @ show_llvm rustc @
            '', or downgrade rustc that uses LLVM version '' @ show_llvm linked))
     else Ok ())))"

definition cargo_args :: "string list \<Rightarrow> string \<Rightarrow> string \<Rightarrow> string \<Rightarrow> string \<Rightarrow> string list" where
  "cargo_args features target_dir probe ver artifacts_dir =
     [''rustc'', ''--release'', ''--features='' @ join '','' features, ''--target-dir'', target_dir,
      ''--bin'', probe, ''--'', ''--cfg'', ver, ''--emit=llvm-bc'', ''-C'', ''panic=abort'', ''-C'', ''lto'',
      ''-C'', ''opt-level=3'', ''-C'', ''linker=true'', ''-g'', ''-o'', path_join artifacts_dir probe]"

section \<open>Programs for tc\<close>

definition list_get :: "'a list \<Rightarrow> nat \<Rightarrow> 'a option" where
  "list_get xs i = (if i < length xs then Some (xs ! i) else None)"

abbreviation (input) STT_SECTION :: u8 where "STT_SECTION \<equiv> 3"

text \<open>The relocations of one section; \<open>continue\<close> goes on with the next one.\<close>

fun check_section_relocs :: "Elf \<Rightarrow> string \<Rightarrow> Rel list \<Rightarrow> (build_error, unit) outcome" where
  "check_section_relocs binary hdr_name [] = Ok ()"
| "check_section_relocs binary hdr_name (reloc # relsec) =
     (case list_get (syms binary) (r_sym reloc) of
        None \<Rightarrow> check_section_relocs binary hdr_name relsec
      | Some s \<Rightarrow>
          (case list_get (section_headers binary) (st_shndx s) of
             None \<Rightarrow> check_section_relocs binary hdr_name relsec
           | Some sym_shdr \<Rightarrow>
               (case shdr_strtab binary (sh_name sym_shdr) of
                  None \<Rightarrow> check_section_relocs binary hdr_name relsec
                | Some sym_hdr_name \<Rightarrow>
                    if st_type (st_info s) = STT_SECTION
                    then Err (IllegalProgram (''`'' @ drop 4 hdr_name @ ''` section has a relocation for `'' @ sym_hdr_name @
                      ''` section. But tc utility does not support relocation except for maps. Did you use `map.get(&42)` instead of `map.get(&key)`?''))
                    else check_section_relocs binary hdr_name relsec)))"

fun check_relocs :: "Elf \<Rightarrow> (nat \<times> Rel list) list \<Rightarrow> (build_error, unit) outcome" where
  "check_relocs binary [] = Ok ()"
| "check_relocs binary ((shidx, relsec) # rest) =
     (case list_get (section_headers binary) shidx of
        None \<Rightarrow> check_relocs binary rest
      | Some shdr \<Rightarrow>
          (case shdr_strtab binary (sh_name shdr) of
             None \<Rightarrow> check_relocs binary rest
           | Some hdr_name \<Rightarrow>
               if \<not> starts_with hdr_name ''.reltc_action/'' then check_relocs binary rest
               else and_then (check_section_relocs binary hdr_name relsec) (\<lambda>_. check_relocs binary rest)))"

definition check_tc_action_relocs :: "Elf \<Rightarrow> (build_error, unit) outcome" where
  "check_tc_action_relocs binary = check_relocs binary (shdr_relocs binary)"

section \<open>A program\<close>

text \<open>The name after the last separator, and its part after the last dot unless that is its first character.\<close>

definition file_name :: "string \<Rightarrow> string" where
  "file_name p = rev (takeWhile (\<lambda>c. c \<noteq> CHR ''/'') (rev p))"

definition extension :: "string \<Rightarrow> string option" where
  "extension p =
     (let r = rev (file_name p); e = takeWhile (\<lambda>c. c \<noteq> CHR ''.'') r; stem = drop (length e + 1) r
      in if stem = [] then None else Some (rev e))"

definition with_extension :: "string \<Rightarrow> string \<Rightarrow> string" where
  "with_extension p e =
     (case extension p of Some old \<Rightarrow> take (length p - length old) p @ e | None \<Rightarrow> p @ ''.'' @ e)"

definition bitcode_file :: "string \<Rightarrow> string list \<Rightarrow> (build_error, string) outcome" where
  "bitcode_file probe entries =
     (case filter (\<lambda>p. extension p = Some ''bc'') entries of [p] \<Rightarrow> Ok p | _ \<Rightarrow> Err (MissingBitcode probe))"

text \<open>
  \<open>llvm::compile\<close> on files: the object file and the optimised bitcode are written when it
  succeeds. What LLVM leaves of them when it fails is not looked at.
\<close>

definition compile_file :: "'v build_env \<Rightarrow> string \<Rightarrow> string \<Rightarrow> string \<Rightarrow> (store, compile_error, unit) step" where
  "compile_file E input outp bc_output s =
     (case map_of s input of
        Some (File b) \<Rightarrow>
          (case llvm_compile (llvm E) b of
             Ok (obj, opt) \<Rightarrow> (Ok (), put outp (File obj) (put bc_output (File opt) s))
           | Err e \<Rightarrow> (Err e, s)
           | Panic \<Rightarrow> (Panic, s)
           | Undefined \<Rightarrow> (Undefined, s))
      | _ \<Rightarrow> (Err (Llvm (no_file E)), s))"

definition contains_tc :: "'v build_env \<Rightarrow> string \<Rightarrow> (store, build_error, bool) step" where
  "contains_tc E bc_file s =
     (case map_of s bc_file of
        Some (File b) \<Rightarrow>
          (case get_function_section_names (llvm E) b of
             Ok names \<Rightarrow> (Ok (list_ex (\<lambda>name. starts_with name ''tc_action/'') names), s)
           | Err _ \<Rightarrow> (Ok False, s)
           | Panic \<Rightarrow> (Panic, s)
           | Undefined \<Rightarrow> (Undefined, s))
      | _ \<Rightarrow> (Ok False, s))"

definition fix_tc :: "'v build_env \<Rightarrow> string \<Rightarrow> string \<Rightarrow> (store, build_error, unit) step" where
  "fix_tc E probe target_tmp =
     and_do (err_step IOError (read_file (refuse E) target_tmp)) (\<lambda>elf_bytes.
     and_do (give (map_err (\<lambda>_. IllegalProgram (probe @ '': failed to parse ELF'')) (be_elf E elf_bytes))) (\<lambda>binary.
     and_do (give (check_tc_action_relocs binary)) (\<lambda>_.
     and_do (give (map_err (\<lambda>_. BuildBTF) (tc_legacy_fix_btf_section (be_elf E) elf_bytes))) (\<lambda>fixed.
     err_step IOError (write_file (refuse E) target_tmp fixed)))))"

definition strip_file :: "'v build_env \<Rightarrow> string \<Rightarrow> bool \<Rightarrow> (store, build_error, unit) step" where
  "strip_file E p delete_btf s =
     (case map_of s p of
        Some (File b) \<Rightarrow> (Ok (), put p (File (strip_unnecessary (strip_runs E) (strip_exec E) delete_btf b)) s)
      | _ \<Rightarrow> (Ok (), s))"

definition artifacts :: "string \<Rightarrow> string \<Rightarrow> string" where
  "artifacts target_dir probe = path_join (path_join (path_join target_dir ''bpf'') ''programs'') probe"

text \<open>What follows the run of \<open>cargo\<close>.\<close>

definition make_object :: "'v build_env \<Rightarrow> string \<Rightarrow> string \<Rightarrow> (store, build_error, unit) step" where
  "make_object E artifacts_dir probe =
     and_do (err_step IOError (read_dir (refuse E) artifacts_dir)) (\<lambda>entries.
     and_do (give (bitcode_file probe entries)) (\<lambda>bc_file.
     let opt_bc_file = with_extension bc_file ''bc.opt'';
         target_tmp = path_join artifacts_dir (probe @ ''.elf.tmp'');
         target = path_join artifacts_dir (probe @ ''.elf'')
     in and_do (err_step (\<lambda>msg. Compile probe (Some msg)) (compile_file E bc_file target_tmp opt_bc_file)) (\<lambda>_.
        and_do (contains_tc E bc_file) (\<lambda>tc.
        and_do (if tc then fix_tc E probe target_tmp else give (Ok ())) (\<lambda>_.
        and_do (strip_file E target_tmp tc) (\<lambda>_.
        err_step IOError (rename_file (refuse E) target_tmp target)))))))"

text \<open>What follows the removal of the old artifacts.\<close>

definition build_artifact :: "'v build_env \<Rightarrow> string \<Rightarrow> string \<Rightarrow> string \<Rightarrow> string \<Rightarrow> string list \<Rightarrow> (store, build_error, unit) step" where
  "build_artifact E cargo package canonical probe features =
     and_do (err_step IOError (create_dir_all (refuse E) (artifacts canonical probe))) (\<lambda>_.
     and_do (give (kernel_version_cfg E)) (\<lambda>ver.
     and_do (give (check_llvm_version E)) (\<lambda>_.
     and_do (err_step IOError (run_cargo E cargo package (create_rustflags E)
             (cargo_args features (path_join canonical ''bpf'') probe ver (artifacts canonical probe)))) (\<lambda>success.
     if success then make_object E (artifacts canonical probe) probe else give (Err (Compile probe None))))))"

definition build_probe :: "'v build_env \<Rightarrow> string \<Rightarrow> string \<Rightarrow> string \<Rightarrow> string \<Rightarrow> string list \<Rightarrow> (store, build_error, unit) step" where
  "build_probe E cargo package target_dir probe features =
     and_do (err_step IOError (create_dir_all (refuse E) target_dir)) (\<lambda>_.
     and_do (\<lambda>s. give (unwrap (canonicalize E target_dir s)) s) (\<lambda>canonical.
     and_do (ignore_err (remove_dir_all (refuse E) (artifacts canonical probe))) (\<lambda>_.
     build_artifact E cargo package canonical probe features)))"

section \<open>Relocations of tc programs\<close>

definition section_name :: "Elf \<Rightarrow> nat \<Rightarrow> string option" where
  "section_name binary i = Option.bind (list_get (section_headers binary) i) (\<lambda>h. shdr_strtab binary (sh_name h))"

text \<open>A relocation against the contents of a section that has a name.\<close>

definition data_reloc :: "Elf \<Rightarrow> Rel \<Rightarrow> bool" where
  "data_reloc binary reloc \<longleftrightarrow>
     (case list_get (syms binary) (r_sym reloc) of
        None \<Rightarrow> False
      | Some s \<Rightarrow> st_type (st_info s) = STT_SECTION \<and> section_name binary (st_shndx s) \<noteq> None)"

definition tc_data_reloc :: "Elf \<Rightarrow> nat \<Rightarrow> Rel list \<Rightarrow> bool" where
  "tc_data_reloc binary i relsec \<longleftrightarrow>
     (\<exists>action. section_name binary i = Some (''.reltc_action/'' @ action)) \<and> list_ex (data_reloc binary) relsec"

lemma check_section_relocs_iff:
  "if list_ex (data_reloc binary) relsec then \<exists>msg. check_section_relocs binary hdr relsec = Err (IllegalProgram msg)
   else check_section_relocs binary hdr relsec = Ok ()"
  by (induction relsec) (auto simp: data_reloc_def section_name_def split: option.splits if_splits)

lemma check_relocs_iff:
  "if \<exists>(i, relsec) \<in> set rs. tc_data_reloc binary i relsec then \<exists>msg. check_relocs binary rs = Err (IllegalProgram msg)
   else check_relocs binary rs = Ok ()"
proof (induction rs)
  case (Cons r rs)
  obtain i relsec where r: "r = (i, relsec)" by fastforce
  show ?case
  proof (cases "\<exists>action. section_name binary i = Some (''.reltc_action/'' @ action)")
    case True
    then obtain action shdr where "list_get (section_headers binary) i = Some shdr"
      "shdr_strtab binary (sh_name shdr) = Some (''.reltc_action/'' @ action)"
      by (auto simp: section_name_def bind_eq_Some_conv)
    then have "check_relocs binary (r # rs) =
        and_then (check_section_relocs binary (''.reltc_action/'' @ action) relsec) (\<lambda>_. check_relocs binary rs)"
      by (simp add: r)
    then show ?thesis
      using Cons.IH check_section_relocs_iff [of binary relsec "''.reltc_action/'' @ action"] True
      by (auto simp: r tc_data_reloc_def split: if_splits)
  next
    case False
    then have "check_relocs binary (r # rs) = check_relocs binary rs"
      by (auto simp: r section_name_def starts_with_iff split: option.splits)
    then show ?thesis using Cons.IH False by (auto simp: r tc_data_reloc_def)
  qed
qed simp

section \<open>The artifact\<close>

text \<open>
  What the artifact of a program is: the bitcode that \<open>cargo\<close> left, compiled, fixed if some
  function of it is in a section for tc, and stripped.
\<close>

definition has_tc :: "'v build_env \<Rightarrow> bytes \<Rightarrow> bool" where
  "has_tc E bc \<longleftrightarrow>
     (\<exists>m f action. load_module (llvm E) bc = Ok m \<and> f \<in> set (lm_functions m) \<and> fn_section f = Some (''tc_action/'' @ action))"

definition artifact_of :: "'v build_env \<Rightarrow> bytes \<Rightarrow> bytes \<Rightarrow> bool" where
  "artifact_of E bc elf \<longleftrightarrow>
     (\<exists>m obj opt fixed. load_module (llvm E) bc = Ok m \<and> check_map_value_alignment (le_api (llvm E)) m = Ok () \<and>
        compile_module (llvm E) (process_ir (le_exit_call (llvm E)) m) = Ok (obj, opt) \<and>
        (if has_tc E bc
         then \<exists>binary. be_elf E obj = Ok binary \<and> (\<forall>(i, relsec) \<in> set (shdr_relocs binary). \<not> tc_data_reloc binary i relsec) \<and>
           tc_legacy_fix_btf_section (be_elf E) obj = Ok fixed
         else fixed = obj) \<and>
        elf = strip_unnecessary (strip_runs E) (strip_exec E) (has_tc E bc) fixed)"

lemma contains_tc_Ok:
  assumes "map_of s bc_file = Some (File bc)" "contains_tc E bc_file s = (Ok tc, s')"
  shows "s' = s \<and> tc = has_tc E bc"
proof -
  have "list_ex (\<lambda>n. starts_with n p) (List.map_filter fn_section fs) \<longleftrightarrow>
      (\<exists>f \<in> set fs. \<exists>a. fn_section f = Some (p @ a))" for p and fs :: "'a llvm_function list"
    by (induction fs) (auto simp: starts_with_iff map_filter_simps split: option.splits)
  then show ?thesis using assms
    by (cases "load_module (llvm E) bc")
      (auto simp: contains_tc_def get_function_section_names_def has_tc_def)
qed

text \<open>The names of the files differ in their last characters.\<close>

lemma last_path_join: "q \<noteq> [] \<Longrightarrow> last (path_join p q) = last q"
  by (simp add: path_join_def)

lemma last_extension: "extension p = Some e \<Longrightarrow> e \<noteq> [] \<Longrightarrow> last p = last e"
proof -
  assume e: "extension p = Some e" "e \<noteq> []"
  let ?r = "takeWhile (\<lambda>c. c \<noteq> CHR ''/'') (rev p)" and ?t = "takeWhile (\<lambda>c. c \<noteq> CHR ''.'')"
  have "e = rev (?t ?r)" using e(1) by (auto simp: extension_def file_name_def Let_def split: if_splits)
  then obtain x xs where "?t ?r = x # xs" "last e = x" using e(2) by (cases "?t ?r") auto
  then show "last p = last e" by (cases p rule: rev_cases) (auto split: if_splits)
qed

lemma last_with_extension: "e \<noteq> [] \<Longrightarrow> last (with_extension p e) = last e"
  by (auto simp: with_extension_def split: option.splits)

definition direct_entries :: "string \<Rightarrow> store \<Rightarrow> string set" where
  "direct_entries d s = {q \<in> dom (map_of s). starts_with q (d @ ''/'') \<and> CHR ''/'' \<notin> set (drop (length d + 1) q)}"

lemma read_dir_Ok: "read_dir D d s = (Ok es, s') \<Longrightarrow> s' = s \<and> set es = direct_entries d s \<and> distinct es"
  by (auto simp: read_dir_def checked_Ok direct_entries_def dom_map_of_conv_image_fst
      image_iff split: if_splits) force+

lemma bitcode_file_Ok:
  "bitcode_file probe es = Ok p \<Longrightarrow> {q \<in> set es. extension q = Some ''bc''} = {p}"
proof -
  assume "bitcode_file probe es = Ok p"
  then have "filter (\<lambda>q. extension q = Some ''bc'') es = [p]" by (auto simp: bitcode_file_def split: list.splits)
  then show ?thesis using set_filter [of "\<lambda>q. extension q = Some ''bc''" es] by simp
qed

lemma compile_file_Ok:
  assumes "compile_file E input outp opt_out s = (Ok (), s')"
  obtains b m obj opt where "map_of s input = Some (File b)" "load_module (llvm E) b = Ok m"
    "check_map_value_alignment (le_api (llvm E)) m = Ok ()"
    "compile_module (llvm E) (process_ir (le_exit_call (llvm E)) m) = Ok (obj, opt)"
    "s' = put outp (File obj) (put opt_out (File opt) s)"
  using assms by (auto simp: compile_file_def llvm_compile_def and_then_eq_Ok split: option.splits node.splits outcome.splits)

lemma fix_tc_Ok:
  assumes "fix_tc E probe p s = (Ok (), s')" "map_of s p = Some (File obj)"
  obtains binary fixed where "be_elf E obj = Ok binary" "\<forall>(i, relsec) \<in> set (shdr_relocs binary). \<not> tc_data_reloc binary i relsec"
    "tc_legacy_fix_btf_section (be_elf E) obj = Ok fixed" "s' = put p (File fixed) s"
proof -
  obtain binary fixed where "be_elf E obj = Ok binary" "check_tc_action_relocs binary = Ok ()"
    "tc_legacy_fix_btf_section (be_elf E) obj = Ok fixed" "s' = put p (File fixed) s"
    using assms by (auto simp: fix_tc_def and_do_eq_Ok read_file_def write_file_def checked_Ok split: if_splits)
  then show ?thesis
    using that check_relocs_iff [of "shdr_relocs binary" binary] by (auto simp: check_tc_action_relocs_def split: if_splits)
qed

lemma make_object_Ok:
  assumes "make_object E dir probe s = (Ok (), s')"
  shows "\<exists>bc_file bc elf. {q \<in> direct_entries dir s. extension q = Some ''bc''} = {bc_file} \<and> map_of s bc_file = Some (File bc) \<and>
    artifact_of E bc elf \<and> map_of s' (path_join dir (probe @ ''.elf'')) = Some (File elf)"
proof -
  let ?tmp = "path_join dir (probe @ ''.elf.tmp'')" and ?target = "path_join dir (probe @ ''.elf'')"
  obtain es s0 bc_file s1 tc s2 s3 s4 where es: "read_dir (refuse E) dir s = (Ok es, s0)" and bc: "bitcode_file probe es = Ok bc_file"
    and s1: "compile_file E bc_file ?tmp (with_extension bc_file ''bc.opt'') s0 = (Ok (), s1)"
    and tc: "contains_tc E bc_file s1 = (Ok tc, s2)"
    and s3: "(if tc then fix_tc E probe ?tmp else give (Ok ())) s2 = (Ok (), s3)"
    and s4: "strip_file E ?tmp tc s3 = (Ok (), s4)" and fin: "rename_file (refuse E) ?tmp ?target s4 = (Ok (), s')"
    using assms by (auto simp: make_object_def Let_def and_do_eq_Ok)
  have s0: "s0 = s" using read_dir_Ok [OF es] by simp
  have one: "{q \<in> direct_entries dir s. extension q = Some ''bc''} = {bc_file}"
    using bitcode_file_Ok [OF bc] read_dir_Ok [OF es] by simp
  then have "last bc_file = CHR ''c''" using last_extension [of bc_file "''bc''"] by auto
  then have ne: "bc_file \<noteq> ?tmp" "bc_file \<noteq> with_extension bc_file ''bc.opt''"
    using last_path_join [of "probe @ ''.elf.tmp''" dir] last_with_extension [of "''bc.opt''" bc_file] by auto
  obtain b m obj opt where b: "map_of s bc_file = Some (File b)" and c: "load_module (llvm E) b = Ok m"
    "check_map_value_alignment (le_api (llvm E)) m = Ok ()"
    "compile_module (llvm E) (process_ir (le_exit_call (llvm E)) m) = Ok (obj, opt)"
    and s1': "s1 = put ?tmp (File obj) (put (with_extension bc_file ''bc.opt'') (File opt) s)"
    by (rule compile_file_Ok [OF s1 [unfolded s0]])
  have s2: "s2 = s1" "tc = has_tc E b" using contains_tc_Ok [OF _ tc] ne b by (simp_all add: s1')
  obtain fixed where f: "map_of s3 ?tmp = Some (File fixed)" and fix':
    "if has_tc E b then \<exists>binary. be_elf E obj = Ok binary \<and> (\<forall>(i, relsec) \<in> set (shdr_relocs binary). \<not> tc_data_reloc binary i relsec) \<and>
       tc_legacy_fix_btf_section (be_elf E) obj = Ok fixed else fixed = obj"
  proof (cases "has_tc E b")
    case True
    with s3 s2 have "fix_tc E probe ?tmp s1 = (Ok (), s3)" by simp
    then obtain binary fixed where "be_elf E obj = Ok binary" "\<forall>(i, relsec) \<in> set (shdr_relocs binary). \<not> tc_data_reloc binary i relsec"
      "tc_legacy_fix_btf_section (be_elf E) obj = Ok fixed" "s3 = put ?tmp (File fixed) s1"
      by (rule fix_tc_Ok [where obj = obj]) (auto simp: s1')
    then show ?thesis using True by (intro that [of fixed]) auto
  next
    case False
    with s3 s2 show ?thesis by (intro that [of obj]) (auto simp: s1')
  qed
  have "map_of s' ?target = Some (File (strip_unnecessary (strip_runs E) (strip_exec E) tc fixed))"
    using fin s4 f by (auto simp: rename_file_def strip_file_def checked_Ok split: if_splits)
  then show ?thesis using one b c fix' unfolding artifact_of_def s2(2) by blast
qed

section \<open>A build that fails\<close>

lemma keeps_object_steps:
  assumes "p \<noteq> tmp" "p \<noteq> opt"
  shows "keeps (absent p) (compile_file E bc tmp opt)" "keeps (absent p) (contains_tc E bc)"
    "keeps (absent p) (strip_file E tmp tc)" "keeps (absent p) (fix_tc E probe tmp)"
    "keeps (has_file p b) (compile_file E bc tmp opt)" "keeps (has_file p b) (contains_tc E bc)"
    "keeps (has_file p b) (strip_file E tmp tc)" "keeps (has_file p b) (fix_tc E probe tmp)"
proof -
  show "keeps (absent p) (fix_tc E probe tmp)" "keeps (has_file p b) (fix_tc E probe tmp)"
    unfolding fix_tc_def using assms(1) by (intro keeps_and_do; auto)+
qed (use assms in \<open>auto simp: keeps_def compile_file_def contains_tc_def strip_file_def
        split: option.splits node.splits outcome.splits\<close>)

lemma keeps_at_object_steps:
  assumes "p \<noteq> tmp" "p \<noteq> opt"
  shows "keeps (\<lambda>s. map_of s p = v) (compile_file E bc tmp opt)" "keeps (\<lambda>s. map_of s p = v) (contains_tc E bc)"
    "keeps (\<lambda>s. map_of s p = v) (strip_file E tmp tc)" "keeps (\<lambda>s. map_of s p = v) (fix_tc E probe tmp)"
proof -
  have "keeps (\<lambda>s. map_of s p = v) (write_file D tmp b)" for D b
    using assms(1) by (auto simp: keeps_def fs_defs split: option.splits node.splits)
  then show "keeps (\<lambda>s. map_of s p = v) (fix_tc E probe tmp)"
    unfolding fix_tc_def by (intro keeps_and_do; auto)
qed (use assms in \<open>auto simp: keeps_def compile_file_def contains_tc_def strip_file_def
        split: option.splits node.splits outcome.splits\<close>)

text \<open>A build that fails leaves what was at the place of the artifact, if anything.\<close>

lemma make_object_fails_keeps:
  "keeps_unless_Ok (\<lambda>s. map_of s (path_join dir (probe @ ''.elf'')) = v) (make_object E dir probe)"
proof -
  let ?target = "path_join dir (probe @ ''.elf'')" and ?tmp = "path_join dir (probe @ ''.elf.tmp'')"
  have ne: "?target \<noteq> ?tmp" "?target \<noteq> with_extension bc ''bc.opt''" for bc
    using last_path_join [of "probe @ ''.elf.tmp''" dir] last_path_join [of "probe @ ''.elf''" dir]
      last_with_extension [of "''bc.opt''" bc] by auto
  have steps: "keeps (\<lambda>s. map_of s ?target = v) (compile_file E bc ?tmp (with_extension bc ''bc.opt''))"
    "keeps (\<lambda>s. map_of s ?target = v) (contains_tc E bc)" "keeps (\<lambda>s. map_of s ?target = v) (strip_file E ?tmp tc)"
    "keeps (\<lambda>s. map_of s ?target = v) (fix_tc E probe ?tmp)" for bc tc
    by (rule keeps_at_object_steps [OF ne])+
  show ?thesis unfolding make_object_def Let_def
    by (intro keeps_unless_and_do keeps_err_step keeps_read keeps_give keeps_rename) (auto intro: steps)
qed

lemma build_probe_split:
  assumes "create_dir_all (refuse E) target_dir s = (Ok (), s1)" "canonicalize E target_dir s1 = Some canonical"
  shows "build_probe E cargo package target_dir probe features s =
    build_artifact E cargo package canonical probe features (snd (remove_dir_all (refuse E) (artifacts canonical probe) s1))"
proof -
  let ?rm = "remove_dir_all (refuse E) (artifacts canonical probe)"
  have "fst (?rm s1) = Ok () \<or> (\<exists>e. fst (?rm s1) = Err e)"
    by (auto simp: remove_dir_all_def checked_def split: option.splits)
  then have r: "ignore_err ?rm s1 = (Ok (), snd (?rm s1))" by (cases "?rm s1") (auto simp: ignore_err_def)
  have c: "err_step IOError (create_dir_all (refuse E) target_dir) s = (Ok (), s1)" using assms(1) by simp
  have k: "give (unwrap (canonicalize E target_dir s1)) s1 = (Ok canonical, s1)" using assms(2) by simp
  show ?thesis by (simp add: build_probe_def and_do_def c k r)
qed

lemma artifacts_eq: "\<exists>d. artifacts canonical probe = path_join (d @ ''programs'') probe"
  by (auto simp: artifacts_def path_join_def)

lemma target_below:
  assumes "probe \<noteq> []" "CHR ''/'' \<notin> set probe"
  shows "below (artifacts canonical probe) (path_join (artifacts canonical probe) (probe @ ''.elf''))"
    and "path_join (artifacts canonical probe) (probe @ ''.elf'') \<notin> set (dir_ancestors (artifacts canonical probe))"
proof -
  let ?d = "artifacts canonical probe"
  have s: "\<not> starts_with probe ''/''" "\<not> starts_with (probe @ ''.elf'') ''/''" using assms by (cases probe; auto)+
  then have "last ?d = last probe" "?d \<noteq> []" using assms artifacts_eq [of canonical probe] by (auto simp: path_join_def)
  then have j: "path_join ?d (probe @ ''.elf'') = ?d @ ''/'' @ probe @ ''.elf''"
    using s(2) assms(2) last_in_set [OF assms(1)] by (simp add: path_join_def) metis
  show "below ?d (path_join ?d (probe @ ''.elf''))" unfolding j by (simp add: below_def starts_with_iff)
  show "path_join ?d (probe @ ''.elf'') \<notin> set (dir_ancestors ?d)" using dir_ancestors_length [of _ ?d] unfolding j by fastforce
qed

lemma is_Ok_unit: "is_Ok r \<longleftrightarrow> r = Ok ()"
  by (cases r) simp_all

text \<open>
  The bitcode of a build: what the only file with the extension \<open>bc\<close> in the directory of
  artifacts holds after \<open>cargo\<close> succeeded there.
\<close>

definition bitcode_of :: "'v build_env \<Rightarrow> string \<Rightarrow> string \<Rightarrow> string \<Rightarrow> string \<Rightarrow> string list \<Rightarrow> store \<Rightarrow> bytes \<Rightarrow> bool" where
  "bitcode_of E cargo package canonical probe features s bc \<longleftrightarrow>
     (\<exists>s1 ver s2 p. create_dir_all (refuse E) (artifacts canonical probe) s = (Ok (), s1) \<and> kernel_version_cfg E = Ok ver \<and>
        run_cargo E cargo package (create_rustflags E)
          (cargo_args features (path_join canonical ''bpf'') probe ver (artifacts canonical probe)) s1 = (Ok True, s2) \<and>
        {q \<in> direct_entries (artifacts canonical probe) s2. extension q = Some ''bc''} = {p} \<and> map_of s2 p = Some (File bc))"

lemma build_artifact_Ok:
  assumes "build_artifact E cargo package canonical probe features s = (Ok (), s')"
  shows "\<exists>linked rustc bc elf. linked_llvm E = Some linked \<and> rustc_llvm E = Ok (Some rustc) \<and> \<not> llvm_older linked rustc \<and>
    bitcode_of E cargo package canonical probe features s bc \<and>
    artifact_of E bc elf \<and> map_of s' (path_join (artifacts canonical probe) (probe @ ''.elf'')) = Some (File elf)"
proof -
  obtain s1 ver s2 where v: "check_llvm_version E = Ok ()" and m: "make_object E (artifacts canonical probe) probe s2 = (Ok (), s')"
    and b: "create_dir_all (refuse E) (artifacts canonical probe) s = (Ok (), s1)" "kernel_version_cfg E = Ok ver"
    "run_cargo E cargo package (create_rustflags E)
      (cargo_args features (path_join canonical ''bpf'') probe ver (artifacts canonical probe)) s1 = (Ok True, s2)"
    using assms unfolding build_artifact_def and_do_eq_Ok by (elim exE conjE) (rule that; simp split: if_splits)
  from v obtain linked rustc where "linked_llvm E = Some linked" "rustc_llvm E = Ok (Some rustc)" "\<not> llvm_older linked rustc"
    by (auto simp: check_llvm_version_def and_then_eq_Ok ok_or_eq_Ok split: if_splits)
  moreover obtain p bc elf where "{q \<in> direct_entries (artifacts canonical probe) s2. extension q = Some ''bc''} = {p}"
    "map_of s2 p = Some (File bc)" and a: "artifact_of E bc elf"
    "map_of s' (path_join (artifacts canonical probe) (probe @ ''.elf'')) = Some (File elf)"
    using make_object_Ok [OF m] by (elim exE conjE) (rule that)
  then have "bitcode_of E cargo package canonical probe features s bc" unfolding bitcode_of_def using b by (intro exI conjI)
  ultimately show ?thesis using a by (intro exI conjI)
qed


text \<open>
  A build that succeeds; one with an LLVM that is too old, which removes what an earlier
  build left; and the same with a removal that is refused.
\<close>

definition old_llvm_env :: "nat build_env" where
  "old_llvm_env =
     \<lparr>refuse = \<lambda>_ _. None, headers = demo_env, make_db = \<lambda>_. Err NotFound, since_1_55 = True, canonicalize = \<lambda>p _. Some p,
      linked_llvm = Some (12, 0), rustc_llvm = Ok (Some (13, 0)), run_cargo = \<lambda>_ _ _ _. give (Ok True),
      llvm = \<lparr>le_api = sample_api, le_exit_call = 7, load_module = \<lambda>_. Ok sample_module, compile_module = \<lambda>_. Ok ([], [])\<rparr>,
      no_file = ''no such file'', be_elf = \<lambda>_. Panic, strip_runs = \<lambda>_. False, strip_exec = \<lambda>_ _ _. Err NotFound\<rparr>"

definition kprobe_module :: "nat llvm_module" where
  "kprobe_module = sample_module\<lparr>lm_globals := []\<rparr>"

definition working_env :: "nat build_env" where
  "working_env = old_llvm_env\<lparr>canonicalize := \<lambda>_ _. Some ''/t'', linked_llvm := Some (13, 0),
     run_cargo := \<lambda>_ _ _ args s. (Ok True, put (last args @ ''.bc'') (File [1]) s),
     llvm := \<lparr>le_api = sample_api, le_exit_call = 7, load_module = \<lambda>_. Ok kprobe_module, compile_module = \<lambda>_. Ok ([2], [3])\<rparr>\<rparr>"

lemma working_env_simps:
  "refuse working_env = (\<lambda>_ _. None)" "canonicalize working_env = (\<lambda>_ _. Some ''/t'')"
  "run_cargo working_env = (\<lambda>_ _ _ args s. (Ok True, put (last args @ ''.bc'') (File [1]) s))"
  "strip_runs working_env = (\<lambda>_. False)" "check_llvm_version working_env = Ok ()"
  "llvm_compile (llvm working_env) b = Ok ([2], [3])"
  "get_function_section_names (llvm working_env) b = Ok [''kprobe/probe'']"
  by (simp_all add: working_env_def old_llvm_env_def check_llvm_version_def llvm_older_def llvm_compile_def check_map_value_alignment_def
      kprobe_module_def get_function_section_names_def sample_module_def map_filter_simps)

lemma working_version: "\<exists>v. kernel_version_cfg working_env = Ok v"
  by (simp add: kernel_version_cfg_def working_env_def old_llvm_env_def build_kernel_version_def kernel_headers_path_def
      get_custom_header_path_def lib_modules_kernel_headers_def running_kernel_version_def
      get_custom_header_version_def demo_env_def split_kernel_headers_def path_join_def Let_def)

lemma working_build: "\<exists>s'. build_probe working_env ''cargo'' ''/p'' ''/t'' ''x'' [''probes''] [(''/p/Cargo.toml'', File [])] = (Ok (), s')"
proof -
  obtain v where v: "kernel_version_cfg working_env = Ok v" using working_version by blast
  have a: "dir_ancestors ''/t'' = [''/t'']" "dir_ancestors ''/t/bpf/programs/x'' = [''/t'', ''/t/bpf'', ''/t/bpf/programs'', ''/t/bpf/programs/x'']"
    by (simp_all add: dir_ancestors_def upt_rec)
  show ?thesis
    by (simp add: build_probe_def build_artifact_def make_object_def and_do_def give_def err_step_def ignore_err_def v working_env_simps
       fs_defs a artifacts_def path_join_def cargo_args_def put_def below_def bitcode_file_def extension_def file_name_def with_extension_def
       compile_file_def contains_tc_def strip_file_def strip_unnecessary_def find_available_command_def Let_def)
qed

lemma cargo_keeps_artifact:
  "keeps (\<lambda>s. map_of s ''/t/bpf/programs/x/x.elf'' = v) (run_cargo working_env cargo package e args)"
  "keeps (\<lambda>s. map_of s p = v) (run_cargo (old_llvm_env\<lparr>refuse := D\<rparr>) cargo package e args)"
proof -
  have "last args @ ''.bc'' \<noteq> ''/t/bpf/programs/x/x.elf''" by (auto dest: arg_cong [where f = last])
  then show "keeps (\<lambda>s. map_of s ''/t/bpf/programs/x/x.elf'' = v) (run_cargo working_env cargo package e args)"
    by (simp add: working_env_simps keeps_def)
qed (simp add: old_llvm_env_def)


end
