(* ===== verification/Cargo_Package.thy ===== *)
theory Cargo_Package
  imports Cargo_Build "HOL-Library.Countable"
begin

text \<open>
  Packages of programs: which programs of a manifest are built, the build of all of them
  (\<open>cargo-bpf/src/build.rs\<close>), and the commands that make a package and add a program to it
  (\<open>new.rs\<close>, \<open>new_program.rs\<close>). The tables of \<open>toml_edit\<close> are a parameter; the results on the
  manifest are under the laws of its tables.
\<close>

section \<open>Manifests\<close>

datatype toml_value = TomlString string | TomlArray "toml_value list" | TomlOther
datatype 't toml_item = ItemNone | ItemValue toml_value | ItemTable 't | ItemArrayOfTables "'t list"

record 't toml_api =
  tab_get :: "'t \<Rightarrow> string \<Rightarrow> 't toml_item"
  item_get :: "'t toml_item \<Rightarrow> string \<Rightarrow> 't toml_item"
  tab_put :: "'t \<Rightarrow> string \<Rightarrow> 't toml_item \<Rightarrow> 't"
  or_insert :: "'t \<Rightarrow> string \<Rightarrow> 't toml_item \<Rightarrow> 't"
  tab_new :: 't
  toml_parse :: "string \<Rightarrow> 't option"
  toml_print :: "'t \<Rightarrow> string"

fun as_str :: "'t toml_item \<Rightarrow> string option" where
  "as_str (ItemValue (TomlString s)) = Some s"
| "as_str _ = None"

text \<open>\<open>all\<close> stops at the first feature that is not given; a feature that is no string panics.\<close>

fun all_features :: "string list \<Rightarrow> toml_value list \<Rightarrow> (build_error, bool) outcome" where
  "all_features features [] = Ok True"
| "all_features features (TomlString f # fs) = (if f \<in> set features then all_features features fs else Ok False)"
| "all_features features (_ # fs) = Panic"

definition wanted :: "'t toml_api \<Rightarrow> string list \<Rightarrow> 't \<Rightarrow> (build_error, bool) outcome" where
  "wanted A features tab =
     (case tab_get A tab ''required-features'' of
        ItemValue req_feats \<Rightarrow> (case req_feats of TomlArray fs \<Rightarrow> all_features features fs | _ \<Rightarrow> Panic)
      | _ \<Rightarrow> Ok True)"

fun bin_names :: "'t toml_api \<Rightarrow> string list \<Rightarrow> 't list \<Rightarrow> (build_error, string list) outcome" where
  "bin_names A features [] = Ok []"
| "bin_names A features (tab # tabs) =
     and_then (wanted A features tab) (\<lambda>w.
     if w then and_then (unwrap (as_str (tab_get A tab ''name''))) (\<lambda>name.
       and_then (bin_names A features tabs) (\<lambda>names. Ok (name # names)))
     else bin_names A features tabs)"

definition probe_names :: "'t toml_api \<Rightarrow> 't \<Rightarrow> string list \<Rightarrow> (build_error, string list) outcome" where
  "probe_names A doc features =
     (case tab_get A doc ''bin'' of ItemArrayOfTables aot \<Rightarrow> bin_names A features aot | _ \<Rightarrow> Err NoPrograms)"

section \<open>Building a package\<close>

record BuildOptions =
  bo_target_dir :: string
  bo_force_loop_unroll :: bool

text \<open>\<open>fs::read_to_string(path).unwrap()\<close> and \<open>data.parse().unwrap()\<close>\<close>

definition manifest_at :: "refusals \<Rightarrow> 't toml_api \<Rightarrow> string \<Rightarrow> store \<Rightarrow> 't option" where
  "manifest_at D A path s =
     (case read_file D path s of (Ok b, _) \<Rightarrow> Option.bind (to_str b) (toml_parse A) | _ \<Rightarrow> None)"

definition load_manifest :: "refusals \<Rightarrow> 't toml_api \<Rightarrow> string \<Rightarrow> (store, 'e, 't) step" where
  "load_manifest D A path s = give (unwrap (manifest_at D A path s)) s"

definition load_package :: "'v build_env \<Rightarrow> 't toml_api \<Rightarrow> string \<Rightarrow> (store, build_error, 't) step" where
  "load_package E A package s =
     (let path = path_join package ''Cargo.toml''
      in if exists_path path s then load_manifest (refuse E) A path s else (Err (MissingManifest path), s))"

fun build_probes :: "'v build_env \<Rightarrow> string \<Rightarrow> string \<Rightarrow> string \<Rightarrow> string list \<Rightarrow> string list \<Rightarrow> (store, build_error, unit) step" where
  "build_probes E cargo package target_dir features [] = give (Ok ())"
| "build_probes E cargo package target_dir features (probe # probes) =
     and_do (build_probe E cargo package target_dir probe features) (\<lambda>_.
     build_probes E cargo package target_dir features probes)"

text \<open>
  The options of LLVM are global: the environment depends on whether every loop is unrolled.
  The names that were built are given back.
\<close>

definition build_with_features :: "(bool \<Rightarrow> 'v build_env) \<Rightarrow> 't toml_api \<Rightarrow> string \<Rightarrow> string \<Rightarrow> string list \<Rightarrow> BuildOptions \<Rightarrow>
    string list \<Rightarrow> (store, build_error, string list) step" where
  "build_with_features Es A cargo package probes buildopt features s =
     (let E = Es (bo_force_loop_unroll buildopt); path = path_join package ''Cargo.toml''
      in if \<not> exists_path path s then (Err (MissingManifest path), s)
         else and_do (if probes = [] then and_do (load_package E A package) (\<lambda>doc. give (probe_names A doc features))
                      else give (Ok probes)) (\<lambda>names.
              and_do (build_probes E cargo package (bo_target_dir buildopt) features names) (\<lambda>_. give (Ok names))) s)"

definition build :: "(bool \<Rightarrow> 'v build_env) \<Rightarrow> 't toml_api \<Rightarrow> string \<Rightarrow> string \<Rightarrow> string list \<Rightarrow> BuildOptions \<Rightarrow>
    (store, build_error, string list) step" where
  "build Es A cargo package probes buildopt = build_with_features Es A cargo package probes buildopt [''probes'']"

section \<open>New packages and programs\<close>

definition name_to_ident :: "string \<Rightarrow> string" where
  "name_to_ident name = map (\<lambda>c. if c = CHR ''-'' then CHR ''_'' else c) name"

definition program_table :: "'t toml_api \<Rightarrow> string \<Rightarrow> 't" where
  "program_table A name =
     or_insert A
       (or_insert A (or_insert A (tab_new A) ''name'' (ItemValue (TomlString name)))
         ''path'' (ItemValue (TomlString (''src/'' @ name @ ''/main.rs''))))
       ''required-features'' (ItemValue (TomlArray [TomlString ''probes'']))"

abbreviation (input) INVALID_MANIFEST :: string where "INVALID_MANIFEST \<equiv> ''invalid manifest syntax''"

text \<open>The edit of the manifest; an error is the text of a \<open>CommandError\<close>.\<close>

definition add_to_manifest :: "'t toml_api \<Rightarrow> string \<Rightarrow> 't \<Rightarrow> (string, string \<times> 't) outcome" where
  "add_to_manifest A name man =
     and_then (ok_or (case as_str (item_get A (tab_get A man ''lib'') ''name'') of
                 Some n \<Rightarrow> Some n | None \<Rightarrow> as_str (item_get A (tab_get A man ''package'') ''name'')) INVALID_MANIFEST) (\<lambda>crate_name.
     and_then (case tab_get A man ''bin'' of
                 ItemNone \<Rightarrow> Ok [] | ItemArrayOfTables array \<Rightarrow> Ok array | _ \<Rightarrow> Err INVALID_MANIFEST) (\<lambda>targets.
     if list_ex (\<lambda>target. as_str (tab_get A target ''name'') = Some name) targets
     then Err (''a program named `'' @ name @ [CHR 0x27] @ '' already exists'')
     else Ok (crate_name, tab_put A man ''bin'' (ItemArrayOfTables (targets @ [program_table A name])))))"

text \<open>
  \<open>new_program\<close>; the texts of the two new files and how a missing manifest and an error of
  the system are reported are parameters.
\<close>

record add_texts =
  no_manifest :: string
  io_text :: "io_error \<Rightarrow> string"
  mod_rs :: bytes
  main_rs :: "string \<Rightarrow> string \<Rightarrow> bytes"

abbreviation (input) MANIFEST :: string where "MANIFEST \<equiv> ''Cargo.toml''"
abbreviation (input) LIB_RS :: string where "LIB_RS \<equiv> ''src/lib.rs''"

definition mod_line :: "string \<Rightarrow> bytes" where
  "mod_line name = as_bytes (''pub mod '' @ name_to_ident name @ '';'' @ [CHR 0x0A])"

definition new_program :: "refusals \<Rightarrow> 't toml_api \<Rightarrow> add_texts \<Rightarrow> string \<Rightarrow> (store, string, unit) step" where
  "new_program D A T name =
     and_do (\<lambda>s. if exists_path MANIFEST s then (Ok (), s) else (Err (no_manifest T), s)) (\<lambda>_.
     and_do (load_manifest D A MANIFEST) (\<lambda>man.
     and_do (give (add_to_manifest A name man)) (\<lambda>(crate_name, man').
     and_do (err_step (io_text T) (write_file D MANIFEST (as_bytes (toml_print A man')))) (\<lambda>_.
     and_do (err_step (io_text T) (append_file D LIB_RS (mod_line name))) (\<lambda>_.
     let probe_dir = path_join ''src'' name
     in and_do (err_step (io_text T) (create_dir_all D probe_dir)) (\<lambda>_.
        and_do (err_step (io_text T) (write_file D (path_join probe_dir ''mod.rs'') (mod_rs T))) (\<lambda>_.
        err_step (io_text T) (write_file D (path_join probe_dir ''main.rs'')
          (main_rs T (name_to_ident crate_name) (name_to_ident name))))))))))"

definition new_manifest :: "string \<Rightarrow> string" where
  "new_manifest name =
     (let nl = [CHR 0x0A]; q = [CHR 0x22] in
      ''[package]'' @ nl @ ''name = '' @ q @ name @ q @ nl @ ''version = '' @ q @ ''0.1.0'' @ q @ nl @
      ''edition = '' @ [CHR 0x27] @ ''2018'' @ [CHR 0x27] @ nl @ nl @ ''[dependencies]'' @ nl @ ''cty = '' @ q @ ''0.2'' @ q @ nl @
      ''redbpf-macros = '' @ q @ ''2.3.0'' @ q @ nl @ ''redbpf-probes = '' @ q @ ''2.3.0'' @ q @ nl @ nl @
      ''[build-dependencies]'' @ nl @ ''cargo-bpf = { version = '' @ q @ ''2.3.0'' @ q @ '', default-features = false }'' @ nl @ nl @
      ''[features]'' @ nl @ ''default = []'' @ nl @ ''probes = []'' @ nl @ nl @ ''[lib]'' @ nl @ ''path = '' @ q @ ''src/lib.rs'' @ q @ nl)"

definition cargo_new :: "refusals \<Rightarrow> (io_error \<Rightarrow> string) \<Rightarrow> string \<Rightarrow> string option \<Rightarrow> (store, string, unit) step" where
  "cargo_new D io path name s =
     (if exists_path path s then (Err (''destination `'' @ path @ [CHR 0x27] @ '' already exists''), s)
      else and_do (err_step io (create_dir_all D (path_join path ''src''))) (\<lambda>_.
           and_do (give (unwrap (case name of Some n \<Rightarrow> Some n | None \<Rightarrow> path_file_name path))) (\<lambda>name.
           and_do (err_step io (write_file D (path_join path MANIFEST) (as_bytes (new_manifest name)))) (\<lambda>_.
           err_step io (write_file D (path_join (path_join path ''src'') ''lib.rs'')
             (as_bytes ([CHR 0x0A] @ ''#![no_std]'' @ [CHR 0x0A])))))) s)"

section \<open>All programs of a package\<close>

abbreviation artifact_path :: "string \<Rightarrow> string \<Rightarrow> string" where
  "artifact_path canonical probe \<equiv> path_join (artifacts canonical probe) (probe @ ''.elf'')"

definition plain_name :: "string \<Rightarrow> bool" where
  "plain_name n \<longleftrightarrow> n \<noteq> [] \<and> CHR ''/'' \<notin> set n"

lemma artifacts_plain:
  assumes "plain_name probe"
  shows "artifacts canonical probe = path_join (path_join canonical ''bpf'') ''programs'' @ ''/'' @ probe"
    and "artifact_path canonical probe = artifacts canonical probe @ ''/'' @ probe @ ''.elf''"
proof -
  have s: "\<not> starts_with probe ''/''" "\<not> starts_with (probe @ ''.elf'') ''/''" "last probe \<noteq> CHR ''/''"
    using assms last_in_set [of probe] by (cases probe; auto simp: plain_name_def)+
  then show a: "artifacts canonical probe = path_join (path_join canonical ''bpf'') ''programs'' @ ''/'' @ probe"
    by (auto simp: artifacts_def path_join_def)
  show "artifact_path canonical probe = artifacts canonical probe @ ''/'' @ probe @ ''.elf''"
    using s assms unfolding a by (simp add: path_join_def plain_name_def)
qed

lemma artifact_path_apart:
  assumes "plain_name p" "plain_name q" "p \<noteq> q"
  shows "\<not> below (artifacts canonical q) (artifact_path canonical p)" "artifact_path canonical p \<noteq> artifact_path canonical q"
proof -
  have "p @ ''/'' @ r \<noteq> q @ ''/'' @ r'" for r r'
  proof
    assume "p @ ''/'' @ r = q @ ''/'' @ r'"
    then have "takeWhile (\<lambda>c. c \<noteq> CHR ''/'') (p @ ''/'' @ r) = takeWhile (\<lambda>c. c \<noteq> CHR ''/'') (q @ ''/'' @ r')" by simp
    then show False using assms by (auto simp: plain_name_def takeWhile_append split: if_splits)
  qed
  moreover have "p @ ''/'' @ r \<noteq> q" for r using assms(2) by (auto simp: plain_name_def)
  ultimately show "\<not> below (artifacts canonical q) (artifact_path canonical p)" "artifact_path canonical p \<noteq> artifact_path canonical q"
    unfolding artifacts_plain(2) [OF assms(1)] artifacts_plain(2) [OF assms(2)]
    unfolding artifacts_plain(1) [OF assms(1)] artifacts_plain(1) [OF assms(2)]
    by (auto simp: below_def starts_with_iff)
qed

lemma make_object_keeps:
  assumes "p \<noteq> path_join dir (probe @ ''.elf'')" "last p = CHR ''f''"
  shows "keeps (has_file p b) (make_object E dir probe)"
proof -
  have ne: "p \<noteq> path_join dir (probe @ ''.elf.tmp'')" "p \<noteq> with_extension bc ''bc.opt''" for bc
    using assms(2) last_path_join [of "probe @ ''.elf.tmp''" dir] last_with_extension [of "''bc.opt''" bc] by auto
  show ?thesis unfolding make_object_def Let_def
    by (intro keeps_and_do keeps_err_step keeps_read keeps_give keeps_rename ne assms)
      (auto intro: keeps_object_steps [OF ne])
qed

text \<open>What is asked of \<open>cargo\<close>: it keeps the artifacts of other programs and does not make the one of the program.\<close>

definition cargo_keeps :: "'v build_env \<Rightarrow> string \<Rightarrow> string \<Rightarrow> string \<Rightarrow> bool" where
  "cargo_keeps E cargo package canonical \<longleftrightarrow>
     (\<forall>env features probe ver other b. plain_name probe \<and> plain_name other \<and> other \<noteq> probe \<longrightarrow>
        keeps (has_file (artifact_path canonical other) b)
          (run_cargo E cargo package env (cargo_args features (path_join canonical ''bpf'') probe ver (artifacts canonical probe))))"

lemma build_probe_keeps:
  assumes "cargo_keeps E cargo package canonical" "\<And>s. canonicalize E target_dir s = Some canonical"
    and "plain_name probe" "plain_name other" "other \<noteq> probe"
  shows "keeps (has_file (artifact_path canonical other) b) (build_probe E cargo package target_dir probe features)"
proof -
  let ?p = "artifact_path canonical other"
  have l: "last ?p = CHR ''f''" by (simp add: last_path_join)
  have c: "keeps (has_file ?p b) (run_cargo E cargo package (create_rustflags E)
      (cargo_args features (path_join canonical ''bpf'') probe ver (artifacts canonical probe)))" for ver
    using assms(1,3-5) unfolding cargo_keeps_def by blast
  have "keeps (has_file ?p b) (build_artifact E cargo package canonical probe features)"
    unfolding build_artifact_def
    by (intro keeps_and_do keeps_err_step keeps_create_dir_all keeps_give)
      (auto simp: c l artifact_path_apart assms intro!: make_object_keeps)
  moreover have "keeps (has_file ?p b) (ignore_err (remove_dir_all (refuse E) (artifacts canonical probe)) :: (store, build_error, unit) step)"
    using keeps_remove_dir_all [OF artifact_path_apart(1) [OF assms(4,3,5)], of canonical b "refuse E"]
    by (auto simp: keeps_def ignore_err_def split: prod.splits outcome.splits)
  moreover have "build_probe E cargo package target_dir probe features =
      and_do (err_step IOError (create_dir_all (refuse E) target_dir)) (\<lambda>_.
      and_do (ignore_err (remove_dir_all (refuse E) (artifacts canonical probe))) (\<lambda>_.
      build_artifact E cargo package canonical probe features))"
    by (simp add: build_probe_def assms(2))
  ultimately show ?thesis by (simp add: keeps_and_do keeps_err_step keeps_create_dir_all)
qed

lemma build_probes_keeps:
  assumes "cargo_keeps E cargo package canonical" "\<And>s. canonicalize E target_dir s = Some canonical"
    and "list_all plain_name probes" "plain_name other" "other \<notin> set probes"
  shows "keeps (has_file (artifact_path canonical other) b) (build_probes E cargo package target_dir features probes)"
  using assms(3,5)
proof (induction probes)
  case (Cons probe probes)
  then show ?case using build_probe_keeps [OF assms(1,2), of probe other] assms(4) by auto
qed simp

lemma build_probe_made:
  assumes "build_probe E cargo package target_dir probe features s = (Ok (), s')" "\<And>s. canonicalize E target_dir s = Some canonical"
  shows "\<exists>bc elf. artifact_of E bc elf \<and> has_file (artifact_path canonical probe) elf s'"
  using assms by (auto simp: build_probe_def and_do_eq_Ok dest!: build_artifact_Ok)

lemma build_probes_made:
  assumes "cargo_keeps E cargo package canonical" "\<And>s. canonicalize E target_dir s = Some canonical"
    and "build_probes E cargo package target_dir features probes s = (Ok (), s')" "list_all plain_name probes" "p \<in> set probes"
  shows "\<exists>bc elf. artifact_of E bc elf \<and> has_file (artifact_path canonical p) elf s'"
  using assms(3-5)
proof (induction probes arbitrary: s)
  case (Cons probe probes)
  then obtain s1 where s1: "build_probe E cargo package target_dir probe features s = (Ok (), s1)"
    "build_probes E cargo package target_dir features probes s1 = (Ok (), s')" by (auto simp: and_do_eq_Ok)
  show ?case
  proof (cases "p \<in> set probes")
    case True
    then show ?thesis using Cons s1 by simp
  next
    case False
    then obtain bc elf where "artifact_of E bc elf" "has_file (artifact_path canonical p) elf s1"
      using Cons.prems build_probe_made [OF s1(1) assms(2)] by auto
    moreover have "plain_name p" using Cons.prems by (auto simp: list_all_iff)
    ultimately show ?thesis
      using keeps_Ok [OF build_probes_keeps [OF assms(1,2) _ _ False] _ s1(2)] Cons.prems by auto
  qed
qed simp

text \<open>
  When the build of a package succeeds, with the programs given or taken from its manifest,
  every one of them has its artifact, which is made from bitcode as the build of one program
  says; building the later programs does not undo the earlier ones. \<open>cargo\<close> is asked to keep
  the artifacts of the programs that it does not build.
\<close>

theorem build_package_artifacts:
  assumes "build_with_features Es A cargo package probes buildopt features s = (Ok names, s')"
    and "E = Es (bo_force_loop_unroll buildopt)" and "cargo_keeps E cargo package canonical"
    and "\<And>s. canonicalize E (bo_target_dir buildopt) s = Some canonical" and "list_all plain_name names"
  shows "(if probes = [] then \<exists>doc. load_package E A package s = (Ok doc, s) \<and> probe_names A doc features = Ok names else names = probes) \<and>
    (\<forall>p \<in> set names. \<exists>bc elf. artifact_of E bc elf \<and> has_file (artifact_path canonical p) elf s')"
proof -
  have keep: "load_package E A package s = (Ok doc, s1) \<Longrightarrow> s1 = s" for doc s1
    by (auto simp: load_package_def load_manifest_def Let_def split: if_splits)
  obtain s1 where s1: "(if probes = [] then and_do (load_package E A package) (\<lambda>doc. give (probe_names A doc features))
      else give (Ok probes)) s = (Ok names, s1)"
    and b: "build_probes E cargo package (bo_target_dir buildopt) features names s1 = (Ok (), s')"
    using assms(1) by (auto simp: build_with_features_def Let_def and_do_eq_Ok assms(2) split: if_splits)
  have "if probes = [] then \<exists>doc. load_package E A package s = (Ok doc, s) \<and> probe_names A doc features = Ok names else names = probes"
    using s1 keep by (fastforce simp: and_do_eq_Ok split: if_splits)
  then show ?thesis using build_probes_made [OF assms(3,4) b assms(5)] by blast
qed

section \<open>Adding a program\<close>

text \<open>The laws of the tables of \<open>toml_edit\<close>; a document that is printed is UTF-8 and is read back as it was.\<close>

definition toml_laws :: "'t toml_api \<Rightarrow> bool" where
  "toml_laws A \<longleftrightarrow>
     (\<forall>t k i k'. tab_get A (tab_put A t k i) k' = (if k' = k then i else tab_get A t k')) \<and>
     (\<forall>t k i k'. tab_get A (or_insert A t k i) k' = (if k' = k \<and> tab_get A t k = ItemNone then i else tab_get A t k')) \<and>
     (\<forall>k. tab_get A (tab_new A) k = ItemNone) \<and>
     (\<forall>t. toml_parse A (toml_print A t) = Some t \<and> to_str (as_bytes (toml_print A t)) = Some (toml_print A t))"

lemma program_table_fields:
  assumes "toml_laws A"
  shows "tab_get A (program_table A name) ''name'' = ItemValue (TomlString name)"
    "tab_get A (program_table A name) ''path'' = ItemValue (TomlString (''src/'' @ name @ ''/main.rs''))"
    "tab_get A (program_table A name) ''required-features'' = ItemValue (TomlArray [TomlString ''probes''])"
  using assms by (simp_all add: toml_laws_def program_table_def)

lemma bin_names_append:
  "bin_names A features (xs @ ys) =
     and_then (bin_names A features xs) (\<lambda>a. and_then (bin_names A features ys) (\<lambda>b. Ok (a @ b)))"
proof (induction xs)
  case Nil
  show ?case by (cases "bin_names A features ys") simp_all
next
  case (Cons x xs)
  then show ?case by (cases "wanted A features x"; cases "unwrap (as_str (tab_get A x ''name'')) :: (build_error, string) outcome")
      (simp_all add: and_then_assoc)
qed

lemma add_to_manifest_Ok:
  assumes "toml_laws A" "add_to_manifest A name man = Ok (crate_name, man')"
  shows "probe_names A man' features =
      and_then (if tab_get A man ''bin'' = ItemNone then Ok [] else probe_names A man features) (\<lambda>names.
        Ok (names @ (if ''probes'' \<in> set features then [name] else [])))"
    and "\<forall>aot. tab_get A man ''bin'' = ItemArrayOfTables aot \<longrightarrow> (\<forall>target \<in> set aot. as_str (tab_get A target ''name'') \<noteq> Some name)"
proof -
  obtain targets where t: "tab_get A man ''bin'' = ItemNone \<and> targets = [] \<or> tab_get A man ''bin'' = ItemArrayOfTables targets"
    and n: "\<not> list_ex (\<lambda>target. as_str (tab_get A target ''name'') = Some name) targets"
    and m: "man' = tab_put A man ''bin'' (ItemArrayOfTables (targets @ [program_table A name]))"
    using assms(2) by (auto simp: add_to_manifest_def and_then_eq_Ok split: toml_item.splits if_splits)
  have "tab_get A man' ''bin'' = ItemArrayOfTables (targets @ [program_table A name])"
    using assms(1) by (simp add: m toml_laws_def)
  moreover have "bin_names A features [program_table A name] = Ok (if ''probes'' \<in> set features then [name] else [])"
    by (simp add: wanted_def program_table_fields [OF assms(1)])
  ultimately show "probe_names A man' features =
      and_then (if tab_get A man ''bin'' = ItemNone then Ok [] else probe_names A man features) (\<lambda>names.
        Ok (names @ (if ''probes'' \<in> set features then [name] else [])))"
    using t by (auto simp: probe_names_def bin_names_append simp del: bin_names.simps(2))
  show "\<forall>aot. tab_get A man ''bin'' = ItemArrayOfTables aot \<longrightarrow> (\<forall>target \<in> set aot. as_str (tab_get A target ''name'') \<noteq> Some name)"
    using t n by (auto simp: list_ex_iff)
qed

lemma create_dir_all_Ok:
  assumes "create_dir_all D d s = (Ok (), s')"
  shows "map_of s' q = (if q \<in> set (dir_ancestors d) then Some Dir else map_of s q)" "has_file q b s \<Longrightarrow> has_file q b s'"
proof -
  have "\<forall>a \<in> set (dir_ancestors d). \<forall>b. \<not> has_file a b s" "s' = fold (\<lambda>a. put a Dir) (dir_ancestors d) s"
    using assms by (auto simp: create_dir_all_def checked_Ok list_ex_iff split: if_splits node.splits option.splits)
  then show "map_of s' q = (if q \<in> set (dir_ancestors d) then Some Dir else map_of s q)" "has_file q b s \<Longrightarrow> has_file q b s'"
    by (auto simp: map_of_fold_put)
qed

text \<open>The files that are left when \<open>new_program\<close> succeeds.\<close>

lemma new_program_files:
  assumes "new_program D A T name s = (Ok (), s')" "plain_name name"
  obtains man crate_name man' lib where "manifest_at D A MANIFEST s = Some man" "add_to_manifest A name man = Ok (crate_name, man')"
    "has_file LIB_RS lib s" "map_of s' MANIFEST = Some (File (as_bytes (toml_print A man')))"
    "has_file LIB_RS (lib @ mod_line name) s'"
    "has_file (''src/'' @ name @ ''/mod.rs'') (mod_rs T) s'"
    "has_file (''src/'' @ name @ ''/main.rs'') (main_rs T (name_to_ident crate_name) (name_to_ident name)) s'"
    "\<forall>q. q \<notin> set (dir_ancestors (''src/'' @ name)) \<union> {MANIFEST, LIB_RS, ''src/'' @ name @ ''/mod.rs'', ''src/'' @ name @ ''/main.rs''} \<longrightarrow>
       map_of s' q = map_of s q"
proof -
  define d where "d = ''src/'' @ name"
  have d: "path_join ''src'' name = d" "path_join d ''mod.rs'' = d @ ''/mod.rs''" "path_join d ''main.rs'' = d @ ''/main.rs''"
    using assms(2) last_in_set [of name] by (cases name; auto simp: path_join_def plain_name_def d_def)+
  obtain man crate_name man' s1 s2 s3 s4 where l: "manifest_at D A MANIFEST s = Some man"
    and a: "add_to_manifest A name man = Ok (crate_name, man')"
    and w: "write_file D MANIFEST (as_bytes (toml_print A man')) s = (Ok (), s1)"
    and p: "append_file D LIB_RS (mod_line name) s1 = (Ok (), s2)"
    and c: "create_dir_all D d s2 = (Ok (), s3)"
    and m: "write_file D (d @ ''/mod.rs'') (mod_rs T) s3 = (Ok (), s4)"
    and n: "write_file D (d @ ''/main.rs'') (main_rs T (name_to_ident crate_name) (name_to_ident name)) s4 = (Ok (), s')"
    using assms(1) by (auto simp: new_program_def load_manifest_def unwrap_eq_Ok Let_def and_do_eq_Ok d split: if_splits prod.splits)
  obtain lib where lib: "has_file LIB_RS lib s" and s1: "map_of s1 = (map_of s)(MANIFEST \<mapsto> File (as_bytes (toml_print A man')))"
    and s2: "map_of s2 = (map_of s1)(LIB_RS \<mapsto> File (lib @ mod_line name))"
    using w p by (auto simp: write_file_def append_file_def checked_Ok split: if_splits option.splits node.splits)
  have s': "map_of s' = (map_of s3)(d @ ''/mod.rs'' \<mapsto> File (mod_rs T), d @ ''/main.rs'' \<mapsto>
      File (main_rs T (name_to_ident crate_name) (name_to_ident name)))"
    using m n by (auto simp: write_file_def checked_Ok split: if_splits)
  have "MANIFEST \<noteq> d @ x" "LIB_RS \<noteq> d @ ''/mod.rs''" "LIB_RS \<noteq> d @ ''/main.rs''" for x
    using arg_cong [where f = "\<lambda>x. CHR ''/'' \<in> set (drop 4 x)" and x = LIB_RS and y = "d @ ''/mod.rs''"]
      arg_cong [where f = "\<lambda>x. CHR ''/'' \<in> set (drop 4 x)" and x = LIB_RS and y = "d @ ''/main.rs''"] by (auto simp: d_def)
  then show ?thesis
    using that [OF l a lib] create_dir_all_Ok [OF c] by (simp add: s' s2 s1 d_def)
qed

lemma name_to_ident_length [simp]: "length (name_to_ident name) = length name"
  by (simp add: name_to_ident_def)

lemma name_to_ident_eq: "name_to_ident name = name \<longleftrightarrow> CHR ''-'' \<notin> set name"
  by (induction name) (auto simp: name_to_ident_def)

lemma name_to_ident_no_slash: "CHR ''/'' \<notin> set name \<Longrightarrow> CHR ''/'' \<notin> set (name_to_ident name)"
  by (auto simp: name_to_ident_def)

text \<open>
  C24: adding a program succeeds only for a new name, and then the manifest that is written is
  read back as one whose programs are the old ones and, when the feature \<open>probes\<close> is given,
  the new one at the end; its sources are in the directory of its name and \<open>src/lib.rs\<close> declares
  a module. The module has its file, \<open>mod.rs\<close> in the directory of the identifier, when the name
  has no dash; for a name with a dash the declared module gets no file.
\<close>

theorem new_program_listed:
  assumes "toml_laws A" and "plain_name name" and "new_program D A T name s = (Ok (), s')"
  shows "\<exists>man man' lib. manifest_at D A MANIFEST s = Some man \<and> manifest_at (\<lambda>_ _. None) A MANIFEST s' = Some man' \<and>
    (\<forall>aot. tab_get A man ''bin'' = ItemArrayOfTables aot \<longrightarrow> (\<forall>target \<in> set aot. as_str (tab_get A target ''name'') \<noteq> Some name)) \<and>
    (\<forall>features. probe_names A man' features =
       and_then (if tab_get A man ''bin'' = ItemNone then Ok [] else probe_names A man features) (\<lambda>names.
         Ok (names @ (if ''probes'' \<in> set features then [name] else [])))) \<and>
    has_file LIB_RS lib s \<and> has_file LIB_RS (lib @ mod_line name) s' \<and>
    has_file (''src/'' @ name @ ''/mod.rs'') (mod_rs T) s' \<and> exists_path (''src/'' @ name @ ''/main.rs'') s' \<and>
    map_of s' (''src/'' @ name_to_ident name @ ''/mod.rs'') =
      (if CHR ''-'' \<in> set name then map_of s (''src/'' @ name_to_ident name @ ''/mod.rs'') else Some (File (mod_rs T)))"
proof -
  obtain man crate_name man' lib where l: "manifest_at D A MANIFEST s = Some man" "add_to_manifest A name man = Ok (crate_name, man')"
    "has_file LIB_RS lib s" and m: "map_of s' MANIFEST = Some (File (as_bytes (toml_print A man')))"
    and f: "has_file LIB_RS (lib @ mod_line name) s'" "has_file (''src/'' @ name @ ''/mod.rs'') (mod_rs T) s'"
    "has_file (''src/'' @ name @ ''/main.rs'') (main_rs T (name_to_ident crate_name) (name_to_ident name)) s'"
    and o: "\<forall>q. q \<notin> set (dir_ancestors (''src/'' @ name)) \<union> {MANIFEST, LIB_RS, ''src/'' @ name @ ''/mod.rs'', ''src/'' @ name @ ''/main.rs''} \<longrightarrow>
       map_of s' q = map_of s q"
    by (rule new_program_files [OF assms(3,2)])
  let ?q = "''src/'' @ name_to_ident name @ ''/mod.rs''"
  have "map_of s' ?q = map_of s ?q" if dash: "CHR ''-'' \<in> set name"
  proof (rule o [rule_format])
    have "?q \<noteq> LIB_RS" using arg_cong [where f = "\<lambda>x. CHR ''/'' \<in> set (drop 4 x)" and x = ?q and y = LIB_RS] by auto
    moreover have "?q \<noteq> ''src/'' @ name @ ''/mod.rs''" "?q \<noteq> ''src/'' @ name @ ''/main.rs''" using dash name_to_ident_eq [of name] by simp_all
    moreover have "?q \<notin> set (dir_ancestors (''src/'' @ name))" using dir_ancestors_length [of ?q "''src/'' @ name"] by auto
    ultimately show "?q \<notin> set (dir_ancestors (''src/'' @ name)) \<union> {MANIFEST, LIB_RS, ''src/'' @ name @ ''/mod.rs'', ''src/'' @ name @ ''/main.rs''}"
      by simp
  qed
  moreover have "map_of s' ?q = Some (File (mod_rs T))" if "CHR ''-'' \<notin> set name" using f(2) that by (simp add: name_to_ident_eq [THEN iffD2])
  moreover have "manifest_at (\<lambda>_ _. None) A MANIFEST s' = Some man'"
    using assms(1) m by (simp add: manifest_at_def read_file_def checked_def toml_laws_def)
  ultimately show ?thesis using l f add_to_manifest_Ok [OF assms(1) l(2)]
    by (intro exI [of _ man] exI [of _ man'] exI [of _ lib]) (simp add: exists_path_def)
qed

text \<open>Tables as association lists, printed as numbers.\<close>

datatype demo_table = Table "(string \<times> demo_table toml_item) list"

instance toml_value :: countable by countable_datatype
instance toml_item :: (countable) countable by countable_datatype
instance demo_table :: countable by countable_datatype

fun table_get :: "demo_table \<Rightarrow> string \<Rightarrow> demo_table toml_item" where
  "table_get (Table xs) k = (case map_of xs k of Some i \<Rightarrow> i | None \<Rightarrow> ItemNone)"

fun table_put :: "demo_table \<Rightarrow> string \<Rightarrow> demo_table toml_item \<Rightarrow> demo_table" where
  "table_put (Table xs) k i = Table ((k, i) # xs)"

definition demo_toml :: "demo_table toml_api" where
  "demo_toml =
     \<lparr>tab_get = table_get, item_get = \<lambda>i k. case i of ItemTable t \<Rightarrow> table_get t k | _ \<Rightarrow> ItemNone, tab_put = table_put,
      or_insert = \<lambda>t k i. if table_get t k = ItemNone then table_put t k i else t, tab_new = Table [],
      toml_parse = \<lambda>s. map_option from_nat (parse_digits s), toml_print = \<lambda>t. show_nat (to_nat t)\<rparr>"

lemma to_str_show_nat: "to_str (as_bytes (show_nat n)) = Some (show_nat n)"
proof -
  have "ascii (show_nat n)" using set_show_nat [of n]
    by (force simp: ascii_def list_all_iff digit_char_def of_char_of)
  then show ?thesis by (simp add: to_str_def to_string_lossy_as_bytes)
qed

lemma demo_toml_laws: "toml_laws demo_toml"
proof -
  have "table_get (table_put t k i) k' = (if k' = k then i else table_get t k')" for t k i k'
    by (cases t) simp
  then show ?thesis by (simp add: toml_laws_def demo_toml_def to_str_show_nat)
qed

definition demo_manifest :: demo_table where
  "demo_manifest = Table [(''package'', ItemTable (Table [(''name'', ItemValue (TomlString ''demo''))]))]"

definition demo_store :: store where
  "demo_store = [(MANIFEST, File (as_bytes (toml_print demo_toml demo_manifest))), (''src'', Dir), (LIB_RS, File [])]"

definition demo_texts :: add_texts where
  "demo_texts = \<lparr>no_manifest = ''no manifest'', io_text = \<lambda>_. ''io'', mod_rs = [1], main_rs = \<lambda>_ _. [2]\<rparr>"

theorem new_program_listed_witness:
  "\<exists>man' s'. new_program (\<lambda>_ _. None) demo_toml demo_texts ''my-probe'' demo_store = (Ok (), s') \<and>
     manifest_at (\<lambda>_ _. None) demo_toml MANIFEST s' = Some man' \<and> probe_names demo_toml man' [''probes''] = Ok [''my-probe''] \<and>
     map_of s' ''src/my_probe/mod.rs'' = None"
proof -
  let ?r = "new_program (\<lambda>_ _. None) demo_toml demo_texts ''my-probe'' demo_store"
  have m: "manifest_at (\<lambda>_ _. None) demo_toml MANIFEST demo_store = Some demo_manifest"
    using demo_toml_laws by (simp add: manifest_at_def demo_store_def read_file_def checked_def toml_laws_def)
  obtain man' where a: "add_to_manifest demo_toml ''my-probe'' demo_manifest = Ok (''demo'', man')"
    by (simp add: add_to_manifest_def demo_toml_def demo_manifest_def)
  let ?s1 = "put MANIFEST (File (as_bytes (toml_print demo_toml man'))) demo_store"
  let ?s2 = "put LIB_RS (File (mod_line ''my-probe'')) ?s1"
  have w: "write_file (\<lambda>_ _. None) p c s = (Ok (), put p (File c) s)" if "map_of s p \<noteq> Some Dir" for p c s
    using that by (simp add: write_file_def checked_def)
  have d0: "map_of demo_store MANIFEST = Some (File (as_bytes (toml_print demo_toml demo_manifest)))"
    "map_of demo_store ''src/my-probe/mod.rs'' = None" "map_of demo_store ''src/my-probe/main.rs'' = None"
    by (simp_all add: demo_store_def)
  have p: "append_file (\<lambda>_ _. None) LIB_RS (mod_line ''my-probe'') ?s1 = (Ok (), ?s2)"
    by (simp add: append_file_def checked_def demo_store_def)
  have d: "dir_ancestors ''src/my-probe'' = [''src'', ''src/my-probe'']" by (simp add: dir_ancestors_def upt_rec)
  have c: "create_dir_all (\<lambda>_ _. None) ''src/my-probe'' ?s2 = (Ok (), put ''src/my-probe'' Dir (put ''src'' Dir ?s2))"
    by (simp add: create_dir_all_def checked_def d demo_store_def)
  have "\<exists>s'. ?r = (Ok (), s')"
    by (simp add: new_program_def load_manifest_def m a and_do_def err_step_def give_def w p c path_join_def exists_path_def d0)
  then obtain s' where r: "?r = (Ok (), s')" by blast
  have "map_of demo_store ''src/my_probe/mod.rs'' = None" by (simp add: demo_store_def)
  moreover have "tab_get demo_toml demo_manifest ''bin'' = ItemNone" by (simp add: demo_toml_def demo_manifest_def)
  moreover have "plain_name ''my-probe''" by (simp add: plain_name_def)
  ultimately show ?thesis using new_program_listed [OF demo_toml_laws _ r] r m by (auto simp: name_to_ident_def)
qed

lemma working_cargo: "cargo_keeps working_env ''cargo'' ''/p'' ''/t''"
proof -
  have "artifact_path ''/t'' other \<noteq> path_join dir probe @ ''.bc''" for other dir probe
    using last_path_join [of "other @ ''.elf''" "artifacts ''/t'' other"] arg_cong [of _ _ last] by fastforce
  then show ?thesis by (simp add: cargo_keeps_def working_env_simps keeps_def cargo_args_def)
qed

theorem build_package_artifacts_witness:
  "\<exists>s' bc elf. build_with_features (\<lambda>_. working_env) demo_toml ''cargo'' ''/p'' [''x'']
       \<lparr>bo_target_dir = ''/t'', bo_force_loop_unroll = True\<rparr> [''probes''] [(''/p/Cargo.toml'', File [])] = (Ok [''x''], s') \<and>
     artifact_of working_env bc elf \<and> has_file ''/t/bpf/programs/x/x.elf'' elf s'"
proof -
  let ?b = "build_with_features (\<lambda>_. working_env) demo_toml ''cargo'' ''/p'' [''x'']
       \<lparr>bo_target_dir = ''/t'', bo_force_loop_unroll = True\<rparr> [''probes''] [(''/p/Cargo.toml'', File [])]"
  obtain s' where "build_probe working_env ''cargo'' ''/p'' ''/t'' ''x'' [''probes''] [(''/p/Cargo.toml'', File [])] = (Ok (), s')"
    using working_build by blast
  then have b: "?b = (Ok [''x''], s')" by (simp add: build_with_features_def exists_path_def path_join_def and_do_def give_def)
  have "artifact_path ''/t'' ''x'' = ''/t/bpf/programs/x/x.elf''" by (simp add: artifacts_def path_join_def)
  then show ?thesis
    using build_package_artifacts [OF b refl, where canonical = "''/t''"] working_cargo b
    by (auto simp: plain_name_def working_env_simps)
qed

end
