(* ===== verification/Cargo_Load.thy ===== *)
theory Cargo_Load
  imports Loader
begin

text \<open>
  The command \<open>cargo bpf load\<close>, \<open>cargo-bpf/src/load.rs\<close>: it loads a file, attaches the programs in
  the order of the module and stops at the first one that cannot be attached. The loop that
  prints events and the wait for a signal are not part of it. The lemmas say what every
  program of the module is attached to when the command gets to the events, and which
  descriptors are held.
\<close>

datatype load_error = NoInterface | NoUprobePath | AttachFailed string error

text \<open>The programs are changed in place, so a program is a result on every path.\<close>

type_synonym load_step = "history \<Rightarrow> (load_error, unit) outcome \<times> Program \<times> history"

fun attach_result :: "string \<Rightarrow> Program \<Rightarrow> ('a \<Rightarrow> Program) \<Rightarrow> 'a result \<times> history \<Rightarrow> (load_error, unit) outcome \<times> Program \<times> history" where
  "attach_result name p mk (Ok x, h) = (Ok (), mk x, h)"
| "attach_result name p mk (Err e, h) = (Err (AttachFailed name e), p, h)"
| "attach_result name p mk (Panic, h) = (Panic, p, h)"
| "attach_result name p mk (Undefined, h) = (Undefined, p, h)"

definition attach_program :: "kernel \<Rightarrow> (CacheError, CacheEntry list) outcome \<Rightarrow> (bytes \<Rightarrow> Elf result) \<Rightarrow>
    string option \<Rightarrow> string option \<Rightarrow> int option \<Rightarrow> Program \<Rightarrow> load_step" where
  "attach_program k cache ep interface upath pid p h =
     (let name = prog_name p
      in case p of
           P_XDP x \<Rightarrow>
             (case interface of
                None \<Rightarrow> (Err NoInterface, p, h)
              | Some i \<Rightarrow>
                  (case xdp_attach k x i 0 h of
                     (Ok (r, x'), h') \<Rightarrow> attach_result name (P_XDP x') (\<lambda>_. P_XDP x') (r, h')
                   | (Err e, h') \<Rightarrow> (Err (AttachFailed name e), p, h')
                   | (Panic, h') \<Rightarrow> (Panic, p, h')
                   | (Undefined, h') \<Rightarrow> (Undefined, p, h')))
         | P_KProbe q \<Rightarrow> attach_result name p P_KProbe (attach_kprobe k q name 0 h)
         | P_KRetProbe q \<Rightarrow> attach_result name p P_KRetProbe (attach_kprobe k q name 0 h)
         | P_UProbe q \<Rightarrow>
             (case upath of
                None \<Rightarrow> (Err NoUprobePath, p, h)
              | Some path \<Rightarrow> attach_result name p P_UProbe (attach_uprobe k cache ep q (Some name) 0 path pid h))
         | P_URetProbe q \<Rightarrow>
             (case upath of
                None \<Rightarrow> (Err NoUprobePath, p, h)
              | Some path \<Rightarrow> attach_result name p P_URetProbe (attach_uprobe k cache ep q (Some name) 0 path pid h))
         | _ \<Rightarrow> (Ok (), p, h))"

fun attach_programs :: "(Program \<Rightarrow> load_step) \<Rightarrow> Program list \<Rightarrow> history \<Rightarrow> (load_error, unit) outcome \<times> Program list \<times> history" where
  "attach_programs attach [] h = (Ok (), [], h)"
| "attach_programs attach (p # ps) h =
     (case attach p h of
        (Ok _, p', h1) \<Rightarrow> (case attach_programs attach ps h1 of (r, ps', h2) \<Rightarrow> (r, p' # ps', h2))
      | (Err e, p', h1) \<Rightarrow> (Err e, p' # ps, h1)
      | (Panic, p', h1) \<Rightarrow> (Panic, p' # ps, h1)
      | (Undefined, p', h1) \<Rightarrow> (Undefined, p' # ps, h1))"

text \<open>\<open>load\<close> up to the loop over the events; the module is dropped when a program cannot be attached.\<close>

definition cargo_load :: "kernel \<Rightarrow> env \<Rightarrow> (RawFd \<Rightarrow> bool) \<Rightarrow> (CacheError, CacheEntry list) outcome \<Rightarrow> 
    string \<Rightarrow> string option \<Rightarrow> string option \<Rightarrow> int option \<Rightarrow> history \<Rightarrow> (load_error, Loaded) outcome \<times> history" where
  "cargo_load k E registers cache program interface upath pid h =
     (case loader_load_file k E registers program h of
        (Ok ld, h1) \<Rightarrow>
          (case attach_programs (attach_program k cache (elf_parse E) interface upath pid) (mod_programs (ld_module ld)) h1 of
             (r, ps, h2) \<Rightarrow>
               let M = (ld_module ld)\<lparr>mod_programs := ps\<rparr>
               in case r of
                    Ok _ \<Rightarrow> (Ok (ld\<lparr>ld_module := M\<rparr>), h2)
                  | Err e \<Rightarrow>
                      (case drop_module k M h2 of
                         (Undefined, h3) \<Rightarrow> (Undefined, h3)
                       | (Panic, h3) \<Rightarrow> (Panic, h3)
                       | (_, h3) \<Rightarrow> (Err e, h3))
                  | Panic \<Rightarrow> (Panic, h2)
                  | Undefined \<Rightarrow> (Undefined, h2))
      | (Undefined, h1) \<Rightarrow> (Undefined, h1)
      | (_, h1) \<Rightarrow> (Panic, h1))"

section \<open>What is attached\<close>

text \<open>
  Before and after: a probe has one more point, on the symbol of its own name, an XDP program
  one more interface; every other program is loaded only.
\<close>

fun attached :: "string option \<Rightarrow> string option \<Rightarrow> int option \<Rightarrow> Program \<Rightarrow> Program \<Rightarrow> bool" where
  "attached interface path pid (P_XDP x) p' \<longleftrightarrow>
     (\<exists>i. interface = Some i \<and> p' = P_XDP (x\<lparr>xdp_interfaces := xdp_interfaces x @ [i]\<rparr>))"
| "attached interface path pid (P_KProbe q) p' \<longleftrightarrow>
     (\<exists>pfd. p' = P_KProbe (q\<lparr>kp_points := kp_points q @ [\<lparr>ka_fn_name = prog_name (P_KProbe q), ka_offset = 0, ka_pfd = pfd\<rparr>]\<rparr>))"
| "attached interface path pid (P_KRetProbe q) p' \<longleftrightarrow>
     (\<exists>pfd. p' = P_KRetProbe (q\<lparr>kp_points := kp_points q @ [\<lparr>ka_fn_name = prog_name (P_KRetProbe q), ka_offset = 0, ka_pfd = pfd\<rparr>]\<rparr>))"
| "attached interface path pid (P_UProbe q) p' \<longleftrightarrow>
     (\<exists>pfd t. path = Some t \<and> p' = P_UProbe (q\<lparr>up_points := up_points q @
        [\<lparr>ua_fn_name = Some (prog_name (P_UProbe q)), ua_offset = 0, ua_target = t, ua_pid = pid, ua_pfd = pfd\<rparr>]\<rparr>))"
| "attached interface path pid (P_URetProbe q) p' \<longleftrightarrow>
     (\<exists>pfd t. path = Some t \<and> p' = P_URetProbe (q\<lparr>up_points := up_points q @
        [\<lparr>ua_fn_name = Some (prog_name (P_URetProbe q)), ua_offset = 0, ua_target = t, ua_pid = pid, ua_pfd = pfd\<rparr>]\<rparr>))"
| "attached interface path pid p p' \<longleftrightarrow> p' = p"

lemma attach_result_Ok: "attach_result name p mk r = (Ok (), p', h) \<longleftrightarrow> (\<exists>x. r = (Ok x, h) \<and> p' = mk x)"
  by (cases "(name, p, mk, r)" rule: attach_result.cases) auto

lemma attach_kprobe_Ok:
  "attach_kprobe k q f off h = (Ok q', h') \<Longrightarrow> \<exists>pfd. q' = q\<lparr>kp_points := kp_points q @ [\<lparr>ka_fn_name = f, ka_offset = off, ka_pfd = pfd\<rparr>]\<rparr>"
  by (auto simp: attach_kprobe_def bind_eq_Ok catch_def pure_def split: prod.splits outcome.splits elim!: catch_result.elims)

lemma attach_uprobe_Ok:
  "attach_uprobe k cache ep q f off t pid h = (Ok q', h') \<Longrightarrow>
   \<exists>pfd. q' = q\<lparr>up_points := up_points q @ [\<lparr>ua_fn_name = f, ua_offset = off, ua_target = t, ua_pid = pid, ua_pfd = pfd\<rparr>]\<rparr>"
  by (auto simp: attach_uprobe_def bind_eq_Ok catch_def pure_def split: prod.splits outcome.splits elim!: catch_result.elims)

lemma xdp_attach_Ok: "xdp_attach k x i fl h = (Ok (Ok (), x'), h') \<Longrightarrow> x' = x\<lparr>xdp_interfaces := xdp_interfaces x @ [i]\<rparr>"
  by (auto simp: xdp_attach_def Let_def catch_def pure_def split: option.splits outcome.splits elim!: catch_result.elims)

lemma attach_program_Ok:
  "attach_program k cache ep interface path pid p h = (Ok (), p', h') \<Longrightarrow> attached interface path pid p p'"
  by (cases p) (auto simp: attach_program_def Let_def attach_result_Ok dest!: attach_kprobe_Ok attach_uprobe_Ok xdp_attach_Ok
      split: option.splits prod.splits outcome.splits)

lemma attach_programs_Ok:
  assumes "\<And>p h p' h'. attach p h = (Ok (), p', h') \<Longrightarrow> P p p'"
  shows "attach_programs attach ps h = (Ok (), ps', h') \<Longrightarrow> list_all2 P ps ps'"
proof (induction ps arbitrary: h ps')
  case (Cons p ps)
  then show ?case using assms by (auto split: prod.splits outcome.splits)
qed simp

section \<open>Descriptors\<close>

definition fds_step :: "('a \<Rightarrow> RawFd multiset) \<Rightarrow> 'a \<Rightarrow> history \<Rightarrow> (load_error, unit) outcome \<times> 'a \<times> history \<Rightarrow> bool" where
  "fds_step F p h r \<longleftrightarrow> (case r of (o', p', h') \<Rightarrow>
     \<exists>new. h' = h @ new \<and> (o' \<noteq> Panic \<and> o' \<noteq> Undefined \<longrightarrow> balanced new (F p) (F p')))"

lemma fds_step_refl [simp]: "fds_step F p h (r, p, h)"
  by (simp add: fds_step_def)

lemma attach_result_fds:
  assumes "fds (prog_fds p) m (\<lambda>x. prog_fds (mk x)) (prog_fds p)"
  shows "fds_step prog_fds p h (attach_result name p mk (m h))"
  by (rule fds_apply [OF assms, of h]) (auto simp: fds_step_def)

lemma attach_program_fds: "fds_step prog_fds p h (attach_program k cache ep interface path pid p h)"
proof (cases p)
  case (P_XDP x)
  show ?thesis
  proof (cases interface)
    case (Some i)
    show ?thesis
      by (rule fds_apply [OF xdp_attach_fds [of x k i 0], of h])
        (auto simp: attach_program_def P_XDP Some Let_def fds_step_def split: prod.splits outcome.splits
           elim!: attach_result.elims)
  qed (simp add: attach_program_def P_XDP)
next
  case (P_KProbe q)
  then show ?thesis using attach_result_fds [OF attach_kprobe_fds] by (simp add: attach_program_def Let_def)
next
  case (P_KRetProbe q)
  then show ?thesis using attach_result_fds [of p _ P_KRetProbe, OF _] attach_kprobe_fds [of q]
    by (simp add: attach_program_def Let_def)
next
  case (P_UProbe q)
  then show ?thesis using attach_result_fds [OF attach_uprobe_fds] by (simp add: attach_program_def Let_def split: option.splits)
next
  case (P_URetProbe q)
  then show ?thesis using attach_result_fds [of p _ P_URetProbe, OF _] attach_uprobe_fds [of q]
    by (simp add: attach_program_def Let_def split: option.splits)
qed (simp_all add: attach_program_def)

lemma attach_programs_fds:
  assumes "\<And>p h. fds_step prog_fds p h (attach p h)"
  shows "fds_step progs_fds ps h (attach_programs attach ps h)"
proof (induction ps arbitrary: h)
  case (Cons p ps)
  obtain r p1 h1 where a: "attach p h = (r, p1, h1)" by (cases "attach p h")
  obtain new where n: "h1 = h @ new" "r \<noteq> Panic \<and> r \<noteq> Undefined \<longrightarrow> balanced new (prog_fds p) (prog_fds p1)"
    using assms [of p h] a by (auto simp: fds_step_def)
  show ?case
  proof (cases r)
    case (Ok u)
    obtain q ps1 h2 where q: "attach_programs attach ps h1 = (q, ps1, h2)" by (cases "attach_programs attach ps h1")
    obtain new2 where n2: "h2 = h1 @ new2" "q \<noteq> Panic \<and> q \<noteq> Undefined \<longrightarrow> balanced new2 (progs_fds ps) (progs_fds ps1)"
      using Cons.IH [of h1] q by (auto simp: fds_step_def)
    have "balanced (new @ new2) (prog_fds p + progs_fds ps) (prog_fds p1 + progs_fds ps1)" if "q \<noteq> Panic \<and> q \<noteq> Undefined"
      using n n2 that Ok by (auto simp: balanced_def ac_simps)
    then show ?thesis using a q n n2 Ok by (auto simp: fds_step_def)
  next
    case (Err e)
    then show ?thesis using a n by (auto simp: fds_step_def intro: balanced_frame)
  qed (use a n in \<open>auto simp: fds_step_def\<close>)
qed simp

text \<open>
  When \<open>cargo bpf load\<close> gets to the events, every XDP program of the file is attached to the
  given interface, every kprobe to the kernel function and every uprobe to the symbol of the
  given file that has its name, and the other programs are as they were loaded; the
  descriptors that are open are those of the module. When a program cannot be attached,
  the command ends with an error and the descriptors of the module are closed.
\<close>

theorem cargo_load_attaches:
  "case cargo_load k E registers cache program interface path pid h of
     (Ok L, h') \<Rightarrow>
       \<exists>L0 h1 new. loader_load_file k E registers program h = (Ok L0, h1) \<and>
         list_all2 (attached interface path pid) (mod_programs (ld_module L0)) (mod_programs (ld_module L)) \<and>
         h' = h1 @ new \<and> balanced new (module_fds (ld_module L0)) (module_fds (ld_module L))
   | (Err e, h') \<Rightarrow>
       \<exists>L0 h1 new. loader_load_file k E registers program h = (Ok L0, h1) \<and> h' = h1 @ new \<and>
         balanced new (module_fds (ld_module L0)) {#}
   | _ \<Rightarrow> True"
proof (cases "loader_load_file k E registers program h")
  case (Pair r h1)
  show ?thesis
  proof (cases r)
    case (Ok L0)
    let ?M = "ld_module L0"
    obtain q ps h2 where q: "attach_programs (attach_program k cache (elf_parse E) interface path pid) (mod_programs ?M) h1 = (q, ps, h2)"
      by (cases "attach_programs (attach_program k cache (elf_parse E) interface path pid) (mod_programs ?M) h1")
    let ?M' = "?M\<lparr>mod_programs := ps\<rparr>"
    obtain new where n: "h2 = h1 @ new" "q \<noteq> Panic \<and> q \<noteq> Undefined \<longrightarrow> balanced new (progs_fds (mod_programs ?M)) (progs_fds ps)"
      using attach_programs_fds [of "attach_program k cache (elf_parse E) interface path pid" "mod_programs ?M" h1, OF attach_program_fds] q
      by (auto simp: fds_step_def)
    have b: "q \<noteq> Panic \<and> q \<noteq> Undefined \<Longrightarrow> balanced new (module_fds ?M) (module_fds ?M')"
      using n(2) balanced_frame [of new _ _ "maps_fds (mod_maps ?M)"] by (simp add: module_fds_def)
    show ?thesis
    proof (cases q)
      case (Ok u)
      have "list_all2 (attached interface path pid) (mod_programs ?M) ps"
        using attach_programs_Ok [of "attach_program k cache (elf_parse E) interface path pid" "attached interface path pid"] attach_program_Ok
          q Ok by fastforce
      then show ?thesis using Pair \<open>r = Ok L0\<close> q Ok n(1) b by (auto simp: cargo_load_def)
    next
      case (Err e)
      show ?thesis
        by (rule fds_apply [OF drop_module_fds [of ?M' "{#}" k "{#}"], of h2])
          (use Pair \<open>r = Ok L0\<close> q Err n(1) b in \<open>auto simp: cargo_load_def intro: balanced_trans\<close>)
    qed (use Pair \<open>r = Ok L0\<close> q in \<open>auto simp: cargo_load_def\<close>)
  qed (use Pair in \<open>auto simp: cargo_load_def\<close>)
qed

end
