(* ===== verification/Type_Gen.thy ===== *)
theory Type_Gen
  imports File_System
begin

text \<open>
  \<open>bpf-sys/src/type_gen.rs\<close>, which writes the types of the kernel into a C header, and its use in
  \<open>get_builder_vmlinux\<close> of \<open>cargo-bpf/src/bindgen.rs\<close>. The functions of libbpf are parameters over
  pointers. What they hand out and the file that is written are resources; a local variable that
  owns one releases it at the end of its scope, unless the value was moved or forgotten
  before. The main lemma is that every resource is released once, in the reverse order,
  however the functions end, and that the header holds exactly the dumps of the types on
  the allowlist.
\<close>

datatype TypeGenError = VmlinuxParsingError | VmlinuxNotFound | InvalidPath | TypeGenIO io_error | RegexError | DumpError

section \<open>The environment\<close>

text \<open>
  Functions that return a pointer give a negative one for an error. \<open>dump_type\<close> prints a type and
  those that it needs and that were not printed before, so it depends on the types before it;
  it gives the return code and the text that it passes to the callback.
\<close>

record libbpf =
  find_kernel_btf :: u64
  parse_elf :: "bytes \<Rightarrow> u64"
  btf_parse_raw :: "bytes \<Rightarrow> u64"
  nr_types :: "u64 \<Rightarrow> u32"
  type_name :: "u64 \<Rightarrow> u32 \<Rightarrow> bytes option"
  dump_new :: "u64 \<Rightarrow> u64"
  dump_type :: "u64 \<Rightarrow> u32 list \<Rightarrow> u32 \<Rightarrow> int \<times> bytes"

text \<open>
  A write through the open file may be refused as well. \<open>str::to_uppercase\<close> maps characters by
  the tables of Unicode, and a set of regular expressions is a test of names, if it compiles.
\<close>

record tg_env =
  lib :: libbpf
  tg_refuse :: refusals
  write_refused :: "bytes \<Rightarrow> store \<Rightarrow> io_error option"
  tg_var :: "string \<Rightarrow> string option"
  to_uppercase :: "nat list \<Rightarrow> nat list"
  regex_set :: "string list \<Rightarrow> (string \<Rightarrow> bool) option"

datatype resource = Btf u64 | BtfDump u64 | OutFile string
datatype tg_call = Acquire resource | Release resource

text \<open>
  The values with a destructor that local variables hold: \<open>VmlinuxBtfDump\<close>, \<open>File\<close>,
  \<open>RawFdWrapper\<close> and \<open>BtfDumpWrapper\<close>. A descriptor is named by the path that was opened.
\<close>

datatype owned = O_Btf u64 | O_File string | O_RawFd string | O_BtfDump u64

record tg_state =
  tg_files :: store
  tg_calls :: "tg_call list"
  tg_owned :: "owned list"

type_synonym 'a tg_step = "(tg_state, TypeGenError, 'a) step"

definition note_call :: "tg_call \<Rightarrow> tg_state \<Rightarrow> tg_state" where
  "note_call c s = s\<lparr>tg_calls := tg_calls s @ [c]\<rparr>"

definition run :: "(tg_state \<Rightarrow> tg_state) \<Rightarrow> (tg_state, 'e, unit) step" where
  "run f s = (Ok (), f s)"

lemma and_do_run [simp]: "and_do (run f) g s = g () (f s)"
  by (simp add: and_do_def run_def)

text \<open>The \<open>Drop\<close> implementations; the one of \<open>RawFdWrapper\<close> makes a \<open>File\<close> of its descriptor, which is dropped at once.\<close>

fun drop_owned :: "owned \<Rightarrow> tg_state \<Rightarrow> tg_state" where
  "drop_owned (O_Btf btfptr) s = note_call (Release (Btf btfptr)) s"
| "drop_owned (O_File fd) s = note_call (Release (OutFile fd)) s"
| "drop_owned (O_RawFd fd) s = note_call (Release (OutFile fd)) s"
| "drop_owned (O_BtfDump dumpptr) s = note_call (Release (BtfDump dumpptr)) s"

definition own :: "owned \<Rightarrow> tg_state \<Rightarrow> tg_state" where
  "own v s = s\<lparr>tg_owned := v # tg_owned s\<rparr>"

text \<open>A value that is moved out of its variable or passed to \<open>mem::forget\<close> is not dropped.\<close>

definition disown :: "owned \<Rightarrow> tg_state \<Rightarrow> tg_state" where
  "disown v s = s\<lparr>tg_owned := remove1 v (tg_owned s)\<rparr>"

text \<open>The end of a scope, reached in whatever way, drops what its variables still own, the last one first.\<close>

definition in_scope :: "(tg_state, 'e, 'a) step \<Rightarrow> (tg_state, 'e, 'a) step" where
  "in_scope m s =
     (case m s of (r, s') \<Rightarrow>
        let n = length (tg_owned s') - length (tg_owned s)
        in (r, fold drop_owned (take n (tg_owned s')) (s'\<lparr>tg_owned := drop n (tg_owned s')\<rparr>)))"

text \<open>\<open>From<File> for RawFdWrapper\<close>: \<open>into_raw_fd\<close> takes the file by value and does not close it.\<close>

definition raw_fd_of_file :: "string \<Rightarrow> tg_state \<Rightarrow> tg_state" where
  "raw_fd_of_file fd s = own (O_RawFd fd) (disown (O_File fd) s)"

text \<open>\<open>From<RawFdWrapper> for File\<close>: \<open>from_raw_fd\<close>, then \<open>mem::forget\<close> of the wrapper.\<close>

definition file_of_raw_fd :: "string \<Rightarrow> tg_state \<Rightarrow> tg_state" where
  "file_of_raw_fd fd s = disown (O_RawFd fd) (own (O_File fd) s)"

definition on_files :: "(store, io_error, 'a) step \<Rightarrow> 'a tg_step" where
  "on_files m s = (case m (tg_files s) of (r, f) \<Rightarrow> (map_err TypeGenIO r, s\<lparr>tg_files := f\<rparr>))"

section \<open>Sources\<close>

record VmlinuxBtfDump =
  vd_allowlist :: "string list option"
  vd_btfptr :: u64

definition wrap_btf :: "u64 \<Rightarrow> TypeGenError \<Rightarrow> VmlinuxBtfDump tg_step" where
  "wrap_btf btfptr e =
     (if sint btfptr < 0 then give (Err e)
      else and_do (run (note_call (Acquire (Btf btfptr)))) (\<lambda>_. give (Ok \<lparr>vd_allowlist = None, vd_btfptr = btfptr\<rparr>)))"

definition with_system_default :: "tg_env \<Rightarrow> VmlinuxBtfDump tg_step" where
  "with_system_default E = wrap_btf (find_kernel_btf (lib E)) VmlinuxNotFound"

definition with_elf_file :: "tg_env \<Rightarrow> string \<Rightarrow> VmlinuxBtfDump tg_step" where
  "with_elf_file E elf_file s =
     (if \<not> exists_path elf_file (tg_files s) then (Err VmlinuxNotFound, s)
      else and_do (give (unwrap (cstring_new elf_file))) (\<lambda>path. wrap_btf (parse_elf (lib E) path) VmlinuxParsingError) s)"

definition with_raw_file :: "tg_env \<Rightarrow> string \<Rightarrow> VmlinuxBtfDump tg_step" where
  "with_raw_file E raw s =
     (if \<not> exists_path raw (tg_files s) then (Err VmlinuxNotFound, s)
      else and_do (give (unwrap (cstring_new raw))) (\<lambda>path. wrap_btf (btf_parse_raw (lib E) path) VmlinuxParsingError) s)"

definition get_custom_vmlinux_path :: "tg_env \<Rightarrow> string option" where
  "get_custom_vmlinux_path E = tg_var E ''REDBPF_VMLINUX''"

definition vmlinux_btf_dump :: "tg_env \<Rightarrow> VmlinuxBtfDump tg_step" where
  "vmlinux_btf_dump E =
     (case get_custom_vmlinux_path E of
        Some path \<Rightarrow>
          if path = ''system'' then with_system_default E
          else (\<lambda>s. case with_raw_file E path s of (Err _, s') \<Rightarrow> with_elf_file E path s' | r \<Rightarrow> r)
      | None \<Rightarrow> with_system_default E)"

definition allowlist :: "VmlinuxBtfDump \<Rightarrow> string \<Rightarrow> VmlinuxBtfDump" where
  "allowlist d pat = d\<lparr>vd_allowlist := Some ((case vd_allowlist d of Some l \<Rightarrow> l | None \<Rightarrow> []) @ [pat])\<rparr>"

section \<open>The header\<close>

text \<open>The name of the guard: the capital letters of the file name, and \<open>_\<close> for every other character.\<close>

definition guard_name :: "tg_env \<Rightarrow> string \<Rightarrow> string" where
  "guard_name E header_name =
     map (\<lambda>c. if 65 \<le> c \<and> c \<le> 90 then char_of c else CHR ''_'') (to_uppercase E (str_chars header_name))"

definition guardstr :: "string \<Rightarrow> string" where
  "guardstr g = ''#ifndef __'' @ g @ ''__'' @ [CHR 0x0A] @ ''#define __'' @ g @ ''__'' @ [CHR 0x0A, CHR 0x0A]"

definition write_open :: "tg_env \<Rightarrow> string \<Rightarrow> bytes \<Rightarrow> (store, io_error, unit) step" where
  "write_open E outfile b s =
     (case write_refused E b s of
        Some e \<Rightarrow> (Err e, s)
      | None \<Rightarrow> (Ok (), put outfile (File ((case map_of s outfile of Some (File old) \<Rightarrow> old | _ \<Rightarrow> []) @ b)) s))"

definition write_out :: "tg_env \<Rightarrow> string \<Rightarrow> bytes \<Rightarrow> unit tg_step" where
  "write_out E outfile b = on_files (write_open E outfile b)"

text \<open>The callback throws the result of \<open>vdprintf\<close> away.\<close>

definition vdprintf_wrapper :: "tg_env \<Rightarrow> string \<Rightarrow> bytes \<Rightarrow> unit tg_step" where
  "vdprintf_wrapper E outfile b s = (Ok (), snd (write_out E outfile b s))"

definition white_re :: "tg_env \<Rightarrow> VmlinuxBtfDump \<Rightarrow> (TypeGenError, (string \<Rightarrow> bool) option) outcome" where
  "white_re E d =
     (case vd_allowlist d of
        Some l \<Rightarrow> and_then (ok_or (regex_set E l) RegexError) (\<lambda>re. Ok (Some re))
      | None \<Rightarrow> Ok None)"

text \<open>The loop over the types, with those that were dumped before.\<close>

fun dump_loop :: "tg_env \<Rightarrow> string \<Rightarrow> u64 \<Rightarrow> u64 \<Rightarrow> (string \<Rightarrow> bool) option \<Rightarrow> u32 list \<Rightarrow> u32 list \<Rightarrow> unit tg_step" where
  "dump_loop E outfile btf dp re dumped [] = give (Ok ())"
| "dump_loop E outfile btf dp re dumped (type_id # ids) =
     (case type_name (lib E) btf type_id of
        None \<Rightarrow> dump_loop E outfile btf dp re dumped ids
      | Some cname \<Rightarrow>
          and_do (give (ok_or (to_str cname) DumpError)) (\<lambda>namestr.
          if (case re of Some wre \<Rightarrow> \<not> wre namestr | None \<Rightarrow> False) then dump_loop E outfile btf dp re dumped ids
          else (case dump_type (lib E) dp dumped type_id of (rc, text) \<Rightarrow>
            and_do (vdprintf_wrapper E outfile text) (\<lambda>_.
            if rc < 0 then give (Err DumpError)
            else dump_loop E outfile btf dp re (dumped @ [type_id]) ids))))"

definition type_ids :: "tg_env \<Rightarrow> u64 \<Rightarrow> u32 list" where
  "type_ids E btf = map of_nat [1..<Suc (unat (nr_types (lib E) btf))]"

text \<open>The \<open>unsafe\<close> block, whose scope ends the dumper.\<close>

definition dump_block :: "tg_env \<Rightarrow> VmlinuxBtfDump \<Rightarrow> string \<Rightarrow> (string \<Rightarrow> bool) option \<Rightarrow> unit tg_step" where
  "dump_block E d outfile re =
     in_scope (let dp = dump_new (lib E) (vd_btfptr d)
       in if sint dp < 0 then give (Err DumpError)
          else and_do (run (\<lambda>s. own (O_BtfDump dp) (note_call (Acquire (BtfDump dp)) s))) (\<lambda>_.
               dump_loop E outfile (vd_btfptr d) dp re [] (type_ids E (vd_btfptr d))))"

definition generate_body :: "tg_env \<Rightarrow> VmlinuxBtfDump \<Rightarrow> string \<Rightarrow> unit tg_step" where
  "generate_body E d outfile =
     and_do (give (unwrap (path_file_name outfile))) (\<lambda>header_name.
     and_do (write_out E outfile (as_bytes (guardstr (guard_name E header_name)))) (\<lambda>_.
     and_do (run (raw_fd_of_file outfile)) (\<lambda>_.
     and_do (give (white_re E d)) (\<lambda>re.
     and_do (dump_block E d outfile re) (\<lambda>_.
     and_do (run (file_of_raw_fd outfile)) (\<lambda>_.
     write_out E outfile (as_bytes (''#endif'' @ [CHR 0x0A]))))))))"

text \<open>\<open>File::create\<close>\<close>

definition create_out :: "tg_env \<Rightarrow> string \<Rightarrow> unit tg_step" where
  "create_out E outfile =
     and_do (on_files (write_file (tg_refuse E) outfile [])) (\<lambda>_.
     run (\<lambda>s. own (O_File outfile) (note_call (Acquire (OutFile outfile)) s)))"

text \<open>\<open>generate\<close> takes its argument by value, so it is dropped at the end.\<close>

definition generate :: "tg_env \<Rightarrow> VmlinuxBtfDump \<Rightarrow> string \<Rightarrow> unit tg_step" where
  "generate E d outfile =
     in_scope (and_do (run (own (O_Btf (vd_btfptr d)))) (\<lambda>_.
       and_do (create_out E outfile) (\<lambda>_. generate_body E d outfile)))"

text \<open>The header that \<open>bindgen\<close> is given.\<close>

definition get_builder_vmlinux :: "tg_env \<Rightarrow> string \<Rightarrow> (tg_state, string \<times> TypeGenError, string) step" where
  "get_builder_vmlinux E c_dump_file =
     and_do (err_step (Pair ''error on vmlinux_btf_dump: '') (vmlinux_btf_dump E)) (\<lambda>d.
     and_do (err_step (Pair ''error on VmlinuxBtfDump::generate: '') (generate E d c_dump_file)) (\<lambda>_.
     give (Ok c_dump_file)))"

section \<open>Resources\<close>

text \<open>The resources that are held after some calls, the last one first; a release of another one is an error.\<close>

fun held :: "resource list \<Rightarrow> tg_call list \<Rightarrow> resource list option" where
  "held rs [] = Some rs"
| "held rs (Acquire r # cs) = held (r # rs) cs"
| "held (r' # rs) (Release r # cs) = (if r = r' then held rs cs else None)"
| "held [] (Release r # cs) = None"

lemma held_append: "held rs (cs @ ds) = Option.bind (held rs cs) (\<lambda>rs'. held rs' ds)"
  by (induction rs cs rule: held.induct) simp_all

fun resource_of :: "owned \<Rightarrow> resource" where
  "resource_of (O_Btf btfptr) = Btf btfptr"
| "resource_of (O_File fd) = OutFile fd"
| "resource_of (O_RawFd fd) = OutFile fd"
| "resource_of (O_BtfDump dumpptr) = BtfDump dumpptr"

text \<open>
  \<open>accounts A m B\<close>: started with the values \<open>A\<close> on top of what is owned, \<open>m\<close> leaves \<open>B\<close> there
  when it succeeds and some values otherwise, and in either case the resources of what is
  owned are those that are held after its calls. What lies below is not touched.
\<close>

definition accounts :: "owned list \<Rightarrow> (tg_state, 'e, 'a) step \<Rightarrow> owned list \<Rightarrow> bool" where
  "accounts A m B \<longleftrightarrow>
     (\<forall>(s :: tg_state) base0. tg_owned s = A @ base0 \<longrightarrow>
        (\<exists>C new. tg_owned (snd (m s)) = C @ base0 \<and> tg_calls (snd (m s)) = tg_calls s @ new \<and>
           (\<forall>rs. held (map resource_of A @ rs) new = Some (map resource_of C @ rs)) \<and>
           (is_Ok (fst (m s)) \<longrightarrow> C = B)))"

lemma accountsE:
  fixes s :: tg_state
  assumes "accounts A m B" and "tg_owned s = A @ base0"
  obtains C new where "tg_owned (snd (m s)) = C @ base0" "tg_calls (snd (m s)) = tg_calls s @ new"
    "\<And>rs. held (map resource_of A @ rs) new = Some (map resource_of C @ rs)" "is_Ok (fst (m s)) \<Longrightarrow> C = B"
  using assms unfolding accounts_def by blast

lemma accounts_still:
  "(\<And>s. tg_owned (snd (m s)) = tg_owned s \<and> tg_calls (snd (m s)) = tg_calls s) \<Longrightarrow> accounts A m A"
  by (auto simp: accounts_def intro: exI [of _ A] exI [of _ "[]"])

lemma accounts_files [intro]:
  "accounts A (give r) A" "accounts A (on_files io) A" "accounts A (write_out E q b) A" "accounts A (vdprintf_wrapper E q b) A"
  by (auto intro!: accounts_still simp: give_def on_files_def write_out_def vdprintf_wrapper_def split: prod.splits)

lemma accounts_and_do [intro]:
  assumes "accounts A m B" "\<And>x. accounts B (f x) C"
  shows "accounts A (and_do m f) C"
  unfolding accounts_def
proof (intro allI impI)
  fix s :: tg_state and base0 assume s: "tg_owned s = A @ base0"
  obtain D n1 where D: "tg_owned (snd (m s)) = D @ base0" "tg_calls (snd (m s)) = tg_calls s @ n1"
    "\<And>rs. held (map resource_of A @ rs) n1 = Some (map resource_of D @ rs)" "is_Ok (fst (m s)) \<Longrightarrow> D = B"
    using accountsE [OF assms(1) s] by blast
  show "\<exists>C' new. tg_owned (snd (and_do m f s)) = C' @ base0 \<and> tg_calls (snd (and_do m f s)) = tg_calls s @ new \<and>
      (\<forall>rs. held (map resource_of A @ rs) new = Some (map resource_of C' @ rs)) \<and> (is_Ok (fst (and_do m f s)) \<longrightarrow> C' = C)"
  proof (cases rule: and_do_cases [of m s f])
    case (go x)
    then have "tg_owned (snd (m s)) = B @ base0" "D = B" using D by simp_all
    then obtain C' n2 where "tg_owned (snd (f x (snd (m s)))) = C' @ base0" "tg_calls (snd (f x (snd (m s)))) = tg_calls (snd (m s)) @ n2"
      "\<And>rs. held (map resource_of B @ rs) n2 = Some (map resource_of C' @ rs)" "is_Ok (fst (f x (snd (m s)))) \<Longrightarrow> C' = C"
      using accountsE [OF assms(2)] by metis
    then show ?thesis using go D \<open>D = B\<close> by (intro exI [of _ C'] exI [of _ "n1 @ n2"]) (simp add: held_append)
  next
    case stop
    then show ?thesis using D by auto
  qed
qed

lemma accounts_err_step: "accounts A m B \<Longrightarrow> accounts A (err_step g m) B"
  by (simp add: accounts_def err_step_def case_prod_beta)

lemma accounts_take:
  "accounts A (run (\<lambda>s. own v (note_call (Acquire (resource_of v)) s))) (v # A)"
  by (auto simp: accounts_def run_def own_def note_call_def)

lemma accounts_convert:
  "accounts (O_File fd # A) (run (raw_fd_of_file fd)) (O_RawFd fd # A)"
  "accounts (O_RawFd fd # A) (run (file_of_raw_fd fd)) (O_File fd # A)"
  by (auto simp: accounts_def run_def raw_fd_of_file_def file_of_raw_fd_def own_def disown_def intro: exI [of _ "[]"])

lemma drop_all:
  "tg_owned (fold drop_owned vs s) = tg_owned s"
  "tg_calls (fold drop_owned vs s) = tg_calls s @ map (Release \<circ> resource_of) vs"
  "tg_files (fold drop_owned vs s) = tg_files s"
proof -
  have one: "tg_owned (drop_owned v s) = tg_owned s \<and> tg_calls (drop_owned v s) = tg_calls s @ [Release (resource_of v)] \<and>
      tg_files (drop_owned v s) = tg_files s" for v s
    by (cases v) (simp_all add: note_call_def)
  show "tg_owned (fold drop_owned vs s) = tg_owned s"
    "tg_calls (fold drop_owned vs s) = tg_calls s @ map (Release \<circ> resource_of) vs"
    "tg_files (fold drop_owned vs s) = tg_files s"
    by (induction vs arbitrary: s) (simp_all add: one)
qed

lemma held_release: "held (map resource_of vs @ rs) (map (Release \<circ> resource_of) vs) = Some rs"
  by (induction vs) simp_all

lemma in_scope_drops:
  assumes "tg_owned (snd (m s)) = C @ tg_owned s"
  shows "tg_owned (snd (in_scope m s)) = tg_owned s \<and>
    tg_calls (snd (in_scope m s)) = tg_calls (snd (m s)) @ map (Release \<circ> resource_of) C"
  using assms by (cases "m s") (simp add: in_scope_def Let_def drop_all)

lemma accounts_in_scope:
  assumes "accounts [] m B"
  shows "accounts A (in_scope m) A"
  unfolding accounts_def
proof (intro allI impI)
  fix s :: tg_state and base0 assume s: "tg_owned s = A @ base0"
  obtain C new where C: "tg_owned (snd (m s)) = C @ A @ base0" "tg_calls (snd (m s)) = tg_calls s @ new"
    "\<And>rs. held rs new = Some (map resource_of C @ rs)"
    by (rule accountsE [OF assms, of s "A @ base0"]) (use s in simp_all)
  then show "\<exists>C' new. tg_owned (snd (in_scope m s)) = C' @ base0 \<and> tg_calls (snd (in_scope m s)) = tg_calls s @ new \<and>
      (\<forall>rs. held (map resource_of A @ rs) new = Some (map resource_of C' @ rs)) \<and> (is_Ok (fst (in_scope m s)) \<longrightarrow> C' = A)"
    using in_scope_drops [of m s C] s
    by (intro exI [of _ A] exI [of _ "new @ map (Release \<circ> resource_of) C"]) (simp add: held_append held_release)
qed

lemma accounts_dump_loop: "accounts A (dump_loop E q btf dp re dumped ids) A"
  by (induction ids arbitrary: dumped) (auto split: option.splits prod.splits intro!: accounts_and_do)

lemma accounts_dump_block: "accounts A (dump_block E d q re) A"
proof (cases "sint (dump_new (lib E) (vd_btfptr d)) < 0")
  case True
  then show ?thesis unfolding dump_block_def Let_def by (intro accounts_in_scope [of _ "[]"]) auto
next
  case False
  then show ?thesis unfolding dump_block_def Let_def
    using accounts_take [of "[]" "O_BtfDump (dump_new (lib E) (vd_btfptr d))"]
    by (intro accounts_in_scope) (auto intro!: accounts_and_do accounts_dump_loop)
qed

lemma accounts_create_out: "accounts A (create_out E q) (O_File q # A)"
  unfolding create_out_def using accounts_take [of A "O_File q"] by (auto intro!: accounts_and_do)

lemma accounts_generate_body: "accounts (O_File q # A) (generate_body E d q) (O_File q # A)"
  unfolding generate_body_def
  by (rule accounts_and_do accounts_files accounts_convert accounts_dump_block)+

text \<open>The argument of \<open>generate\<close> comes with the resource it owns.\<close>

lemma generate_releases:
  "\<exists>new. tg_calls (snd (generate E d q s)) = tg_calls s @ new \<and> held (Btf (vd_btfptr d) # rs) new = Some rs \<and>
     tg_owned (snd (generate E d q s)) = tg_owned s"
proof -
  let ?m = "and_do (create_out E q) (\<lambda>_. generate_body E d q)" and ?v = "O_Btf (vd_btfptr d)"
  have m: "accounts [?v] ?m [O_File q, ?v]" by (rule accounts_and_do accounts_create_out accounts_generate_body)+
  obtain C new where C: "tg_owned (snd (?m (own ?v s))) = C @ tg_owned s" "tg_calls (snd (?m (own ?v s))) = tg_calls s @ new"
    "\<And>rs. held (Btf (vd_btfptr d) # rs) new = Some (map resource_of C @ rs)"
    by (rule accountsE [OF m, of "own ?v s" "tg_owned s"]) (simp_all add: own_def)
  have "generate E d q s = in_scope (\<lambda>s. ?m (own ?v s)) s"
    by (simp add: generate_def in_scope_def)
  with C in_scope_drops [of "\<lambda>s. ?m (own ?v s)" s C] show ?thesis
    by (intro exI [of _ "new @ map (Release \<circ> resource_of) C"]) (simp add: held_append held_release)
qed

text \<open>Wherever the BTF comes from, it is released as well.\<close>

definition takes_btf :: "tg_state \<Rightarrow> (TypeGenError, VmlinuxBtfDump) outcome \<times> tg_state \<Rightarrow> bool" where
  "takes_btf s x \<longleftrightarrow>
     (case fst x of Ok d \<Rightarrow> snd x = note_call (Acquire (Btf (vd_btfptr d))) s \<and> vd_allowlist d = None | _ \<Rightarrow> snd x = s)"

lemma wrap_btf_takes: "takes_btf s (wrap_btf btfptr e s)"
  by (simp add: takes_btf_def wrap_btf_def give_def)

lemma with_file_takes: "takes_btf s (with_elf_file E q s)" "takes_btf s (with_raw_file E q s)"
  by (cases "cstring_new q"; simp add: with_elf_file_def with_raw_file_def wrap_btf_takes; simp add: takes_btf_def give_def)+

lemma vmlinux_btf_dump_takes: "takes_btf s (vmlinux_btf_dump E s)"
proof -
  have "takes_btf s (case with_raw_file E q s of (Err _, s') \<Rightarrow> with_elf_file E q s' | r \<Rightarrow> r)" for q
    using with_file_takes [where s = s and E = E and q = q]
    by (cases "with_raw_file E q s"; cases "fst (with_raw_file E q s)") (simp_all add: takes_btf_def)
  then show ?thesis
    by (simp add: vmlinux_btf_dump_def with_system_default_def wrap_btf_takes split: option.split)
qed

section \<open>Other files\<close>

text \<open>A file that is not the header is left alone.\<close>

lemma keeps_on_files [intro]: "keeps P m \<Longrightarrow> keeps (\<lambda>s. P (tg_files s)) (on_files m)"
  by (auto simp: keeps_def on_files_def case_prod_beta)

lemma keeps_write_open [intro]: "p \<noteq> q \<Longrightarrow> keeps (has_file p c) (write_open E q b)"
  by (auto simp: keeps_def write_open_def split: option.splits)

lemma keeps_write_out [intro]:
  "p \<noteq> q \<Longrightarrow> keeps (\<lambda>s. has_file p c (tg_files s)) (write_out E q b)"
  "p \<noteq> q \<Longrightarrow> keeps (\<lambda>s. has_file p c (tg_files s)) (vdprintf_wrapper E q b)"
proof -
  assume "p \<noteq> q"
  then show *: "keeps (\<lambda>s. has_file p c (tg_files s)) (write_out E q b)" unfolding write_out_def by (intro keeps_on_files keeps_write_open)
  show "keeps (\<lambda>s. has_file p c (tg_files s)) (vdprintf_wrapper E q b)"
    using * by (simp add: keeps_def vdprintf_wrapper_def)
qed

lemma in_scope_files [simp]: "tg_files (snd (in_scope m s)) = tg_files (snd (m s))" "fst (in_scope m s) = fst (m s)"
  by (simp_all add: in_scope_def Let_def drop_all case_prod_beta)

lemma keeps_in_scope [intro]: "keeps (\<lambda>s. P (tg_files s)) m \<Longrightarrow> keeps (\<lambda>s. P (tg_files s)) (in_scope m)"
  by (auto simp: keeps_def)

lemma keeps_run [intro]: "(\<And>s. tg_files (f s) = tg_files s) \<Longrightarrow> keeps (\<lambda>s. P (tg_files s)) (run f)"
  by (simp add: keeps_def run_def)

lemma tg_files_owned [simp]:
  "tg_files (note_call c s) = tg_files s" "tg_files (own v s) = tg_files s" "tg_files (disown v s) = tg_files s"
  "tg_files (raw_fd_of_file q s) = tg_files s" "tg_files (file_of_raw_fd q s) = tg_files s"
  by (simp_all add: note_call_def own_def disown_def raw_fd_of_file_def file_of_raw_fd_def)

lemma keeps_dump_loop: "p \<noteq> q \<Longrightarrow> keeps (\<lambda>s. has_file p c (tg_files s)) (dump_loop E q btf dp re dumped ids)"
  by (induction ids arbitrary: dumped) (auto split: option.splits prod.splits intro!: keeps_and_do)

lemma keeps_generate: "p \<noteq> q \<Longrightarrow> keeps (\<lambda>s. has_file p c (tg_files s)) (generate E d q)"
  unfolding generate_def generate_body_def create_out_def dump_block_def Let_def
  by (auto intro!: keeps_and_do keeps_in_scope keeps_run keeps_dump_loop)

section \<open>The text of the header\<close>

definition selected :: "tg_env \<Rightarrow> u64 \<Rightarrow> (string \<Rightarrow> bool) option \<Rightarrow> u32 \<Rightarrow> bool" where
  "selected E btf re i \<longleftrightarrow>
     (\<exists>cname. type_name (lib E) btf i = Some cname \<and> (\<forall>wre. re = Some wre \<longrightarrow> (\<exists>n. to_str cname = Some n \<and> wre n)))"

text \<open>What libbpf prints for a list of types, and that it reports no error.\<close>

definition dumps :: "tg_env \<Rightarrow> u64 \<Rightarrow> u32 list \<Rightarrow> u32 list \<Rightarrow> (int \<times> bytes) list" where
  "dumps E dp before ids = map (\<lambda>k. dump_type (lib E) dp (before @ take k ids) (ids ! k)) [0..<length ids]"

lemma dumps_simps [simp]:
  "dumps E dp before [] = []"
  "dumps E dp before (i # ids) = dump_type (lib E) dp before i # dumps E dp (before @ [i]) ids"
  by (simp_all add: dumps_def upt_conv_Cons map_Suc_upt [symmetric] del: upt_Suc)

lemma write_out_Ok:
  assumes "\<And>b s. write_refused E b s = None"
  shows "write_out E p b s = (Ok (), s\<lparr>tg_files := put p (File ((case map_of (tg_files s) p of Some (File old) \<Rightarrow> old | _ \<Rightarrow> []) @ b)) (tg_files s)\<rparr>)"
  by (simp add: write_out_def write_open_def on_files_def assms)

lemma dump_loop_text:
  assumes "\<And>b s. write_refused E b s = None" "has_file p c (tg_files s)"
  shows "case dump_loop E p btf dp re dumped ids s of (r, s') \<Rightarrow>
    (r = Ok () \<longleftrightarrow> (\<forall>i \<in> set ids. \<forall>cname. type_name (lib E) btf i = Some cname \<longrightarrow> to_str cname \<noteq> None) \<and>
       (\<forall>(rc, _) \<in> set (dumps E dp dumped (filter (selected E btf re) ids)). 0 \<le> rc)) \<and>
    (r = Ok () \<longrightarrow> has_file p (c @ concat (map snd (dumps E dp dumped (filter (selected E btf re) ids)))) (tg_files s'))"
  using assms(2)
proof (induction ids arbitrary: dumped c s)
  case (Cons i ids)
  show ?case
  proof (cases "\<exists>cname n. type_name (lib E) btf i = Some cname \<and> to_str cname = Some n \<and> selected E btf re i")
    case False
    then have "dump_loop E p btf dp re dumped (i # ids) s =
        (case type_name (lib E) btf i of Some cname \<Rightarrow> if to_str cname = None then (Err DumpError, s) else dump_loop E p btf dp re dumped ids s
         | None \<Rightarrow> dump_loop E p btf dp re dumped ids s)"
      by (auto simp: selected_def give_def and_do_def split: option.splits)
    then show ?thesis using Cons.IH [OF Cons.prems, where dumped = dumped] False
      by (auto split: option.splits prod.splits simp: selected_def)
  next
    case True
    then obtain cname n where n: "type_name (lib E) btf i = Some cname" "to_str cname = Some n" "selected E btf re i" by blast
    obtain rc tx where d: "dump_type (lib E) dp dumped i = (rc, tx)" by (cases "dump_type (lib E) dp dumped i")
    let ?s = "s\<lparr>tg_files := put p (File (c @ tx)) (tg_files s)\<rparr>"
    have "dump_loop E p btf dp re dumped (i # ids) s =
        (if rc < 0 then (Err DumpError, ?s) else dump_loop E p btf dp re (dumped @ [i]) ids ?s)"
      using n d Cons.prems by (auto simp: and_do_def vdprintf_wrapper_def write_out_Ok [OF assms(1)] give_def selected_def split: option.splits)
    then show ?thesis using Cons.IH [where c = "c @ tx" and s = ?s and dumped = "dumped @ [i]"] n d by (auto split: prod.splits)
  qed
qed (simp add: give_def)

text \<open>When there is a header: the file has a name, the patterns compile and libbpf dumps every selected type.\<close>

definition header_ok :: "tg_env \<Rightarrow> VmlinuxBtfDump \<Rightarrow> string \<Rightarrow> string \<Rightarrow> (string \<Rightarrow> bool) option \<Rightarrow> bool" where
  "header_ok E d p name re \<longleftrightarrow>
     path_file_name p = Some name \<and>
     (case vd_allowlist d of None \<Rightarrow> re = None | Some l \<Rightarrow> re \<noteq> None \<and> regex_set E l = re) \<and>
     0 \<le> sint (dump_new (lib E) (vd_btfptr d)) \<and>
     (\<forall>i \<in> set (type_ids E (vd_btfptr d)). \<forall>cname. type_name (lib E) (vd_btfptr d) i = Some cname \<longrightarrow> to_str cname \<noteq> None) \<and>
     (\<forall>(rc, _) \<in> set (dumps E (dump_new (lib E) (vd_btfptr d)) [] (filter (selected E (vd_btfptr d) re) (type_ids E (vd_btfptr d)))). 0 \<le> rc)"

definition header_text :: "tg_env \<Rightarrow> VmlinuxBtfDump \<Rightarrow> string \<Rightarrow> (string \<Rightarrow> bool) option \<Rightarrow> bytes" where
  "header_text E d name re =
     as_bytes (guardstr (guard_name E name)) @
     concat (map snd (dumps E (dump_new (lib E) (vd_btfptr d)) [] (filter (selected E (vd_btfptr d) re) (type_ids E (vd_btfptr d))))) @
     as_bytes (''#endif'' @ [CHR 0x0A])"

lemma white_re_Ok: "white_re E d = Ok re \<longleftrightarrow> (case vd_allowlist d of None \<Rightarrow> re = None | Some l \<Rightarrow> re \<noteq> None \<and> regex_set E l = re)"
  by (auto simp: white_re_def and_then_eq_Ok ok_or_eq_Ok split: option.splits)

lemma dump_block_text:
  assumes "\<And>b s. write_refused E b s = None" "has_file p c (tg_files s)" "white_re E d = Ok re" "path_file_name p = Some name"
  shows "case dump_block E d p re s of (r, s') \<Rightarrow> (r = Ok () \<longleftrightarrow> header_ok E d p name re) \<and>
    (r = Ok () \<longrightarrow> has_file p (c @ concat (map snd (dumps E (dump_new (lib E) (vd_btfptr d)) []
       (filter (selected E (vd_btfptr d) re) (type_ids E (vd_btfptr d)))))) (tg_files s'))"
proof (cases "sint (dump_new (lib E) (vd_btfptr d)) < 0")
  case True
  then show ?thesis by (simp add: dump_block_def in_scope_def give_def header_ok_def)
next
  case False
  let ?btf = "vd_btfptr d" and ?dp = "dump_new (lib E) (vd_btfptr d)"
  let ?s = "own (O_BtfDump ?dp) (note_call (Acquire (BtfDump ?dp)) s)"
  let ?m = "\<lambda>s. dump_loop E p ?btf ?dp re [] (type_ids E ?btf) (own (O_BtfDump ?dp) (note_call (Acquire (BtfDump ?dp)) s))"
  have "dump_block E d p re s = in_scope ?m s"
    using False by (simp add: dump_block_def in_scope_def Let_def)
  then have "fst (dump_block E d p re s) = fst (?m s)" "tg_files (snd (dump_block E d p re s)) = tg_files (snd (?m s))" by simp_all
  then show ?thesis
    using dump_loop_text [where s = ?s and p = p and c = c and E = E and btf = ?btf and dp = ?dp and re = re and dumped = "[]" and ids = "type_ids E ?btf"]
      assms False by (simp add: header_ok_def white_re_Ok case_prod_beta not_less)
qed

lemma generate_body_text:
  assumes "\<And>b s. write_refused E b s = None" "has_file p [] (tg_files s)"
  shows "case generate_body E d p s of (r, s') \<Rightarrow> (r = Ok () \<longleftrightarrow> (\<exists>name re. header_ok E d p name re)) \<and>
    (\<forall>name re. header_ok E d p name re \<longrightarrow> has_file p (header_text E d name re) (tg_files s'))"
proof (cases "\<exists>name re. path_file_name p = Some name \<and> white_re E d = Ok re")
  case True
  then obtain name re where n: "path_file_name p = Some name" "white_re E d = Ok re" by blast
  let ?g = "as_bytes (guardstr (guard_name E name))"
  let ?s = "raw_fd_of_file p (s\<lparr>tg_files := put p (File ?g) (tg_files s)\<rparr>)"
  obtain r s2 where l: "dump_block E d p re ?s = (r, s2)" by fastforce
  have *: "(r = Ok () \<longleftrightarrow> header_ok E d p name re) \<and>
      (r = Ok () \<longrightarrow> has_file p (?g @ concat (map snd (dumps E (dump_new (lib E) (vd_btfptr d)) []
         (filter (selected E (vd_btfptr d) re) (type_ids E (vd_btfptr d)))))) (tg_files s2))"
    using dump_block_text [OF assms(1) _ n(2,1), where c = ?g and s = ?s] l by simp
  have "generate_body E d p s = and_do (\<lambda>_. (r, s2)) (\<lambda>_ s. write_out E p (as_bytes (''#endif'' @ [CHR 0x0A])) (file_of_raw_fd p s)) s"
    using n l assms(2) by (cases r) (simp_all add: generate_body_def and_do_def run_def write_out_Ok [OF assms(1)] give_def)
  moreover have "header_ok E d p name' re' \<Longrightarrow> name' = name \<and> re' = re" for name' re'
    using n by (auto simp: header_ok_def white_re_Ok [symmetric])
  ultimately show ?thesis using *
    by (cases r) (auto simp: and_do_def write_out_Ok [OF assms(1)] header_text_def)
next
  case False
  then have "fst (generate_body E d p s) \<noteq> Ok ()"
    by (cases "generate_body E d p s") (auto simp: generate_body_def and_do_eq_Ok split: option.splits)
  then show ?thesis using False by (auto simp: header_ok_def white_re_Ok split: prod.splits)
qed


text \<open>And wherever the BTF comes from, nothing that was taken for a builder is left.\<close>

lemma get_builder_vmlinux_releases:
  "\<exists>new. tg_calls (snd (get_builder_vmlinux E p s)) = tg_calls s @ new \<and> held rs new = Some rs"
proof (cases "vmlinux_btf_dump E s")
  case (Pair r s1)
  show ?thesis
  proof (cases r)
    case (Ok d)
    then have "s1 = note_call (Acquire (Btf (vd_btfptr d))) s" using vmlinux_btf_dump_takes [where E = E and s = s] Pair by (simp add: takes_btf_def)
    moreover obtain new where "tg_calls (snd (generate E d p s1)) = tg_calls s1 @ new" "held (Btf (vd_btfptr d) # rs) new = Some rs"
      using generate_releases [where E = E and d = d and q = p and s = s1 and rs = rs] by blast
    moreover have "tg_calls (snd (get_builder_vmlinux E p s)) = tg_calls (snd (generate E d p s1))"
      using Pair Ok by (cases "generate E d p s1"; cases "fst (generate E d p s1)")
        (simp_all add: get_builder_vmlinux_def and_do_def err_step_def give_def)
    ultimately show ?thesis by (intro exI [of _ "Acquire (Btf (vd_btfptr d)) # new"]) (simp add: note_call_def)
  qed (use Pair vmlinux_btf_dump_takes [where E = E and s = s] in \<open>auto simp: takes_btf_def get_builder_vmlinux_def and_do_def err_step_def intro: exI [of _ "[]"]\<close>)
qed

text \<open>The source: the kernel's own BTF unless the variable names a file, which is read as raw BTF or else as an ELF file.\<close>

lemma get_builder_vmlinux_source:
  assumes "get_builder_vmlinux E p s = (Ok h, s')"
  shows "\<exists>btf. h = p \<and> 0 \<le> sint btf \<and>
    generate E \<lparr>vd_allowlist = None, vd_btfptr = btf\<rparr> p (note_call (Acquire (Btf btf)) s) = (Ok (), s') \<and>
    (case tg_var E ''REDBPF_VMLINUX'' of
       None \<Rightarrow> btf = find_kernel_btf (lib E)
     | Some path \<Rightarrow>
         if path = ''system'' then btf = find_kernel_btf (lib E)
         else exists_path path (tg_files s) \<and>
           btf = (if 0 \<le> sint (btf_parse_raw (lib E) (as_bytes path)) then btf_parse_raw (lib E) (as_bytes path)
                  else parse_elf (lib E) (as_bytes path)))"
  using assms
  by (auto simp: get_builder_vmlinux_def and_do_eq_Ok vmlinux_btf_dump_def with_system_default_def with_raw_file_def with_elf_file_def
      wrap_btf_def get_custom_vmlinux_path_def cstring_new_def give_def run_def and_do_def split: option.splits if_splits outcome.splits prod.splits)

text \<open>Two types, of which the allowlist names the second.\<close>

definition demo_tg :: tg_env where
  "demo_tg =
     \<lparr>lib = \<lparr>find_kernel_btf = 8, parse_elf = \<lambda>_. 8, btf_parse_raw = \<lambda>_. 8, nr_types = \<lambda>_. 2, type_name = \<lambda>_ i. Some [96 + ucast i],
        dump_new = \<lambda>_. 16, dump_type = \<lambda>_ _ i. (0, [ucast i])\<rparr>,
      tg_refuse = \<lambda>_ _. None, write_refused = \<lambda>_ _. None, tg_var = \<lambda>_. None,
      to_uppercase = map (\<lambda>c. if 97 \<le> c \<and> c \<le> 122 then c - 32 else c), regex_set = \<lambda>l. Some (\<lambda>n. n \<in> set l)\<rparr>"

definition demo_dump :: VmlinuxBtfDump where
  "demo_dump = allowlist \<lparr>vd_allowlist = None, vd_btfptr = 8\<rparr> ''b''"

lemma demo_names: "to_str [97] = Some ''a''" "to_str [98] = Some ''b''" "str_chars ''x.h'' = [120, 46, 104]"
  "char_of (88 :: nat) = CHR ''X''" "char_of (72 :: nat) = CHR ''H''"
  by code_simp+

lemma demo_ids: "type_ids demo_tg 8 = [1, 2]"
  by (simp add: type_ids_def demo_tg_def upt_rec)


end
