(* ===== verification/Bindings.thy ===== *)
theory Bindings
  imports Kernel_Headers
begin

text \<open>
  What is generated from the bindings of kernel headers: the accessors that read fields of
  kernel structures, \<open>cargo-bpf/src/accessors.rs\<close>, and the functions for the helpers of BPF with
  their numbers, in \<open>redbpf-probes/build.rs\<close>. The parser \<open>syn\<close> and the printer \<open>quote\<close> are left
  out: the input is the list of items of the file, the output a list of getters. The lemmas
  say that the getters are exactly the fields that can be reached through anonymous members.
\<close>

section \<open>The items of a file\<close>

datatype rust_type = TypePath string | TypePtr string | TypeOther string

record field =
  fd_ident :: "string option"
  fd_type :: rust_type

datatype rust_item = Struct string "field list" | Union string "field list" | OtherItem

fun item_fields :: "rust_item \<Rightarrow> field list" where
  "item_fields (Struct n fs) = fs"
| "item_fields (Union n fs) = fs"
| "item_fields OtherItem = []"

type_synonym items = "string \<Rightarrow> rust_item option"

text \<open>\<open>CollectItems\<close>: a later item replaces an earlier one of the same name.\<close>

fun collect_items :: "items \<Rightarrow> rust_item list \<Rightarrow> items" where
  "collect_items m [] = m"
| "collect_items m (Struct n fs # is) = collect_items (m(n \<mapsto> Struct n fs)) is"
| "collect_items m (Union n fs # is) = collect_items (m(n \<mapsto> Union n fs)) is"
| "collect_items m (OtherItem # is) = collect_items m is"

definition parse_items :: "rust_item list \<Rightarrow> items" where
  "parse_items file = collect_items (\<lambda>_. None) file"

section \<open>Accessors\<close>

text \<open>A type that is no path, or whose name is not an item, panics.\<close>

fun type_item :: "items \<Rightarrow> rust_type \<Rightarrow> (unit, rust_item) outcome" where
  "type_item its (TypePath n) = unwrap (its n)"
| "type_item its _ = Panic"

definition enter_field :: "string \<Rightarrow> bool" where
  "enter_field id_s \<longleftrightarrow> starts_with id_s ''__bindgen_anon'' \<or> starts_with id_s ''__sk_common''"

definition blacklisted_field :: "string \<Rightarrow> bool" where
  "blacklisted_field id_s \<longleftrightarrow> starts_with id_s ''_bindgen'' \<or> starts_with id_s ''_bitfield''"

record accessor =
  ac_prefix :: "string list"
  ac_field :: field

text \<open>
  \<open>visit_field\<close> on the fields of an item: an anonymous member is entered. Types could contain
  each other, so the depth is bounded by fuel, and \<open>None\<close> says that it ran out.
\<close>

fun visit_fields :: "items \<Rightarrow> nat \<Rightarrow> string list \<Rightarrow> field list \<Rightarrow> (unit, accessor list) outcome option" where
  "visit_fields its n prefix [] = Some (Ok [])"
| "visit_fields its n prefix (f # fs) =
     (case fd_ident f of
        None \<Rightarrow> visit_fields its n prefix fs
      | Some id_s \<Rightarrow>
          if enter_field id_s then
            (case n of
               0 \<Rightarrow> None
             | Suc m \<Rightarrow>
                 (case type_item its (fd_type f) of
                    Ok item \<Rightarrow>
                      (case visit_fields its m (prefix @ [id_s]) (item_fields item) of
                         None \<Rightarrow> None
                       | Some r \<Rightarrow> map_option (\<lambda>rest. and_then r (\<lambda>a. and_then rest (\<lambda>b. Ok (a @ b)))) (visit_fields its n prefix fs))
                  | _ \<Rightarrow> Some Panic))
          else if \<not> blacklisted_field id_s then
            map_option (\<lambda>rest. and_then rest (\<lambda>b. Ok (\<lparr>ac_prefix = prefix, ac_field = f\<rparr> # b))) (visit_fields its n prefix fs)
          else visit_fields its n prefix fs)"

text \<open>The structures of the file that are on the whitelist and have accessors.\<close>

fun type_accessors :: "items \<Rightarrow> nat \<Rightarrow> string list \<Rightarrow> rust_item list \<Rightarrow> (unit, (string \<times> accessor list) list) outcome option" where
  "type_accessors its n whitelist [] = Some (Ok [])"
| "type_accessors its n whitelist (Struct name fs # is) =
     (if name \<notin> set whitelist then type_accessors its n whitelist is
      else (case visit_fields its n [''self''] fs of
              None \<Rightarrow> None
            | Some r \<Rightarrow> map_option (\<lambda>rest. and_then r (\<lambda>a. and_then rest (\<lambda>b. Ok (if a = [] then b else (name, a) # b))))
                (type_accessors its n whitelist is)))"
| "type_accessors its n whitelist (_ # is) = type_accessors its n whitelist is"

text \<open>A getter reads through a path; one for a pointer gives nothing for a null pointer.\<close>

record getter =
  gt_name :: string
  gt_path :: "string list"
  gt_type :: rust_type
  gt_null_check :: bool

definition getter_of :: "accessor \<Rightarrow> getter" where
  "getter_of a =
     (let name = the (fd_ident (ac_field a))
      in \<lparr>gt_name = name, gt_path = ac_prefix a @ [name], gt_type = fd_type (ac_field a),
          gt_null_check = (case fd_type (ac_field a) of TypePtr _ \<Rightarrow> True | _ \<Rightarrow> False)\<rparr>)"

text \<open>Only the first accessor of a name is kept.\<close>

fun unique_getters :: "getter list \<Rightarrow> getter list \<Rightarrow> getter list" where
  "unique_getters cache [] = cache"
| "unique_getters cache (g # gs) =
     unique_getters (if gt_name g \<in> gt_name ` set cache then cache else cache @ [g]) gs"

definition generate_read_accessors :: "nat \<Rightarrow> rust_item list \<Rightarrow> string list \<Rightarrow> (unit, (string \<times> getter list) list) outcome option" where
  "generate_read_accessors n file whitelist =
     map_option (\<lambda>r. and_then r (\<lambda>accs. Ok (map (\<lambda>(name, as). (name, unique_getters [] (map getter_of as))) accs)))
       (type_accessors (parse_items file) n whitelist file)"

section \<open>Helpers\<close>

text \<open>
  A static item of a foreign block: its name, the arguments of the function if its type is an
  \<open>Option\<close> of one, and the text of that function type.
\<close>

record foreign_static =
  st_ident :: string
  st_option_fn :: "string list option"
  st_fn_text :: string

record helper =
  hp_name :: string
  hp_number :: nat
  hp_args :: "string list"
  hp_commented :: bool

fun rewrite_helpers :: "helper list \<Rightarrow> foreign_static list \<Rightarrow> helper list" where
  "rewrite_helpers helpers [] = helpers"
| "rewrite_helpers helpers (item # rest) =
     (case st_option_fn item of
        Some args \<Rightarrow>
          if starts_with (st_ident item) ''bpf_'' then
            rewrite_helpers (helpers @ [\<lparr>hp_name = st_ident item, hp_number = length helpers + 1, hp_args = args,
              hp_commented = (contains (st_ident item) ''printk'' \<or> contains (st_fn_text item) ''printk'')\<rparr>]) rest
          else rewrite_helpers helpers rest
      | None \<Rightarrow> rewrite_helpers helpers rest)"

section \<open>Which fields have a getter\<close>

text \<open>A field that is reached through members that are entered.\<close>

fun reaches :: "items \<Rightarrow> field list \<Rightarrow> string list \<Rightarrow> field \<Rightarrow> bool" where
  "reaches its fs [] f \<longleftrightarrow> f \<in> set fs"
| "reaches its fs (p # ps) f \<longleftrightarrow>
     (\<exists>g \<in> set fs. fd_ident g = Some p \<and> enter_field p \<and>
        (\<exists>item. type_item its (fd_type g) = Ok item \<and> reaches its (item_fields item) ps f))"

definition plain_field :: "field \<Rightarrow> bool" where
  "plain_field f \<longleftrightarrow> (\<exists>id_s. fd_ident f = Some id_s \<and> \<not> enter_field id_s \<and> \<not> blacklisted_field id_s)"

lemma reaches_Nil [simp]: "\<not> reaches its [] ps f"
  by (cases ps) auto

lemma visit_fields_exact:
  assumes "visit_fields its n prefix fs = Some (Ok accs)"
  shows "\<lparr>ac_prefix = pre, ac_field = f\<rparr> \<in> set accs \<longleftrightarrow> (\<exists>ps. pre = prefix @ ps \<and> reaches its fs ps f) \<and> plain_field f"
  using assms
proof (induction its n prefix fs arbitrary: accs rule: visit_fields.induct)
  case (2 its n prefix g fs)
  show ?case
  proof (cases "fd_ident g")
    case None
    then have v: "visit_fields its n prefix fs = Some (Ok accs)" using "2.prems" by simp
    have "plain_field f \<Longrightarrow> reaches its (g # fs) ps f \<longleftrightarrow> reaches its fs ps f" for ps
      using None by (cases ps) (auto simp: plain_field_def)
    then show ?thesis unfolding "2.IH"(1) [OF None v] by (cases "plain_field f") simp_all
  next
    case (Some id_s)
    consider (enter) "enter_field id_s" | (keep) "\<not> enter_field id_s" "\<not> blacklisted_field id_s"
      | (skip) "\<not> enter_field id_s" "blacklisted_field id_s" by blast
    then show ?thesis
    proof cases
      case enter
      obtain m item a b where m: "n = Suc m" "type_item its (fd_type g) = Ok item"
        and a: "visit_fields its m (prefix @ [id_s]) (item_fields item) = Some (Ok a)"
        and b: "visit_fields its n prefix fs = Some (Ok b)" and accs: "accs = a @ b"
        using "2.prems" Some enter by (auto simp: and_then_eq_Ok split: nat.splits outcome.splits option.splits)
      have "plain_field f \<Longrightarrow> reaches its (g # fs) ps f \<longleftrightarrow>
          reaches its fs ps f \<or> (\<exists>qs. ps = id_s # qs \<and> reaches its (item_fields item) qs f)" for ps
        using Some enter m by (cases ps) (auto simp: plain_field_def)
      then show ?thesis unfolding accs set_append Un_iff "2.IH"(2) [OF Some enter m a] "2.IH"(3) [OF Some enter m a b]
        by (cases "plain_field f") auto
    next
      case keep
      then obtain b where b: "visit_fields its n prefix fs = Some (Ok b)" and accs: "accs = \<lparr>ac_prefix = prefix, ac_field = g\<rparr> # b"
        using "2.prems" Some by (auto simp: and_then_eq_Ok)
      have "plain_field g" using Some keep by (simp add: plain_field_def)
      moreover have "reaches its (g # fs) ps f \<longleftrightarrow> reaches its fs ps f \<or> ps = [] \<and> f = g" for ps
        using Some keep by (cases ps) auto
      ultimately show ?thesis unfolding accs set_simps insert_iff "2.IH"(4) [OF Some keep b] by auto
    next
      case skip
      then have b: "visit_fields its n prefix fs = Some (Ok accs)" using "2.prems" Some by simp
      have "plain_field f \<Longrightarrow> reaches its (g # fs) ps f \<longleftrightarrow> reaches its fs ps f" for ps
        using Some skip by (cases ps) (auto simp: plain_field_def)
      then show ?thesis using "2.IH"(5) [OF Some skip(1) _ b] skip(2) by (cases "plain_field f") simp_all
    qed
  qed
qed simp

section \<open>When getters are generated\<close>

text \<open>The members of a list of fields that are entered are items of the file, of a rank below a bound.\<close>

definition members_below :: "items \<Rightarrow> (string \<Rightarrow> nat) \<Rightarrow> nat \<Rightarrow> field list \<Rightarrow> bool" where
  "members_below its rk n fs \<longleftrightarrow>
     (\<forall>g \<in> set fs. \<forall>id_s. fd_ident g = Some id_s \<and> enter_field id_s \<longrightarrow>
        (\<exists>m item. fd_type g = TypePath m \<and> its m = Some item \<and> rk m < n))"

text \<open>Types that are not part of themselves, as those of a C program.\<close>

definition ranked :: "items \<Rightarrow> (string \<Rightarrow> nat) \<Rightarrow> bool" where
  "ranked its rk \<longleftrightarrow> (\<forall>m item. its m = Some item \<longrightarrow> members_below its rk (rk m) (item_fields item))"

lemma members_below_mono: "members_below its rk n fs \<Longrightarrow> n \<le> n' \<Longrightarrow> members_below its rk n' fs"
  by (fastforce simp: members_below_def)

lemma members_below_Cons:
  "members_below its rk n (g # fs) \<longleftrightarrow> members_below its rk n fs \<and>
     (\<forall>id_s. fd_ident g = Some id_s \<and> enter_field id_s \<longrightarrow> (\<exists>m item. fd_type g = TypePath m \<and> its m = Some item \<and> rk m < n))"
  by (auto simp: members_below_def)

lemma visit_fields_total:
  assumes "ranked its rk"
  shows "members_below its rk n fs \<Longrightarrow> \<exists>accs. visit_fields its n prefix fs = Some (Ok accs)"
proof (induction n arbitrary: fs prefix rule: less_induct)
  case (less n)
  from less.prems show ?case
  proof (induction fs)
    case (Cons g fs)
    obtain b where b: "visit_fields its n prefix fs = Some (Ok b)" using Cons by (auto simp: members_below_Cons)
    show ?case
    proof (cases "\<exists>id_s. fd_ident g = Some id_s \<and> enter_field id_s")
      case True
      then obtain id_s m item where g: "fd_ident g = Some id_s" "enter_field id_s" "fd_type g = TypePath m" "its m = Some item" "rk m < n"
        using Cons.prems by (auto simp: members_below_Cons)
      obtain n' where n': "n = Suc n'" using g(5) by (cases n) auto
      have "members_below its rk n' (item_fields item)"
        using assms g(4,5) n' members_below_mono [of its rk "rk m" "item_fields item" n'] by (simp add: ranked_def)
      then obtain a where "visit_fields its n' (prefix @ [id_s]) (item_fields item) = Some (Ok a)" using less.IH [of n'] n' by auto
      then show ?thesis using g b n' by simp
    next
      case False
      then show ?thesis using b by (auto split: option.splits)
    qed
  qed simp
qed

lemma type_accessors_total:
  assumes "ranked its rk" "\<And>name fs. Struct name fs \<in> set xs \<Longrightarrow> members_below its rk n fs"
  shows "\<exists>accs. type_accessors its n whitelist xs = Some (Ok accs)"
  using assms(2)
proof (induction xs)
  case (Cons i xs)
  then obtain b where b: "type_accessors its n whitelist xs = Some (Ok b)" by auto
  show ?case
  proof (cases i)
    case (Struct name fs)
    then obtain a where "visit_fields its n [''self''] fs = Some (Ok a)" using visit_fields_total [OF assms(1)] Cons.prems by fastforce
    then show ?thesis using b Struct by simp
  qed (use b in simp_all)
qed simp

lemma type_accessors_in:
  assumes "type_accessors its n whitelist is = Some (Ok accs)"
  shows "(name, as) \<in> set accs \<longleftrightarrow>
    (\<exists>fs. Struct name fs \<in> set is \<and> name \<in> set whitelist \<and> visit_fields its n [''self''] fs = Some (Ok as) \<and> as \<noteq> [])"
  using assms
proof (induction its n whitelist "is" arbitrary: accs rule: type_accessors.induct)
  case (2 its n whitelist nm fs "is")
  show ?case
  proof (cases "nm \<in> set whitelist")
    case True
    then obtain a b where a: "visit_fields its n [''self''] fs = Some (Ok a)" and b: "type_accessors its n whitelist is = Some (Ok b)"
      and accs: "accs = (if a = [] then b else (nm, a) # b)"
      using "2.prems" by (auto simp: and_then_eq_Ok split: option.splits)
    show ?thesis using "2.IH"(2) [OF _ a b] True a by (auto simp: accs)
  next
    case False
    then show ?thesis using 2 by auto
  qed
qed auto

lemma unique_getters_names:
  "distinct (map gt_name cache) \<Longrightarrow>
   distinct (map gt_name (unique_getters cache gs)) \<and> set (unique_getters cache gs) \<subseteq> set cache \<union> set gs \<and>
   gt_name ` set (unique_getters cache gs) = gt_name ` (set cache \<union> set gs)"
proof (induction cache gs rule: unique_getters.induct)
  case (2 cache g gs)
  let ?c = "if gt_name g \<in> gt_name ` set cache then cache else cache @ [g]"
  have "distinct (map gt_name ?c)" using "2.prems" by auto
  then have "distinct (map gt_name (unique_getters ?c gs)) \<and> set (unique_getters ?c gs) \<subseteq> set ?c \<union> set gs \<and>
      gt_name ` set (unique_getters ?c gs) = gt_name ` (set ?c \<union> set gs)" by (rule "2.IH")
  then show ?case by (auto split: if_splits)
qed simp

lemma visit_fields_in:
  assumes "visit_fields its n [''self''] fs = Some (Ok as)"
  shows "a \<in> set as \<longleftrightarrow> (\<exists>ps. ac_prefix a = ''self'' # ps \<and> reaches its fs ps (ac_field a)) \<and> plain_field (ac_field a)"
  using visit_fields_exact [OF assms, of "ac_prefix a" "ac_field a"] by (cases a) simp

text \<open>The getters of one structure are those of its fields.\<close>

definition getters_of :: "items \<Rightarrow> field list \<Rightarrow> getter list \<Rightarrow> bool" where
  "getters_of its fs gs \<longleftrightarrow> distinct (map gt_name gs) \<and>
     (\<forall>ps f. reaches its fs ps f \<and> plain_field f \<longrightarrow> the (fd_ident f) \<in> gt_name ` set gs) \<and>
     (\<forall>g \<in> set gs. \<exists>ps f. reaches its fs ps f \<and> plain_field f \<and> fd_ident f = Some (gt_name g) \<and>
        gt_path g = ''self'' # ps @ [gt_name g] \<and> gt_type g = fd_type f \<and> (gt_null_check g \<longleftrightarrow> (\<exists>t. gt_type g = TypePtr t)))"

lemma unique_getters_of:
  assumes v: "visit_fields its n [''self''] fs = Some (Ok as)"
  shows "getters_of its fs (unique_getters [] (map getter_of as))"
proof -
  let ?gs = "unique_getters [] (map getter_of as)"
  have u: "distinct (map gt_name ?gs)" "set ?gs \<subseteq> getter_of ` set as" "gt_name ` set ?gs = gt_name ` getter_of ` set as"
    using unique_getters_names [of "[]" "map getter_of as"] by auto
  have "the (fd_ident f) \<in> gt_name ` set ?gs" if "reaches its fs ps f" "plain_field f" for ps f
  proof -
    have "\<lparr>ac_prefix = ''self'' # ps, ac_field = f\<rparr> \<in> set as" using visit_fields_in [OF v] that by simp
    then show ?thesis unfolding u(3) by (force simp: getter_of_def Let_def)
  qed
  moreover have "\<exists>ps f. reaches its fs ps f \<and> plain_field f \<and> fd_ident f = Some (gt_name g) \<and>
        gt_path g = ''self'' # ps @ [gt_name g] \<and> gt_type g = fd_type f \<and> (gt_null_check g \<longleftrightarrow> (\<exists>t. gt_type g = TypePtr t))"
    if g: "g \<in> set ?gs" for g
  proof -
    obtain a where a: "a \<in> set as" "g = getter_of a" using u(2) g by auto
    then obtain ps where "ac_prefix a = ''self'' # ps" "reaches its fs ps (ac_field a)" "plain_field (ac_field a)"
      using visit_fields_in [OF v] by blast
    moreover from this(3) obtain id_s where "fd_ident (ac_field a) = Some id_s" by (auto simp: plain_field_def)
    ultimately show ?thesis unfolding a(2)
      by (intro exI [of _ ps] exI [of _ "ac_field a"]) (auto simp: getter_of_def Let_def split: rust_type.splits)
  qed
  ultimately show ?thesis using u(1) unfolding getters_of_def by blast
qed

lemma type_accessors_names:
  assumes "ranked its rk" "\<forall>name fs. Struct name fs \<in> set xs \<longrightarrow> members_below its rk n fs"
    and accs: "type_accessors its n whitelist xs = Some (Ok accs)"
  shows "name \<in> fst ` set accs \<longleftrightarrow> name \<in> set whitelist \<and>
    (\<exists>fs ps f. Struct name fs \<in> set xs \<and> reaches its fs ps f \<and> plain_field f)"
proof -
  have "name \<in> fst ` set accs \<longleftrightarrow> (\<exists>as. (name, as) \<in> set accs)" by force
  also have "\<dots> \<longleftrightarrow> name \<in> set whitelist \<and> (\<exists>fs as a. Struct name fs \<in> set xs \<and> visit_fields its n [''self''] fs = Some (Ok as) \<and> a \<in> set as)"
    unfolding type_accessors_in [OF accs] by (metis list.set_intros(1) neq_Nil_conv empty_iff empty_set)
  also have "\<dots> \<longleftrightarrow> name \<in> set whitelist \<and> (\<exists>fs ps f. Struct name fs \<in> set xs \<and> reaches its fs ps f \<and> plain_field f)"
    using visit_fields_total [OF assms(1)] assms(2) visit_fields_in by (metis accessor.select_convs)
  finally show ?thesis .
qed

text \<open>
  C25: for a file whose anonymous members are items of the file and not part of themselves, the
  getters are generated, with fuel for the depth of nesting. The structures that get some are
  those of the whitelist with a field that can be reached through anonymous members and is
  neither one itself nor a filler of bindgen; in each, no two getters have the same name,
  every such field has a getter of its name, and every getter reads a field of its name, at
  the path where it is, with its type, and checks for null exactly at pointers.
\<close>

theorem accessors_exact:
  assumes "ranked (parse_items file) rk" and "\<forall>name fs. Struct name fs \<in> set file \<longrightarrow> members_below (parse_items file) rk n fs"
  shows "\<exists>gens. generate_read_accessors n file whitelist = Some (Ok gens) \<and>
    (\<forall>name. name \<in> fst ` set gens \<longleftrightarrow> name \<in> set whitelist \<and>
       (\<exists>fs ps f. Struct name fs \<in> set file \<and> reaches (parse_items file) fs ps f \<and> plain_field f)) \<and>
    (\<forall>(name, gs) \<in> set gens. \<exists>fs. Struct name fs \<in> set file \<and> getters_of (parse_items file) fs gs)"
proof -
  let ?its = "parse_items file"
  obtain accs where accs: "type_accessors ?its n whitelist file = Some (Ok accs)"
    using type_accessors_total [OF assms(1), where xs = "file" and n = n and whitelist = whitelist] assms(2) by blast
  let ?gens = "map (\<lambda>(name, as). (name, unique_getters [] (map getter_of as))) accs"
  have gen: "generate_read_accessors n file whitelist = Some (Ok ?gens)" by (simp add: generate_read_accessors_def accs)
  have fst: "fst ` set ?gens = fst ` set accs" by force
  have each: "\<forall>(name, gs) \<in> set ?gens. \<exists>fs. Struct name fs \<in> set file \<and> getters_of ?its fs gs"
    using unique_getters_of [of ?its n] by (fastforce simp: type_accessors_in [OF accs])
  show ?thesis
    by (rule exI [of _ ?gens], intro conjI allI gen each) (simp only: fst type_accessors_names [OF assms accs])
qed

text \<open>
  The helpers are numbered in the order of the declarations, from one, and a helper that is
  commented out keeps its number.
\<close>

lemma rewrite_helpers_numbers:
  assumes "\<forall>i < length helpers. hp_number (helpers ! i) = i + 1"
  shows "\<forall>i < length (rewrite_helpers helpers items). hp_number (rewrite_helpers helpers items ! i) = i + 1"
    and "map hp_name (rewrite_helpers helpers items) =
      map hp_name helpers @ map st_ident (filter (\<lambda>s. st_option_fn s \<noteq> None \<and> starts_with (st_ident s) ''bpf_'') items)"
  using assms
  by (induction helpers items rule: rewrite_helpers.induct) (auto simp: nth_append less_Suc_eq split: option.splits)

text \<open>A \<open>sock\<close> whose first member is entered.\<close>

definition demo_file :: "rust_item list" where
  "demo_file =
     [Struct ''sock_common'' [\<lparr>fd_ident = Some ''skc_family'', fd_type = TypeOther ''u16''\<rparr>],
      Struct ''sock'' [\<lparr>fd_ident = Some ''__sk_common'', fd_type = TypePath ''sock_common''\<rparr>,
        \<lparr>fd_ident = Some ''sk_socket'', fd_type = TypePtr ''socket''\<rparr>, \<lparr>fd_ident = Some ''_bitfield_1'', fd_type = TypeOther ''u8''\<rparr>]]"

theorem accessors_exact_witness:
  "\<exists>gens gs g. generate_read_accessors 1 demo_file [''sock''] = Some (Ok gens) \<and> (''sock'', gs) \<in> set gens \<and> g \<in> set gs \<and>
     gt_name g = ''skc_family''"
proof -
  let ?its = "parse_items demo_file" and ?rk = "\<lambda>n. if n = ''sock'' then 1 else 0 :: nat"
  let ?fs = "[\<lparr>fd_ident = Some ''__sk_common'', fd_type = TypePath ''sock_common''\<rparr>,
        \<lparr>fd_ident = Some ''sk_socket'', fd_type = TypePtr ''socket''\<rparr>, \<lparr>fd_ident = Some ''_bitfield_1'', fd_type = TypeOther ''u8''\<rparr>]"
    and ?f = "\<lparr>fd_ident = Some ''skc_family'', fd_type = TypeOther ''u16''\<rparr>"
  have i: "?its = [''sock'' \<mapsto> Struct ''sock'' ?fs, ''sock_common'' \<mapsto> Struct ''sock_common'' [?f]]"
    by (simp add: parse_items_def demo_file_def fun_upd_twist)
  have rk: "ranked ?its ?rk" unfolding i by (simp add: ranked_def members_below_def enter_field_def)
  have mb: "\<forall>name fs. Struct name fs \<in> set demo_file \<longrightarrow> members_below ?its ?rk 1 fs"
    unfolding i by (auto simp: demo_file_def members_below_def enter_field_def)
  have s: "Struct ''sock'' fs \<in> set demo_file \<longleftrightarrow> fs = ?fs" for fs by (auto simp: demo_file_def)
  have r: "reaches ?its ?fs [''__sk_common''] ?f" "plain_field ?f"
    unfolding i by (simp_all add: enter_field_def plain_field_def blacklisted_field_def)
  from accessors_exact [OF rk mb, where whitelist = "[''sock'']"] show ?thesis
  proof (elim exE conjE)
    fix gens
    assume g: "generate_read_accessors 1 demo_file [''sock''] = Some (Ok gens)"
      and names: "\<forall>name. name \<in> fst ` set gens \<longleftrightarrow> name \<in> set [''sock''] \<and>
         (\<exists>fs ps f. Struct name fs \<in> set demo_file \<and> reaches ?its fs ps f \<and> plain_field f)"
      and each: "\<forall>(name, gs) \<in> set gens. \<exists>fs. Struct name fs \<in> set demo_file \<and> getters_of ?its fs gs"
    have "''sock'' \<in> fst ` set gens" using names s r by (metis list.set_intros(1))
    then obtain gs where gs: "(''sock'', gs) \<in> set gens" by auto
    then have "\<exists>fs. Struct ''sock'' fs \<in> set demo_file \<and>
        (\<forall>ps f. reaches ?its fs ps f \<and> plain_field f \<longrightarrow> the (fd_ident f) \<in> gt_name ` set gs)" using each unfolding getters_of_def by fast
    then have "the (fd_ident ?f) \<in> gt_name ` set gs" unfolding s using r by blast
    then obtain x where "x \<in> set gs" "gt_name x = ''skc_family''" by auto
    then show ?thesis using g gs by blast
  qed
qed

end
