(* ===== verification/Build_Bindings.thy ===== *)
theory Build_Bindings
  imports Type_Gen Bindings "HOL-Library.List_Lexorder" "HOL-Library.Char_ord"
begin

text \<open>
  The bindings that the probes are compiled against: the build script \<open>redbpf-probes/build.rs\<close>,
  the builders of \<open>cargo-bpf/src/bindgen.rs\<close> and the flags of \<open>cargo-bpf/src/build_constants.rs\<close>.
  \<open>bindgen\<close> is a function of its configuration and the file system. The main lemma is that the two
  modules a successful run leaves come from the same source, the kernel headers or the BTF of
  the kernel, also when the first of them fails half-way.
\<close>

section \<open>Flags\<close>

datatype arch = X86_64 | Aarch64

fun KERNEL_HEADERS :: "arch \<Rightarrow> string list" where
  "KERNEL_HEADERS X86_64 =
     [''arch/x86/include'', ''arch/x86/include/generated'', ''include'', ''include/generated'',
      ''arch/include/generated/uapi'', ''arch/x86/include/uapi'', ''include/uapi'']"
| "KERNEL_HEADERS Aarch64 =
     [''arch/arm64/include'', ''arch/arm64/include/generated'', ''include'', ''include/generated'',
      ''arch/include/generated/uapi'', ''arch/arm64/include/uapi'', ''arch/arm64/include/generated/uapi'', ''include/uapi'']"

text \<open>The options that the compiler is called with decide \<open>cfg!\<close>.\<close>

definition BUILD_FLAGS :: "(string \<Rightarrow> bool) \<Rightarrow> string list" where
  "BUILD_FLAGS cfg =
     [''-D__BPF_TRACING__'', ''-D__KERNEL__'', ''-Wall'', ''-Werror'', ''-Wunused'', ''-Wno-unknown-warning-option'',
      ''-Wno-frame-address'', ''-Wno-unused-value'', ''-Wno-pointer-sign'', ''-Wno-compare-distinct-pointer-types'',
      ''-Wno-unused-parameter'', ''-Wno-missing-field-initializers'', ''-Wno-initializer-overrides'',
      ''-Wno-unknown-pragmas'', ''-fno-stack-protector'', ''-Wno-unused-label'', ''-Wno-unused-variable'',
      ''-Wno-unused-function'', ''-Wno-address-of-packed-member'', ''-Wno-gnu-variable-sized-type-not-at-end''] @
     (if cfg ''x86_64'' then [''-D__ASM_SYSREG_H''] else if cfg ''aarch64'' then [''-target'', ''aarch64''] else [])"

section \<open>Builders\<close>

datatype callbacks = Callbacks | HideEnum

text \<open>\<open>bindgen::Builder\<close>: what its methods add, in the order of the calls.\<close>

record builder =
  b_clang_args :: "string list"
  b_headers :: "string list"
  b_header_contents :: "(string \<times> string) list"
  b_types :: "string list"
  b_vars :: "string list"
  b_blocked :: "string list"
  b_opaque :: "string list"
  b_no_debug :: "string list"
  b_use_core :: bool
  b_ctypes_prefix :: "string option"
  b_callbacks :: "callbacks option"

definition bindgen_builder :: builder where
  "bindgen_builder =
     \<lparr>b_clang_args = [], b_headers = [], b_header_contents = [], b_types = [], b_vars = [], b_blocked = [], b_opaque = [],
      b_no_debug = [], b_use_core = False, b_ctypes_prefix = None, b_callbacks = None\<rparr>"

definition use_core :: "builder \<Rightarrow> builder" where
  "use_core b = b\<lparr>b_use_core := True, b_ctypes_prefix := Some ''::cty''\<rparr>"

definition add_header :: "string \<Rightarrow> builder \<Rightarrow> builder" where
  "add_header h b = b\<lparr>b_headers := b_headers b @ [h]\<rparr>"

definition allow :: "string list \<Rightarrow> string list \<Rightarrow> builder \<Rightarrow> builder" where
  "allow tys vs b = b\<lparr>b_types := b_types b @ tys, b_vars := b_vars b @ vs\<rparr>"

definition opaque_type :: "string \<Rightarrow> builder \<Rightarrow> builder" where
  "opaque_type t b = b\<lparr>b_opaque := b_opaque b @ [t]\<rparr>"

text \<open>\<open>Callbacks::item_name\<close>\<close>

definition item_name :: "string \<Rightarrow> string option" where
  "item_name name = (if name \<in> {''u8'', ''u16'', ''u32'', ''u64''} then Some (''_cargo_bpf_'' @ name) else None)"

text \<open>
  What the build looks at. The environment variables are those of \<open>be_headers\<close>. \<open>bindgen\<close> and
  \<open>syn\<close> are third-party; the texts of getters and helpers are put together by \<open>quote\<close>;
  \<open>rustfmt\<close> rewrites the file it is given and may do nothing. \<open>be_fuel\<close> bounds the nesting of
  anonymous members that the stack has room for.
\<close>

record bind_env =
  be_headers :: headers_env
  be_arch :: arch
  be_cfg :: "string \<Rightarrow> bool"
  be_globbed :: "(headers_error, string) outcome list"
  be_tg :: tg_env
  be_bindgen :: "builder \<Rightarrow> store \<Rightarrow> (string, string) outcome"
  be_syn :: "string \<Rightarrow> (rust_item list \<times> foreign_static list) option"
  be_fuel :: nat
  be_show_getters :: "(string \<times> getter list) list \<Rightarrow> string"
  be_show_helper :: "helper \<Rightarrow> string"
  be_rustfmt :: "bytes \<Rightarrow> bytes"

datatype bind_error = NoHeaders string | NoVmlinux "string \<times> TypeGenError" | NoBindings string string | NoModule io_error

type_synonym 'a bind_step = "(tg_state, bind_error, 'a) step"

definition kernel_headers :: "bind_env \<Rightarrow> (unit, string list) outcome" where
  "kernel_headers E =
     (case prefix_kernel_headers (be_headers E) (KERNEL_HEADERS (be_arch E)) of
        Ok (Some hs) \<Rightarrow> Ok hs | Ok None \<Rightarrow> Err () | Err _ \<Rightarrow> Err () | Panic \<Rightarrow> Panic | Undefined \<Rightarrow> Undefined)"

definition get_builder_kernel_headers :: "bind_env \<Rightarrow> (string, builder) outcome" where
  "get_builder_kernel_headers E =
     and_then (map_err (\<lambda>_. ''kernel headers not found'') (kernel_headers E)) (\<lambda>hs.
     let fl = map (\<lambda>dir. ''-I'' @ dir) hs @ BUILD_FLAGS (be_cfg E)
     in Ok ((opaque_type ''xregs_state'' (use_core (bindgen_builder\<lparr>b_clang_args := fl\<rparr>)))\<lparr>b_callbacks := Some Callbacks\<rparr>))"

definition tg_of :: "bind_env \<Rightarrow> tg_env" where
  "tg_of E = (be_tg E)\<lparr>tg_var := env_var (be_headers E)\<rparr>"

text \<open>\<open>get_builder_vmlinux\<close> with the builder it gives.\<close>

definition vmlinux_builder :: "bind_env \<Rightarrow> string \<Rightarrow> builder bind_step" where
  "vmlinux_builder E c_dump_file =
     and_do (err_step NoVmlinux (get_builder_vmlinux (tg_of E) c_dump_file)) (\<lambda>h.
       give (Ok (add_header h ((use_core bindgen_builder)\<lparr>b_callbacks := Some Callbacks\<rparr>))))"

section \<open>Flags on the command line\<close>

fun insert_flags :: "nat \<Rightarrow> string list \<Rightarrow> string list \<Rightarrow> string list" where
  "insert_flags p [] fl = fl"
| "insert_flags p (a # as) fl = insert_flags (p + 1) as (take p fl @ a # drop p fl)"

text \<open>The position of the arguments for clang; a subtraction from zero panics.\<close>

fun position_of :: "string \<Rightarrow> string list \<Rightarrow> nat option" where
  "position_of x [] = None"
| "position_of x (y # ys) = (if y = x then Some 0 else map_option Suc (position_of x ys))"

definition flags_with :: "string list \<Rightarrow> string list \<Rightarrow> ('e, string list) outcome" where
  "flags_with extra_args fl =
     (if fl = [] then Panic
      else Ok (insert_flags (case position_of ''--'' fl of Some p \<Rightarrow> p | None \<Rightarrow> length fl - 1) extra_args fl))"


text \<open>
  The program \<open>bindgen\<close> that \<open>cargo bpf bindgen\<close> runs: the flags of a builder, whether it can be
  started and then its status and output, and the path of the next temporary file.
\<close>

record bindgen_cmd =
  command_line_flags :: "builder \<Rightarrow> string list"
  bindgen_output :: "string list \<Rightarrow> store \<Rightarrow> (bool \<times> bytes \<times> bytes) option"
  temp_path :: "store \<Rightarrow> string"

definition bindgen_generate :: "bindgen_cmd \<Rightarrow> builder \<Rightarrow> string list \<Rightarrow> store \<Rightarrow> (string, string) outcome" where
  "bindgen_generate C b extra_args s =
     and_then (flags_with extra_args (command_line_flags C b)) (\<lambda>fl.
     and_then (unwrap (bindgen_output C fl s)) (\<lambda>(success, stdout, stderr).
     if \<not> success then and_then (unwrap (to_str stderr)) Err else unwrap (to_str stdout)))"

abbreviation (input) NL :: string where "NL \<equiv> [CHR 0x0A]"

definition temp_header :: "string \<Rightarrow> string" where
  "temp_header path =
     NL @ ''#define KBUILD_MODNAME '' @ [CHR 0x22] @ ''cargo_bpf_bindings'' @ [CHR 0x22] @ NL @ ''#include <linux/kconfig.h>'' @ NL @
     ''#include <'' @ path @ ''>'' @ NL @ ''        ''"

definition generated_bindings :: "string \<Rightarrow> string" where
  "generated_bindings bindings =
     NL @ ''mod generated_bindings {'' @ NL @ ''#![allow(non_camel_case_types)]'' @ NL @ ''#![allow(non_upper_case_globals)]'' @ NL @
     ''#![allow(clippy::all)]'' @ NL @ bindings @ NL @ ''}'' @ NL @ ''pub use generated_bindings::*;'' @ NL @ NL"

text \<open>
  The text that is printed. A header that is no file is looked for by clang, through a temporary
  header that includes it; the temporary file is gone at the end. Without kernel headers the
  builder panics.
\<close>

definition cmd_bindgen :: "bind_env \<Rightarrow> bindgen_cmd \<Rightarrow> string \<Rightarrow> string list \<Rightarrow> store \<Rightarrow> (string, string) outcome" where
  "cmd_bindgen E C header extra_args s =
     (let (header, s) = (if exists_path header s then (header, s)
                         else let t = temp_path C s in (t, put t (File (as_bytes (temp_header header))) s))
      in case get_builder_kernel_headers E of
           Ok b \<Rightarrow> and_then (bindgen_generate C (add_header header b) extra_args s) (\<lambda>bindings. Ok (generated_bindings bindings))
         | Err _ \<Rightarrow> Panic | Panic \<Rightarrow> Panic | Undefined \<Rightarrow> Undefined)"

section \<open>The modules\<close>

definition module_text :: "string \<Rightarrow> string \<Rightarrow> string" where
  "module_text name bindings =
     NL @ ''mod '' @ name @ '' {'' @ NL @ ''#![allow(non_camel_case_types)]'' @ NL @ ''#![allow(non_upper_case_globals)]'' @ NL @
     ''#![allow(non_snake_case)]'' @ NL @ ''#![allow(unused_unsafe)]'' @ NL @ ''#![allow(clippy::all)]'' @ NL @
     bindings @ NL @ ''}'' @ NL @ ''pub use '' @ name @ ''::*;'' @ NL @ NL"

definition on_store :: "(store, io_error, 'a) step \<Rightarrow> 'a bind_step" where
  "on_store m s = (case m (tg_files s) of (r, f) \<Rightarrow> (map_err NoModule r, s\<lparr>tg_files := f\<rparr>))"

definition rustfmt :: "bind_env \<Rightarrow> string \<Rightarrow> (store, io_error, unit) step" where
  "rustfmt E path s =
     (Ok (), case map_of s path of Some (File b) \<Rightarrow> put path (File (be_rustfmt E b)) s | _ \<Rightarrow> s)"

definition create_module :: "bind_env \<Rightarrow> string \<Rightarrow> string \<Rightarrow> string \<Rightarrow> unit bind_step" where
  "create_module E path name bindings =
     and_do (on_store (write_file (tg_refuse (be_tg E)) path [])) (\<lambda>_.
     and_do (on_store (write_open (be_tg E) path (as_bytes (module_text name bindings)))) (\<lambda>_.
     on_store (rustfmt E path)))"

text \<open>\<open>generate_read_accessors\<close> from text to text.\<close>

definition read_accessors :: "bind_env \<Rightarrow> string \<Rightarrow> string list \<Rightarrow> (bind_error, string) outcome" where
  "read_accessors E bindings whitelist =
     and_then (unwrap (be_syn E bindings)) (\<lambda>(items, _).
       case generate_read_accessors (be_fuel E) items whitelist of
         Some (Ok gs) \<Rightarrow> Ok (be_show_getters E gs) | Some _ \<Rightarrow> Panic | None \<Rightarrow> Undefined)"

definition gen_helpers :: "bind_env \<Rightarrow> string \<Rightarrow> (bind_error, string) outcome" where
  "gen_helpers E helpers =
     and_then (unwrap (be_syn E helpers)) (\<lambda>(_, statics).
       Ok (''use crate::bindings::*;'' @ NL @ concat (map (be_show_helper E) (rewrite_helpers [] statics))))"

definition run_bindgen :: "bind_env \<Rightarrow> string \<Rightarrow> builder \<Rightarrow> string bind_step" where
  "run_bindgen E msg b s = (map_err (NoBindings msg) (be_bindgen E b (tg_files s)), s)"

definition probe_read_use :: string where
  "probe_read_use = ''use crate::helpers::bpf_probe_read;''"

abbreviation (input) accessor_types :: "string list" where
  "accessor_types \<equiv> [''sock'', ''sockaddr'', ''sockaddr_in'', ''in_addr'', ''file'', ''inode'', ''path'', ''dentry'', ''qstr'']"

section \<open>The two sources\<close>

definition probe_headers :: "builder \<Rightarrow> builder" where
  "probe_headers b = add_header ''include/bpf_helpers.h'' (add_header ''include/redbpf_helpers.h'' b)"

definition headers_builder :: "builder \<Rightarrow> builder" where
  "headers_builder b =
     opaque_type ''xregs_state'' (allow
       ([''pt_regs'', ''s32'', ''bpf_.*''] @
        [''xdp_md'', ''ethhdr'', ''iphdr'', ''ipv6hdr'', ''tcphdr'', ''udphdr'', ''xdp_action'', ''__sk_.*'', ''sk_.*'',
         ''inet_sock'', ''unix_sock'', ''sockaddr'', ''sockaddr_in'', ''in_addr'', ''tcp.*_sock'', ''udp.*_sock'',
         ''btf_ptr'', ''linux_binprm'', ''^sock_type$'', ''^sock_flags$''])
       ([''BPF_.*''] @ [''ETH_.*'', ''IPPROTO_.*'', ''SOCK_.*'', ''SK_FL_.*'', ''AF_.*'']) (probe_headers b))"

definition headers_helpers :: "builder \<Rightarrow> builder" where
  "headers_helpers b = allow [] [''bpf_.*''] (probe_headers b)"

definition out_dir :: "bind_env \<Rightarrow> string option" where
  "out_dir E = env_var (be_headers E) ''OUT_DIR''"

definition generate_bindings_kernel_headers :: "bind_env \<Rightarrow> unit bind_step" where
  "generate_bindings_kernel_headers E =
     and_do (give (unwrap (out_dir E))) (\<lambda>out.
     and_do (give (map_err NoHeaders (get_builder_kernel_headers E))) (\<lambda>b.
     and_do (run_bindgen E ''error on Builder::generate'' (headers_builder b)) (\<lambda>bindings.
     and_do (give (read_accessors E bindings accessor_types)) (\<lambda>accessors.
     and_do (create_module E (path_join out ''gen_bindings.rs'') ''gen_bindings''
       (bindings @ probe_read_use @ accessors)) (\<lambda>_.
     and_do (give (map_err NoHeaders (get_builder_kernel_headers E))) (\<lambda>b.
     and_do (run_bindgen E ''error on Builder::generate while generating helpers'' (headers_helpers b)) (\<lambda>bindings.
     and_do (give (gen_helpers E bindings)) (\<lambda>helpers.
     create_module E (path_join out ''gen_helpers.rs'') ''gen_helpers'' helpers))))))))"

definition vmlinux_types :: "builder \<Rightarrow> builder" where
  "vmlinux_types b =
     opaque_type ''xregs_state'' (allow
       ([''^pt_regs$'', ''^s32$'', ''^bpf_.*''] @
        [''^xdp_md$'', ''^ethhdr$'', ''^iphdr$'', ''^ipv6hdr$'', ''^tcphdr$'', ''^udphdr$'', ''^xdp_action$'', ''^__sk_.*'', ''^sk_.*'',
         ''^inet_sock$'', ''^unix_sock$'', ''^sockaddr$'', ''^sockaddr_in$'', ''^in_addr$'', ''^tcp.*_sock$'', ''^udp.*_sock$'',
         ''^btf_ptr$'', ''^sock_type$'', ''^sock_flags$''])
       ([''^BPF_.*''] @ [''^IPPROTO_.*''])
       (b\<lparr>b_header_contents := b_header_contents b @ [(''bpf_timer.h'', ''struct bpf_timer;'')],
          b_no_debug := b_no_debug b @ [''ec_response_motion_sense_fifo_info'', ''tpm2_.*'', ''pubkey_hdr'', ''__pldm.*'', ''signature_.*hdr'']\<rparr>))"

definition supplement_builder :: builder where
  "supplement_builder =
     (allow [''^bpf_map_def$''] [''^AF_.*'', ''^ETH_.*'', ''^BPF_.*'', ''^IPPROTO_.*'', ''^SOCK_.*'']
       (add_header ''include/vmlinux_supplement.h'' (use_core bindgen_builder)))
     \<lparr>b_blocked := [''_bindgen_ty.*''], b_callbacks := Some HideEnum\<rparr>"

definition vmlinux_helpers :: "builder \<Rightarrow> builder" where
  "vmlinux_helpers b = allow [] [''^bpf_.*''] (add_header ''include/bpf_helpers.h'' b)"

definition generate_bindings_vmlinux :: "bind_env \<Rightarrow> unit bind_step" where
  "generate_bindings_vmlinux E =
     and_do (give (unwrap (out_dir E))) (\<lambda>out.
     and_do (vmlinux_builder E (path_join out ''vmlinux.h'')) (\<lambda>b.
     and_do (run_bindgen E ''error on Builder::generate'' (vmlinux_types b)) (\<lambda>bindings.
     and_do (give (read_accessors E bindings accessor_types)) (\<lambda>accessors.
     and_do (run_bindgen E ''error on Builder::generate for supplement'' supplement_builder) (\<lambda>supplement.
     and_do (create_module E (path_join out ''gen_bindings.rs'') ''gen_bindings''
       (bindings @ probe_read_use @ accessors @ supplement)) (\<lambda>_.
     and_do (vmlinux_builder E (path_join out ''vmlinux_helpers.h'')) (\<lambda>b.
     and_do (run_bindgen E ''error on Builder::generate for helper'' (vmlinux_helpers b)) (\<lambda>bindings.
     and_do (give (gen_helpers E bindings)) (\<lambda>helpers.
     create_module E (path_join out ''gen_helpers.rs'') ''gen_helpers'' helpers)))))))))"

section \<open>The script\<close>

text \<open>Paths are compared by their components. On docs.rs the last of the installed headers is taken.\<close>

definition path_components :: "string \<Rightarrow> string list" where
  "path_components p = filter (\<lambda>c. c \<noteq> []) (split_on (CHR ''/'') p)"

definition with_docs_rs :: "bind_env \<Rightarrow> bind_env" where
  "with_docs_rs E =
     (if env_var (be_headers E) ''DOCS_RS'' = None then E
      else case rev (sort_key path_components (available_kernel_header_paths (be_headers E) (be_globbed E))) of
             [] \<Rightarrow> E
           | path # _ \<Rightarrow> E\<lparr>be_headers := set_custom_header_path path (be_headers E)\<rparr>)"

text \<open>\<open>Result::unwrap\<close> and \<open>Result::or_else\<close> of a step.\<close>

definition unwrap_step :: "('s, 'e, 'a) step \<Rightarrow> ('s, 'f, 'a) step" where
  "unwrap_step m s = (case m s of (Ok x, s') \<Rightarrow> (Ok x, s') | (Undefined, s') \<Rightarrow> (Undefined, s') | (_, s') \<Rightarrow> (Panic, s'))"

definition or_else_step :: "('s, 'e, 'a) step \<Rightarrow> ('s, 'e, 'a) step \<Rightarrow> ('s, 'e, 'a) step" where
  "or_else_step m f s = (case m s of (Err _, s') \<Rightarrow> f s' | r \<Rightarrow> r)"

definition bindings_main :: "bind_env \<Rightarrow> (tg_state, unit, unit) step" where
  "bindings_main E0 =
     (let E = with_docs_rs E0
      in if get_custom_vmlinux_path (tg_of E) \<noteq> None then unwrap_step (generate_bindings_vmlinux E)
         else if get_custom_header_path (be_headers E) \<noteq> None \<or> get_custom_header_version (be_headers E) \<noteq> None
         then unwrap_step (generate_bindings_kernel_headers E)
         else unwrap_step (or_else_step (generate_bindings_kernel_headers E) (generate_bindings_vmlinux E)))"


section \<open>Where the modules come from\<close>

lemma insert_flags_at: "p \<le> length fl \<Longrightarrow> insert_flags p as fl = take p fl @ as @ drop p fl"
  by (induction p as fl rule: insert_flags.induct) (simp_all add: min_def)

lemma position_of_first: "x \<notin> set ys \<Longrightarrow> position_of x (ys @ x # zs) = Some (length ys)"
  by (induction ys) auto

text \<open>Extra arguments for \<open>bindgen\<close> are put before those for clang.\<close>

lemma flags_with_clang: "''--'' \<notin> set fl \<Longrightarrow> flags_with extra (fl @ ''--'' # clang) = Ok (fl @ extra @ ''--'' # clang)"
  by (simp add: flags_with_def position_of_first insert_flags_at)

lemma cmd_bindgen_prints:
  assumes "get_builder_kernel_headers E = Ok b" "exists_path header s"
    and "command_line_flags C (add_header header b) = fl @ ''--'' # clang" "''--'' \<notin> set fl"
    and "bindgen_output C (fl @ extra @ ''--'' # clang) s = Some (True, stdout, stderr)" "to_str stdout = Some bindings"
  shows "cmd_bindgen E C header extra s = Ok (generated_bindings bindings)"
  using assms by (simp add: cmd_bindgen_def bindgen_generate_def flags_with_clang)

text \<open>Without options of that name neither architecture has flags of its own.\<close>

lemma BUILD_FLAGS_plain: "\<not> cfg ''x86_64'' \<Longrightarrow> \<not> cfg ''aarch64'' \<Longrightarrow> ''-D__ASM_SYSREG_H'' \<notin> set (BUILD_FLAGS cfg) \<and> ''-target'' \<notin> set (BUILD_FLAGS cfg)"
  by (simp add: BUILD_FLAGS_def)

definition module_at :: "bind_env \<Rightarrow> string \<Rightarrow> string \<Rightarrow> string \<Rightarrow> tg_state \<Rightarrow> bool" where
  "module_at E p name body s \<longleftrightarrow> has_file p (be_rustfmt E (as_bytes (module_text name body))) (tg_files s)"

datatype bind_source = FromHeaders | FromVmlinux

definition dumped_builder :: "string \<Rightarrow> builder" where
  "dumped_builder h = add_header h ((use_core bindgen_builder)\<lparr>b_callbacks := Some Callbacks\<rparr>)"

text \<open>The header \<open>h\<close> was written from the BTF of the kernel, and \<open>bindgen\<close> with builder \<open>b\<close> reads the files that were there then.\<close>

definition vmlinux_bindings :: "bind_env \<Rightarrow> string \<Rightarrow> builder \<Rightarrow> string \<Rightarrow> bool" where
  "vmlinux_bindings E h b raw \<longleftrightarrow>
     (\<exists>s1 s2. get_builder_vmlinux (tg_of E) h s1 = (Ok h, s2) \<and> be_bindgen E b (tg_files s2) = Ok raw)"

fun bindings_from :: "bind_env \<Rightarrow> string \<Rightarrow> tg_state \<Rightarrow> bind_source \<Rightarrow> bool" where
  "bindings_from E od s FromHeaders \<longleftrightarrow>
     (\<exists>b raw acc raw2 hp. get_builder_kernel_headers E = Ok b \<and>
        (\<exists>fs. be_bindgen E (headers_builder b) fs = Ok raw) \<and> read_accessors E raw accessor_types = Ok acc \<and>
        module_at E (path_join od ''gen_bindings.rs'') ''gen_bindings'' (raw @ probe_read_use @ acc) s \<and>
        (\<exists>fs. be_bindgen E (headers_helpers b) fs = Ok raw2) \<and> gen_helpers E raw2 = Ok hp \<and>
        module_at E (path_join od ''gen_helpers.rs'') ''gen_helpers'' hp s)"
| "bindings_from E od s FromVmlinux \<longleftrightarrow>
     (\<exists>raw acc sup raw2 hp.
        vmlinux_bindings E (path_join od ''vmlinux.h'') (vmlinux_types (dumped_builder (path_join od ''vmlinux.h''))) raw \<and>
        read_accessors E raw accessor_types = Ok acc \<and> (\<exists>fs. be_bindgen E supplement_builder fs = Ok sup) \<and>
        module_at E (path_join od ''gen_bindings.rs'') ''gen_bindings'' (raw @ probe_read_use @ acc @ sup) s \<and>
        vmlinux_bindings E (path_join od ''vmlinux_helpers.h'') (vmlinux_helpers (dumped_builder (path_join od ''vmlinux_helpers.h''))) raw2 \<and>
        gen_helpers E raw2 = Ok hp \<and> module_at E (path_join od ''gen_helpers.rs'') ''gen_helpers'' hp s)"

lemma path_join_inj: "path_join p q = path_join p r \<Longrightarrow> \<not> starts_with q ''/'' \<Longrightarrow> \<not> starts_with r ''/'' \<Longrightarrow> q = r"
  by (auto simp: path_join_def split: if_splits)

lemma keeps_on_store [intro]: "keeps P m \<Longrightarrow> keeps (\<lambda>s. P (tg_files s)) (on_store m)"
  by (auto simp: keeps_def on_store_def case_prod_beta)

lemma keeps_rustfmt [intro]: "p \<noteq> q \<Longrightarrow> keeps (has_file p c) (rustfmt E q)"
  by (auto simp: keeps_def rustfmt_def split: option.splits node.splits)

lemma keeps_create_module: "p \<noteq> q \<Longrightarrow> keeps (module_at E p n b) (create_module E q name body)"
  unfolding create_module_def module_at_def by (auto intro!: keeps_and_do)

lemma keeps_run_bindgen: "keeps P (run_bindgen E msg b)"
  by (simp add: keeps_def run_bindgen_def)

lemma keeps_get_builder_vmlinux: "p \<noteq> q \<Longrightarrow> keeps (\<lambda>s. has_file p c (tg_files s)) (get_builder_vmlinux E q)"
proof -
  have "keeps (\<lambda>s. has_file p c (tg_files s)) (vmlinux_btf_dump E)"
    unfolding keeps_def
  proof (intro allI impI)
    fix s :: tg_state assume "has_file p c (tg_files s)"
    then show "has_file p c (tg_files (snd (vmlinux_btf_dump E s)))"
      using vmlinux_btf_dump_takes [where E = E and s = s] by (auto simp: takes_btf_def split: outcome.splits)
  qed
  then show "p \<noteq> q \<Longrightarrow> keeps (\<lambda>s. has_file p c (tg_files s)) (get_builder_vmlinux E q)"
    unfolding get_builder_vmlinux_def by (intro keeps_and_do keeps_err_step keeps_generate) auto
qed

lemma keeps_vmlinux_builder: "p \<noteq> q \<Longrightarrow> keeps (module_at E p n b) (vmlinux_builder E q)"
  unfolding vmlinux_builder_def module_at_def by (auto intro!: keeps_and_do keeps_err_step keeps_get_builder_vmlinux)

lemma create_module_Ok: "create_module E p name body s = (Ok (), s') \<Longrightarrow> module_at E p name body s'"
  by (auto simp: create_module_def module_at_def and_do_eq_Ok on_store_def write_file_def checked_def write_open_def rustfmt_def
      split: prod.splits option.splits if_splits)

lemma vmlinux_builder_Ok:
  "vmlinux_builder E h s = (Ok b, s') \<longleftrightarrow> b = dumped_builder h \<and> get_builder_vmlinux (tg_of E) h s = (Ok h, s')"
  using get_builder_vmlinux_source [of "tg_of E" h s]
  by (auto simp: vmlinux_builder_def and_do_eq_Ok dumped_builder_def)


lemma run_bindgen_Ok: "run_bindgen E msg b s = (Ok raw, s') \<longleftrightarrow> s' = s \<and> be_bindgen E b (tg_files s) = Ok raw"
  by (auto simp: run_bindgen_def)

lemma distinct_outputs [simp]:
  "path_join od ''gen_bindings.rs'' \<noteq> path_join od ''gen_helpers.rs''"
  "path_join od ''gen_bindings.rs'' \<noteq> path_join od ''vmlinux_helpers.h''"
  by (auto dest!: path_join_inj)

lemma headers_bindings_from:
  assumes "generate_bindings_kernel_headers E s = (Ok (), s')"
  shows "\<exists>od. out_dir E = Some od \<and> bindings_from E od s' FromHeaders"
proof -
  obtain od b raw acc s1 raw2 hp where st: "out_dir E = Some od" "get_builder_kernel_headers E = Ok b"
    "be_bindgen E (headers_builder b) (tg_files s) = Ok raw" "read_accessors E raw accessor_types = Ok acc"
    "create_module E (path_join od ''gen_bindings.rs'') ''gen_bindings'' (raw @ probe_read_use @ acc) s = (Ok (), s1)"
    "be_bindgen E (headers_helpers b) (tg_files s1) = Ok raw2" "gen_helpers E raw2 = Ok hp"
    "create_module E (path_join od ''gen_helpers.rs'') ''gen_helpers'' hp s1 = (Ok (), s')"
    using assms unfolding generate_bindings_kernel_headers_def by (auto simp: and_do_eq_Ok run_bindgen_Ok unwrap_eq_Ok)
  have "module_at E (path_join od ''gen_bindings.rs'') ''gen_bindings'' (raw @ probe_read_use @ acc) s'"
    by (rule keeps_Ok [OF keeps_create_module [OF distinct_outputs(1)] create_module_Ok [OF st(5)] st(8)])
  then show ?thesis using st create_module_Ok [OF st(8)] unfolding bindings_from.simps by blast
qed

lemma vmlinux_bindings_from:
  assumes "generate_bindings_vmlinux E s = (Ok (), s')"
  shows "\<exists>od. out_dir E = Some od \<and> bindings_from E od s' FromVmlinux"
proof -
  obtain od s1 raw acc sup s2 s3 raw2 hp where st: "out_dir E = Some od"
    "get_builder_vmlinux (tg_of E) (path_join od ''vmlinux.h'') s = (Ok (path_join od ''vmlinux.h''), s1)"
    "be_bindgen E (vmlinux_types (dumped_builder (path_join od ''vmlinux.h''))) (tg_files s1) = Ok raw"
    "read_accessors E raw accessor_types = Ok acc" "be_bindgen E supplement_builder (tg_files s1) = Ok sup"
    "create_module E (path_join od ''gen_bindings.rs'') ''gen_bindings'' (raw @ probe_read_use @ acc @ sup) s1 = (Ok (), s2)"
    "vmlinux_builder E (path_join od ''vmlinux_helpers.h'') s2 = (Ok (dumped_builder (path_join od ''vmlinux_helpers.h'')), s3)"
    "be_bindgen E (vmlinux_helpers (dumped_builder (path_join od ''vmlinux_helpers.h''))) (tg_files s3) = Ok raw2" "gen_helpers E raw2 = Ok hp"
    "create_module E (path_join od ''gen_helpers.rs'') ''gen_helpers'' hp s3 = (Ok (), s')"
    using assms unfolding generate_bindings_vmlinux_def
    by (auto simp: and_do_eq_Ok run_bindgen_Ok unwrap_eq_Ok vmlinux_builder_Ok)
  have "module_at E (path_join od ''gen_bindings.rs'') ''gen_bindings'' (raw @ probe_read_use @ acc @ sup) s3"
    by (rule keeps_Ok [OF keeps_vmlinux_builder [OF distinct_outputs(2)] create_module_Ok [OF st(6)] st(7)])
  then have "module_at E (path_join od ''gen_bindings.rs'') ''gen_bindings'' (raw @ probe_read_use @ acc @ sup) s'"
    by (rule keeps_Ok [OF keeps_create_module [OF distinct_outputs(1)] _ st(10)])
  then show ?thesis using st create_module_Ok [OF st(10)] unfolding bindings_from.simps vmlinux_bindings_def vmlinux_builder_Ok by blast
qed

lemma unwrap_step_Ok [simp]: "unwrap_step m s = (Ok x, s') \<longleftrightarrow> m s = (Ok x, s')"
  by (auto simp: unwrap_step_def split: prod.splits outcome.splits)

lemma or_else_step_Ok:
  "or_else_step m f s = (Ok x, s') \<longleftrightarrow> m s = (Ok x, s') \<or> (\<exists>e s1. m s = (Err e, s1) \<and> f s1 = (Ok x, s'))"
  by (auto simp: or_else_step_def split: prod.splits outcome.splits)

lemma with_docs_rs_vars: "v \<noteq> ''KERNEL_SOURCE'' \<Longrightarrow> env_var (be_headers (with_docs_rs E)) v = env_var (be_headers E) v"
  by (auto simp: with_docs_rs_def set_custom_header_path_def split: list.splits)

text \<open>
  C26: when the build script ends well, the two modules it leaves, the types and the helpers, come
  from the same source, with the kernel headers of the same directories or the BTF of the
  kernel, whatever a failed attempt with the headers wrote before. The BTF is used exactly when
  its variable is set, or when neither headers nor a version are asked for and the attempt with
  the headers ended with an error.
\<close>

theorem bindings_of_one_source:
  assumes "bindings_main E s = (Ok (), s')"
  shows "\<exists>od src. out_dir E = Some od \<and> bindings_from (with_docs_rs E) od s' src \<and>
    (src = FromVmlinux \<longleftrightarrow> env_var (be_headers E) ''REDBPF_VMLINUX'' \<noteq> None \<or>
       (env_var (be_headers (with_docs_rs E)) ''KERNEL_SOURCE'' = None \<and> env_var (be_headers E) ''KERNEL_VERSION'' = None \<and>
        (\<exists>e s1. generate_bindings_kernel_headers (with_docs_rs E) s = (Err e, s1))))"
proof -
  let ?E = "with_docs_rs E"
  have vars: "out_dir ?E = out_dir E" "get_custom_vmlinux_path (tg_of ?E) = env_var (be_headers E) ''REDBPF_VMLINUX''"
    "get_custom_header_version (be_headers ?E) = env_var (be_headers E) ''KERNEL_VERSION''"
    by (simp_all add: out_dir_def get_custom_vmlinux_path_def tg_of_def get_custom_header_version_def with_docs_rs_vars)
  consider (vm) "env_var (be_headers E) ''REDBPF_VMLINUX'' \<noteq> None" "generate_bindings_vmlinux ?E s = (Ok (), s')"
    | (hd) "env_var (be_headers E) ''REDBPF_VMLINUX'' = None" "generate_bindings_kernel_headers ?E s = (Ok (), s')"
    | (fb) e s1 where "env_var (be_headers E) ''REDBPF_VMLINUX'' = None" "env_var (be_headers ?E) ''KERNEL_SOURCE'' = None"
      "env_var (be_headers E) ''KERNEL_VERSION'' = None"
      "generate_bindings_kernel_headers ?E s = (Err e, s1)" "generate_bindings_vmlinux ?E s1 = (Ok (), s')"
    using assms vars by (auto simp: bindings_main_def Let_def or_else_step_Ok get_custom_header_path_def split: if_splits)
  then show ?thesis
  proof cases
    case vm
    then show ?thesis using vmlinux_bindings_from [OF vm(2)] vars(1) by metis
  next
    case hd
    then show ?thesis using headers_bindings_from [OF hd(2)] vars(1) by (metis Pair_inject bind_source.distinct(1) outcome.distinct(1))
  next
    case fb
    then show ?thesis using vmlinux_bindings_from [OF fb(5)] vars(1) by metis
  qed
qed


text \<open>A system with the headers of a kernel.\<close>

definition demo_bind :: bind_env where
  "demo_bind =
     \<lparr>be_headers = \<lparr>is_file = \<lambda>p. p = ''/k/include/linux/kconfig.h'', env_var = [''OUT_DIR'' \<mapsto> ''/o'', ''KERNEL_SOURCE'' \<mapsto> ''/k''],
        he_uname = (-1, \<lparr>nodename = [0], release = [0], domainname = [0]\<rparr>)\<rparr>,
      be_arch = X86_64, be_cfg = \<lambda>_. False, be_globbed = [], be_tg = demo_tg,
      be_bindgen = \<lambda>b _. Ok (concat (b_headers b)), be_syn = \<lambda>_. Some ([], []), be_fuel = 1,
      be_show_getters = \<lambda>_. [], be_show_helper = \<lambda>_. [], be_rustfmt = \<lambda>b. b\<rparr>"

definition demo_start :: tg_state where
  "demo_start = \<lparr>tg_files = [], tg_calls = [], tg_owned = []\<rparr>"

lemma demo_headers: "\<exists>b. get_builder_kernel_headers demo_bind = Ok b"
proof -
  have "is_Ok (get_builder_kernel_headers demo_bind)" by code_simp
  then show ?thesis by (cases "get_builder_kernel_headers demo_bind") auto
qed

lemma demo_texts: "read_accessors demo_bind raw accessor_types = Ok []" "\<exists>hp. gen_helpers demo_bind raw = Ok hp"
  by (simp_all add: read_accessors_def gen_helpers_def demo_bind_def generate_read_accessors_def)

lemma demo_create_module:
  "map_of (tg_files s) p \<noteq> Some Dir \<Longrightarrow> \<exists>s'. create_module demo_bind p name body s = (Ok (), s') \<and> (\<forall>q. map_of (tg_files s) q \<noteq> Some Dir \<longrightarrow> map_of (tg_files s') q \<noteq> Some Dir)"
  by (auto simp: create_module_def and_do_def on_store_def write_file_def checked_def write_open_def rustfmt_def demo_bind_def demo_tg_def)

lemma demo_run_headers: "\<exists>s'. generate_bindings_kernel_headers demo_bind demo_start = (Ok (), s')"
proof -
  obtain b where b: "get_builder_kernel_headers demo_bind = Ok b" using demo_headers by blast
  let ?raw = "concat (b_headers (headers_builder b))" and ?raw2 = "concat (b_headers (headers_helpers b))"
  obtain hp where hp: "gen_helpers demo_bind ?raw2 = Ok hp" using demo_texts(2) by blast
  obtain s1 where s1: "create_module demo_bind (path_join ''/o'' ''gen_bindings.rs'') ''gen_bindings'' (?raw @ probe_read_use @ []) demo_start = (Ok (), s1)"
    and nd: "map_of (tg_files s1) (path_join ''/o'' ''gen_helpers.rs'') \<noteq> Some Dir"
    using demo_create_module [of demo_start "path_join ''/o'' ''gen_bindings.rs''"] by (fastforce simp: demo_start_def)
  obtain s2 where s2: "create_module demo_bind (path_join ''/o'' ''gen_helpers.rs'') ''gen_helpers'' hp s1 = (Ok (), s2)"
    using demo_create_module [OF nd] by blast
  have od: "out_dir demo_bind = Some ''/o''" and bg: "be_bindgen demo_bind = (\<lambda>b _. Ok (concat (b_headers b)))"
    by (simp_all add: out_dir_def demo_bind_def)
  show ?thesis
    unfolding generate_bindings_kernel_headers_def
    by (intro exI [of _ s2], unfold and_do_eq_Ok) (use b hp s1 s2 od bg demo_texts(1) in \<open>auto simp: run_bindgen_Ok unwrap_eq_Ok\<close>)
qed

theorem bindings_of_one_source_witness:
  "\<exists>od. out_dir demo_bind = Some od \<and> bindings_from (with_docs_rs demo_bind) od (snd (bindings_main demo_bind demo_start)) FromHeaders"
proof -
  have "\<exists>s'. bindings_main demo_bind demo_start = (Ok (), s')"
    using demo_run_headers
    by (simp add: bindings_main_def Let_def with_docs_rs_def get_custom_vmlinux_path_def tg_of_def get_custom_header_path_def demo_bind_def)
  then obtain s' where s': "bindings_main demo_bind demo_start = (Ok (), s')" by blast
  obtain od src where "out_dir demo_bind = Some od" "bindings_from (with_docs_rs demo_bind) od s' src" "src \<noteq> FromVmlinux"
    using bindings_of_one_source [OF s'] by (auto simp: with_docs_rs_def demo_bind_def)
  then show ?thesis using s' by (cases src) simp_all
qed

end
