(* ===== verification/Cargo_Main.thy ===== *)
theory Cargo_Main
  imports Cargo_Package Cargo_Load Build_Bindings
begin

text \<open>
  The command line of \<open>cargo bpf\<close>, \<open>cargo-bpf/src/main.rs\<close>: what every command calls with which
  arguments. The parser \<open>clap\<close> is a parameter through what it found; that it knows only
  the arguments a command declares is a hypothesis of the lemma about names.
\<close>

section \<open>Arguments\<close>

text \<open>The command that was given and the values of every argument that is present, by its identifier.\<close>

record arg_matches =
  am_command :: string
  am_args :: "(string \<times> string list) list"

definition values_of :: "arg_matches \<Rightarrow> string \<Rightarrow> string list option" where
  "values_of m name = map_of (am_args m) name"

definition value_of :: "arg_matches \<Rightarrow> string \<Rightarrow> string option" where
  "value_of m name = (case values_of m name of Some (v # _) \<Rightarrow> Some v | _ \<Rightarrow> None)"

definition is_present :: "arg_matches \<Rightarrow> string \<Rightarrow> bool" where
  "is_present m name \<longleftrightarrow> values_of m name \<noteq> None"

text \<open>What the commands declare: the identifiers of the arguments and whether each is required.\<close>

definition declared_args :: "(string \<times> (string \<times> bool) list) list" where
  "declared_args =
     [(''new'', [(''name'', False), (''PATH'', True)]),
      (''add'', [(''NAME'', True)]),
      (''bindgen'', [(''HEADER'', True), (''BINDGEN_ARGS'', False)]),
      (''build'', [(''TARGET_DIR'', False), (''FORCE_LOOP_UNROLL'', False), (''NAME'', False)]),
      (''load'', [(''INTERFACE'', False), (''UPROBE_PATH'', False), (''PID'', False), (''PROGRAM'', True)])]"

text \<open>What \<open>clap\<close> promises: a declared command, with declared arguments only and every required one with a value.\<close>

definition parsed :: "arg_matches \<Rightarrow> bool" where
  "parsed m \<longleftrightarrow>
     (\<exists>ds. map_of declared_args (am_command m) = Some ds \<and>
        list_all (\<lambda>(a, _). a \<in> set (map fst ds)) (am_args m) \<and>
        list_all (\<lambda>(a, req). req \<longrightarrow> value_of m a \<noteq> None) ds)"

section \<open>The commands\<close>

datatype cli_error = CliText string | CliBuild build_error | CliLoad load_error

record ('v, 't) cli_env =
  cl_refuse :: refusals
  cl_toml :: "'t toml_api"
  cl_texts :: add_texts
  cl_builds :: "bool \<Rightarrow> 'v build_env"
  cl_bind :: bind_env
  cl_bindgen :: bindgen_cmd
  cl_kernel :: kernel
  cl_objects :: env
  cl_registers :: "RawFd \<Rightarrow> bool"
  cl_cache :: "(CacheError, CacheEntry list) outcome"
  cl_current_dir :: "string option"

record cli_state =
  cs_files :: store
  cs_calls :: history
  cs_printed :: string
  cs_loaded :: "Loaded option"

type_synonym cli_step = "(cli_state, cli_error, unit) step"

definition with_files :: "('e \<Rightarrow> cli_error) \<Rightarrow> (store, 'e, 'a) step \<Rightarrow> cli_step" where
  "with_files f m s = (case m (cs_files s) of (r, fs) \<Rightarrow> (and_then (map_err f r) (\<lambda>_. Ok ()), s\<lparr>cs_files := fs\<rparr>))"

definition default_options :: "('v, 't) cli_env \<Rightarrow> ('e, BuildOptions) outcome" where
  "default_options E = and_then (unwrap (cl_current_dir E)) (\<lambda>d. Ok \<lparr>bo_target_dir = path_join d ''target'', bo_force_loop_unroll = False\<rparr>)"

definition cmd_build :: "('v, 't) cli_env \<Rightarrow> string list \<Rightarrow> BuildOptions \<Rightarrow> cli_step" where
  "cmd_build E programs buildopt =
     and_do (give (unwrap (cl_current_dir E))) (\<lambda>d.
       with_files CliBuild (build (cl_builds E) (cl_toml E) ''cargo'' d programs buildopt))"

definition new_command :: "('v, 't) cli_env \<Rightarrow> arg_matches \<Rightarrow> cli_step" where
  "new_command E m =
     and_do (give (unwrap (value_of m ''PATH''))) (\<lambda>path.
       with_files CliText (cargo_new (cl_refuse E) (io_text (cl_texts E)) path (value_of m ''NAME'')))"

definition add_command :: "('v, 't) cli_env \<Rightarrow> arg_matches \<Rightarrow> cli_step" where
  "add_command E m =
     and_do (give (unwrap (value_of m ''NAME''))) (\<lambda>name.
       with_files CliText (new_program (cl_refuse E) (cl_toml E) (cl_texts E) name))"

definition bindgen_command :: "('v, 't) cli_env \<Rightarrow> arg_matches \<Rightarrow> cli_step" where
  "bindgen_command E m =
     and_do (give (unwrap (value_of m ''HEADER''))) (\<lambda>header s.
       let extra_args = (case values_of m ''BINDGEN_ARGS'' of Some as \<Rightarrow> as | None \<Rightarrow> [])
       in and_do (give (map_err CliText (cmd_bindgen (cl_bind E) (cl_bindgen E) header extra_args (cs_files s))))
            (\<lambda>p s. (Ok (), s\<lparr>cs_printed := cs_printed s @ p\<rparr>)) s)"

definition build_command :: "('v, 't) cli_env \<Rightarrow> arg_matches \<Rightarrow> cli_step" where
  "build_command E m =
     and_do (give (default_options E)) (\<lambda>opt.
       let opt = (case value_of m ''TARGET_DIR'' of Some v \<Rightarrow> opt\<lparr>bo_target_dir := v\<rparr> | None \<Rightarrow> opt);
           opt = opt\<lparr>bo_force_loop_unroll := is_present m ''FORCE_LOOP_UNROLL''\<rparr>;
           programs = (case values_of m ''NAME'' of Some ns \<Rightarrow> ns | None \<Rightarrow> [])
       in cmd_build E programs opt)"

definition load_command :: "('v, 't) cli_env \<Rightarrow> arg_matches \<Rightarrow> cli_step" where
  "load_command E m =
     and_do (give (unwrap (value_of m ''PROGRAM''))) (\<lambda>program.
     and_do (give (case value_of m ''PID'' of None \<Rightarrow> Ok None | Some p \<Rightarrow> and_then (unwrap (parse_i32 p)) (\<lambda>pid. Ok (Some pid)))) (\<lambda>pid s.
       case cargo_load (cl_kernel E) (cl_objects E) (cl_registers E) (cl_cache E) program
              (value_of m ''INTERFACE'') (value_of m ''UPROBE_PATH'') pid (cs_calls s) of
         (Ok ld, h) \<Rightarrow> (Ok (), s\<lparr>cs_calls := h, cs_loaded := Some ld\<rparr>)
       | (Err e, h) \<Rightarrow> (Err (CliLoad e), s\<lparr>cs_calls := h\<rparr>)
       | (Panic, h) \<Rightarrow> (Panic, s\<lparr>cs_calls := h\<rparr>)
       | (Undefined, h) \<Rightarrow> (Undefined, s\<lparr>cs_calls := h\<rparr>)))"

text \<open>\<open>main\<close>: one test after the other. An error ends the process with its text.\<close>

definition on_command :: "arg_matches \<Rightarrow> string \<Rightarrow> cli_step \<Rightarrow> cli_step" where
  "on_command m name f = (if am_command m = name then f else give (Ok ()))"

definition cargo_main :: "('v, 't) cli_env \<Rightarrow> arg_matches \<Rightarrow> cli_step" where
  "cargo_main E m =
     and_do (on_command m ''new'' (new_command E m)) (\<lambda>_.
     and_do (on_command m ''add'' (add_command E m)) (\<lambda>_.
     and_do (on_command m ''bindgen'' (bindgen_command E m)) (\<lambda>_.
     and_do (on_command m ''build'' (build_command E m)) (\<lambda>_.
     on_command m ''load'' (load_command E m)))))"

section \<open>What a command does\<close>

lemma and_do_give_Ok [simp]: "and_do m (\<lambda>_. give (Ok ())) = m"
  by (auto simp: and_do_def give_def fun_eq_iff split: prod.splits outcome.splits)

lemma parsed_value: "parsed m \<Longrightarrow> (c, ds) \<in> set declared_args \<Longrightarrow> am_command m = c \<Longrightarrow> (a, True) \<in> set ds \<Longrightarrow> \<exists>v. value_of m a = Some v"
  by (auto simp: parsed_def declared_args_def)

lemma undeclared: "parsed m \<Longrightarrow> map_of declared_args (am_command m) = Some ds \<Longrightarrow> a \<notin> set (map fst ds) \<Longrightarrow> value_of m a = None"
  by (auto simp: parsed_def value_of_def values_of_def list_all_iff split: option.splits list.splits dest!: map_of_SomeD)

text \<open>The name given to \<open>new\<close> never reaches the package: it is stored as \<open>name\<close> and looked up as \<open>NAME\<close>.\<close>

lemma new_ignores_name:
  assumes "parsed m" "am_command m = ''new''"
  shows "\<exists>path. value_of m ''PATH'' = Some path \<and>
    cargo_main E m = with_files CliText (cargo_new (cl_refuse E) (io_text (cl_texts E)) path None)"
proof -
  obtain path where "value_of m ''PATH'' = Some path" using parsed_value [OF assms(1), of "''new''" _ "''PATH''"] assms(2)
    by (auto simp: declared_args_def)
  moreover have "value_of m ''NAME'' = None" using undeclared [OF assms(1), of "[(''name'', False), (''PATH'', True)]" "''NAME''"] assms(2) by (simp add: declared_args_def)
  ultimately show ?thesis using assms(2) by (simp add: cargo_main_def on_command_def new_command_def)
qed

text \<open>The programs to build, with the options of the command line or else the defaults.\<close>

lemma build_from_command_line:
  assumes "am_command m = ''build''" "cl_current_dir E = Some d"
  shows "cargo_main E m = with_files CliBuild (build (cl_builds E) (cl_toml E) ''cargo'' d
    (case values_of m ''NAME'' of Some ns \<Rightarrow> ns | None \<Rightarrow> [])
    \<lparr>bo_target_dir = (case value_of m ''TARGET_DIR'' of Some v \<Rightarrow> v | None \<Rightarrow> path_join d ''target''),
     bo_force_loop_unroll = is_present m ''FORCE_LOOP_UNROLL''\<rparr>)"
  using assms by (simp add: cargo_main_def on_command_def build_command_def cmd_build_def default_options_def Let_def split: option.splits)

lemma load_bad_pid:
  assumes "parsed m" "am_command m = ''load''" "value_of m ''PID'' = Some p" "parse_i32 p = None"
  shows "cargo_main E m s = (Panic, s)"
proof -
  obtain prog where "value_of m ''PROGRAM'' = Some prog" using parsed_value [OF assms(1), of "''load''" _ "''PROGRAM''"] assms(2)
    by (auto simp: declared_args_def)
  then show ?thesis using assms by (simp add: cargo_main_def on_command_def load_command_def)
qed

end
