(* ===== verification/Spec2Isabelle.thy ===== *)
theory Spec2Isabelle
  imports Example_P0f Example_Lifetime Example_Trace Cargo_Main
begin

text \<open>
  A verification of RedBPF, a Rust toolkit to build, load and talk to BPF programs.

  \<^bold>\<open>The program.\<close> A BPF program is written with the crates \<open>redbpf-probes\<close> and
  \<open>redbpf-macros\<close>, which give it its ELF sections, its maps and its access to packets. In
  user space \<open>redbpf\<close> parses the object file (\<open>ModuleBuilder\<close>), repairs and loads its BTF,
  creates its maps, relocates its instructions, loads and attaches its programs, reads and
  writes its maps, and receives its events from perf rings (\<open>Loader\<close>). \<open>bpf-sys\<close> finds the
  kernel's version and headers. \<open>cargo-bpf\<close> makes packages and programs, compiles them with
  \<open>rustc\<close> and LLVM into object files and loads these. The kernel is the other party of
  everything. Tools and examples use all of it.

  \<^bold>\<open>Conventions.\<close> The result of a Rust function is an \<open>outcome\<close>: \<open>Ok\<close>, \<open>Err\<close>, \<open>Panic\<close> or
  \<open>Undefined\<close>; a slice out of range, an \<open>unwrap\<close> of nothing and an overflowing operation are
  panics, a read through a bad pointer is undefined (\<open>Prelude\<close>). Integers are words of
  their width. Strings are lists of bytes, valid UTF-8 where Rust requires it (\<open>Text\<close>).
  Everything asked of the operating system is a \<open>syscall\<close>; the kernel is an argument that
  answers a call from the history of calls before it, so a theorem without a hypothesis
  about it holds for every kernel (\<open>Kernel\<close>). \<open>HashMap\<close>s are association lists, and no
  theorem depends on their order unless it says so.

  \<^bold>\<open>The theories, in the order of imports.\<close>

  \<^item> \<open>Prelude\<close>, \<open>Bytes\<close>, \<open>Text\<close>, \<open>Errors\<close>: the shared vocabulary; the locale \<open>byte_codec\<close>, the
    contract of a fixed-size encoding, interpreted for the integers and, later, for every
    C structure that the code reads or writes; \<open>redbpf/src/error.rs\<close>.

  \<^item> \<open>Btf_Types\<close>, \<open>Btf_Names\<close>, \<open>Btf_Parse\<close>, \<open>Btf_Filter\<close>, \<open>Btf_Elf\<close>: \<open>redbpf/src/btf.rs\<close>. A dumped
    section parses back to the same types and the reverse; every type that is parsed has a
    name the kernel accepts; \<open>filter\<close> drops exactly the types from which a rejected type is
    reachable and renumbers the others consistently, unless the strings lie before the types
    and the offset of the strings overflows; \<open>tc_legacy_fix_btf_section\<close> is correct for
    sections with the usual header; data sections get the sizes and offsets of the object file.

  \<^item> \<open>Cpus\<close>, \<open>Uname\<close>, \<open>Kernel_Headers\<close>: \<open>redbpf/src/cpus.rs\<close>, \<open>bpf-sys/src/uname.rs\<close>,
    \<open>bpf-sys/src/headers.rs\<close>. Lists and versions are read back as they are printed, and the
    headers are the first candidate in the order of preference.

  \<^item> \<open>Kernel\<close>, \<open>Fd_Logic\<close>: the system calls, and triples \<open>fds B m F E\<close> that account for file
    descriptors. Their rules carry the proofs that nothing leaks and nothing is closed
    twice.

  \<^item> \<open>Perf_Ring\<close>, \<open>Perf_Events\<close>: \<open>redbpf/src/perf.rs\<close> and \<open>redbpf/src/load/map_io.rs\<close>. Reading
    the ring refines taking records off a queue, also around the end of the ring; binding
    and dropping a perf map.

  \<^item> \<open>Maps\<close>, \<open>Map_Access\<close>: \<open>Map\<close>, \<open>MapBuilder\<close> and the typed views of \<open>redbpf/src/lib.rs\<close> and
    \<open>redbpf/src/xdp.rs\<close>. What \<open>bpf(2)\<close> promises about reading a map is the locale
    \<open>bpf_map_reads\<close>, which also holds of maps that evict entries; \<open>bpf_map_cmds\<close> extends it by
    what updates and deletions do to it. The trait \<open>MapIterable\<close> is the locale
    \<open>map_iterable\<close>, which the hash maps implement from \<open>bpf_map_reads\<close> (\<open>sublocale\<close>). A reference
    kernel implements both, and a kernel that evicts the oldest entry implements the first.
    Pinning looks at the closest directory that exists.

  \<^item> \<open>Symbols\<close>, \<open>Programs\<close>, \<open>Program_Life\<close>: \<open>redbpf/src/symbols.rs\<close>, and loading, attaching,
    detaching and dropping of every kind of program. \<open>prog_step\<close> is the transition relation
    of the method calls of a program; its invariant is that the descriptors that are open are
    those the program holds, those handed to the caller and the perf events of trace
    points, which are never closed.

  \<^item> \<open>Modules\<close>, \<open>Module_Facts\<close>, \<open>Module_Props\<close>, \<open>Loader\<close>: \<open>Module\<close>, \<open>ModuleBuilder\<close>,
    \<open>RelocationInfo\<close> and \<open>redbpf/src/load/loader.rs\<close>, the composition of all of the above from
    the bytes of an object file to the tasks that deliver its events.

  \<^item> \<open>Probe_Net\<close>, \<open>Probe_Maps\<close>, \<open>Probe_Macros\<close>, \<open>Probe_Pairs\<close>: the side of the BPF program,
    \<open>redbpf-probes/src\<close> (\<open>net.rs\<close>, \<open>maps.rs\<close>, \<open>socket.rs\<close>, \<open>xdp\<close>, \<open>tc\<close>) and
    \<open>redbpf-macros/src/lib.rs\<close>. Packets are never read outside their bounds; what the macros
    and maps declare is what user space recognises; payloads of XDP events arrive; the
    generated pair of probes matches the innermost calls with their returns, as a stack of
    calls per thread says, under the contract \<open>kernel_hash_map\<close>;
    \<open>printk!\<close> accepts exactly the documented formats.

  \<^item> \<open>Steps\<close>, \<open>File_System\<close>: steps over a state that an early return keeps, and \<open>std::fs\<close> on a
    store of paths whose calls the system may refuse.

  \<^item> \<open>Cargo_Llvm\<close>, \<open>Cargo_Build\<close>, \<open>Cargo_Package\<close>, \<open>Cargo_Load\<close>: \<open>cargo-bpf/src\<close> (\<open>llvm.rs\<close>,
    \<open>build.rs\<close>, \<open>new.rs\<close>, \<open>new_program.rs\<close>, \<open>load.rs\<close>). The alignment check of map values
    finds exactly the maps into which references are taken; a build leaves the artifact of
    the bitcode of \<open>cargo\<close> or none, of one program and of a package, as long as the old
    artifacts can be removed; a program that was
    added is among those that are built; loading attaches every program and holds exactly
    its descriptors.

  \<^item> \<open>Type_Gen\<close>: \<open>bpf-sys/src/type_gen.rs\<close>, the C header with the types of the kernel. The state
    holds the values that variables own; they are moved, forgotten and, at the end of a
    scope (\<open>in_scope\<close>), dropped. Every resource is released once, in the reverse order of
    taking it, and the header holds the
    dumps of exactly the types of the allowlist.

  \<^item> \<open>Bindings\<close>: the generation of read accessors (\<open>cargo-bpf/src/accessors.rs\<close>) and of the
    helpers with their numbers (\<open>redbpf-probes/build.rs\<close>). Every field that can be reached has
    its getter, and no other.

  \<^item> \<open>Build_Bindings\<close>, \<open>Cargo_Main\<close>: the script \<open>redbpf-probes/build.rs\<close> with the builders and flags of
    \<open>cargo-bpf/src/bindgen.rs\<close> and \<open>build_constants.rs\<close>, and \<open>cargo-bpf/src/main.rs\<close>, which calls
    all commands. The types and helpers of the probes come from one source, also after
    a failed attempt with the other.

  \<^item> \<open>Tool_Knock\<close>, \<open>Tool_Iotop\<close>, \<open>Example_P0f\<close>: the BPF programs and options of
    \<open>redbpf-tcp-knock\<close>, \<open>redbpf-iotop\<close> and the example \<open>p0f\<close>, on top of the theories of the
    probes. The port is open exactly to the peers that knocked; the counters are the totals
    of the completed requests; packets are read inside their bounds.

  \<^item> \<open>Example_Tc\<close>, \<open>Example_Lifetime\<close>, \<open>Example_Trace\<close>: the examples \<open>tc_map_share\<close>, \<open>tcp_lifetime\<close>, and
    the tracing examples \<open>biolatpcts\<close>, \<open>hashmaps\<close>, \<open>vfsreadlat\<close>, \<open>mallocstacks\<close>, \<open>bounded_loop\<close> and
    \<open>echo\<close>. Packets to blocked ports are dropped and counted; every connection that ends is
    reported, with its duration if the memory of a deleted entry, which is read, keeps its value;
    histograms and counts are those of the events.

  \<^bold>\<open>Loops and fuel.\<close> Recursion over lists is structural; \<open>parse_types_loop\<close>, \<open>remove_loop\<close>
  and \<open>load_log_loop\<close> have termination proofs. Two loops depend on the kernel to end and take
  fuel: \<open>read_messages\<close>, where more fuel than records in the ring is shown to be enough,
  and the iteration over a map, where more fuel than entries is. The visitor of \<open>Bindings\<close>
  enters the types of members, which could contain each other; it takes fuel, and as much as
  the depth of nesting is shown to be enough.

  \<^bold>\<open>Parameters.\<close> The ELF parser \<open>goblin\<close> and the readers of \<open>zero\<close> (results are arguments),
  the layout of the kernel's packet headers, the helpers a BPF program calls, readiness in
  \<open>tokio\<close>, \<open>make\<close>, \<open>glob\<close>, \<open>cargo\<close>, the values and modules of LLVM, \<open>toml_edit\<close> and the
  tables it parses, \<open>syn\<close> (a file is its list of items), \<open>getopts\<close>, \<open>clap\<close>, \<open>bindgen\<close>, \<open>rustfmt\<close>,
  \<open>libbpf\<close>, \<open>regex\<close>. Where a theorem needs a promise of theirs, it is a hypothesis
  and the theorem's witness instantiates it.

  \<^bold>\<open>Not modelled.\<close> Log and screen output; the generated bindings \<open>redbpf/src/sys/perf.rs\<close>; the accessors
  of registers and contexts, which read generated structures; the calls that configure
  LLVM's passes (the end of \<open>llvm.rs\<close>); \<open>build_c.rs\<close>, whose feature does not compile; the scripts
  that build \<open>libbpf\<close> and the examples; the user side of the examples where it only
  prints, among it the percentiles of \<open>biolatpcts.rs\<close>, which are computed in floating point.
  Concurrent writes of the kernel into the ring during one \<open>read\<close> are reduced to one
  state per call.
\<close>

end
